(* ===== verification/Prelude.thy ===== *)
theory Prelude
  imports Main "HOL-Library.AList" "HOL-Library.Word" "HOL-Library.Signed_Division"
begin

text \<open>
  What the component theories share: Go's 64-bit integers (kept as \<open>int\<close> with the
  wrap-around written out, and related to \<open>64 word\<close>), errors as values, Go maps as
  association lists, and the string functions of the standard library the sources call.

  A Go map is an association list with distinct keys. The order of the list stands for the
  order in which \<open>range\<close> visits the map, which Go leaves open: theorems are stated for
  every list, so for every order.
\<close>

named_theorems go_int \<open>range facts and wrap-around of 64-bit integers\<close>
named_theorems go_map \<open>lookups in maps after updates\<close>
named_theorems go_res \<open>inversion of operations that return an error or a value\<close>

section \<open>Integers\<close>

definition MaxInt64 :: int where
  "MaxInt64 = 2 ^ 63 - 1"

definition MinInt64 :: int where
  "MinInt64 = - (2 ^ 63)"

definition is_i64 :: "int \<Rightarrow> bool" where
  "is_i64 x \<longleftrightarrow> MinInt64 \<le> x \<and> x \<le> MaxInt64"

definition wrap64 :: "int \<Rightarrow> int" where
  "wrap64 x = (x + 2 ^ 63) mod 2 ^ 64 - 2 ^ 63"

definition i64_add :: "int \<Rightarrow> int \<Rightarrow> int" where
  "i64_add a b = wrap64 (a + b)"

definition i64_sub :: "int \<Rightarrow> int \<Rightarrow> int" where
  "i64_sub a b = wrap64 (a - b)"

definition i64_mul :: "int \<Rightarrow> int \<Rightarrow> int" where
  "i64_mul a b = wrap64 (a * b)"

text \<open>Go's integer quotient truncates towards zero; the divisor is never 0 where it is used.\<close>

definition i64_quo :: "int \<Rightarrow> int \<Rightarrow> int" where
  "i64_quo a b = wrap64 (a sdiv b)"

lemma wrap64_word: "wrap64 x = sint (word_of_int x :: 64 word)"
proof -
  have "signed_take_bit 63 x = (x + 2 ^ 63) mod 2 ^ 64 - 2 ^ 63"
    by (simp add: signed_take_bit_eq_take_bit_shift take_bit_eq_mod)
  then show ?thesis
    by (simp add: wrap64_def sint_sbintrunc')
qed

lemma wrap64_id [go_int]: "is_i64 x \<Longrightarrow> wrap64 x = x"
  by (simp add: wrap64_def is_i64_def MaxInt64_def MinInt64_def)

lemma is_i64_wrap64 [simp]: "is_i64 (wrap64 x)"
proof -
  have "0 \<le> (x + 2 ^ 63) mod 2 ^ 64" "(x + 2 ^ 63) mod 2 ^ 64 < 2 ^ 64"
    by (simp_all add: pos_mod_bound)
  then show ?thesis
    by (simp add: wrap64_def is_i64_def MaxInt64_def MinInt64_def)
qed

lemma wrap64_eq_0_iff:
  assumes "\<bar>x\<bar> < 2 ^ 64"
  shows "wrap64 x = 0 \<longleftrightarrow> x = 0"
proof
  assume "wrap64 x = 0"
  then have "(x + 2 ^ 63) mod 2 ^ 64 = 2 ^ 63 mod 2 ^ 64"
    by (simp add: wrap64_def)
  then have "2 ^ 64 dvd x"
    unfolding mod_eq_dvd_iff by simp
  then show "x = 0"
    using assms dvd_imp_le_int by fastforce
qed (simp add: wrap64_def)

lemma i64_add_id [go_int]: "is_i64 (a + b) \<Longrightarrow> i64_add a b = a + b"
  by (simp add: i64_add_def wrap64_id)

lemma i64_sub_id [go_int]: "is_i64 (a - b) \<Longrightarrow> i64_sub a b = a - b"
  by (simp add: i64_sub_def wrap64_id)

lemma i64_mul_id [go_int]: "is_i64 (a * b) \<Longrightarrow> i64_mul a b = a * b"
  by (simp add: i64_mul_def wrap64_id)

lemma i64_quo_nonneg [go_int]:
  assumes "0 \<le> a" "a \<le> MaxInt64" "0 < b"
  shows "i64_quo a b = a div b"
proof -
  have q: "a sdiv b = a div b"
    using assms by (cases "a = 0") (simp_all add: signed_divide_int_def)
  have "0 \<le> a div b"
    using assms by (simp add: pos_imp_zdiv_nonneg_iff)
  moreover have "a div b \<le> a"
    using assms int_div_less_self [of a b] by (cases "a = 0"; cases "b = 1") auto
  ultimately have "0 \<le> a div b" "a div b \<le> a" by simp_all
  then have "is_i64 (a div b)"
    using assms by (simp add: is_i64_def MinInt64_def MaxInt64_def)
  then show ?thesis by (simp add: i64_quo_def q wrap64_id)
qed

section \<open>Errors as values\<close>

text \<open>
  An error carries its message; \<open>Wrap\<close> is \<open>fmt.Errorf\<close> with \<open>%w\<close>, and \<open>Panic\<close> a
  run-time panic (a nil dereference) that the code does not recover from.
\<close>

datatype goerr = Errorf string | Wrap string goerr | External string | Panic string

type_synonym 'a result = "goerr + 'a"

definition res_bind :: "'a result \<Rightarrow> ('a \<Rightarrow> 'b result) \<Rightarrow> 'b result" where
  "res_bind r f = (case r of Inl e \<Rightarrow> Inl e | Inr x \<Rightarrow> f x)"

definition isErr :: "'a result \<Rightarrow> bool" where
  "isErr r \<longleftrightarrow> (case r of Inl _ \<Rightarrow> True | Inr _ \<Rightarrow> False)"

lemma res_bind_simps [simp]:
  "res_bind (Inl e) f = Inl e"
  "res_bind (Inr x) f = f x"
  by (simp_all add: res_bind_def)

lemma isErr_simps [simp]: "isErr (Inl e)" "\<not> isErr (Inr x)"
  by (simp_all add: isErr_def)

lemma res_bind_Inr_iff [go_res]:
  "res_bind r f = Inr y \<longleftrightarrow> (\<exists>x. r = Inr x \<and> f x = Inr y)"
  by (cases r) auto

lemma res_bind_Inl_iff [go_res]:
  "res_bind r f = Inl e \<longleftrightarrow> r = Inl e \<or> (\<exists>x. r = Inr x \<and> f x = Inl e)"
  by (cases r) auto

text \<open>
  Calls with state: \<open>on_err m d k\<close> runs \<open>m\<close>; the caller's \<open>if err != nil { return d }\<close>
  returns \<open>d\<close> on an error, a panic is passed on, and a value goes to \<open>k\<close>. \<open>then_do\<close> passes
  the error on instead, as \<open>if err != nil { return err }\<close> does.
\<close>

type_synonym ('s, 'a) call = "'s \<Rightarrow> 'a result \<times> 's"

definition is_panic :: "goerr \<Rightarrow> bool" where
  "is_panic e \<longleftrightarrow> (case e of Panic _ \<Rightarrow> True | _ \<Rightarrow> False)"

definition on_err :: "('s, 'a) call \<Rightarrow> 'b \<Rightarrow> ('a \<Rightarrow> ('s, 'b) call) \<Rightarrow> ('s, 'b) call" where
  "on_err m d k s = (case m s of
     (Inl e, s') \<Rightarrow> if is_panic e then (Inl e, s') else (Inr d, s')
   | (Inr x, s') \<Rightarrow> k x s')"

definition then_do :: "('s, 'a) call \<Rightarrow> ('a \<Rightarrow> ('s, 'b) call) \<Rightarrow> ('s, 'b) call" where
  "then_do m k s = (case m s of (Inl e, s') \<Rightarrow> (Inl e, s') | (Inr x, s') \<Rightarrow> k x s')"

definition ret :: "'a \<Rightarrow> ('s, 'a) call" where
  "ret x s = (Inr x, s)"

definition fail :: "goerr \<Rightarrow> ('s, 'a) call" where
  "fail e s = (Inl e, s)"

lemma is_panic_simps [simp]:
  "\<not> is_panic (Errorf m)" "\<not> is_panic (Wrap m e)" "\<not> is_panic (External m)" "is_panic (Panic m)"
  by (simp_all add: is_panic_def)

lemma ret_simp [simp]: "ret x s = (Inr x, s)"
  by (simp add: ret_def)

lemma fail_simp [simp]: "fail e s = (Inl e, s)"
  by (simp add: fail_def)

text \<open>
  \<open>faults_only F P m\<close>: whatever the state, a panic of \<open>m\<close> satisfies \<open>F\<close> and a value it returns satisfies \<open>P\<close>.
  \<open>returns_or F P m\<close>: whatever the state, \<open>m\<close> returns a value that satisfies \<open>P\<close>, and no error, or panics in a way that satisfies \<open>F\<close>.
\<close>

definition faults_only :: "(goerr \<Rightarrow> bool) \<Rightarrow> ('a \<Rightarrow> bool) \<Rightarrow> ('s, 'a) call \<Rightarrow> bool" where
  "faults_only F P m \<longleftrightarrow> (\<forall>s. case fst (m s) of Inl e \<Rightarrow> is_panic e \<longrightarrow> F e | Inr x \<Rightarrow> P x)"

definition returns_or :: "(goerr \<Rightarrow> bool) \<Rightarrow> ('a \<Rightarrow> bool) \<Rightarrow> ('s, 'a) call \<Rightarrow> bool" where
  "returns_or F P m \<longleftrightarrow> (\<forall>s. case fst (m s) of Inl e \<Rightarrow> is_panic e \<and> F e | Inr x \<Rightarrow> P x)"

text \<open>The panics of a call itself.\<close>

definition panics :: "('s, 'a) call \<Rightarrow> goerr \<Rightarrow> bool" where
  "panics m e \<longleftrightarrow> is_panic e \<and> (\<exists>s. fst (m s) = Inl e)"

definition returns :: "('s, 'a) call \<Rightarrow> 'a \<Rightarrow> bool" where
  "returns m x \<longleftrightarrow> (\<exists>s. fst (m s) = Inr x)"

lemma faults_only_panics: "(\<And>e. panics m e \<Longrightarrow> F e) \<Longrightarrow> (\<And>x. returns m x \<Longrightarrow> P x) \<Longrightarrow> faults_only F P m"
  unfolding faults_only_def panics_def returns_def by (metis (no_types, lifting) sum.case_eq_if sum.collapse)

lemma faults_only_then_do:
  assumes "faults_only F Q m" "\<And>x. Q x \<Longrightarrow> faults_only F P (k x)"
  shows "faults_only F P (then_do m k)"
  unfolding faults_only_def
proof
  fix s
  obtain r s' where r: "m s = (r, s')" by (cases "m s")
  have "case r of Inl e \<Rightarrow> is_panic e \<longrightarrow> F e | Inr x \<Rightarrow> Q x" using assms(1) r by (metis faults_only_def fst_conv)
  then show "case fst (then_do m k s) of Inl e \<Rightarrow> is_panic e \<longrightarrow> F e | Inr x \<Rightarrow> P x"
    using assms(2) r by (cases r) (auto simp: then_do_def faults_only_def)
qed

lemma faults_only_simps [simp]: "faults_only F P (ret x) \<longleftrightarrow> P x" "faults_only F P (fail e) \<longleftrightarrow> (is_panic e \<longrightarrow> F e)"
  by (simp_all add: faults_only_def)

lemma faults_only_error: "faults_only F P m \<Longrightarrow> m s = (Inl e, s') \<Longrightarrow> is_panic e \<Longrightarrow> F e"
  unfolding faults_only_def by (metis fst_conv sum.case(1))

lemma returns_or_on_err:
  assumes "faults_only F Q m" "P d" "\<And>x. Q x \<Longrightarrow> returns_or F P (k x)"
  shows "returns_or F P (on_err m d k)"
  unfolding returns_or_def
proof
  fix s
  obtain r s' where r: "m s = (r, s')" by (cases "m s")
  have "case r of Inl e \<Rightarrow> is_panic e \<longrightarrow> F e | Inr x \<Rightarrow> Q x"
    using assms(1) r by (metis faults_only_def fst_conv)
  then show "case fst (on_err m d k s) of Inl e \<Rightarrow> is_panic e \<and> F e | Inr x \<Rightarrow> P x"
    using assms(2,3) r by (cases r) (auto simp: on_err_def returns_or_def)
qed

lemma returns_or_simps [simp]: "returns_or F P (ret x) \<longleftrightarrow> P x" "returns_or F P (fail e) \<longleftrightarrow> is_panic e \<and> F e"
  by (simp_all add: returns_or_def)

lemma returns_or_if: "(b \<Longrightarrow> returns_or F P m) \<Longrightarrow> (\<not> b \<Longrightarrow> returns_or F P n) \<Longrightarrow> returns_or F P (if b then m else n)"
  by simp

lemma returns_orD:
  "returns_or F P m \<Longrightarrow> (\<exists>x s'. m s = (Inr x, s') \<and> P x) \<or> (\<exists>e s'. m s = (Inl e, s') \<and> is_panic e \<and> F e)"
  unfolding returns_or_def by (cases "m s"; cases "fst (m s)") (metis fst_conv sum.case)+

section \<open>Maps\<close>

type_synonym ('k, 'v) gomap = "('k \<times> 'v) list"

abbreviation wf_map :: "('k, 'v) gomap \<Rightarrow> bool" where
  "wf_map m \<equiv> distinct (map fst m)"

text \<open>Reading a missing key gives the zero value of the element type.\<close>

definition get_or :: "'v \<Rightarrow> ('k, 'v) gomap \<Rightarrow> 'k \<Rightarrow> 'v" where
  "get_or z m k = (case map_of m k of None \<Rightarrow> z | Some v \<Rightarrow> v)"

lemma map_of_update [go_map, simp]:
  "map_of (AList.update k v m) k' = (if k' = k then Some v else map_of m k')"
  by (simp add: update_conv')

lemma map_of_delete [go_map, simp]:
  "map_of (AList.delete k m) k' = (if k' = k then None else map_of m k')"
  by (simp add: delete_conv')

lemma wf_map_update [simp, intro]: "wf_map m \<Longrightarrow> wf_map (AList.update k v m)"
  by (rule distinct_update)

lemma wf_map_delete [simp, intro]: "wf_map m \<Longrightarrow> wf_map (AList.delete k m)"
  by (rule distinct_delete)

lemma wf_map_mem_iff: "wf_map m \<Longrightarrow> (k, v) \<in> set m \<longleftrightarrow> map_of m k = Some v"
  by simp

lemma get_or_update [go_map, simp]:
  "get_or z (AList.update k v m) k' = (if k' = k then v else get_or z m k')"
  by (simp add: get_or_def)

lemma keys_update: "fst ` set (AList.update k v m) = insert k (fst ` set m)"
  by (induction m) auto

lemma set_update_subset: "set (AList.update k v m) \<subseteq> insert (k, v) (set m)"
  by (induction m) auto

lemma Ball_update: "\<forall>x\<in>set m. P x \<Longrightarrow> P (k, v) \<Longrightarrow> \<forall>x\<in>set (AList.update k v m). P x"
  using set_update_subset [of k v m] by blast

lemma Ball_delete: "\<forall>x\<in>set m. P x \<Longrightarrow> \<forall>x\<in>set (AList.delete k m). P x"
  by (simp add: AList.delete_eq)

text \<open>
  A loop that fills a map from a list, the last write winning: reading it back gives the
  value of the last element with that key.
\<close>

definition map_of_loop :: "('a \<Rightarrow> 'k) \<Rightarrow> ('a \<Rightarrow> 'v) \<Rightarrow> 'a list \<Rightarrow> ('k, 'v) gomap \<Rightarrow> ('k, 'v) gomap" where
  "map_of_loop key val xs m = fold (\<lambda>x. AList.update (key x) (val x)) xs m"

lemma map_of_loop_lookup:
  "map_of (map_of_loop key val xs m) k =
     (case filter (\<lambda>x. key x = k) xs of [] \<Rightarrow> map_of m k | _ \<Rightarrow> Some (val (last (filter (\<lambda>x. key x = k) xs))))"
proof (induction xs arbitrary: m)
  case Nil
  then show ?case by (simp add: map_of_loop_def)
next
  case (Cons x xs)
  have "map_of (map_of_loop key val (x # xs) m) k =
      map_of (map_of_loop key val xs (AList.update (key x) (val x) m)) k"
    by (simp add: map_of_loop_def)
  then show ?case
    by (simp add: Cons.IH split: list.split)
qed

lemma wf_map_of_loop: "wf_map m \<Longrightarrow> wf_map (map_of_loop key val xs m)"
  by (induction xs arbitrary: m) (simp_all add: map_of_loop_def)

lemma map_of_loop_distinct:
  assumes "distinct (map key xs)" "x \<in> set xs"
  shows "map_of (map_of_loop key val xs m) (key x) = Some (val x)"
proof -
  have "filter (\<lambda>y. key y = key x) xs = [x]"
    using assms by (induction xs) (auto simp: filter_empty_conv intro: rev_image_eqI)
  then show ?thesis by (simp add: map_of_loop_lookup)
qed

text \<open>Loops that add all entries of one map to another, or delete all its keys.\<close>

lemma wf_map_distinct: "wf_map m \<Longrightarrow> distinct m"
  by (simp add: distinct_map)

lemma keys_map_of: "k \<in> fst ` set m \<longleftrightarrow> map_of m k \<noteq> None"
  by (metis map_of_eq_None_iff)

lemma map_of_filter_keys: "map_of (filter (\<lambda>(k, _). P k) m) k = (if P k then map_of m k else None)"
  by (induction m) auto

lemma map_of_fold_update:
  assumes "wf_map other"
  shows "map_of (fold (\<lambda>(k, v). AList.update k v) other m) k =
    (case map_of other k of Some v \<Rightarrow> Some v | None \<Rightarrow> map_of m k)"
  using assms
proof (induction other arbitrary: m)
  case (Cons x other)
  obtain a b where x: "x = (a, b)" by (cases x)
  have "map_of other a = None" using Cons.prems x by (simp add: map_of_eq_None_iff)
  with Cons show ?case by (simp add: x split: option.split)
qed simp

lemma map_of_fold_delete:
  "map_of (fold (\<lambda>(k, _). AList.delete k) other m) k = (if map_of other k = None then map_of m k else None)"
  by (induction other arbitrary: m) (auto simp del: map_of_eq_None_iff)

lemma wf_map_fold_update: "wf_map m \<Longrightarrow> wf_map (fold (\<lambda>(k, v). AList.update k v) other m)"
  by (induction other arbitrary: m) auto

lemma wf_map_fold_delete: "wf_map m \<Longrightarrow> wf_map (fold (\<lambda>(k, _). AList.delete k) other m)"
  by (induction other arbitrary: m) auto

section \<open>Strings\<close>

text \<open>\<open>strings.Split\<close> with a separator of one character.\<close>

fun split_on :: "char \<Rightarrow> string \<Rightarrow> string list" where
  "split_on c [] = [[]]"
| "split_on c (x # xs) =
     (if x = c then [] # split_on c xs
      else (case split_on c xs of [] \<Rightarrow> [[x]] | w # ws \<Rightarrow> (x # w) # ws))"

lemma split_on_nonempty [simp]: "split_on c s \<noteq> []"
  by (induction s) (auto split: list.split)

lemma split_on_none: "c \<notin> set s \<Longrightarrow> split_on c s = [s]"
  by (induction s) auto

lemma split_on_append: "c \<notin> set s \<Longrightarrow> split_on c (s @ c # t) = s # split_on c t"
  by (induction s) auto

text \<open>\<open>strconv.Itoa\<close> and the verb \<open>%d\<close>.\<close>

fun nat_digits :: "nat \<Rightarrow> string" where
  "nat_digits n =
     (if n < 10 then [char_of (48 + n)] else nat_digits (n div 10) @ [char_of (48 + n mod 10)])"

declare nat_digits.simps [simp del]

definition Itoa :: "int \<Rightarrow> string" where
  "Itoa i = (if i < 0 then ''-'' @ nat_digits (nat (- i)) else nat_digits (nat i))"

section \<open>Lists\<close>

text \<open>The loops that look for a minimum start from a sentinel and keep the smaller value.\<close>

definition min_loop :: "int \<Rightarrow> int list \<Rightarrow> int" where
  "min_loop hi xs = fold (\<lambda>x m. if x < m then x else m) xs hi"

lemma min_loop_Min: "min_loop hi xs = Min (insert hi (set xs))"
proof (induction xs arbitrary: hi)
  case Nil
  then show ?case by (simp add: min_loop_def)
next
  case (Cons x xs)
  have "min_loop hi (x # xs) = min_loop (min x hi) xs"
    by (simp add: min_loop_def min_def not_less [symmetric])
  also have "\<dots> = Min (insert (min x hi) (set xs))"
    by (rule Cons.IH)
  also have "\<dots> = Min (insert hi (set (x # xs)))"
    by (cases "xs = []") (simp_all add: min.assoc min.commute min.left_commute)
  finally show ?case .
qed

lemma min_loop_le: "x \<in> set xs \<Longrightarrow> min_loop hi xs \<le> x"
  by (simp add: min_loop_Min)

lemma min_loop_in:
  assumes "xs \<noteq> []" "\<forall>x\<in>set xs. x \<le> hi"
  shows "min_loop hi xs \<in> set xs"
proof -
  obtain y where "y \<in> set xs" using assms(1) by (cases xs) auto
  have "Min (insert hi (set xs)) \<in> insert hi (set xs)"
    by (rule Min_in) simp_all
  moreover have "hi \<in> set xs" if "Min (insert hi (set xs)) = hi"
  proof -
    have "hi \<le> y" using that \<open>y \<in> set xs\<close> by (metis List.finite_set Min_le finite_insert insertI2)
    with assms(2) \<open>y \<in> set xs\<close> show ?thesis by (metis order_antisym)
  qed
  ultimately show ?thesis by (auto simp: min_loop_Min)
qed

lemma nth_list_update_if: "xs[i := x] ! j = (if i = j \<and> i < length xs then x else xs ! j)"
  by (cases "i < length xs") (auto simp: nth_list_update not_less list_update_beyond)

section \<open>Stores\<close>

text \<open>
  The contract of a key-value store: what a lookup returns after an insertion. The clients' lemmas
  on reading, changing and writing back an entry rest on it.
\<close>

locale kv_store =
  fixes get :: "'s \<Rightarrow> 'k \<Rightarrow> 'v option"
    and put :: "'k \<Rightarrow> 'v \<Rightarrow> 's \<Rightarrow> 's"
  assumes get_put: "get (put k v s) k' = (if k' = k then Some v else get s k')"
begin

lemma get_put_same [simp]: "get (put k v s) k = Some v"
  by (simp add: get_put)

lemma get_put_other [simp]: "k' \<noteq> k \<Longrightarrow> get (put k v s) k' = get s k'"
  by (simp add: get_put)

lemma put_put: "get (put k w (put k v s)) = get (put k w s)"
  by (simp add: get_put fun_eq_iff)

lemma put_swap: "k \<noteq> k' \<Longrightarrow> get (put k v (put k' w s)) = get (put k' w (put k v s))"
  by (auto simp: get_put fun_eq_iff)

lemma put_ext: "get s = get s' \<Longrightarrow> get (put k v s) = get (put k v s')"
  by (simp add: get_put fun_eq_iff)

end

end
