(* ===== verification/Float64.thy ===== *)
theory Float64
  imports Complex_Main "HOL-Library.Log_Nat" Prelude
begin

text \<open>
  Go's \<open>float64\<close> and \<open>float32\<close>: a finite value is the rational it denotes, every arithmetic
  operation is the exact operation on rationals followed by rounding to the nearest value of
  the format, ties to even, with the format's range of exponents and its subnormal numbers.
  The sign of a zero is not kept: no operation of the sources tells the two zeros apart.

  The locale \<open>rounding\<close> states what the properties rely on (monotone, exact on small
  integers); both formats interpret it.
\<close>

section \<open>Rounding to a binary format\<close>

text \<open>The exponent of the leading bit: \<open>2 ^ e \<le> x < 2 ^ (e + 1)\<close>.\<close>

definition ilog2 :: "rat \<Rightarrow> int" where
  "ilog2 x = (case quotient_of x of (n, d) \<Rightarrow>
     let e = bitlen n - bitlen d
     in if 2 powi e \<le> x then e else e - 1)"

text \<open>Round to the nearest integer, ties to the even one.\<close>

definition rne :: "rat \<Rightarrow> int" where
  "rne x = (let f = \<lfloor>x\<rfloor>; d = x - of_int f in
     if d < 1 / 2 then f else if d > 1 / 2 then f + 1 else if even f then f else f + 1)"

text \<open>The exponent of the unit in the last place, for \<open>p\<close> bits of precision.\<close>

definition ulp_exp :: "nat \<Rightarrow> int \<Rightarrow> rat \<Rightarrow> int" where
  "ulp_exp p emin x = max (ilog2 x - (int p - 1)) emin"

definition round_pos :: "nat \<Rightarrow> int \<Rightarrow> rat \<Rightarrow> rat" where
  "round_pos p emin x = (let u = 2 powi ulp_exp p emin x in of_int (rne (x / u)) * u)"

definition round_rat :: "nat \<Rightarrow> int \<Rightarrow> rat \<Rightarrow> rat" where
  "round_rat p emin x =
     (if x = 0 then 0 else if x < 0 then - round_pos p emin (- x) else round_pos p emin x)"

abbreviation round64 :: "rat \<Rightarrow> rat" where
  "round64 \<equiv> round_rat 53 (- 1074)"

abbreviation round32 :: "rat \<Rightarrow> rat" where
  "round32 \<equiv> round_rat 24 (- 149)"

section \<open>Values and operations\<close>

datatype f64 = NaN | PosInf | NegInf | Fin rat

definition f64_round :: "rat \<Rightarrow> f64" where
  "f64_round x = (let r = round64 x in
     if r \<noteq> 0 \<and> ilog2 \<bar>r\<bar> \<ge> 1024 then (if r > 0 then PosInf else NegInf) else Fin r)"

definition f64_of_int :: "int \<Rightarrow> f64" where
  "f64_of_int n = f64_round (of_int n)"

fun f64_neg :: "f64 \<Rightarrow> f64" where
  "f64_neg NaN = NaN"
| "f64_neg PosInf = NegInf"
| "f64_neg NegInf = PosInf"
| "f64_neg (Fin x) = Fin (- x)"

fun f64_add :: "f64 \<Rightarrow> f64 \<Rightarrow> f64" where
  "f64_add NaN y = NaN"
| "f64_add x NaN = NaN"
| "f64_add (Fin x) (Fin y) = f64_round (x + y)"
| "f64_add PosInf NegInf = NaN"
| "f64_add NegInf PosInf = NaN"
| "f64_add PosInf y = PosInf"
| "f64_add NegInf y = NegInf"
| "f64_add x PosInf = PosInf"
| "f64_add x NegInf = NegInf"

definition f64_sub :: "f64 \<Rightarrow> f64 \<Rightarrow> f64" where
  "f64_sub x y = f64_add x (f64_neg y)"

definition f64_inf_of :: "bool \<Rightarrow> f64" where
  "f64_inf_of pos = (if pos then PosInf else NegInf)"

fun f64_pos :: "f64 \<Rightarrow> bool" where
  "f64_pos PosInf = True"
| "f64_pos (Fin x) = (x > 0)"
| "f64_pos _ = False"

fun f64_mul :: "f64 \<Rightarrow> f64 \<Rightarrow> f64" where
  "f64_mul NaN y = NaN"
| "f64_mul x NaN = NaN"
| "f64_mul (Fin x) (Fin y) = f64_round (x * y)"
| "f64_mul x y =
     (if x = Fin 0 \<or> y = Fin 0 then NaN else f64_inf_of (f64_pos x = f64_pos y))"

text \<open>Division by zero gives an infinity, or NaN for 0/0; the divisors are never negative zeros.\<close>

fun f64_div :: "f64 \<Rightarrow> f64 \<Rightarrow> f64" where
  "f64_div NaN y = NaN"
| "f64_div x NaN = NaN"
| "f64_div (Fin x) (Fin y) =
     (if y = 0 then (if x = 0 then NaN else f64_inf_of (x > 0)) else f64_round (x / y))"
| "f64_div (Fin x) y = Fin 0"
| "f64_div x (Fin y) = f64_inf_of (f64_pos x = (y \<ge> 0))"
| "f64_div x y = NaN"

fun f64_lt :: "f64 \<Rightarrow> f64 \<Rightarrow> bool" where
  "f64_lt NaN y = False"
| "f64_lt x NaN = False"
| "f64_lt (Fin x) (Fin y) = (x < y)"
| "f64_lt NegInf y = (y \<noteq> NegInf)"
| "f64_lt x PosInf = (x \<noteq> PosInf)"
| "f64_lt x y = False"

definition f64_eq :: "f64 \<Rightarrow> f64 \<Rightarrow> bool" where
  "f64_eq x y \<longleftrightarrow> x = y \<and> x \<noteq> NaN"

text \<open>
  Conversion to a 64-bit integer drops the fraction. What a value out of range gives is left
  open by the language, so it is an argument.
\<close>

definition trunc_rat :: "rat \<Rightarrow> int" where
  "trunc_rat x = (if x < 0 then - \<lfloor>- x\<rfloor> else \<lfloor>x\<rfloor>)"

definition f64_to_int :: "(f64 \<Rightarrow> int) \<Rightarrow> f64 \<Rightarrow> int" where
  "f64_to_int oob x = (case x of
     Fin r \<Rightarrow> if is_i64 (trunc_rat r) then trunc_rat r else oob x
   | _ \<Rightarrow> oob x)"

text \<open>\<open>math.Round\<close>: to the nearest integer, halves away from zero.\<close>

definition round_away :: "rat \<Rightarrow> int" where
  "round_away x = (if x < 0 then - \<lfloor>- x + 1 / 2\<rfloor> else \<lfloor>x + 1 / 2\<rfloor>)"

fun f64_Round :: "f64 \<Rightarrow> f64" where
  "f64_Round (Fin x) = Fin (of_int (round_away x))"
| "f64_Round x = x"

datatype f32 = NaN32 | PosInf32 | NegInf32 | Fin32 rat

fun f32_of_f64 :: "f64 \<Rightarrow> f32" where
  "f32_of_f64 NaN = NaN32"
| "f32_of_f64 PosInf = PosInf32"
| "f32_of_f64 NegInf = NegInf32"
| "f32_of_f64 (Fin x) = (let r = round32 x in
     if r \<noteq> 0 \<and> ilog2 \<bar>r\<bar> \<ge> 128 then (if r > 0 then PosInf32 else NegInf32) else Fin32 r)"

section \<open>What the rounding satisfies\<close>

lemma ilog2_bounds:
  assumes "0 < x"
  shows "2 powi ilog2 x \<le> x" "x < 2 powi (ilog2 x + 1)"
proof -
  obtain n d where nd: "quotient_of x = (n, d)" by (cases "quotient_of x")
  have d: "0 < d" using quotient_of_denom_pos [OF nd] .
  have x: "x = of_int n / of_int d" using quotient_of_div [OF nd] .
  have n: "0 < n" using assms d by (simp add: x zero_less_divide_iff)
  define a where "a = floorlog 2 (nat n)"
  define b where "b = floorlog 2 (nat d)"
  have bounds: "2 ^ (floorlog 2 (nat k) - 1) \<le> k \<and> k < 2 ^ floorlog 2 (nat k) \<and> 0 < floorlog 2 (nat k)"
    if "0 < k" for k :: int
  proof -
    have "2 ^ (floorlog 2 (nat k) - 1) \<le> nat k" "nat k < 2 ^ floorlog 2 (nat k)"
      using that floorlog_bounds [of "nat k" 2] by simp_all
    moreover have "0 < floorlog 2 (nat k)"
      using that by (simp add: floorlog_def)
    ultimately show ?thesis
      using that by (metis nat_less_numeral_power_cancel_iff numeral_power_le_nat_cancel_iff)
  qed
  have na: "2 ^ (a - 1) \<le> n" "n < 2 ^ a" "0 < a" using bounds [OF n] by (simp_all add: a_def)
  have db: "2 ^ (b - 1) \<le> d" "d < 2 ^ b" "0 < b" using bounds [OF d] by (simp_all add: b_def)
  let ?e = "int a - int b"
  have hi: "x < 2 powi (?e + 1)"
  proof -
    have "(of_int n :: rat) < 2 ^ a" using na(2) by (metis of_int_less_iff of_int_numeral of_int_power)
    moreover have "(2::rat) ^ (b - 1) \<le> of_int d" using db(1) by (metis of_int_le_iff of_int_numeral of_int_power)
    ultimately have "x < 2 ^ a / 2 ^ (b - 1)"
      unfolding x using d n by (intro frac_less) simp_all
    also have "\<dots> = 2 powi (int a - int (b - 1))"
      by (simp add: power_int_diff)
    also have "int a - int (b - 1) = ?e + 1" using db(3) by simp
    finally show ?thesis .
  qed
  have lo: "2 powi (?e - 1) \<le> x"
  proof -
    have "(2::rat) ^ (a - 1) \<le> of_int n" using na(1) by (metis of_int_le_iff of_int_numeral of_int_power)
    moreover have "(of_int d :: rat) \<le> 2 ^ b" using db(2) by (metis less_imp_le of_int_le_iff of_int_numeral of_int_power)
    ultimately have "2 ^ (a - 1) / 2 ^ b \<le> x"
      unfolding x using d n by (intro frac_le) simp_all
    also have "(2::rat) ^ (a - 1) / 2 ^ b = 2 powi (int (a - 1) - int b)"
      by (simp add: power_int_diff)
    also have "int (a - 1) - int b = ?e - 1" using na(3) by simp
    finally show ?thesis .
  qed
  have "ilog2 x = (if 2 powi ?e \<le> x then ?e else ?e - 1)"
    by (simp add: ilog2_def nd a_def b_def bitlen_def Let_def)
  then show "2 powi ilog2 x \<le> x" "x < 2 powi (ilog2 x + 1)"
    using hi lo by (simp_all split: if_splits)
qed

lemma powi2_mono: "i \<le> j \<Longrightarrow> (2::rat) powi i \<le> 2 powi j"
  by (simp add: power_int_increasing)

lemma ilog2_mono:
  assumes "0 < x" "x \<le> y"
  shows "ilog2 x \<le> ilog2 y"
proof (rule ccontr)
  assume "\<not> ilog2 x \<le> ilog2 y"
  then have "(2::rat) powi (ilog2 y + 1) \<le> 2 powi ilog2 x" by (intro powi2_mono) simp
  also have "\<dots> \<le> x" using assms ilog2_bounds by simp
  also have "\<dots> \<le> y" by fact
  also have "y < 2 powi (ilog2 y + 1)" using assms ilog2_bounds by simp
  finally show False by simp
qed

lemma rne_of_int [simp]: "rne (of_int n) = n"
  by (simp add: rne_def)

lemma rne_near: "of_int (rne x) - x \<le> 1 / 2" "x - of_int (rne x) \<le> 1 / 2"
  by (auto simp: rne_def Let_def; linarith)+

lemma rne_mono:
  assumes "x \<le> y"
  shows "rne x \<le> rne y"
proof (cases "\<lfloor>x\<rfloor> = \<lfloor>y\<rfloor>")
  case True
  then show ?thesis using assms by (auto simp: rne_def Let_def)
next
  case False
  then have "\<lfloor>x\<rfloor> + 1 \<le> \<lfloor>y\<rfloor>" using assms floor_mono [OF assms] by linarith
  moreover have "rne x \<le> \<lfloor>x\<rfloor> + 1" "\<lfloor>y\<rfloor> \<le> rne y" by (auto simp: rne_def Let_def)
  ultimately show ?thesis by linarith
qed

text \<open>An integer multiple of the unit in the last place is not changed.\<close>

lemma round_pos_exact:
  "x = of_int k * 2 powi ulp_exp p emin x \<Longrightarrow> round_pos p emin x = x"
  by (simp add: round_pos_def Let_def) (metis nonzero_mult_div_cancel_right power_int_not_zero rne_of_int zero_neq_numeral)

lemma round_pos_le:
  assumes "x \<le> of_int k * 2 powi ulp_exp p emin x"
  shows "round_pos p emin x \<le> of_int k * 2 powi ulp_exp p emin x"
proof -
  let ?u = "(2::rat) powi ulp_exp p emin x"
  have u: "0 < ?u" by simp
  have "x / ?u \<le> of_int k" using assms u by (simp add: pos_divide_le_eq)
  then have "rne (x / ?u) \<le> k" using rne_mono by fastforce
  then show ?thesis using u by (simp add: round_pos_def Let_def)
qed

lemma round_pos_ge:
  assumes "of_int k * 2 powi ulp_exp p emin x \<le> x"
  shows "of_int k * 2 powi ulp_exp p emin x \<le> round_pos p emin x"
proof -
  let ?u = "(2::rat) powi ulp_exp p emin x"
  have u: "0 < ?u" by simp
  have "of_int k \<le> x / ?u" using assms u by (simp add: pos_le_divide_eq)
  then have "k \<le> rne (x / ?u)" using rne_mono by fastforce
  then show ?thesis using u by (simp add: round_pos_def Let_def)
qed

lemma round_pos_nonneg: "0 \<le> x \<Longrightarrow> 0 \<le> round_pos p emin x"
  using round_pos_ge [of 0 p emin x] by simp

text \<open>A power of two that is a multiple of the unit bounds the rounded value as it bounds the exact one.\<close>

lemma powi_split:
  assumes "i \<le> j"
  shows "(2::rat) powi j = of_int (2 ^ nat (j - i)) * 2 powi i"
proof -
  have "(2::rat) powi j = 2 powi (int (nat (j - i)) + i)" using assms by simp
  also have "\<dots> = 2 powi int (nat (j - i)) * 2 powi i" by (rule power_int_add) simp
  finally show ?thesis by (simp only: power_int_of_nat of_int_power of_int_numeral)
qed

lemma round_pos_mono:
  assumes p: "0 < p" and "0 < x" "x \<le> y"
  shows "round_pos p emin x \<le> round_pos p emin y"
proof -
  have le: "ulp_exp p emin x \<le> ulp_exp p emin y"
    using ilog2_mono [OF assms(2,3)] by (simp add: ulp_exp_def)
  show ?thesis
  proof (cases "ulp_exp p emin x = ulp_exp p emin y")
    case True
    have "rne (x / 2 powi ulp_exp p emin y) \<le> rne (y / 2 powi ulp_exp p emin y)"
      using assms(3) by (intro rne_mono divide_right_mono) simp_all
    then show ?thesis by (simp add: round_pos_def Let_def True)
  next
    case False
    with le have lt: "ulp_exp p emin x < ulp_exp p emin y" by simp
    then have y: "ulp_exp p emin y = ilog2 y - (int p - 1)" by (auto simp: ulp_exp_def max_def split: if_splits)
    from lt have xy: "ilog2 x + 1 \<le> ilog2 y" by (auto simp: ulp_exp_def max_def split: if_splits)
    have "round_pos p emin x \<le> 2 powi (ilog2 y)"
    proof -
      have "ulp_exp p emin x \<le> ilog2 y" using lt y p by simp
      then have e: "(2::rat) powi ilog2 y = of_int (2 ^ nat (ilog2 y - ulp_exp p emin x)) * 2 powi ulp_exp p emin x"
        by (rule powi_split)
      have "x \<le> 2 powi (ilog2 x + 1)" using ilog2_bounds(2) [OF assms(2)] by simp
      also have "\<dots> \<le> 2 powi ilog2 y" using xy by (rule powi2_mono)
      finally show ?thesis using round_pos_le e by metis
    qed
    also have "2 powi (ilog2 y) \<le> round_pos p emin y"
    proof -
      have "ulp_exp p emin y \<le> ilog2 y" using y p by simp
      then have e: "(2::rat) powi ilog2 y = of_int (2 ^ nat (ilog2 y - ulp_exp p emin y)) * 2 powi ulp_exp p emin y"
        by (rule powi_split)
      have "2 powi ilog2 y \<le> y" using assms by (intro ilog2_bounds) simp
      then show ?thesis using round_pos_ge e by metis
    qed
    finally show ?thesis .
  qed
qed

lemma round_rat_mono:
  assumes "0 < p" "x \<le> y"
  shows "round_rat p emin x \<le> round_rat p emin y"
proof -
  have nn: "0 \<le> round_pos p emin z" if "0 < z" for z using that by (simp add: round_pos_nonneg)
  consider "0 < x" | "x = 0" | "x < 0" "y < 0" | "x < 0" "0 \<le> y" by linarith
  then show ?thesis
  proof cases
    case 1
    with assms show ?thesis by (simp add: round_rat_def round_pos_mono)
  next
    case 2
    with assms nn [of y] show ?thesis by (simp add: round_rat_def)
  next
    case 3
    with assms round_pos_mono [of p "- y" "- x" emin] show ?thesis by (simp add: round_rat_def)
  next
    case 4
    with nn [of "- x"] nn [of y] show ?thesis by (simp add: round_rat_def) linarith
  qed
qed

lemma round_rat_int:
  assumes p: "0 < p" and emin: "emin \<le> 0" and n: "\<bar>n\<bar> < 2 ^ p"
  shows "round_rat p emin (of_int n) = of_int n"
proof -
  have pos: "round_pos p emin (of_int k) = of_int k" if "0 < k" "k < 2 ^ p" for k :: int
  proof (rule round_pos_exact)
    let ?u = "ulp_exp p emin (of_int k)"
    have "ilog2 (of_int k) < int p"
    proof (rule ccontr)
      assume "\<not> ?thesis"
      then have "(2::rat) powi int p \<le> 2 powi ilog2 (of_int k)" by (intro powi2_mono) simp
      also have "\<dots> \<le> of_int k" using that by (intro ilog2_bounds) simp
      finally have "(2::rat) ^ p \<le> of_int k" by simp
      then show False using that(2) by (metis linorder_not_less of_int_less_iff of_int_numeral of_int_power)
    qed
    then have "?u \<le> 0" using emin by (simp add: ulp_exp_def)
    then have "(2::rat) powi 0 = of_int (2 ^ nat (0 - ?u)) * 2 powi ?u" by (rule powi_split)
    then show "of_int k = of_int (k * 2 ^ nat (- ?u)) * (2::rat) powi ?u"
      by (simp add: mult.assoc)
  qed
  consider "n = 0" | "0 < n" | "n < 0" by linarith
  then show ?thesis
  proof cases
    case 3
    then have "round_pos p emin (of_int (- n)) = of_int (- n)" using n by (intro pos) simp_all
    with 3 show ?thesis by (simp add: round_rat_def)
  qed (use n pos in \<open>simp_all add: round_rat_def\<close>)
qed

locale rounding =
  fixes rnd :: "rat \<Rightarrow> rat" and prec :: nat
  assumes rnd_mono: "x \<le> y \<Longrightarrow> rnd x \<le> rnd y"
    and rnd_int: "\<bar>n\<bar> < 2 ^ prec \<Longrightarrow> rnd (of_int n) = of_int n"
begin

lemma rnd_le_int: "x \<le> of_int n \<Longrightarrow> \<bar>n\<bar> < 2 ^ prec \<Longrightarrow> rnd x \<le> of_int n"
  using rnd_mono rnd_int by metis

lemma rnd_ge_int: "of_int n \<le> x \<Longrightarrow> \<bar>n\<bar> < 2 ^ prec \<Longrightarrow> of_int n \<le> rnd x"
  using rnd_mono rnd_int by metis

lemma rnd_0: "rnd 0 = 0"
  using rnd_int [of 0] by simp

lemma rnd_nonneg: "0 \<le> x \<Longrightarrow> 0 \<le> rnd x"
  using rnd_mono [of 0 x] by (simp add: rnd_0)

end

interpretation r64: rounding round64 53
  by unfold_locales (simp_all add: round_rat_mono round_rat_int)

interpretation r32: rounding round32 24
  by unfold_locales (simp_all add: round_rat_mono round_rat_int)

section \<open>Evaluation\<close>

text \<open>Code equations that pass intermediate values as arguments, so that each is computed once.\<close>

definition ilog2_at :: "rat \<Rightarrow> int \<Rightarrow> int" where
  "ilog2_at x e = (if 2 powi e \<le> x then e else e - 1)"

definition rne_at :: "int \<Rightarrow> rat \<Rightarrow> int" where
  "rne_at f d = (if d < 1 / 2 then f else if d > 1 / 2 then f + 1 else if even f then f else f + 1)"

definition rne_from :: "rat \<Rightarrow> int \<Rightarrow> int" where
  "rne_from x f = rne_at f (x - of_int f)"

definition round_at :: "rat \<Rightarrow> rat \<Rightarrow> rat" where
  "round_at x u = of_int (rne (x / u)) * u"

definition f64_pack :: "rat \<Rightarrow> f64" where
  "f64_pack r = (if r \<noteq> 0 \<and> ilog2 \<bar>r\<bar> \<ge> 1024 then (if r > 0 then PosInf else NegInf) else Fin r)"

lemma ilog2_code [code]: "ilog2 x = ilog2_at x (bitlen (fst (quotient_of x)) - bitlen (snd (quotient_of x)))"
  by (simp add: ilog2_def ilog2_at_def Let_def case_prod_beta')

lemma rne_code [code]: "rne x = rne_from x \<lfloor>x\<rfloor>"
  by (simp add: rne_def rne_from_def rne_at_def Let_def)

text \<open>A rational as the quotient of its numerator and denominator, so that no sums and products pile up.\<close>

definition rat_nf :: "rat \<Rightarrow> rat" where
  "rat_nf x = (case quotient_of x of (n, d) \<Rightarrow> of_int n / of_int d)"

lemma rat_nf_eq: "rat_nf x = x"
  by (cases "quotient_of x") (simp add: rat_nf_def quotient_of_div [symmetric])

lemma round_pos_code [code]: "round_pos p emin x = rat_nf (round_at x (rat_nf (2 powi ulp_exp p emin x)))"
  by (simp add: round_pos_def round_at_def Let_def rat_nf_eq)

lemma f64_round_code [code]: "f64_round x = f64_pack (round64 x)"
  by (simp add: f64_round_def f64_pack_def Let_def)

section \<open>Values that do not overflow\<close>

lemma round_rat_neg: "round_rat p emin (- x) = - round_rat p emin x"
  by (simp add: round_rat_def)

lemma round_pos_le_double:
  assumes "1 \<le> x" "0 < p" "emin \<le> 0"
  shows "round_pos p emin x \<le> 2 * x"
proof -
  let ?u = "(2::rat) powi ulp_exp p emin x"
  have "0 \<le> ilog2 x"
  proof (rule ccontr)
    assume "\<not> 0 \<le> ilog2 x"
    then have "(2::rat) powi (ilog2 x + 1) \<le> 2 powi 0" by (intro powi2_mono) simp
    with ilog2_bounds(2) [of x] assms(1) show False by simp
  qed
  then have "ulp_exp p emin x \<le> ilog2 x" using assms(2,3) by (simp add: ulp_exp_def)
  then have "?u \<le> x" using powi2_mono ilog2_bounds(1) [of x] assms(1) by fastforce
  have u: "0 < ?u" by simp
  have "of_int (rne (x / ?u)) \<le> x / ?u + 1 / 2" using rne_near(1) [of "x / ?u"] by linarith
  then have "of_int (rne (x / ?u)) * ?u \<le> (x / ?u + 1 / 2) * ?u"
    by (rule mult_right_mono) (use u in simp)
  also have "\<dots> = x + ?u / 2" using u by (simp add: distrib_right)
  finally have "round_pos p emin x \<le> x + ?u / 2" by (simp add: round_pos_def Let_def)
  with \<open>?u \<le> x\<close> u show ?thesis by linarith
qed

lemma round64_le:
  assumes "x \<le> 2 ^ k"
  shows "round64 x \<le> 2 ^ (k + 1)"
proof -
  have "round64 x \<le> round64 (2 ^ k)" using assms by (rule r64.rnd_mono)
  also have "\<dots> \<le> 2 * 2 ^ k"
    using round_pos_le_double [of "2 ^ k" 53 "- 1074"] by (simp add: round_rat_def)
  finally show ?thesis by simp
qed

lemma ilog2_less_1024:
  assumes "0 < r" "r \<le> 2 ^ 1000"
  shows "ilog2 r < 1024"
proof (rule ccontr)
  assume "\<not> ilog2 r < 1024"
  then have "(2::rat) powi 1024 \<le> 2 powi ilog2 r" by (intro powi2_mono) simp
  also have "\<dots> \<le> r" using assms(1) by (rule ilog2_bounds)
  finally have "(2::rat) ^ 1024 \<le> 2 ^ 1000" using assms(2) by (simp add: power_int_def)
  then show False using power_strict_increasing [of 1000 1024 "2::rat"] by simp
qed

text \<open>The error of rounding a number below \<open>2 ^ k\<close>.\<close>

lemma round_pos_error: "\<bar>round_pos p emin x - x\<bar> \<le> 2 powi ulp_exp p emin x / 2"
proof -
  let ?u = "(2::rat) powi ulp_exp p emin x"
  have u: "0 < ?u" by simp
  have "\<bar>of_int (rne (x / ?u)) - x / ?u\<bar> \<le> 1 / 2" using rne_near [of "x / ?u"] by linarith
  then have "\<bar>of_int (rne (x / ?u)) - x / ?u\<bar> * ?u \<le> 1 / 2 * ?u" by (rule mult_right_mono) (use u in simp)
  moreover have "\<bar>of_int (rne (x / ?u)) - x / ?u\<bar> * ?u = \<bar>(of_int (rne (x / ?u)) - x / ?u) * ?u\<bar>"
    using u by (simp only: abs_mult abs_of_pos)
  moreover have "(of_int (rne (x / ?u)) - x / ?u) * ?u = round_pos p emin x - x"
    using u by (simp add: round_pos_def Let_def left_diff_distrib)
  ultimately show ?thesis by simp
qed

lemma round64_error:
  assumes "0 \<le> x" "x < 2 ^ k"
  shows "\<bar>round64 x - x\<bar> \<le> 2 ^ k / 2 ^ 54"
proof (cases "x = 0")
  case False
  then have x: "0 < x" using assms(1) by simp
  have "ilog2 x < int k"
  proof (rule ccontr)
    assume "\<not> ilog2 x < int k"
    then have "(2::rat) powi int k \<le> 2 powi ilog2 x" by (intro powi2_mono) simp
    also have "\<dots> \<le> x" using x by (rule ilog2_bounds)
    finally show False using assms(2) by (simp add: power_int_def)
  qed
  then have "ulp_exp 53 (- 1074) x \<le> int k - 53" by (simp add: ulp_exp_def)
  then have "(2::rat) powi ulp_exp 53 (- 1074) x \<le> 2 powi (int k - 53)" by (rule powi2_mono)
  also have "\<dots> = 2 ^ k / 2 ^ 53" by (simp add: power_int_diff)
  finally show ?thesis using round_pos_error [of 53 "- 1074" x] x by (simp add: round_rat_def)
qed (simp add: round_rat_def)

text \<open>Below \<open>2 ^ 999\<close> in magnitude nothing overflows: rounding gives a finite value.\<close>

lemma f64_round_fin:
  assumes "\<bar>x\<bar> \<le> 2 ^ 999"
  shows "f64_round x = Fin (round64 x)"
proof -
  have "\<bar>round64 x\<bar> \<le> 2 ^ 1000"
    using round64_le [of x 999] round64_le [of "- x" 999] assms by (simp add: round_rat_neg abs_le_iff)
  then have "round64 x = 0 \<or> ilog2 \<bar>round64 x\<bar> < 1024"
    using ilog2_less_1024 [of "\<bar>round64 x\<bar>"] by auto
  then show ?thesis unfolding f64_round_def Let_def by auto
qed

end
