(* ===== verification/Kube_Objects.thy ===== *)
theory Kube_Objects
  imports Prelude Float64
begin

text \<open>
  The Kubernetes API objects the sources read, with the fields they read and nothing else. A
  CPU quantity is the \<open>float64\<close> its method \<open>AsApproximateFloat64\<close> gives; a pointer field is an
  \<open>option\<close>; times and durations are nanoseconds. The string constants are the API's documented
  values.
\<close>

record OwnerReference =
  or_Kind :: string
  or_Name :: string
  or_UID :: string
  or_Controller :: "bool option"

record Toleration =
  tol_Key :: string
  tol_Operator :: string
  tol_Effect :: string

record Container =
  c_RequestsCpu :: f64
  c_LimitsCpu :: f64

record Pod =
  pod_Name :: string
  pod_Namespace :: string
  pod_Annotations :: "(string, string) gomap"
  pod_OwnerReferences :: "OwnerReference list"
  pod_NodeName :: string
  pod_Phase :: string
  pod_Containers :: "Container list"
  pod_Conditions :: "(string \<times> string) list"
  pod_Tolerations :: "Toleration list"

record Node =
  node_Name :: string
  node_Labels :: "(string, string) gomap"
  node_Addresses :: "(string \<times> string) list"
  node_CapacityCpu :: f64

record NodeInfo =
  ni_Node :: Node
  ni_Pods :: "Pod list"

record ReplicaSet =
  rs_Name :: string
  rs_Namespace :: string
  rs_UID :: string
  rs_Replicas :: "int option"
  rs_Annotations :: "(string, string) gomap"

record NamespacedName =
  nn_Namespace :: string
  nn_Name :: string

text \<open>The documented form of a \<open>NamespacedName\<close>.\<close>

definition nnString_doc :: "(NamespacedName \<Rightarrow> string) \<Rightarrow> bool" where
  "nnString_doc nnString \<longleftrightarrow> (\<forall>n. nnString n = nn_Namespace n @ ''/'' @ nn_Name n)"

definition labelZone :: string where
  "labelZone = ''topology.kubernetes.io/zone''"

definition labelRegion :: string where
  "labelRegion = ''topology.kubernetes.io/region''"

definition labelControlPlane :: string where
  "labelControlPlane = ''node-role.kubernetes.io/control-plane''"

end
