(* ===== verification/Node_Config.thy ===== *)
theory Node_Config
  imports Kube_Objects
begin

text \<open>
  The custom resources of \<open>wao-core/api/node/v1beta1\<close>: \<open>NodeConfig\<close>, which says where a node's
  sensors and its power model are, and \<open>NodeConfigTemplate\<close>, with the template data built from a
  node and the rendering of every string field. The Go template engine (\<open>text/template\<close> with the
  sprig functions) is a parameter with a state of its own, the template the package-level variable
  \<open>tmpl\<close> holds.
\<close>

section \<open>Types\<close>

record EndpointTerm =
  et_Type :: string
  et_Endpoint :: string
  et_BasicAuthSecret :: "string option"
  et_FetchInterval :: "int option"

record MetricsCollector =
  mc_InletTemp :: EndpointTerm
  mc_DeltaP :: EndpointTerm

record Predictor =
  pr_PowerConsumption :: "EndpointTerm option"
  pr_PowerConsumptionEndpointProvider :: "EndpointTerm option"

record NodeConfigSpec =
  ncs_NodeName :: string
  ncs_MetricsCollector :: MetricsCollector
  ncs_Predictor :: Predictor

record NodeConfig =
  nc_Name :: string
  nc_Namespace :: string
  nc_Deleting :: bool
  nc_Owner :: "string option"
  nc_Spec :: NodeConfigSpec

definition TypeFake :: string where
  "TypeFake = ''Fake''"

definition TypeRedfish :: string where
  "TypeRedfish = ''Redfish''"

definition TypeDPAPI :: string where
  "TypeDPAPI = ''DifferentialPressureAPI''"

definition TypeV2InferenceProtocol :: string where
  "TypeV2InferenceProtocol = ''V2InferenceProtocol''"

definition emptyEndpointTerm :: EndpointTerm where
  "emptyEndpointTerm = \<lparr>et_Type = [], et_Endpoint = [], et_BasicAuthSecret = None, et_FetchInterval = None\<rparr>"

record TemplateDataIPv4 =
  ip_Address :: string
  ip_Octet1 :: string
  ip_Octet2 :: string
  ip_Octet3 :: string
  ip_Octet4 :: string

record TemplateData =
  td_Hostname :: string
  td_IPv4 :: TemplateDataIPv4

record NodeConfigTemplate =
  nct_Name :: string
  nct_Namespace :: string
  nct_UID :: string
  nct_Deleting :: bool
  nct_NodeSelector :: string
  nct_Template :: NodeConfigSpec

section \<open>Template data of a node\<close>

definition NewTemplateDataFromNode :: "Node \<Rightarrow> TemplateData" where
  "NewTemplateDataFromNode node =
     (let hostname = (case map_of (node_Labels node) ''kubernetes.io/hostname'' of
                        Some v \<Rightarrow> v | None \<Rightarrow> ''undefined.example.com'');
          ipv4Address = (case find (\<lambda>(t, a). t = ''InternalIP'') (node_Addresses node) of
                           Some (t, a) \<Rightarrow> a | None \<Rightarrow> ''x.x.x.x'');
          ss = split_on CHR ''.'' ipv4Address;
          octets = (if length ss = 4 then ss else [''x'', ''x'', ''x'', ''x''])
      in \<lparr>td_Hostname = hostname,
          td_IPv4 = \<lparr>ip_Address = ipv4Address, ip_Octet1 = octets ! 0, ip_Octet2 = octets ! 1,
                     ip_Octet3 = octets ! 2, ip_Octet4 = octets ! 3\<rparr>\<rparr>)"

section \<open>Rendering\<close>

text \<open>
  The package keeps one template, \<open>tmpl\<close>, for every string: \<open>te_Parse s\<close> parses \<open>s\<close> into it
  (or fails and leaves it as it was) and \<open>te_Execute\<close> runs what it holds then.
\<close>

record 't engine =
  te_Parse :: "string \<Rightarrow> 't \<Rightarrow> 't result"
  te_Execute :: "'t \<Rightarrow> TemplateData \<Rightarrow> string result"

definition TemplateParseString :: "'t engine \<Rightarrow> string \<Rightarrow> TemplateData \<Rightarrow> ('t, string) call" where
  "TemplateParseString te s data t = (case te_Parse te s t of
     Inl e \<Rightarrow> (Inl e, t)
   | Inr t' \<Rightarrow> (case te_Execute te t' data of
       Inl e \<Rightarrow> (Inl e, t')
     | Inr v \<Rightarrow> (Inr v, t')))"

text \<open>\<open>if err == nil { out.Field = v }\<close>: a field whose template fails keeps its text.\<close>

definition render_field :: "'t engine \<Rightarrow> TemplateData \<Rightarrow> string \<Rightarrow> 't \<Rightarrow> string \<times> 't" where
  "render_field te data s t = (case TemplateParseString te s data t of
     (Inr v, t') \<Rightarrow> (v, t')
   | (Inl _, t') \<Rightarrow> (s, t'))"

definition TemplateParseEndpointTerm ::
  "'t engine \<Rightarrow> EndpointTerm option \<Rightarrow> TemplateData \<Rightarrow> 't \<Rightarrow> EndpointTerm option \<times> 't" where
  "TemplateParseEndpointTerm te inp data t = (case inp of
     None \<Rightarrow> (None, t)
   | Some et \<Rightarrow>
      (let (ty, t) = render_field te data (et_Type et) t;
           (ep, t) = render_field te data (et_Endpoint et) t;
           (sec, t) = (case et_BasicAuthSecret et of
                         None \<Rightarrow> (None, t)
                       | Some name \<Rightarrow> (let (v, t) = render_field te data name t in (Some v, t)))
       in (Some (et\<lparr>et_Type := ty, et_Endpoint := ep, et_BasicAuthSecret := sec\<rparr>), t)))"

definition TemplateParseNodeConfig :: "'t engine \<Rightarrow> NodeConfig \<Rightarrow> TemplateData \<Rightarrow> 't \<Rightarrow> NodeConfig \<times> 't" where
  "TemplateParseNodeConfig te nc data t =
     (let spec = nc_Spec nc;
          mc = ncs_MetricsCollector spec;
          pr = ncs_Predictor spec;
          (inlet, t) = TemplateParseEndpointTerm te (Some (mc_InletTemp mc)) data t;
          (deltaP, t) = TemplateParseEndpointTerm te (Some (mc_DeltaP mc)) data t;
          (pc, t) = TemplateParseEndpointTerm te (pr_PowerConsumption pr) data t;
          (pcep, t) = TemplateParseEndpointTerm te (pr_PowerConsumptionEndpointProvider pr) data t
      in (nc\<lparr>nc_Spec := spec\<lparr>
            ncs_MetricsCollector := mc\<lparr>mc_InletTemp := the inlet, mc_DeltaP := the deltaP\<rparr>,
            ncs_Predictor := pr\<lparr>pr_PowerConsumption := pc, pr_PowerConsumptionEndpointProvider := pcep\<rparr>\<rparr>\<rparr>, t))"

section \<open>Lemmas\<close>

text \<open>
  The pointer result is nil only for a nil argument, so the two dereferences
  \<open>*TemplateParseEndpointTerm(&x)\<close> of \<open>TemplateParseNodeConfig\<close> are safe; the interval is never
  rendered, and a secret reference is neither made up nor dropped.
\<close>

lemma TemplateParseEndpointTerm_None [simp]: "TemplateParseEndpointTerm te None data t = (None, t)"
  by (simp add: TemplateParseEndpointTerm_def)

lemma TemplateParseEndpointTerm_Some:
  "\<exists>ty ep sec t'. TemplateParseEndpointTerm te (Some et) data t =
      (Some (et\<lparr>et_Type := ty, et_Endpoint := ep, et_BasicAuthSecret := sec\<rparr>), t') \<and>
      (sec = None \<longleftrightarrow> et_BasicAuthSecret et = None)"
  by (auto simp: TemplateParseEndpointTerm_def Let_def split: prod.split option.split)

definition same_shape :: "EndpointTerm option \<Rightarrow> EndpointTerm option \<Rightarrow> bool" where
  "same_shape a b = (case (a, b) of
     (None, None) \<Rightarrow> True
   | (Some x, Some y) \<Rightarrow> et_FetchInterval y = et_FetchInterval x \<and>
       (et_BasicAuthSecret y = None \<longleftrightarrow> et_BasicAuthSecret x = None)
   | _ \<Rightarrow> False)"

lemma TemplateParseEndpointTerm_shape: "same_shape e (fst (TemplateParseEndpointTerm te e data t))"
proof (cases e)
  case None
  then show ?thesis by (simp add: same_shape_def)
next
  case (Some et)
  then show ?thesis
    using TemplateParseEndpointTerm_Some [of te et data t] by (auto simp: same_shape_def)
qed

lemma TemplateParseEndpointTerm_not_nil [simp]:
  "fst (TemplateParseEndpointTerm te (Some et) data t) \<noteq> None"
  using TemplateParseEndpointTerm_Some [of te et data t] by auto

text \<open>The name, the namespace, the owner and the node of the \<open>NodeConfig\<close> are left alone.\<close>

lemma TemplateParseNodeConfig_frame:
  "nc_Name (fst (TemplateParseNodeConfig te nc data t)) = nc_Name nc"
  "nc_Namespace (fst (TemplateParseNodeConfig te nc data t)) = nc_Namespace nc"
  "nc_Owner (fst (TemplateParseNodeConfig te nc data t)) = nc_Owner nc"
  "nc_Deleting (fst (TemplateParseNodeConfig te nc data t)) = nc_Deleting nc"
  "ncs_NodeName (nc_Spec (fst (TemplateParseNodeConfig te nc data t))) = ncs_NodeName (nc_Spec nc)"
  by (simp_all add: TemplateParseNodeConfig_def Let_def split: prod.split)

lemma TemplateParseNodeConfig_shape:
  fixes te :: "'t engine" and nc data t
  defines "pr \<equiv> \<lambda>n. ncs_Predictor (nc_Spec n)" and "mc \<equiv> \<lambda>n. ncs_MetricsCollector (nc_Spec n)"
  defines "nc' \<equiv> fst (TemplateParseNodeConfig te nc data t)"
  shows "same_shape (Some (mc_InletTemp (mc nc))) (Some (mc_InletTemp (mc nc')))"
    "same_shape (Some (mc_DeltaP (mc nc))) (Some (mc_DeltaP (mc nc')))"
    "same_shape (pr_PowerConsumption (pr nc)) (pr_PowerConsumption (pr nc'))"
    "same_shape (pr_PowerConsumptionEndpointProvider (pr nc)) (pr_PowerConsumptionEndpointProvider (pr nc'))"
proof -
  obtain a t1 where a: "TemplateParseEndpointTerm te (Some (mc_InletTemp (mc nc))) data t = (a, t1)" by fastforce
  obtain b t2 where b: "TemplateParseEndpointTerm te (Some (mc_DeltaP (mc nc))) data t1 = (b, t2)" by fastforce
  obtain c t3 where c: "TemplateParseEndpointTerm te (pr_PowerConsumption (pr nc)) data t2 = (c, t3)" by fastforce
  obtain d t4 where d: "TemplateParseEndpointTerm te (pr_PowerConsumptionEndpointProvider (pr nc)) data t3 = (d, t4)"
    by fastforce
  have nn: "a \<noteq> None" "b \<noteq> None"
    using a b TemplateParseEndpointTerm_not_nil by (metis fst_conv)+
  have eq: "mc_InletTemp (mc nc') = the a" "mc_DeltaP (mc nc') = the b"
    "pr_PowerConsumption (pr nc') = c" "pr_PowerConsumptionEndpointProvider (pr nc') = d"
    using a b c d by (simp_all add: nc'_def mc_def pr_def TemplateParseNodeConfig_def Let_def)
  show "same_shape (Some (mc_InletTemp (mc nc))) (Some (mc_InletTemp (mc nc')))"
    using TemplateParseEndpointTerm_shape [of "Some (mc_InletTemp (mc nc))" te data t] a nn eq by simp
  show "same_shape (Some (mc_DeltaP (mc nc))) (Some (mc_DeltaP (mc nc')))"
    using TemplateParseEndpointTerm_shape [of "Some (mc_DeltaP (mc nc))" te data t1] b nn eq by simp
  show "same_shape (pr_PowerConsumption (pr nc)) (pr_PowerConsumption (pr nc'))"
    using TemplateParseEndpointTerm_shape [of "pr_PowerConsumption (pr nc)" te data t2] c eq by simp
  show "same_shape (pr_PowerConsumptionEndpointProvider (pr nc)) (pr_PowerConsumptionEndpointProvider (pr nc'))"
    using TemplateParseEndpointTerm_shape [of "pr_PowerConsumptionEndpointProvider (pr nc)" te data t3] d eq by simp
qed

lemma split_on_dots:
  assumes "CHR ''.'' \<notin> set a" "CHR ''.'' \<notin> set b" "CHR ''.'' \<notin> set c" "CHR ''.'' \<notin> set d"
  shows "split_on CHR ''.'' (a @ ''.'' @ b @ ''.'' @ c @ ''.'' @ d) = [a, b, c, d]"
  using assms by (simp add: split_on_append split_on_none)

end
