(* ===== verification/Metric_Collector.thy ===== *)
theory Metric_Collector
  imports Node_Config
begin

text \<open>
  The store of sensor values and the agents that fill it: \<open>wao-metrics-adapter/pkg/metrics\<close>
  (\<open>value.go\<close>, \<open>store.go\<close>, \<open>collector.go\<close>). Times and durations are nanoseconds, the zero
  \<open>time.Time\<close> is 0. The textual form of a \<open>GroupResource\<close> and of a \<open>NamespacedName\<close> comes from
  apimachinery and is a parameter. A runner is one goroutine: its loop body is \<open>runOnce\<close>, and the
  relation \<open>run_step\<close> interleaves the loads and stores of several runners.
\<close>

section \<open>Values\<close>

definition ValueInletTemperature :: string where
  "ValueInletTemperature = ''inlet_temp''"

definition ValueDeltaPressure :: string where
  "ValueDeltaPressure = ''delta_p''"

definition ValueTypes :: "string list" where
  "ValueTypes = [ValueInletTemperature, ValueDeltaPressure]"

record MetricData =
  md_InletTemp :: f64
  md_InletTempTimestamp :: int
  md_DeltaPressure :: f64
  md_DeltaPressureTimestamp :: int

definition zeroMetricData :: MetricData where
  "zeroMetricData = \<lparr>md_InletTemp = Fin 0, md_InletTempTimestamp = 0,
     md_DeltaPressure = Fin 0, md_DeltaPressureTimestamp = 0\<rparr>"

section \<open>The store\<close>

record GroupResource =
  gr_Group :: string
  gr_Resource :: string

record CustomMetricInfo =
  cmi_GroupResource :: GroupResource
  cmi_Namespaced :: bool
  cmi_Metric :: string

definition StoreKey :: "(GroupResource \<Rightarrow> string) \<Rightarrow> string \<Rightarrow> string \<Rightarrow> CustomMetricInfo \<Rightarrow> string" where
  "StoreKey grString namespace name info =
     namespace @ ''/'' @ grString (cmi_GroupResource info) @ ''/'' @ name"

definition StoreKeyForNode :: "string \<Rightarrow> string" where
  "StoreKeyForNode name = ''/nodes/'' @ name"

type_synonym Store = "(string, MetricData) gomap"

definition Store_Get :: "Store \<Rightarrow> string \<Rightarrow> MetricData option" where
  "Store_Get s k = map_of s k"

definition Store_Set :: "string \<Rightarrow> MetricData \<Rightarrow> Store \<Rightarrow> Store" where
  "Store_Set k m s = AList.update k m s"

definition Store_GetOrInit :: "string \<Rightarrow> Store \<Rightarrow> MetricData \<times> Store" where
  "Store_GetOrInit k s =
     (let s = (case Store_Get s k of None \<Rightarrow> Store_Set k zeroMetricData s | Some _ \<Rightarrow> s)
      in (case Store_Get s k of None \<Rightarrow> zeroMetricData | Some v \<Rightarrow> v, s))"

section \<open>Agents and their runners\<close>

text \<open>A runner: the agent it asks, for which node, how often, and whether it was told to stop.\<close>

record 'a agentRunner =
  ar_agent :: 'a
  ar_nodeName :: string
  ar_interval :: int
  ar_timeout :: int
  ar_stopped :: bool

definition newAgentRunner :: "'a \<Rightarrow> string \<Rightarrow> int \<Rightarrow> int \<Rightarrow> 'a agentRunner" where
  "newAgentRunner agent nodeName interval timeout =
     \<lparr>ar_agent = agent, ar_nodeName = nodeName, ar_interval = interval, ar_timeout = timeout, ar_stopped = False\<rparr>"

definition agentRunnerMaxInitialDelay :: int where
  "agentRunnerMaxInitialDelay = 10 * 10 ^ 9"

text \<open>The random initial delay; \<open>rand.Int63n\<close> panics on an argument that is not positive.\<close>

definition initialDelay :: "(int \<Rightarrow> int) \<Rightarrow> 'a agentRunner \<Rightarrow> int result" where
  "initialDelay int63n r =
     (let n = min (ar_interval r) agentRunnerMaxInitialDelay
      in if n \<le> 0 then Inl (Panic ''invalid argument to Int63n'') else Inr (int63n n))"

definition setValue :: "string \<Rightarrow> f64 \<Rightarrow> int \<Rightarrow> MetricData \<Rightarrow> MetricData" where
  "setValue valueType v now m =
     (if valueType = ValueInletTemperature then m\<lparr>md_InletTemp := v, md_InletTempTimestamp := now\<rparr>
      else if valueType = ValueDeltaPressure then m\<lparr>md_DeltaPressure := v, md_DeltaPressureTimestamp := now\<rparr>
      else m)"

text \<open>One pass of the loop, not interrupted: the answer of the agent goes into the node's entry.\<close>

definition runOnce :: "string \<Rightarrow> string \<Rightarrow> f64 result \<Rightarrow> int \<Rightarrow> Store \<Rightarrow> Store" where
  "runOnce nodeName valueType fetched now s = (case fetched of
     Inl _ \<Rightarrow> s
   | Inr v \<Rightarrow>
      (let k = StoreKeyForNode nodeName;
           (m, s) = Store_GetOrInit k s
       in Store_Set k (setValue valueType v now m) s))"

definition Stop :: "'a agentRunner \<Rightarrow> 'a agentRunner result" where
  "Stop r = (if ar_stopped r then Inl (Panic ''close of closed channel'') else Inr (r\<lparr>ar_stopped := True\<rparr>))"

section \<open>The collector\<close>

definition CollectorKey :: "(NamespacedName \<Rightarrow> string) \<Rightarrow> NamespacedName \<Rightarrow> string \<Rightarrow> string" where
  "CollectorKey nnString objKey valueType = nnString objKey @ ''#'' @ valueType"

text \<open>All runners ever started, by number, and the map from keys to runners.\<close>

record 'a Collector =
  col_runners :: "'a agentRunner list"
  col_m :: "(string, nat) gomap"

definition emptyCollector :: "'a Collector" where
  "emptyCollector = \<lparr>col_runners = [], col_m = []\<rparr>"

definition MinInterval :: int where
  "MinInterval = 10 ^ 9"

definition Register :: "string \<Rightarrow> 'a \<Rightarrow> string \<Rightarrow> int \<Rightarrow> int \<Rightarrow> 'a Collector \<Rightarrow> 'a Collector" where
  "Register k a nodeName interval timeout c =
     \<lparr>col_runners = col_runners c @ [newAgentRunner a nodeName (max interval MinInterval) timeout],
      col_m = AList.update k (length (col_runners c)) (col_m c)\<rparr>"

text \<open>The deferred deletion runs in every case, after a panic too.\<close>

definition Unregister :: "string \<Rightarrow> ('a Collector, unit) call" where
  "Unregister k c =
     (let c' = c\<lparr>col_m := AList.delete k (col_m c)\<rparr> in
      case map_of (col_m c) k of
        None \<Rightarrow> (Inr (), c')
      | Some i \<Rightarrow> (case Stop (col_runners c ! i) of
          Inl e \<Rightarrow> (Inl e, c')
        | Inr r \<Rightarrow> (Inr (), c'\<lparr>col_runners := (col_runners c)[i := r]\<rparr>)))"

section \<open>Lemmas on the store\<close>

interpretation mstore: kv_store Store_Get Store_Set
  by unfold_locales (simp add: Store_Get_def Store_Set_def)

definition entry :: "Store \<Rightarrow> string \<Rightarrow> MetricData" where
  "entry s k = (case Store_Get s k of None \<Rightarrow> zeroMetricData | Some m \<Rightarrow> m)"

lemma GetOrInit_entry: "fst (Store_GetOrInit k s) = entry s k"
  by (simp add: Store_GetOrInit_def entry_def Let_def split: option.split)

lemma Store_Get_GetOrInit:
  "Store_Get (snd (Store_GetOrInit k s)) k' = (if k' = k then Some (entry s k) else Store_Get s k')"
  by (auto simp: Store_GetOrInit_def entry_def Let_def mstore.get_put split: option.split)

lemma Store_Get_runOnce:
  "Store_Get (runOnce n vt f now s) k = (case f of
     Inl _ \<Rightarrow> Store_Get s k
   | Inr v \<Rightarrow> if k = StoreKeyForNode n then Some (setValue vt v now (entry s k)) else Store_Get s k)"
  by (auto simp: runOnce_def Let_def case_prod_beta' mstore.get_put GetOrInit_entry Store_Get_GetOrInit
      split: sum.split)

lemma setValue_swap: "vt \<noteq> vt' \<Longrightarrow> setValue vt v t (setValue vt' v' t' m) = setValue vt' v' t' (setValue vt v t m)"
  by (auto simp: setValue_def)

lemma StoreKeyForNode_inj [simp]: "StoreKeyForNode n = StoreKeyForNode n' \<longleftrightarrow> n = n'"
  by (simp add: StoreKeyForNode_def)

text \<open>
  Runners of different sensors do not disturb each other as long as their passes do not overlap:
  the passes of two runners with different value types, for one node or for two, give the same store
  in either order, whether or not the agents fail, and when both succeed on one node the entry holds
  both values.
\<close>

theorem runOnce_swap:
  assumes "vt \<noteq> vt'"
  shows "Store_Get (runOnce n vt f t (runOnce n' vt' f' t' s)) =
      Store_Get (runOnce n' vt' f' t' (runOnce n vt f t s)) \<and>
    (\<forall>v w. f = Inr v \<and> f' = Inr w \<and> n' = n \<and> vt = ValueInletTemperature \<and> vt' = ValueDeltaPressure \<longrightarrow>
      Store_Get (runOnce n vt f t (runOnce n' vt' f' t' s)) (StoreKeyForNode n) =
        Some \<lparr>md_InletTemp = v, md_InletTempTimestamp = t, md_DeltaPressure = w, md_DeltaPressureTimestamp = t'\<rparr>)"
  using assms
  by (auto simp: fun_eq_iff Store_Get_runOnce entry_def setValue_swap [OF assms] split: sum.split option.split)
    (simp_all add: setValue_def ValueInletTemperature_def ValueDeltaPressure_def)


theorem runOnce_swap_witness:
  "Store_Get (runOnce ''n1'' ValueInletTemperature (Inr (Fin 22)) 7 (runOnce ''n1'' ValueDeltaPressure (Inr (Fin 5)) 8 []))
     (StoreKeyForNode ''n1'') =
   Some \<lparr>md_InletTemp = Fin 22, md_InletTempTimestamp = 7, md_DeltaPressure = Fin 5, md_DeltaPressureTimestamp = 8\<rparr>"
  using runOnce_swap [of ValueInletTemperature ValueDeltaPressure "''n1''" "Inr (Fin 22)" 7 "''n1''" "Inr (Fin 5)" 8 "[]"]
  by (force simp: ValueInletTemperature_def ValueDeltaPressure_def)

section \<open>Overlapping passes\<close>

text \<open>
  Between its load and its store a runner keeps a copy of the entry; another runner may store in
  between. A thread is a runner's node and value type, where it is in its pass, and how many passes
  it has finished.
\<close>

datatype run_pc = Waiting | Fetched f64 | Loaded MetricData

record run_thread =
  rt_node :: string
  rt_type :: string
  rt_pc :: run_pc
  rt_done :: nat

inductive run_step :: "run_thread list \<times> Store \<Rightarrow> run_thread list \<times> Store \<Rightarrow> bool" where
  Fetch: "i < length ts \<Longrightarrow> rt_pc (ts ! i) = Waiting \<Longrightarrow>
    run_step (ts, s) (ts[i := (ts ! i)\<lparr>rt_pc := Fetched v\<rparr>], s)"
| Load: "i < length ts \<Longrightarrow> rt_pc (ts ! i) = Fetched v \<Longrightarrow>
    Store_GetOrInit (StoreKeyForNode (rt_node (ts ! i))) s = (m, s') \<Longrightarrow>
    run_step (ts, s) (ts[i := (ts ! i)\<lparr>rt_pc := Loaded (setValue (rt_type (ts ! i)) v now m)\<rparr>], s')"
| Write: "i < length ts \<Longrightarrow> rt_pc (ts ! i) = Loaded m \<Longrightarrow>
    run_step (ts, s) (ts[i := (ts ! i)\<lparr>rt_pc := Waiting, rt_done := Suc (rt_done (ts ! i))\<rparr>],
      Store_Set (StoreKeyForNode (rt_node (ts ! i))) m s)"

text \<open>A pass that is not interrupted is \<open>runOnce\<close>.\<close>

lemma run_step_pass:
  assumes "i < length ts" "rt_pc (ts ! i) = Waiting"
  shows "run_step\<^sup>*\<^sup>* (ts, s) (ts[i := (ts ! i)\<lparr>rt_done := Suc (rt_done (ts ! i))\<rparr>],
    runOnce (rt_node (ts ! i)) (rt_type (ts ! i)) (Inr v) now s)"
proof -
  let ?t = "ts ! i" and ?k = "StoreKeyForNode (rt_node (ts ! i))"
  obtain m s' where g: "Store_GetOrInit ?k s = (m, s')" by fastforce
  let ?m = "setValue (rt_type ?t) v now m"
  have "run_step (ts, s) (ts[i := ?t\<lparr>rt_pc := Fetched v\<rparr>], s)"
    using assms by (rule Fetch)
  moreover have "run_step (ts[i := ?t\<lparr>rt_pc := Fetched v\<rparr>], s) (ts[i := ?t\<lparr>rt_pc := Loaded ?m\<rparr>], s')"
    using Load [of i "ts[i := ?t\<lparr>rt_pc := Fetched v\<rparr>]" v s m s' now] assms g by simp
  moreover have "run_step (ts[i := ?t\<lparr>rt_pc := Loaded ?m\<rparr>], s')
      (ts[i := ?t\<lparr>rt_pc := Waiting, rt_done := Suc (rt_done ?t)\<rparr>], Store_Set ?k ?m s')"
    using Write [of i "ts[i := ?t\<lparr>rt_pc := Loaded ?m\<rparr>]" ?m s'] assms by simp
  ultimately have "run_step\<^sup>*\<^sup>* (ts, s)
      (ts[i := ?t\<lparr>rt_pc := Waiting, rt_done := Suc (rt_done ?t)\<rparr>], Store_Set ?k ?m s')"
    by (meson converse_rtranclp_into_rtranclp rtranclp.rtrancl_refl)
  moreover have "?t\<lparr>rt_pc := Waiting, rt_done := Suc (rt_done ?t)\<rparr> = ?t\<lparr>rt_done := Suc (rt_done ?t)\<rparr>"
    using assms(2) by (cases ?t) simp
  ultimately show ?thesis by (simp add: runOnce_def g Let_def)
qed

definition example_threads :: "run_thread list" where
  "example_threads = [\<lparr>rt_node = ''n1'', rt_type = ValueInletTemperature, rt_pc = Waiting, rt_done = 0\<rparr>,
     \<lparr>rt_node = ''n1'', rt_type = ValueDeltaPressure, rt_pc = Waiting, rt_done = 0\<rparr>]"

text \<open>
  Passes that overlap lose a value: from an empty store, the two runners of one node can each
  finish a pass such that the entry has the temperature but not the pressure, which stays at the
  zero time.
\<close>

theorem run_step_lost_update:
  "\<exists>ts s m. run_step\<^sup>*\<^sup>* (example_threads, []) (ts, s) \<and> map rt_done ts = [1, 1] \<and>
     Store_Get s (StoreKeyForNode ''n1'') = Some m \<and>
     md_InletTemp m = Fin 22 \<and> md_InletTempTimestamp m = 7 \<and> md_DeltaPressureTimestamp m = 0"
proof -
  let ?T = "\<lambda>p d. \<lparr>rt_node = ''n1'', rt_type = ValueInletTemperature, rt_pc = p, rt_done = d\<rparr>"
  let ?P = "\<lambda>p d. \<lparr>rt_node = ''n1'', rt_type = ValueDeltaPressure, rt_pc = p, rt_done = d\<rparr>"
  let ?k = "StoreKeyForNode ''n1''"
  let ?mt = "setValue ValueInletTemperature (Fin 22) 7 zeroMetricData"
  let ?s0 = "[(?k, zeroMetricData)]"
  let ?s1 = "runOnce ''n1'' ValueDeltaPressure (Inr (Fin 5)) 8 ?s0"
  have g: "Store_GetOrInit ?k [] = (zeroMetricData, ?s0)"
    by (simp add: Store_GetOrInit_def Store_Get_def Store_Set_def)
  have "run_step (example_threads, []) ([?T (Fetched (Fin 22)) 0, ?P Waiting 0], [])"
    using Fetch [of 0 example_threads "[]" "Fin 22"] by (simp add: example_threads_def)
  moreover have "run_step ([?T (Fetched (Fin 22)) 0, ?P Waiting 0], []) ([?T (Loaded ?mt) 0, ?P Waiting 0], ?s0)"
    using Load [of 0 "[?T (Fetched (Fin 22)) 0, ?P Waiting 0]" "Fin 22" "[]" _ _ 7] g by simp
  moreover have "run_step\<^sup>*\<^sup>* ([?T (Loaded ?mt) 0, ?P Waiting 0], ?s0) ([?T (Loaded ?mt) 0, ?P Waiting 1], ?s1)"
    using run_step_pass [of 1 "[?T (Loaded ?mt) 0, ?P Waiting 0]" ?s0 "Fin 5" 8] by simp
  moreover have "run_step ([?T (Loaded ?mt) 0, ?P Waiting 1], ?s1) ([?T Waiting 1, ?P Waiting 1], Store_Set ?k ?mt ?s1)"
    using Write [of 0 "[?T (Loaded ?mt) 0, ?P Waiting 1]" ?mt ?s1] by simp
  ultimately have "run_step\<^sup>*\<^sup>* (example_threads, []) ([?T Waiting 1, ?P Waiting 1], Store_Set ?k ?mt ?s1)"
    by (meson converse_rtranclp_into_rtranclp rtranclp.rtrancl_into_rtrancl)
  moreover have "md_InletTemp ?mt = Fin 22" "md_InletTempTimestamp ?mt = 7" "md_DeltaPressureTimestamp ?mt = 0"
    by (simp_all add: setValue_def zeroMetricData_def)
  moreover have "map rt_done [?T Waiting 1, ?P Waiting 1] = [1, 1]" by simp
  ultimately show ?thesis by (meson mstore.get_put_same)
qed

section \<open>Lemmas on the collector\<close>

text \<open>Every key has a runner of its own that has not been stopped.\<close>

definition col_inv :: "'a Collector \<Rightarrow> bool" where
  "col_inv c \<longleftrightarrow> wf_map (col_m c) \<and> distinct (map snd (col_m c)) \<and>
     (\<forall>(k, i)\<in>set (col_m c). i < length (col_runners c) \<and> \<not> ar_stopped (col_runners c ! i))"

lemma set_alist_delete: "set (AList.delete k m) = {x \<in> set m. fst x \<noteq> k}"
  by (auto simp: AList.delete_eq)

lemma set_alist_update: "wf_map m \<Longrightarrow> set (AList.update k v m) = insert (k, v) {x \<in> set m. fst x \<noteq> k}"
  by (induction m) force+

lemma distinct_snd_update:
  assumes "wf_map m" "distinct (map snd m)" "v \<notin> snd ` set m"
  shows "distinct (map snd (AList.update k v m))"
  using assms
proof (induction m)
  case (Cons x m)
  obtain k' v' where x: "x = (k', v')" by fastforce
  show ?case
  proof (cases "k' = k")
    case False
    with Cons have "distinct (map snd (AList.update k v m))" "v' \<noteq> v" by (auto simp: x)
    moreover have "v' \<notin> snd ` set (AList.update k v m)"
      using set_update_subset [of k v m] Cons.prems \<open>v' \<noteq> v\<close> by (auto simp: x)
    ultimately show ?thesis using False by (simp add: x)
  qed (use Cons.prems in \<open>auto simp: x\<close>)
qed simp

lemma distinct_snd_delete: "distinct (map snd m) \<Longrightarrow> distinct (map snd (AList.delete k m))"
  by (simp add: AList.delete_eq distinct_map_filter)

lemma col_inv_empty: "col_inv emptyCollector"
  by (simp add: col_inv_def emptyCollector_def)

lemma col_inv_Register:
  assumes "col_inv c"
  shows "col_inv (Register k a n i t c)"
proof -
  from assms have *: "wf_map (col_m c)" "distinct (map snd (col_m c))"
      "\<forall>(k, i)\<in>set (col_m c). i < length (col_runners c) \<and> \<not> ar_stopped (col_runners c ! i)"
    by (auto simp: col_inv_def)
  then have "length (col_runners c) \<notin> snd ` set (col_m c)" by auto
  with * show ?thesis
    unfolding col_inv_def Register_def
    by (auto simp: set_alist_update nth_append newAgentRunner_def intro!: distinct_snd_update)
qed

lemma Unregister_ok:
  assumes "col_inv c"
  shows "Unregister k c = (Inr (), case map_of (col_m c) k of
      None \<Rightarrow> c\<lparr>col_m := AList.delete k (col_m c)\<rparr>
    | Some i \<Rightarrow> c\<lparr>col_m := AList.delete k (col_m c),
        col_runners := (col_runners c)[i := (col_runners c ! i)\<lparr>ar_stopped := True\<rparr>]\<rparr>)"
proof (cases "map_of (col_m c) k")
  case (Some i)
  then have "\<not> ar_stopped (col_runners c ! i)"
    using assms by (auto simp: col_inv_def dest!: map_of_SomeD)
  with Some show ?thesis by (simp add: Unregister_def Stop_def Let_def)
qed (simp add: Unregister_def Let_def)

lemma col_inv_Unregister:
  assumes "col_inv c"
  shows "col_inv (snd (Unregister k c))"
proof (cases "map_of (col_m c) k")
  case None
  with assms show ?thesis
    by (auto simp: Unregister_ok [OF assms] col_inv_def set_alist_delete intro: distinct_snd_delete)
next
  case (Some i)
  then have mem: "(k, i) \<in> set (col_m c)" by (rule map_of_SomeD)
  have "j \<noteq> i" if "(k', j) \<in> set (col_m c)" "k' \<noteq> k" for k' j
    using that mem assms unfolding col_inv_def distinct_map inj_on_def by (metis prod.inject snd_conv)
  then show ?thesis
    using assms Some
    by (fastforce simp: Unregister_ok [OF assms] col_inv_def set_alist_delete nth_list_update_if
        intro: distinct_snd_delete)
qed

text \<open>Any sequence of calls, each seen with its result.\<close>

inductive col_step :: "'a Collector \<Rightarrow> unit result \<Rightarrow> 'a Collector \<Rightarrow> bool" where
  Reg: "col_step c (Inr ()) (Register k a n i t c)"
| Unreg: "Unregister k c = (r, c') \<Longrightarrow> col_step c r c'"

inductive_cases col_stepE: "col_step c r c'"

inductive col_run :: "'a Collector \<Rightarrow> 'a Collector \<Rightarrow> bool" where
  Start: "col_run c c"
| Step: "col_run c c' \<Longrightarrow> col_step c' r c'' \<Longrightarrow> col_run c c''"

lemma col_inv_step: "col_step c r c' \<Longrightarrow> col_inv c \<Longrightarrow> col_inv c'"
  by (erule col_stepE) (simp add: col_inv_Register, metis col_inv_Unregister snd_conv)

lemma col_inv_run: "col_run c c' \<Longrightarrow> col_inv c \<Longrightarrow> col_inv c'"
  by (induction rule: col_run.induct) (auto intro: col_inv_step)

lemma runners_interval:
  assumes "col_run c0 c" "\<forall>r\<in>set (col_runners c0). MinInterval \<le> ar_interval r" "col_inv c0"
  shows "\<forall>r\<in>set (col_runners c). MinInterval \<le> ar_interval r"
  using assms
proof (induction rule: col_run.induct)
  case (Step c c' r c'')
  then have IH: "\<forall>r\<in>set (col_runners c'). MinInterval \<le> ar_interval r" and inv: "col_inv c'"
    by (auto intro: col_inv_run)
  show ?case
    using Step.hyps(2)
  proof (cases rule: col_step.cases)
    case (Unreg k)
    have "\<forall>i<length (col_runners c'). MinInterval \<le> ar_interval (col_runners c' ! i)"
      using IH by simp
    then have "\<forall>i<length (col_runners c''). MinInterval \<le> ar_interval (col_runners c'' ! i)"
      using Unreg by (auto simp: Unregister_ok [OF inv] nth_list_update_if split: option.splits)
    then show ?thesis by (simp add: all_set_conv_all_nth)
  qed (use IH in \<open>auto simp: Register_def newAgentRunner_def\<close>)
qed simp

text \<open>
  C30. The collector never panics: after any sequence of registrations and removals, under any keys
  and with any intervals, no call closes the channel of a runner a second time, and every runner
  started so far had a positive bound for its random initial delay.
\<close>

theorem collector_never_panics:
  assumes "col_run emptyCollector c"
  shows "(\<forall>r c'. col_step c r c' \<longrightarrow> r = Inr ()) \<and>
    (\<forall>r\<in>set (col_runners c). \<exists>d. initialDelay int63n r = Inr d)"
proof -
  have inv: "col_inv c" using assms col_inv_empty by (rule col_inv_run)
  have "MinInterval \<le> ar_interval r" if "r \<in> set (col_runners c)" for r
    using runners_interval [OF assms _ col_inv_empty] that by (simp add: emptyCollector_def)
  then have "\<exists>d. initialDelay int63n r = Inr d" if "r \<in> set (col_runners c)" for r
    using that by (fastforce simp: initialDelay_def MinInterval_def agentRunnerMaxInitialDelay_def Let_def)
  then show ?thesis using inv by (auto elim!: col_stepE simp: Unregister_ok)
qed

definition example_collector :: "string Collector" where
  "example_collector = Register ''ns/nc#delta_p'' ''a'' ''n1'' 5 3 emptyCollector"

lemma example_collector_run: "col_run emptyCollector example_collector"
  unfolding example_collector_def by (rule col_run.Step [OF col_run.Start col_step.Reg])

theorem collector_never_panics_witness:
  "fst (Unregister ''ns/nc#delta_p'' example_collector) = Inr () \<and>
   (\<exists>d. initialDelay id (col_runners example_collector ! 0) = Inr d)"
proof -
  obtain r c' where u: "Unregister ''ns/nc#delta_p'' example_collector = (r, c')" by fastforce
  then have "col_step example_collector r c'" by (rule col_step.Unreg)
  moreover have "col_runners example_collector ! 0 \<in> set (col_runners example_collector)"
    by (simp add: example_collector_def Register_def emptyCollector_def)
  ultimately show ?thesis
    using collector_never_panics [OF example_collector_run, of id] u by (auto simp del: nth_mem)
qed

text \<open>A runner that no key refers to is never stopped.\<close>

definition orphan :: "nat \<Rightarrow> 'a Collector \<Rightarrow> bool" where
  "orphan i c \<longleftrightarrow> i < length (col_runners c) \<and> i \<notin> snd ` set (col_m c) \<and> \<not> ar_stopped (col_runners c ! i)"

lemma orphan_step:
  assumes "col_step c r c'" "col_inv c" "orphan i c"
  shows "orphan i c'"
  using assms(1)
proof (cases rule: col_step.cases)
  case (Reg k a n iv t)
  have "snd ` set (AList.update k (length (col_runners c)) (col_m c)) \<subseteq> insert (length (col_runners c)) (snd ` set (col_m c))"
    using set_update_subset by fastforce
  with Reg assms(3) show ?thesis by (auto simp: orphan_def Register_def nth_append)
next
  case (Unreg k)
  with assms(2,3) show ?thesis
    by (auto simp: Unregister_ok orphan_def set_alist_delete image_iff nth_list_update_if
        split: option.splits dest!: map_of_SomeD)
qed

lemma orphan_run: "col_run c c' \<Longrightarrow> col_inv c \<Longrightarrow> orphan i c \<Longrightarrow> orphan i c'"
  by (induction rule: col_run.induct) (auto intro: orphan_step col_inv_run)

lemma orphan_Register:
  assumes "col_inv c" "map_of (col_m c) k = Some i"
  shows "orphan i (Register k a n iv t c)"
proof -
  have mem: "(k, i) \<in> set (col_m c)" using assms(2) by (rule map_of_SomeD)
  have "k' = k" if "(k', i) \<in> set (col_m c)" for k'
    using that mem assms(1) unfolding col_inv_def distinct_map inj_on_def by (metis prod.inject snd_conv)
  then have "i \<notin> snd ` {x \<in> set (col_m c). fst x \<noteq> k}" by auto
  moreover have "i < length (col_runners c)" "\<not> ar_stopped (col_runners c ! i)" "wf_map (col_m c)"
    using mem assms(1) by (auto simp: col_inv_def)
  ultimately show ?thesis
    by (simp add: orphan_def Register_def nth_append set_alist_update)
qed

end
