(* ===== verification/Http_Agents.thy ===== *)
theory Http_Agents
  imports Metric_Collector
begin

text \<open>
  The HTTP side of the metrics adapter: request editors and secrets (\<open>pkg/util/http.go\<close>), the
  sensors behind the differential pressure API (\<open>metrics/dpapi/agent.go\<close>) and behind Redfish
  (\<open>metrics/redfish/agent.go\<close>), and the fake agents (\<open>metrics/fake/agent.go\<close>). Building URLs and
  requests, the network and the JSON decoders are the fields of \<open>http_env\<close>; a context that ends
  during a request is an error of \<open>he_Do\<close>. Logging requests as curl commands has no effect on them.
\<close>

section \<open>Requests\<close>

record HttpRequest =
  rq_Method :: string
  rq_URL :: string
  rq_Body :: string
  rq_BasicAuth :: "(string \<times> string) option"

record HttpResponse =
  rs_StatusCode :: int
  rs_Status :: string
  rs_Body :: string

record http_env =
  he_JoinPath :: "string \<Rightarrow> string list \<Rightarrow> string result"
  he_NewRequest :: "string \<Rightarrow> string \<Rightarrow> string \<Rightarrow> HttpRequest result"
  he_Do :: "HttpRequest \<Rightarrow> HttpResponse result"

type_synonym RequestEditorFn = "HttpRequest \<Rightarrow> HttpRequest result"

definition WithBasicAuth :: "string \<Rightarrow> string \<Rightarrow> RequestEditorFn" where
  "WithBasicAuth username password req =
     Inr (if username \<noteq> [] \<and> password \<noteq> [] then req\<lparr>rq_BasicAuth := Some (username, password)\<rparr> else req)"

definition WithCurlLogger :: RequestEditorFn where
  "WithCurlLogger req = Inr req"

fun apply_editors :: "RequestEditorFn list \<Rightarrow> HttpRequest \<Rightarrow> HttpRequest result" where
  "apply_editors [] req = Inr req"
| "apply_editors (f # fs) req = (case f req of
     Inl e \<Rightarrow> Inl (Wrap ''editorFns got error'' e)
   | Inr req \<Rightarrow> apply_editors fs req)"

text \<open>The secret of a reference, by namespace and name; any error means no credentials.\<close>

definition GetBasicAuthFromNamespaceScopedSecret ::
  "(string \<Rightarrow> string \<Rightarrow> (string, string) gomap result) \<Rightarrow> string \<Rightarrow> string option \<Rightarrow> string \<times> string" where
  "GetBasicAuthFromNamespaceScopedSecret getSecret namespace ref = (case ref of
     None \<Rightarrow> ([], [])
   | Some name \<Rightarrow>
      if name = [] then ([], [])
      else (case getSecret namespace name of
              Inl _ \<Rightarrow> ([], [])
            | Inr data \<Rightarrow> (get_or [] data ''username'', get_or [] data ''password'')))"

text \<open>What every client does: build the request, edit it, send it, decode a response with status 200.\<close>

definition StatusOK :: int where
  "StatusOK = 200"

definition request ::
  "http_env \<Rightarrow> string \<Rightarrow> string result \<Rightarrow> string \<Rightarrow> string \<Rightarrow> RequestEditorFn list \<Rightarrow> (string \<Rightarrow> 'a result) \<Rightarrow> 'a result" where
  "request env method url urlErr body editorFns decode = (case url of
     Inl e \<Rightarrow> Inl (Wrap urlErr e)
   | Inr u \<Rightarrow> (case he_NewRequest env method u body of
     Inl e \<Rightarrow> Inl (Wrap ''unable to create HTTP request'' e)
   | Inr req \<Rightarrow> (case apply_editors editorFns req of
     Inl e \<Rightarrow> Inl e
   | Inr req \<Rightarrow> (case he_Do env req of
     Inl e \<Rightarrow> Inl (Wrap ''unable to send HTTP request'' e)
   | Inr resp \<Rightarrow>
       if rs_StatusCode resp = StatusOK
       then (case decode (rs_Body resp) of Inl e \<Rightarrow> Inl (Wrap ''could not decode resp'' e) | Inr r \<Rightarrow> Inr r)
       else Inl (Errorf (''HTTP status='' @ rs_Status resp))))))"

section \<open>The differential pressure API\<close>

record DeltaPAgent =
  dp_address :: string
  dp_sensorName :: string
  dp_nodeName :: string
  dp_nodeIP :: string
  dp_timeout :: int
  dp_editorFns :: "RequestEditorFn list"

definition NewDeltaPAgent ::
  "string \<Rightarrow> string \<Rightarrow> string \<Rightarrow> string \<Rightarrow> int \<Rightarrow> RequestEditorFn list \<Rightarrow> DeltaPAgent" where
  "NewDeltaPAgent address sensorName nodeName nodeIP timeout editorFns =
     \<lparr>dp_address = address, dp_sensorName = sensorName, dp_nodeName = nodeName, dp_nodeIP = nodeIP,
      dp_timeout = timeout, dp_editorFns = editorFns\<rparr>"

definition DeltaP_Endpoint :: "http_env \<Rightarrow> DeltaPAgent \<Rightarrow> string result" where
  "DeltaP_Endpoint env a =
     (if dp_sensorName a \<noteq> [] then he_JoinPath env (dp_address a) [''api'', ''sensor'', dp_sensorName a]
      else if dp_nodeName a \<noteq> [] then he_JoinPath env (dp_address a) [''api'', ''sensor'', ''by_nodename'', dp_nodeName a]
      else if dp_nodeIP a \<noteq> [] then he_JoinPath env (dp_address a) [''api'', ''sensor'', ''by_nodeaddress'', dp_nodeIP a]
      else Inl (Errorf ''could not construct endpoint''))"

record sensorValue =
  sv_SensorID :: string
  sv_Pressure :: f64
  sv_Temperature :: f64

record differentialPressureAPIResponse =
  dr_StatusCode :: int
  dr_Sensors :: "sensorValue list"

definition GetSensorValue ::
  "http_env \<Rightarrow> (string \<Rightarrow> differentialPressureAPIResponse result) \<Rightarrow> DeltaPAgent \<Rightarrow> sensorValue result" where
  "GetSensorValue env decode a =
     (case request env ''GET'' (DeltaP_Endpoint env a) ''unable to get endpoint URL'' [] (dp_editorFns a) decode of
        Inl e \<Rightarrow> Inl e
      | Inr apiResp \<Rightarrow>
          (case dr_Sensors apiResp of [] \<Rightarrow> Inl (Errorf ''invalid response'') | s # _ \<Rightarrow> Inr s))"

definition DeltaP_Fetch ::
  "http_env \<Rightarrow> (string \<Rightarrow> differentialPressureAPIResponse result) \<Rightarrow> DeltaPAgent \<Rightarrow> f64 result" where
  "DeltaP_Fetch env decode a = (case GetSensorValue env decode a of Inl e \<Rightarrow> Inl e | Inr v \<Rightarrow> Inr (sv_Pressure v))"

section \<open>Redfish\<close>

definition TypeDelliDRAC :: string where "TypeDelliDRAC = ''iDRAC''"

definition TypeLenovoXClarity :: string where "TypeLenovoXClarity = ''XClarity''"

definition TypeSupermicroSSM :: string where "TypeSupermicroSSM = ''SSM''"

definition TypeAutoDetect :: string where "TypeAutoDetect = []"

text \<open>The decoders of the three responses: a reading, a named reading, a list of named readings.\<close>

record redfish_json =
  rj_Dell :: "string \<Rightarrow> f64 result"
  rj_Lenovo :: "string \<Rightarrow> (string \<times> f64) result"
  rj_Supermicro :: "string \<Rightarrow> (string \<times> f64) list result"

definition GetInletTempForTypeDelliDRAC ::
  "http_env \<Rightarrow> redfish_json \<Rightarrow> string \<Rightarrow> RequestEditorFn list \<Rightarrow> f64 result" where
  "GetInletTempForTypeDelliDRAC env json server editorFns =
     request env ''GET''
       (he_JoinPath env server [''redfish/v1/Chassis/System.Embedded.1/Sensors/SystemBoardInletTemp''])
       ''could not build URL'' [] editorFns (rj_Dell json)"

definition GetInletTempForTypeLenovoXClarity ::
  "http_env \<Rightarrow> redfish_json \<Rightarrow> string \<Rightarrow> RequestEditorFn list \<Rightarrow> f64 result" where
  "GetInletTempForTypeLenovoXClarity env json server editorFns =
     (case request env ''GET'' (he_JoinPath env server [''redfish/v1/Chassis/1/Sensors/'', ''128L0''])
             ''could not build URL'' [] editorFns (rj_Lenovo json) of
        Inl e \<Rightarrow> Inl e
      | Inr (name, reading) \<Rightarrow>
          if name \<noteq> ''Ambient Temp'' then Inl (Errorf ''sensor name'') else Inr reading)"

definition GetInletTempForTypeSupermicroSSM ::
  "http_env \<Rightarrow> redfish_json \<Rightarrow> string \<Rightarrow> RequestEditorFn list \<Rightarrow> f64 result" where
  "GetInletTempForTypeSupermicroSSM env json server editorFns =
     (case request env ''GET'' (he_JoinPath env server [''redfish/v1/Chassis/1/Thermal''])
             ''could not build URL'' [] editorFns (rj_Supermicro json) of
        Inl e \<Rightarrow> Inl e
      | Inr temperatures \<Rightarrow>
          (case find (\<lambda>(name, c). name = ''System Temp'') temperatures of
             Some (_, c) \<Rightarrow> Inr c
           | None \<Rightarrow> Inl (Errorf ''sensor not found'')))"

definition GetInletTempFns ::
  "http_env \<Rightarrow> redfish_json \<Rightarrow> (string, string \<Rightarrow> RequestEditorFn list \<Rightarrow> f64 result) gomap" where
  "GetInletTempFns env json =
     [(TypeDelliDRAC, GetInletTempForTypeDelliDRAC env json),
      (TypeLenovoXClarity, GetInletTempForTypeLenovoXClarity env json),
      (TypeSupermicroSSM, GetInletTempForTypeSupermicroSSM env json)]"

record InletTempAgent =
  it_address :: string
  it_serverType :: string
  it_timeout :: int
  it_editorFns :: "RequestEditorFn list"

definition NewInletTempAgent :: "string \<Rightarrow> string \<Rightarrow> int \<Rightarrow> RequestEditorFn list \<Rightarrow> InletTempAgent" where
  "NewInletTempAgent address serverType timeout editorFns =
     \<lparr>it_address = address, it_serverType = serverType, it_timeout = timeout, it_editorFns = editorFns\<rparr>"

text \<open>
  With a known server type only its function is called. Otherwise all functions run at once; \<open>order\<close>
  is the order in which they finish, the first result decides the type for later calls.
\<close>

definition InletTemp_Fetch ::
  "http_env \<Rightarrow> redfish_json \<Rightarrow> string list \<Rightarrow> (InletTempAgent, f64) call" where
  "InletTemp_Fetch env json order a =
     (let fns = GetInletTempFns env json in
      case map_of fns (it_serverType a) of
        Some fn \<Rightarrow> (fn (it_address a) (it_editorFns a), a)
      | None \<Rightarrow>
          (let answers = map (\<lambda>st. (st, the (map_of fns st) (it_address a) (it_editorFns a))) order;
               resultCh = [(st, v). (st, Inr v) \<leftarrow> answers]
           in case resultCh of
                (st, v) # _ \<Rightarrow> (Inr v, a\<lparr>it_serverType := st\<rparr>)
              | [] \<Rightarrow> (Inl (Errorf ''all GetSensorValueFuncs got error''), a)))"

section \<open>Fakes\<close>

record FakeAgent =
  fa_Type :: string
  fa_Value :: f64
  fa_Error :: "goerr option"
  fa_Delay :: int

text \<open>\<open>ctxErr\<close> is the context's error when it ends before the delay is over.\<close>

definition FakeAgent_Fetch :: "goerr option \<Rightarrow> FakeAgent \<Rightarrow> f64 result" where
  "FakeAgent_Fetch ctxErr a = (case ctxErr of
     Some e \<Rightarrow> Inl e
   | None \<Rightarrow> (case fa_Error a of Some e \<Rightarrow> Inl e | None \<Rightarrow> Inr (fa_Value a)))"

section \<open>Lemmas\<close>

lemma known_types: "dom (map_of (GetInletTempFns env json)) = {TypeDelliDRAC, TypeLenovoXClarity, TypeSupermicroSSM}"
  by (auto simp: GetInletTempFns_def)

lemma first_result:
  "(case [(st, v). (st, Inr v) \<leftarrow> map (\<lambda>st. (st, g st)) order] of
      (st, v) # _ \<Rightarrow> (Inr v, a\<lparr>it_serverType := st\<rparr>)
    | [] \<Rightarrow> (Inl e, a)) = (r, a') \<Longrightarrow>
   (case r of
      Inl _ \<Rightarrow> a' = a \<and> (\<forall>st\<in>set order. isErr (g st))
    | Inr v \<Rightarrow> \<exists>st\<in>set order. g st = Inr v \<and> a' = a\<lparr>it_serverType := st\<rparr>)"
  by (induction order) (auto simp: isErr_def split: sum.splits)

text \<open>
  Detecting the type of a Redfish server is sound whatever order the three attempts finish in:
  an error means that every attempt failed and the type stays open; a value comes from one of the
  three functions, its type is kept, and from then on every fetch asks that function alone.
\<close>

theorem InletTemp_Fetch_detects:
  assumes "it_serverType a \<notin> {TypeDelliDRAC, TypeLenovoXClarity, TypeSupermicroSSM}"
    and "set order = {TypeDelliDRAC, TypeLenovoXClarity, TypeSupermicroSSM}"
    and "InletTemp_Fetch env json order a = (r, a')"
  shows "case r of
      Inl _ \<Rightarrow> a' = a \<and> (\<forall>st fn. map_of (GetInletTempFns env json) st = Some fn \<longrightarrow> isErr (fn (it_address a) (it_editorFns a)))
    | Inr v \<Rightarrow> \<exists>st fn. map_of (GetInletTempFns env json) st = Some fn \<and> fn (it_address a) (it_editorFns a) = Inr v \<and>
        a' = a\<lparr>it_serverType := st\<rparr> \<and>
        (\<forall>env' order'. \<exists>fn'. map_of (GetInletTempFns env' json) st = Some fn' \<and>
           InletTemp_Fetch env' json order' a' = (fn' (it_address a) (it_editorFns a), a'))"
proof -
  let ?fns = "GetInletTempFns env json"
  let ?g = "\<lambda>st. the (map_of ?fns st) (it_address a) (it_editorFns a)"
  have known: "st \<in> set order \<longleftrightarrow> (\<exists>fn. map_of (GetInletTempFns env' json) st = Some fn)" for st env'
    using known_types [of env' json] assms(2) by (metis domIff not_None_eq)
  have none: "map_of ?fns (it_serverType a) = None"
    using known_types [of env json] assms(1) by (metis domIff)
  have first: "case r of
      Inl _ \<Rightarrow> a' = a \<and> (\<forall>st\<in>set order. isErr (?g st))
    | Inr v \<Rightarrow> \<exists>st\<in>set order. ?g st = Inr v \<and> a' = a\<lparr>it_serverType := st\<rparr>"
    using assms(3) none by (intro first_result) (simp add: InletTemp_Fetch_def Let_def)
  show ?thesis
  proof (cases r)
    case (Inl e)
    with first have "a' = a" and err: "\<And>st. st \<in> set order \<Longrightarrow> isErr (?g st)" by auto
    moreover have "isErr (fn (it_address a) (it_editorFns a))" if "map_of ?fns st = Some fn" for st fn
      using err [of st] known [of st env] that by simp
    ultimately show ?thesis using Inl by simp
  next
    case (Inr v)
    with first obtain st where st: "st \<in> set order" "?g st = Inr v" "a' = a\<lparr>it_serverType := st\<rparr>" by auto
    have "\<exists>fn'. map_of (GetInletTempFns env' json) st = Some fn' \<and>
        InletTemp_Fetch env' json order' a' = (fn' (it_address a) (it_editorFns a), a')" for env' order'
      using st(1,3) known [of st env'] by (auto simp: InletTemp_Fetch_def Let_def)
    moreover obtain fn where "map_of ?fns st = Some fn" using st(1) known by blast
    ultimately show ?thesis using st(2,3) unfolding Inr sum.case
      by (intro exI [of _ st] exI [of _ fn]) simp
  qed
qed

definition example_http :: http_env where
  "example_http = \<lparr>he_JoinPath = (\<lambda>base elems. Inr (base @ concat (map (\<lambda>e. ''/'' @ e) elems))),
     he_NewRequest = (\<lambda>m u b. Inr \<lparr>rq_Method = m, rq_URL = u, rq_Body = b, rq_BasicAuth = None\<rparr>),
     he_Do = (\<lambda>req. Inr \<lparr>rs_StatusCode = (if rq_URL req = ''http://n/redfish/v1/Chassis/1/Thermal'' then 200 else 404),
        rs_Status = ''status'', rs_Body = ''body''\<rparr>)\<rparr>"

definition example_json :: redfish_json where
  "example_json = \<lparr>rj_Dell = (\<lambda>_. Inr (Fin 0)), rj_Lenovo = (\<lambda>_. Inr ([], Fin 0)),
     rj_Supermicro = (\<lambda>_. Inr [(''CPU Temp'', Fin 50), (''System Temp'', Fin 23)])\<rparr>"

theorem InletTemp_Fetch_detects_witness:
  "\<exists>a'. InletTemp_Fetch example_http example_json [TypeSupermicroSSM, TypeLenovoXClarity, TypeDelliDRAC]
      (NewInletTempAgent ''http://n'' TypeAutoDetect 3 [WithCurlLogger]) = (Inr (Fin 23), a') \<and>
    (\<forall>env' order'. \<exists>fn'. InletTemp_Fetch env' example_json order' a' = (fn' ''http://n'' [WithCurlLogger], a'))"
proof -
  let ?a = "NewInletTempAgent ''http://n'' TypeAutoDetect 3 [WithCurlLogger]"
  obtain r a' where f: "InletTemp_Fetch example_http example_json [TypeSupermicroSSM, TypeLenovoXClarity, TypeDelliDRAC] ?a = (r, a')"
    by fastforce
  have "fst (InletTemp_Fetch example_http example_json [TypeSupermicroSSM, TypeLenovoXClarity, TypeDelliDRAC] ?a) = Inr (Fin 23)"
    by code_simp
  then have r: "r = Inr (Fin 23)" using f by simp
  have "it_serverType ?a \<notin> {TypeDelliDRAC, TypeLenovoXClarity, TypeSupermicroSSM}" by code_simp
  moreover have "set [TypeSupermicroSSM, TypeLenovoXClarity, TypeDelliDRAC] = {TypeDelliDRAC, TypeLenovoXClarity, TypeSupermicroSSM}"
    by auto
  ultimately have "\<forall>env' order'. \<exists>fn'. InletTemp_Fetch env' example_json order' a' = (fn' ''http://n'' [WithCurlLogger], a')"
    using InletTemp_Fetch_detects [OF _ _ f] by (force simp: r NewInletTempAgent_def)
  with r f show ?thesis by blast
qed

end
