(* ===== verification/Predictors.thy ===== *)
theory Predictors
  imports Http_Agents
begin

text \<open>
  Power predictors and the services that tell where they are: \<open>wao-metrics-adapter/pkg/predictor\<close>
  with its implementations \<open>v2inferenceprotocol\<close> (a model server), \<open>redfish\<close> (the node's
  management controller names the model) and \<open>fake\<close>, and \<open>fromnodeconfig\<close>, which chooses one from
  an \<open>EndpointTerm\<close>. URLs, requests, the network and JSON are parameters, \<open>url.Parse\<close> gives the
  scheme and the host; the OpenAPI client is generated code and a parameter too.
\<close>

definition TypePowerConsumption :: string where
  "TypePowerConsumption = ''PowerConsumption''"

definition TypeResponseTime :: string where
  "TypeResponseTime = ''ResponseTime''"

section \<open>The V2 inference protocol\<close>

record PowerConsumptionPredictor =
  pcp_address :: string
  pcp_modelName :: string
  pcp_modelVersion :: string
  pcp_timeout :: int
  pcp_editorFns :: "RequestEditorFn list"

definition Predictor_Endpoint :: "http_env \<Rightarrow> PowerConsumptionPredictor \<Rightarrow> string result" where
  "Predictor_Endpoint env p =
     (if pcp_modelVersion p = []
      then he_JoinPath env (pcp_address p) [''v2/models'', pcp_modelName p, ''infer'']
      else he_JoinPath env (pcp_address p) [''v2/models'', pcp_modelName p, ''versions'', pcp_modelVersion p, ''infer''])"

record inferInput =
  ii_Name :: string
  ii_Shape :: "int list"
  ii_Datatype :: string
  ii_Data :: "f32 list list"

definition InferPowerConsumptionRequestInputName :: string where
  "InferPowerConsumptionRequestInputName = ''predict-prob''"

definition newInferPowerConsumptionRequest :: "f64 \<Rightarrow> f64 \<Rightarrow> f64 \<Rightarrow> inferInput list" where
  "newInferPowerConsumptionRequest cpuUsage ambientTemp staticPressureDiff =
     [\<lparr>ii_Name = InferPowerConsumptionRequestInputName, ii_Shape = [1, 3], ii_Datatype = ''FP32'',
       ii_Data = [[f32_of_f64 cpuUsage, f32_of_f64 ambientTemp, f32_of_f64 staticPressureDiff]]\<rparr>]"

text \<open>\<open>marshal\<close> writes a request, \<open>unmarshal\<close> reads the \<open>data\<close> lists of a response's outputs.\<close>

record v2_json =
  vj_marshal :: "inferInput list \<Rightarrow> string result"
  vj_unmarshal :: "string \<Rightarrow> f64 list list result"

definition Predict ::
  "http_env \<Rightarrow> v2_json \<Rightarrow> PowerConsumptionPredictor \<Rightarrow> f64 \<Rightarrow> f64 \<Rightarrow> f64 \<Rightarrow> f64 result" where
  "Predict env json p cpuUsage inletTemp deltaP = (case Predictor_Endpoint env p of
     Inl e \<Rightarrow> Inl (Wrap ''unable to get endpoint URL'' e)
   | Inr url \<Rightarrow> (case vj_marshal json (newInferPowerConsumptionRequest cpuUsage inletTemp deltaP) of
     Inl e \<Rightarrow> Inl (Wrap ''unable to marshal the request'' e)
   | Inr body \<Rightarrow> (case request env ''POST'' (Inr url) [] body (pcp_editorFns p) (vj_unmarshal json) of
     Inl e \<Rightarrow> Inl e
   | Inr outputs \<Rightarrow> (case outputs of
       (v # _) # _ \<Rightarrow> Inr v
     | _ \<Rightarrow> Inl (Errorf ''invalid response'')))))"

section \<open>Redfish as endpoint provider\<close>

record EndpointProvider =
  ep_address :: string
  ep_timeout :: int
  ep_editorFns :: "RequestEditorFn list"

definition getSystemID ::
  "http_env \<Rightarrow> (string \<Rightarrow> string list result) \<Rightarrow> EndpointProvider \<Rightarrow> string result" where
  "getSystemID env decodeMembers p =
     (case he_JoinPath env (ep_address p) [''redfish/v1/Systems''] of
        Inl e \<Rightarrow> Inl e
      | Inr u \<Rightarrow> (case request env ''GET'' (Inr u) [] [] (ep_editorFns p) decodeMembers of
          Inl e \<Rightarrow> Inl e
        | Inr [] \<Rightarrow> Inl (Errorf ''invalid response'')
        | Inr (odataID # _) \<Rightarrow> Inr (last (split_on CHR ''/'' odataID))))"

record mlModel =
  mm_Type :: "string option"
  mm_Url :: "string option"
  mm_Name :: "string option"
  mm_Version :: "string option"

record MachineLearningModel =
  ml_PowerConsumptionModel :: "mlModel option"
  ml_ResponseTimeModel :: "mlModel option"

text \<open>The generated client: a status code and, for 200 with a JSON body, the models.\<close>

type_synonym openapi = "string \<Rightarrow> RequestEditorFn list \<Rightarrow> (int \<times> MachineLearningModel option) result"

definition GetModels ::
  "http_env \<Rightarrow> (string \<Rightarrow> string list result) \<Rightarrow> openapi \<Rightarrow> EndpointProvider \<Rightarrow> MachineLearningModel option result" where
  "GetModels env decodeMembers api p = (case getSystemID env decodeMembers p of
     Inl e \<Rightarrow> Inl e
   | Inr systemID \<Rightarrow> (case api systemID (ep_editorFns p) of
       Inl e \<Rightarrow> Inl e
     | Inr (code, json200) \<Rightarrow>
         if code = StatusOK then Inr json200
         else if code \<in> {401, 403, 404, 405, 406, 500} then Inl (Errorf ''code'')
         else Inl (Errorf ''code (unexpected)'')))"

fun modelFields :: "mlModel option \<Rightarrow> (string \<times> string \<times> string \<times> string) option" where
  "modelFields (Some \<lparr>mm_Type = Some t, mm_Url = Some u, mm_Name = Some n, mm_Version = Some v\<rparr>) = Some (t, u, n, v)"
| "modelFields _ = None"

text \<open>A 200 without a JSON body gives a nil pointer, which is dereferenced.\<close>

definition Provider_Get ::
  "http_env \<Rightarrow> (string \<Rightarrow> string list result) \<Rightarrow> openapi \<Rightarrow> EndpointProvider \<Rightarrow> string \<Rightarrow> EndpointTerm result" where
  "Provider_Get env decodeMembers api p predictorType = (case GetModels env decodeMembers api p of
     Inl e \<Rightarrow> Inl e
   | Inr models \<Rightarrow>
      (let finish = (\<lambda>field. case models of None \<Rightarrow> Inl (Panic ''models'') | Some ms \<Rightarrow>
             (case modelFields (field ms) of
                None \<Rightarrow> Inl (Errorf ''invalid model'')
              | Some (t, u, n, v) \<Rightarrow>
                  (case he_JoinPath env u [''v2/models'', n, ''versions'', v, ''infer''] of
                     Inl e \<Rightarrow> Inl e
                   | Inr ep \<Rightarrow> Inr \<lparr>et_Type = t, et_Endpoint = ep, et_BasicAuthSecret = None, et_FetchInterval = None\<rparr>)))
       in if predictorType = TypePowerConsumption then finish ml_PowerConsumptionModel
          else if predictorType = TypeResponseTime then finish ml_ResponseTimeModel
          else Inl (Errorf ''unknown predictorType'')))"

section \<open>Fakes\<close>

record FakeEndpointProvider =
  fe_EndpointValue :: string
  fe_GetValue :: EndpointTerm
  fe_GetError :: "goerr option"
  fe_GetDelay :: int

definition FakeEndpointProvider_Get :: "goerr option \<Rightarrow> FakeEndpointProvider \<Rightarrow> EndpointTerm result" where
  "FakeEndpointProvider_Get ctxErr p = (case ctxErr of
     Some e \<Rightarrow> Inl e
   | None \<Rightarrow> (case fe_GetError p of Some e \<Rightarrow> Inl e | None \<Rightarrow> Inr (fe_GetValue p)))"

record FakePowerConsumptionPredictor =
  fp_EndpointValue :: string
  fp_PredictValue :: f64
  fp_PredictError :: "goerr option"
  fp_PredictDelay :: int

definition FakePowerConsumptionPredictor_Predict ::
  "goerr option \<Rightarrow> FakePowerConsumptionPredictor \<Rightarrow> f64 result" where
  "FakePowerConsumptionPredictor_Predict ctxErr p = (case ctxErr of
     Some e \<Rightarrow> Inl e
   | None \<Rightarrow> (case fp_PredictError p of Some e \<Rightarrow> Inl e | None \<Rightarrow> Inr (fp_PredictValue p)))"

section \<open>The choice by the NodeConfig\<close>

datatype provider = FakeProvider FakeEndpointProvider | RedfishProvider EndpointProvider

datatype predictor = FakePredictor FakePowerConsumptionPredictor | V2Predictor PowerConsumptionPredictor

text \<open>50 milliseconds, 3 seconds.\<close>

definition newEndpointProvider ::
  "string \<Rightarrow> string \<Rightarrow> string \<Rightarrow> string \<Rightarrow> int \<Rightarrow> (string \<Rightarrow> unit result) \<Rightarrow> provider result" where
  "newEndpointProvider endpointType endpoint username password requestTimeout newClient =
     (if endpointType = TypeFake then
        Inr (FakeProvider \<lparr>fe_EndpointValue = endpoint,
          fe_GetValue = emptyEndpointTerm\<lparr>et_Type := TypeFake, et_Endpoint := ''https://fake-endpoint''\<rparr>,
          fe_GetError = None, fe_GetDelay = 50 * 10 ^ 6\<rparr>)
      else if endpointType = TypeRedfish then
        (case newClient endpoint of
           Inl e \<Rightarrow> Inl e
         | Inr _ \<Rightarrow> Inr (RedfishProvider \<lparr>ep_address = endpoint, ep_timeout = requestTimeout,
             ep_editorFns = [WithBasicAuth username password, WithCurlLogger]\<rparr>))
      else Inl (Errorf ''unknown endpoint type''))"

text \<open>The loop over the segments of the URL: the one after the last \<open>models\<close>, the one after the last \<open>versions\<close>.\<close>

fun modelOf :: "string list \<Rightarrow> string \<times> string \<Rightarrow> string \<times> string" where
  "modelOf (s # s' # ss) (name, version) =
     modelOf (s' # ss) (if s = ''models'' then s' else name, if s = ''versions'' then s' else version)"
| "modelOf _ mv = mv"

definition newPowerConsumptionPredictor ::
  "(string \<Rightarrow> (string \<times> string) result) \<Rightarrow> string \<Rightarrow> string \<Rightarrow> string \<Rightarrow> string \<Rightarrow> int \<Rightarrow> predictor result" where
  "newPowerConsumptionPredictor urlParse endpointType endpoint username password requestTimeout =
     (if endpointType = TypeFake then
        Inr (FakePredictor \<lparr>fp_EndpointValue = endpoint, fp_PredictValue = f64_round (314 / 100),
          fp_PredictError = None, fp_PredictDelay = 50 * 10 ^ 6\<rparr>)
      else if endpointType = TypeV2InferenceProtocol then
        (case urlParse endpoint of
           Inl e \<Rightarrow> Inl e
         | Inr (scheme, host) \<Rightarrow>
             (let (modelName, modelVersion) = modelOf (split_on CHR ''/'' endpoint) ([], []) in
              if modelName = [] then Inl (Errorf ''model name is not specified'')
              else Inr (V2Predictor \<lparr>pcp_address = scheme @ ''://'' @ host, pcp_modelName = modelName,
                pcp_modelVersion = modelVersion, pcp_timeout = requestTimeout,
                pcp_editorFns = [WithBasicAuth username password, WithCurlLogger]\<rparr>)))
      else Inl (Errorf ''unknown endpoint type''))"

definition requestTimeout3s :: int where
  "requestTimeout3s = 3 * 10 ^ 9"

definition NewEndpointProvider where
  "NewEndpointProvider getSecret newClient namespace et =
     (let (username, password) = GetBasicAuthFromNamespaceScopedSecret getSecret namespace (et_BasicAuthSecret et)
      in newEndpointProvider (et_Type et) (et_Endpoint et) username password requestTimeout3s newClient)"

definition NewPowerConsumptionPredictor where
  "NewPowerConsumptionPredictor getSecret urlParse namespace et =
     (let (username, password) = GetBasicAuthFromNamespaceScopedSecret getSecret namespace (et_BasicAuthSecret et)
      in newPowerConsumptionPredictor urlParse (et_Type et) (et_Endpoint et) username password requestTimeout3s)"

section \<open>Properties\<close>

lemma split_on_join: "split_on c (xs @ c # ys) = split_on c xs @ split_on c ys"
proof (induction xs)
  case (Cons x xs)
  obtain w ws where "split_on c xs = w # ws" using split_on_nonempty by (metis list.exhaust)
  with Cons show ?case by simp
qed simp

lemma modelOf_infer:
  assumes "n \<notin> {''models'', ''versions''}" "v \<notin> {''models'', ''versions''}"
  shows "modelOf (pre @ [''v2'', ''models'', n, ''versions'', v, ''infer'']) mv = (n, v)"
proof (induction pre arbitrary: mv)
  case Nil
  show ?case using assms by (cases mv) simp
next
  case (Cons s pre)
  obtain s' ss where "pre @ [''v2'', ''models'', n, ''versions'', v, ''infer''] = s' # ss" by (cases pre) simp_all
  then show ?case using Cons by (cases mv) simp
qed

text \<open>
  C33. What becomes of the URL a Redfish provider reports: when the management controller names a V2 model with the URL \<open>u\<close>, the provider
  reports \<open>u\<close> followed by the path of the model, and the predictor made from the reported term finds name and version again, whatever
  segments \<open>u\<close> has, and sends its requests to that path under the scheme and host of \<open>u\<close>. So requests go to the reported URL if and only if \<open>u\<close> is
  a bare scheme and host; a path of \<open>u\<close> itself is dropped. Assumed is that name and version are not empty, have no slash and are not the words
  \<open>models\<close> or \<open>versions\<close>, and that the URL functions behave as documented on these texts: joining appends the segments, parsing gives scheme and host.
\<close>

theorem Provider_predictor_roundtrip:
  fixes env :: http_env
  assumes "GetModels env decodeMembers api p = Inr (Some models)"
    and "modelFields (ml_PowerConsumptionModel models) = Some (TypeV2InferenceProtocol, u, n, v)"
    and "he_JoinPath env u [''v2/models'', n, ''versions'', v, ''infer''] = Inr (u @ ''/v2/models/'' @ n @ ''/versions/'' @ v @ ''/infer'')"
    and "urlParse (u @ ''/v2/models/'' @ n @ ''/versions/'' @ v @ ''/infer'') = Inr (scheme, host)"
    and "he_JoinPath env (scheme @ ''://'' @ host) [''v2/models'', n, ''versions'', v, ''infer''] =
      Inr ((scheme @ ''://'' @ host) @ ''/v2/models/'' @ n @ ''/versions/'' @ v @ ''/infer'')"
    and "CHR ''/'' \<notin> set n" "CHR ''/'' \<notin> set v" "n \<notin> {[], ''models'', ''versions''}" "v \<notin> {[], ''models'', ''versions''}"
  shows "\<exists>et pred. Provider_Get env decodeMembers api p TypePowerConsumption = Inr et \<and>
    et_Endpoint et = u @ ''/v2/models/'' @ n @ ''/versions/'' @ v @ ''/infer'' \<and>
    NewPowerConsumptionPredictor getSecret urlParse ns et = Inr (V2Predictor pred) \<and>
    pcp_modelName pred = n \<and> pcp_modelVersion pred = v \<and>
    Predictor_Endpoint env pred = Inr ((scheme @ ''://'' @ host) @ ''/v2/models/'' @ n @ ''/versions/'' @ v @ ''/infer'') \<and>
    (Predictor_Endpoint env pred = Inr (et_Endpoint et) \<longleftrightarrow> u = scheme @ ''://'' @ host)"
proof -
  let ?path = "''/v2/models/'' @ n @ ''/versions/'' @ v @ ''/infer''"
  have "split_on CHR ''/'' (u @ ?path) = split_on CHR ''/'' u @ [''v2'', ''models'', n, ''versions'', v, ''infer'']"
    using assms(6,7) split_on_join [of "CHR ''/''" u "''v2/models/'' @ n @ ''/versions/'' @ v @ ''/infer''"]
    by (simp add: split_on_append split_on_none)
  then have m: "modelOf (split_on CHR ''/'' (u @ ?path)) ([], []) = (n, v)" using modelOf_infer [of n v] assms(8,9) by simp
  let ?et = "\<lparr>et_Type = TypeV2InferenceProtocol, et_Endpoint = u @ ?path, et_BasicAuthSecret = None, et_FetchInterval = None\<rparr>"
  have g: "Provider_Get env decodeMembers api p TypePowerConsumption = Inr ?et"
    using assms(1-3) by (simp add: Provider_Get_def)
  obtain pred where p: "NewPowerConsumptionPredictor getSecret urlParse ns ?et = Inr (V2Predictor pred)"
    "pcp_address pred = scheme @ ''://'' @ host" "pcp_modelName pred = n" "pcp_modelVersion pred = v"
    using m assms(4,8) by (simp add: NewPowerConsumptionPredictor_def newPowerConsumptionPredictor_def
        GetBasicAuthFromNamespaceScopedSecret_def TypeV2InferenceProtocol_def TypeFake_def)
  have e: "Predictor_Endpoint env pred = Inr ((scheme @ ''://'' @ host) @ ?path)"
    using p(2-4) assms(5,8,9) by (simp add: Predictor_Endpoint_def)
  then have "Predictor_Endpoint env pred = Inr (et_Endpoint ?et) \<longleftrightarrow> u = scheme @ ''://'' @ host" by auto
  with g p e show ?thesis by (intro exI [of _ ?et] exI [of _ pred]) simp
qed

definition example_api :: openapi where
  "example_api systemID eds = Inr (200, Some \<lparr>ml_PowerConsumptionModel =
     Some \<lparr>mm_Type = Some ''V2InferenceProtocol'', mm_Url = Some ''http://m:8080'', mm_Name = Some ''m1'', mm_Version = Some ''v1''\<rparr>,
     ml_ResponseTimeModel = None\<rparr>)"

definition example_net :: http_env where
  "example_net = \<lparr>he_JoinPath = (\<lambda>base elems. Inr (base @ concat (map (\<lambda>e. ''/'' @ e) elems))),
     he_NewRequest = (\<lambda>m u b. Inr \<lparr>rq_Method = m, rq_URL = u, rq_Body = b, rq_BasicAuth = None\<rparr>),
     he_Do = (\<lambda>req. Inr \<lparr>rs_StatusCode = 200, rs_Status = ''200 OK'', rs_Body = []\<rparr>)\<rparr>"

definition example_provider :: EndpointProvider where
  "example_provider = \<lparr>ep_address = ''http://bmc'', ep_timeout = requestTimeout3s, ep_editorFns = [WithBasicAuth ''u'' ''p'']\<rparr>"

theorem Provider_predictor_roundtrip_witness:
  "\<exists>et pred. Provider_Get example_net (\<lambda>_. Inr [''/redfish/v1/Systems/1'']) example_api example_provider TypePowerConsumption = Inr et \<and>
    NewPowerConsumptionPredictor (\<lambda>_ _. Inr []) (\<lambda>_. Inr (''http'', ''m:8080'')) ''ns'' et = Inr (V2Predictor pred) \<and>
    Predictor_Endpoint example_net pred = Inr (et_Endpoint et)"
proof -
  have "GetModels example_net (\<lambda>_. Inr [''/redfish/v1/Systems/1'']) example_api example_provider =
      Inr (Some \<lparr>ml_PowerConsumptionModel =
        Some \<lparr>mm_Type = Some ''V2InferenceProtocol'', mm_Url = Some ''http://m:8080'', mm_Name = Some ''m1'', mm_Version = Some ''v1''\<rparr>,
        ml_ResponseTimeModel = None\<rparr>)"
    by code_simp
  from Provider_predictor_roundtrip [OF this, of "''http://m:8080''" "''m1''" "''v1''" "\<lambda>_. Inr (''http'', ''m:8080'')" "''http''" "''m:8080''" "\<lambda>_ _. Inr []" "''ns''"]
  show ?thesis by (auto simp: TypeV2InferenceProtocol_def example_net_def)
qed

text \<open>
  A provider that answers 200 without a JSON body makes \<open>Get\<close> dereference a nil pointer: the
  generated client then leaves \<open>JSON200\<close> nil, \<open>GetModels\<close> returns it without an error, and both
  known predictor types panic.
\<close>

theorem Provider_Get_nil_panics:
  assumes "getSystemID env decodeMembers p = Inr systemID" "api systemID (ep_editorFns p) = Inr (200, None)"
    and "predictorType \<in> {TypePowerConsumption, TypeResponseTime}"
  shows "Provider_Get env decodeMembers api p predictorType = Inl (Panic ''models'')"
  using assms by (auto simp: Provider_Get_def GetModels_def StatusOK_def)

theorem Provider_Get_nil_panics_witness:
  "Provider_Get example_net (\<lambda>_. Inr [''/redfish/v1/Systems/1'']) (\<lambda>_ _. Inr (200, None)) example_provider TypePowerConsumption =
    Inl (Panic ''models'')"
proof -
  have "getSystemID example_net (\<lambda>_. Inr [''/redfish/v1/Systems/1'']) example_provider = Inr ''1''" by code_simp
  from Provider_Get_nil_panics [OF this, of "\<lambda>_ _. Inr (200, None)"] show ?thesis by simp
qed

end
