(* ===== verification/Minimize_Power.thy ===== *)
theory Minimize_Power
  imports Predictors
begin

text \<open>
  The scheduler plugin \<open>wao-scheduler/pkg/plugins/minimizepower\<close>: its arguments with their
  defaults and checks, \<open>PreFilter\<close>, \<open>Score\<close> (the predicted watts a pod adds to a node) and
  \<open>NormalizeScore\<close> (watts to node scores). The scheduler's snapshot, the \<open>NodeConfig\<close> list and the
  two cached clients are the calls of the record \<open>score_env\<close>; a pointer they return is an
  \<open>option\<close>, and reading through a nil pointer is a panic.
\<close>

section \<open>Arguments\<close>

definition CPUUsageFormatRaw :: string where
  "CPUUsageFormatRaw = ''Raw''"

definition CPUUsageFormatPercent :: string where
  "CPUUsageFormatPercent = ''Percent''"

definition DefaultMetricsCacheTTL :: int where
  "DefaultMetricsCacheTTL = 30 * 10 ^ 9"

definition DefaultPredictorCacheTTL :: int where
  "DefaultPredictorCacheTTL = 30 * 60 * 10 ^ 9"

definition DefaultPodUsageAssumption :: f64 where
  "DefaultPodUsageAssumption = Fin (1 / 2)"

definition DefaultCPUUsageFormat :: string where
  "DefaultCPUUsageFormat = CPUUsageFormatRaw"

record MinimizePowerArgs =
  mpa_MetricsCacheTTL :: int
  mpa_PredictorCacheTTL :: int
  mpa_PodUsageAssumption :: f64
  mpa_CPUUsageFormat :: string

definition Default :: "MinimizePowerArgs \<Rightarrow> MinimizePowerArgs" where
  "Default args =
     (let args = (if mpa_MetricsCacheTTL args = 0
                  then args\<lparr>mpa_MetricsCacheTTL := DefaultMetricsCacheTTL\<rparr> else args);
          args = (if mpa_PredictorCacheTTL args = 0
                  then args\<lparr>mpa_PredictorCacheTTL := DefaultPredictorCacheTTL\<rparr> else args);
          args = (if f64_eq (mpa_PodUsageAssumption args) (Fin 0)
                  then args\<lparr>mpa_PodUsageAssumption := DefaultPodUsageAssumption\<rparr> else args);
          args = (if mpa_CPUUsageFormat args = []
                  then args\<lparr>mpa_CPUUsageFormat := DefaultCPUUsageFormat\<rparr> else args)
      in args)"

definition Validate :: "MinimizePowerArgs \<Rightarrow> goerr option" where
  "Validate args =
     (if f64_lt (mpa_PodUsageAssumption args) (Fin 0) \<or> f64_lt (Fin 1) (mpa_PodUsageAssumption args)
      then Some (Errorf ''podUsageAssumption must be between 0.0 and 1.0'')
      else if mpa_CPUUsageFormat args \<noteq> CPUUsageFormatRaw \<and> mpa_CPUUsageFormat args \<noteq> CPUUsageFormatPercent
      then Some (Errorf ''cpuUsageFormat must be either `Raw` or `Percent`'')
      else None)"

text \<open>The argument is the plugin configuration; \<open>None\<close> is an object of another type.\<close>

definition getArgs :: "MinimizePowerArgs option \<Rightarrow> MinimizePowerArgs result" where
  "getArgs obj = (case obj of
     None \<Rightarrow> Inl (Errorf ''want args to be of type MinimizePowerArgs'')
   | Some args \<Rightarrow> (let args = Default args in
       case Validate args of Some err \<Rightarrow> Inl err | None \<Rightarrow> Inr args))"

section \<open>PreFilter\<close>

definition PodCPURequestOrLimit :: "Pod \<Rightarrow> f64" where
  "PodCPURequestOrLimit pod =
     fold (\<lambda>c v. let vv = c_RequestsCpu c;
                     vv = (if f64_eq vv (Fin 0) then c_LimitsCpu c else vv)
                 in f64_add v vv) (pod_Containers pod) (Fin 0)"

datatype prefilter = Unschedulable string | PreFilterNodes "string list option"

definition ReasonResourceRequest :: string where
  "ReasonResourceRequest = ''at least one container in the pod must have a requests.cpu or limits.cpu set''"

text \<open>\<open>startTime\<close> maps a pod's name to the time its scheduling began; \<open>now\<close> is \<open>time.Now()\<close>.\<close>

definition PreFilter ::
  "int \<Rightarrow> Pod \<Rightarrow> (string, int) gomap \<Rightarrow> prefilter \<times> (string, int) gomap" where
  "PreFilter now pod startTime =
     (let startTime = AList.delete (pod_Name pod) startTime;
          startTime = AList.update (pod_Name pod) now startTime
      in if f64_eq (PodCPURequestOrLimit pod) (Fin 0)
         then (Unschedulable ReasonResourceRequest, startTime)
         else (PreFilterNodes None, startTime))"

section \<open>Score\<close>

definition ScoreBase :: int where
  "ScoreBase = 20"

definition ScoreError :: int where
  "ScoreError = MaxInt64"

definition ScoreMax :: int where
  "ScoreMax = drop_bit 1 MaxInt64"

definition ScoreReplaceMap :: "(int, int) gomap" where
  "ScoreReplaceMap = [(ScoreError, 0), (ScoreMax, 1)]"

record 's score_env =
  se_NodeInfo :: "string \<Rightarrow> NodeInfo result"
  se_GetNodeMetrics :: "string \<Rightarrow> ('s, f64 option) call"
  se_GetCustomMetric :: "string \<Rightarrow> string \<Rightarrow> ('s, f64 option) call"
  se_ListNodeConfigs :: "NodeConfig list result"
  se_GetPredictorEndpoint :: "string \<Rightarrow> EndpointTerm \<Rightarrow> string \<Rightarrow> ('s, EndpointTerm option) call"
  se_Predict :: "string \<Rightarrow> EndpointTerm \<Rightarrow> f64 \<Rightarrow> f64 \<Rightarrow> f64 \<Rightarrow> ('s, f64) call"

definition deref :: "string \<Rightarrow> 'a option \<Rightarrow> ('a \<Rightarrow> ('s, 'b) call) \<Rightarrow> ('s, 'b) call" where
  "deref what p k = (case p of None \<Rightarrow> fail (Panic what) | Some x \<Rightarrow> k x)"

text \<open>The CPU use of pods bound to the node that have not started yet.\<close>

definition assumedAdditionalUsage :: "MinimizePowerArgs \<Rightarrow> NodeInfo \<Rightarrow> f64" where
  "assumedAdditionalUsage args nodeInfo =
     fold (\<lambda>p u. if pod_NodeName p \<noteq> node_Name (ni_Node nodeInfo) then u
                 else if pod_Phase p \<in> {''Running'', ''Succeeded'', ''Failed'', ''Unknown''} then u
                 else f64_add u (f64_mul (PodCPURequestOrLimit p) (mpa_PodUsageAssumption args)))
       (ni_Pods nodeInfo) (Fin 0)"

definition formatUsage :: "string \<Rightarrow> f64 \<Rightarrow> f64 \<Rightarrow> f64" where
  "formatUsage format cpuCapacity usage =
     (if format = CPUUsageFormatPercent then f64_mul (f64_div usage cpuCapacity) (Fin 100) else usage)"

text \<open>The watts that are reported: the truncated difference, negative values as 0.\<close>

definition podPowerConsumption :: "(f64 \<Rightarrow> int) \<Rightarrow> f64 \<Rightarrow> f64 \<Rightarrow> int" where
  "podPowerConsumption oob beforeWatt afterWatt =
     (let w = f64_to_int oob (f64_sub afterWatt beforeWatt) in if w < 0 then 0 else w)"

text \<open>The prediction for a node that has a \<open>NodeConfig\<close>: the endpoint, then the power before and after.\<close>

definition predictDelta ::
  "'s score_env \<Rightarrow> (f64 \<Rightarrow> int) \<Rightarrow> NodeConfig \<Rightarrow> f64 \<Rightarrow> f64 \<Rightarrow> f64 \<Rightarrow> f64 \<Rightarrow> ('s, int) call" where
  "predictDelta env oob nc beforeUsage afterUsage inletTemp deltaP =
     (let pr = ncs_Predictor (nc_Spec nc);
          ep = (case pr_PowerConsumption pr of Some ep \<Rightarrow> ep | None \<Rightarrow> emptyEndpointTerm);
          predict = (\<lambda>ep.
            on_err (se_Predict env (nc_Namespace nc) ep beforeUsage inletTemp deltaP) ScoreError (\<lambda>beforeWatt.
            on_err (se_Predict env (nc_Namespace nc) ep afterUsage inletTemp deltaP) ScoreError (\<lambda>afterWatt.
            ret (podPowerConsumption oob beforeWatt afterWatt))))
      in case pr_PowerConsumptionEndpointProvider pr of
           None \<Rightarrow> predict ep
         | Some provider \<Rightarrow>
             on_err (se_GetPredictorEndpoint env (nc_Namespace nc) provider TypePowerConsumption) ScoreError (\<lambda>ep2.
             deref ''ep2'' ep2 (\<lambda>ep2.
             predict (ep\<lparr>et_Type := et_Type ep2, et_Endpoint := et_Endpoint ep2\<rparr>))))"

definition Score ::
  "'s score_env \<Rightarrow> (f64 \<Rightarrow> int) \<Rightarrow> MinimizePowerArgs \<Rightarrow> Pod \<Rightarrow> string \<Rightarrow> ('s, int) call" where
  "Score env oob args pod nodeName =
     (case se_NodeInfo env nodeName of Inl _ \<Rightarrow> ret ScoreError | Inr nodeInfo \<Rightarrow>
      (let node = ni_Node nodeInfo in
       on_err (se_GetNodeMetrics env (node_Name node)) ScoreError (\<lambda>nodeMetrics.
       deref ''nodeMetrics'' nodeMetrics (\<lambda>usage.
         let beforeUsage = f64_add usage (assumedAdditionalUsage args nodeInfo);
             afterUsage = f64_add beforeUsage (PodCPURequestOrLimit pod);
             cpuCapacity = node_CapacityCpu node
         in if f64_eq beforeUsage afterUsage then ret ScoreError
            else if f64_lt cpuCapacity afterUsage then ret ScoreMax
            else
              on_err (se_GetCustomMetric env nodeName ValueInletTemperature) ScoreError (\<lambda>inletTemp.
              on_err (se_GetCustomMetric env nodeName ValueDeltaPressure) ScoreError (\<lambda>deltaP.
              deref ''inletTemp'' inletTemp (\<lambda>inletTemp.
              deref ''deltaP'' deltaP (\<lambda>deltaP.
              (case se_ListNodeConfigs env of Inl _ \<Rightarrow> ret ScoreError | Inr ncs \<Rightarrow>
                (case find (\<lambda>e. ncs_NodeName (nc_Spec e) = nodeName) ncs of
                   None \<Rightarrow> ret ScoreError
                 | Some nc \<Rightarrow>
                     predictDelta env oob nc
                       (formatUsage (mpa_CPUUsageFormat args) cpuCapacity beforeUsage)
                       (formatUsage (mpa_CPUUsageFormat args) cpuCapacity afterUsage)
                       inletTemp deltaP))))))))))"

section \<open>NormalizeScore\<close>

record NodeScore =
  ns_Name :: string
  ns_Score :: int

text \<open>The largest score a plugin may give, \<open>framework.MaxNodeScore\<close>.\<close>

definition MaxNodeScore :: int where
  "MaxNodeScore = 100"

definition highest_of :: "NodeScore list \<Rightarrow> int" where
  "highest_of xs = fold (\<lambda>s h. if ns_Score s > h then ns_Score s else h) xs MinInt64"

definition lowest_of :: "NodeScore list \<Rightarrow> int" where
  "lowest_of xs = fold (\<lambda>s l. if ns_Score s < l then ns_Score s else l) xs MaxInt64"

definition normalize1 :: "int \<Rightarrow> int \<Rightarrow> int \<Rightarrow> int \<Rightarrow> int" where
  "normalize1 baseScore highest lowest score =
     (if highest \<noteq> lowest
      then i64_sub MaxNodeScore
             (i64_quo (i64_mul (i64_sub MaxNodeScore baseScore) (i64_sub score lowest)) (i64_sub highest lowest))
      else baseScore)"

definition PowerConsumptions2Scores ::
  "NodeScore list \<Rightarrow> int \<Rightarrow> (int, int) gomap \<Rightarrow> NodeScore list" where
  "PowerConsumptions2Scores scores baseScore replaceMap =
     (let replacedScores = [\<lparr>ns_Name = ns_Name s, ns_Score = get_or 0 replaceMap (ns_Score s)\<rparr>.
                              s \<leftarrow> scores, map_of replaceMap (ns_Score s) \<noteq> None];
          calculatedScores = [s \<leftarrow> scores. map_of replaceMap (ns_Score s) = None];
          highest = highest_of calculatedScores;
          lowest = lowest_of calculatedScores;
          calculatedScores = map (\<lambda>s. s\<lparr>ns_Score := normalize1 baseScore highest lowest (ns_Score s)\<rparr>) calculatedScores;
          scores2 = map_of_loop ns_Name id replacedScores [];
          scores2 = map_of_loop ns_Name id calculatedScores scores2
      in map (\<lambda>s. get_or \<lparr>ns_Name = [], ns_Score = 0\<rparr> scores2 (ns_Name s)) scores)"

definition NormalizeScore :: "NodeScore list \<Rightarrow> NodeScore list" where
  "NormalizeScore scores = PowerConsumptions2Scores scores ScoreBase ScoreReplaceMap"

section \<open>Lemmas on the normalisation\<close>

lemma lowest_of_min_loop: "lowest_of xs = min_loop MaxInt64 (map ns_Score xs)"
  by (simp add: lowest_of_def min_loop_def fold_map comp_def)

lemma highest_of_min_loop: "highest_of xs = - min_loop (- MinInt64) (map (\<lambda>s. - ns_Score s) xs)"
proof -
  have "fold (\<lambda>s h. if ns_Score s > h then ns_Score s else h) xs m =
      - fold (\<lambda>x m. if x < m then x else m) (map (\<lambda>s. - ns_Score s) xs) (- m)" for m
    by (induction xs arbitrary: m) simp_all
  then show ?thesis by (simp add: highest_of_def min_loop_def)
qed

lemma lowest_of_le: "s \<in> set xs \<Longrightarrow> lowest_of xs \<le> ns_Score s"
  by (simp add: lowest_of_min_loop min_loop_le)

lemma highest_of_ge: "s \<in> set xs \<Longrightarrow> ns_Score s \<le> highest_of xs"
  using min_loop_le [of "- ns_Score s" "map (\<lambda>s. - ns_Score s) xs" "- MinInt64"]
  by (simp add: highest_of_min_loop)

lemma lowest_of_in:
  assumes "xs \<noteq> []" "\<forall>s\<in>set xs. is_i64 (ns_Score s)"
  shows "lowest_of xs \<in> ns_Score ` set xs"
  using assms min_loop_in [of "map ns_Score xs" MaxInt64]
  by (simp add: lowest_of_min_loop is_i64_def)

lemma highest_of_in:
  assumes "xs \<noteq> []" "\<forall>s\<in>set xs. is_i64 (ns_Score s)"
  shows "highest_of xs \<in> ns_Score ` set xs"
proof -
  have "min_loop (- MinInt64) (map (\<lambda>s. - ns_Score s) xs) \<in> set (map (\<lambda>s. - ns_Score s) xs)"
    using assms by (intro min_loop_in) (simp_all add: is_i64_def)
  then show ?thesis by (auto simp: highest_of_min_loop)
qed

text \<open>The scores that are not special, and the pointwise form of the rewriting.\<close>

definition calculated :: "(int, int) gomap \<Rightarrow> NodeScore list \<Rightarrow> NodeScore list" where
  "calculated replaceMap scores = [s \<leftarrow> scores. map_of replaceMap (ns_Score s) = None]"

definition rescore :: "NodeScore list \<Rightarrow> int \<Rightarrow> (int, int) gomap \<Rightarrow> int \<Rightarrow> int" where
  "rescore scores baseScore replaceMap w = (case map_of replaceMap w of
     Some v \<Rightarrow> v
   | None \<Rightarrow> normalize1 baseScore (highest_of (calculated replaceMap scores))
               (lowest_of (calculated replaceMap scores)) w)"

lemma filter_name_distinct:
  assumes "distinct (map ns_Name xs)" "s \<in> set xs"
  shows "filter (\<lambda>t. ns_Name t = ns_Name s \<and> P t) xs = (if P s then [s] else [])"
  using assms by (induction xs) (auto simp: filter_empty_conv intro: rev_image_eqI)

lemma PowerConsumptions2Scores_pointwise:
  assumes d: "distinct (map ns_Name scores)"
  shows "PowerConsumptions2Scores scores baseScore replaceMap =
    map (\<lambda>s. s\<lparr>ns_Score := rescore scores baseScore replaceMap (ns_Score s)\<rparr>) scores"
proof -
  define norm where "norm = normalize1 baseScore (highest_of (calculated replaceMap scores))
      (lowest_of (calculated replaceMap scores))"
  define rep where "rep = [s \<leftarrow> scores. map_of replaceMap (ns_Score s) \<noteq> None]"
  have rl: "[\<lparr>ns_Name = ns_Name s, ns_Score = get_or 0 replaceMap (ns_Score s)\<rparr>.
      s \<leftarrow> scores, map_of replaceMap (ns_Score s) \<noteq> None] =
    map (\<lambda>s. \<lparr>ns_Name = ns_Name s, ns_Score = get_or 0 replaceMap (ns_Score s)\<rparr>) rep"
    unfolding rep_def by (induction scores) simp_all
  have f: "filter (\<lambda>t. ns_Name t = ns_Name s) (calculated replaceMap scores) =
        (if map_of replaceMap (ns_Score s) = None then [s] else [])"
      "filter (\<lambda>t. ns_Name t = ns_Name s) rep =
        (if map_of replaceMap (ns_Score s) \<noteq> None then [s] else [])"
    if "s \<in> set scores" for s
    using filter_name_distinct [OF d that, of "\<lambda>t. map_of replaceMap (ns_Score t) = None"]
      filter_name_distinct [OF d that, of "\<lambda>t. map_of replaceMap (ns_Score t) \<noteq> None"]
    by (simp_all add: calculated_def rep_def filter_filter conj_commute)
  show ?thesis
    unfolding PowerConsumptions2Scores_def Let_def rl
    by (rule map_cong [OF refl])
      (auto simp: f map_of_loop_lookup filter_map comp_def get_or_def rescore_def
        simp flip: calculated_def split: option.split)
qed

lemma normalize1_exact:
  assumes w: "lo \<le> w" "w \<le> hi" "lo < hi" and base: "0 \<le> base" "base < MaxNodeScore"
    and fits: "(MaxNodeScore - base) * (hi - lo) \<le> MaxInt64"
  defines "q \<equiv> (MaxNodeScore - base) * (w - lo) div (hi - lo)"
  shows "normalize1 base hi lo w = MaxNodeScore - q" and "0 \<le> q" and "q \<le> MaxNodeScore - base"
proof -
  let ?c = "MaxNodeScore - base"
  have c: "1 \<le> ?c" "?c \<le> 100" using base by (simp_all add: MaxNodeScore_def)
  have prod: "?c * (w - lo) \<le> ?c * (hi - lo)" using w c by (intro mult_left_mono) simp_all
  have nn: "0 \<le> ?c * (w - lo)" using w c by simp
  have "1 * (hi - lo) \<le> ?c * (hi - lo)" using w c by (intro mult_right_mono) simp_all
  then have d: "hi - lo \<le> MaxInt64" using fits by simp
  show q0: "0 \<le> q" using nn w by (simp add: q_def pos_imp_zdiv_nonneg_iff)
  have "q \<le> ?c * (hi - lo) div (hi - lo)"
    unfolding q_def using prod w by (intro zdiv_mono1) simp_all
  then show qc: "q \<le> ?c" using w by simp
  have "i64_sub MaxNodeScore base = ?c" "i64_sub w lo = w - lo" "i64_sub hi lo = hi - lo"
    using w c d by (simp_all add: go_int is_i64_def MinInt64_def MaxInt64_def)
  moreover have "i64_mul ?c (w - lo) = ?c * (w - lo)"
    using nn prod fits by (intro i64_mul_id) (simp add: is_i64_def MinInt64_def)
  moreover have "i64_quo (?c * (w - lo)) (hi - lo) = q"
    unfolding q_def using nn prod fits w by (intro i64_quo_nonneg) simp_all
  moreover have "i64_sub MaxNodeScore q = MaxNodeScore - q"
    using q0 qc base by (intro i64_sub_id) (simp add: is_i64_def MinInt64_def MaxInt64_def MaxNodeScore_def)
  ultimately show "normalize1 base hi lo w = MaxNodeScore - q"
    using w by (simp add: normalize1_def)
qed

lemma normalize1_mono:
  assumes "lo \<le> v" "v \<le> w" "w \<le> hi" "lo < hi" "0 \<le> base" "base < MaxNodeScore"
    and "(MaxNodeScore - base) * (hi - lo) \<le> MaxInt64"
  shows "normalize1 base hi lo w \<le> normalize1 base hi lo v"
proof -
  have "(MaxNodeScore - base) * (v - lo) div (hi - lo) \<le> (MaxNodeScore - base) * (w - lo) div (hi - lo)"
    using assms by (intro zdiv_mono1 mult_left_mono) simp_all
  with assms show ?thesis by (simp add: normalize1_exact)
qed

text \<open>
  Watts as \<open>Score\<close> reports them: a special score, or a value small enough that the products of
  the normalisation stay within 64 bits.
\<close>

definition special :: "int \<Rightarrow> bool" where
  "special w \<longleftrightarrow> w = ScoreError \<or> w = ScoreMax"

definition watts_in_range :: "NodeScore list \<Rightarrow> bool" where
  "watts_in_range scores \<longleftrightarrow>
     (\<forall>s\<in>set scores. special (ns_Score s) \<or> 0 \<le> ns_Score s \<and> ns_Score s \<le> MaxInt64 div 80)"

lemma map_of_ScoreReplaceMap:
  "map_of ScoreReplaceMap w = (if w = ScoreError then Some 0 else if w = ScoreMax then Some 1 else None)"
  by (simp add: ScoreReplaceMap_def)

lemma calculated_special: "set (calculated ScoreReplaceMap scores) = {s \<in> set scores. \<not> special (ns_Score s)}"
  by (auto simp: calculated_def map_of_ScoreReplaceMap special_def split: if_splits)

text \<open>What every proof about \<open>NormalizeScore\<close> needs of the two loops that look for the extremes.\<close>

lemma watts_extremes:
  assumes r: "watts_in_range scores" and s: "s \<in> set scores" "\<not> special (ns_Score s)"
  defines "lo \<equiv> lowest_of (calculated ScoreReplaceMap scores)"
    and "hi \<equiv> highest_of (calculated ScoreReplaceMap scores)"
  shows "lo \<le> ns_Score s" "ns_Score s \<le> hi" "0 \<le> lo" "(MaxNodeScore - ScoreBase) * (hi - lo) \<le> MaxInt64"
proof -
  let ?c = "calculated ScoreReplaceMap scores"
  have sc: "s \<in> set ?c" using s by (simp add: calculated_special)
  then show "lo \<le> ns_Score s" "ns_Score s \<le> hi"
    by (simp_all add: lo_def hi_def lowest_of_le highest_of_ge)
  have rng: "0 \<le> ns_Score t \<and> ns_Score t \<le> MaxInt64 div 80" if "t \<in> set ?c" for t
    using r that by (auto simp: watts_in_range_def calculated_special)
  then have "\<forall>t\<in>set ?c. is_i64 (ns_Score t)"
    by (fastforce simp: is_i64_def MinInt64_def MaxInt64_def)
  moreover have "?c \<noteq> []" using sc by auto
  ultimately have "lo \<in> ns_Score ` set ?c" "hi \<in> ns_Score ` set ?c"
    by (simp_all add: lo_def hi_def lowest_of_in highest_of_in)
  then have "0 \<le> lo" "hi \<le> MaxInt64 div 80" using rng by auto
  then show "0 \<le> lo" "(MaxNodeScore - ScoreBase) * (hi - lo) \<le> MaxInt64"
    by (simp_all add: MaxNodeScore_def ScoreBase_def MaxInt64_def)
qed

lemma NormalizeScore_nth:
  assumes "distinct (map ns_Name scores)" "i < length scores"
  shows "ns_Score (NormalizeScore scores ! i) = rescore scores ScoreBase ScoreReplaceMap (ns_Score (scores ! i))"
  using assms by (simp add: NormalizeScore_def PowerConsumptions2Scores_pointwise)

lemma rescore_not_special:
  "\<not> special w \<Longrightarrow> rescore scores ScoreBase ScoreReplaceMap w =
     normalize1 ScoreBase (highest_of (calculated ScoreReplaceMap scores)) (lowest_of (calculated ScoreReplaceMap scores)) w"
  by (simp add: rescore_def map_of_ScoreReplaceMap special_def)

section \<open>Properties of NormalizeScore\<close>

text \<open>
  C15. Node scores stay within the range the scheduler accepts: for distinct nodes whose watts are
  in range, every node keeps its place and its name, a node that could not be scored gets 0, an
  overcommitted node gets 1, and every other node a score from \<open>ScoreBase\<close> (20) to 100, so a node
  with a prediction always ranks above a node without one.
\<close>

theorem NormalizeScore_range:
  assumes "distinct (map ns_Name scores)" "watts_in_range scores"
  shows "map ns_Name (NormalizeScore scores) = map ns_Name scores \<and>
    (\<forall>i<length scores. let w = ns_Score (scores ! i); r = ns_Score (NormalizeScore scores ! i) in
       (w = ScoreError \<longrightarrow> r = 0) \<and> (w = ScoreMax \<longrightarrow> r = 1) \<and>
       (\<not> special w \<longrightarrow> ScoreBase \<le> r \<and> r \<le> MaxNodeScore))"
proof (intro conjI allI impI)
  show "map ns_Name (NormalizeScore scores) = map ns_Name scores"
    using assms by (simp add: NormalizeScore_def PowerConsumptions2Scores_pointwise comp_def)
  fix i assume i: "i < length scores"
  have "ScoreBase \<le> rescore scores ScoreBase ScoreReplaceMap (ns_Score (scores ! i)) \<and>
      rescore scores ScoreBase ScoreReplaceMap (ns_Score (scores ! i)) \<le> MaxNodeScore"
    if ns: "\<not> special (ns_Score (scores ! i))"
  proof -
    note e = watts_extremes [OF assms(2) nth_mem [OF i] ns]
    have b: "0 \<le> ScoreBase" "ScoreBase < MaxNodeScore" by (simp_all add: ScoreBase_def MaxNodeScore_def)
    show ?thesis
    proof (cases "lowest_of (calculated ScoreReplaceMap scores) < highest_of (calculated ScoreReplaceMap scores)")
      case True
      with normalize1_exact [OF e(1,2) True b e(4)] ns show ?thesis by (simp add: rescore_not_special)
    next
      case False
      with e(1,2) ns b show ?thesis by (simp add: rescore_not_special normalize1_def)
    qed
  qed
  then show "let w = ns_Score (scores ! i); r = ns_Score (NormalizeScore scores ! i) in
       (w = ScoreError \<longrightarrow> r = 0) \<and> (w = ScoreMax \<longrightarrow> r = 1) \<and>
       (\<not> special w \<longrightarrow> ScoreBase \<le> r \<and> r \<le> MaxNodeScore)"
    using assms(1) i by (simp add: NormalizeScore_nth Let_def)
      (auto simp: rescore_def map_of_ScoreReplaceMap ScoreMax_def ScoreError_def MaxInt64_def)
qed

definition example_scores :: "NodeScore list" where
  "example_scores = [\<lparr>ns_Name = ''n1'', ns_Score = 10\<rparr>, \<lparr>ns_Name = ''n2'', ns_Score = 30\<rparr>,
     \<lparr>ns_Name = ''n3'', ns_Score = ScoreError\<rparr>, \<lparr>ns_Name = ''n4'', ns_Score = ScoreMax\<rparr>]"

lemma example_scores_ok: "distinct (map ns_Name example_scores)" "watts_in_range example_scores"
  by (simp_all add: example_scores_def watts_in_range_def special_def ScoreError_def ScoreMax_def MaxInt64_def)

theorem NormalizeScore_range_witness:
  "map ns_Name (NormalizeScore example_scores) = [''n1'', ''n2'', ''n3'', ''n4''] \<and>
   ns_Score (NormalizeScore example_scores ! 2) = 0 \<and> ns_Score (NormalizeScore example_scores ! 3) = 1 \<and>
   ScoreBase \<le> ns_Score (NormalizeScore example_scores ! 0) \<and> ns_Score (NormalizeScore example_scores ! 0) \<le> MaxNodeScore"
proof -
  note r = NormalizeScore_range [OF example_scores_ok, THEN conjunct2, rule_format]
  show ?thesis
    using NormalizeScore_range [OF example_scores_ok, THEN conjunct1] r [of 0] r [of 2] r [of 3]
    by (simp add: example_scores_def Let_def special_def ScoreError_def ScoreMax_def MaxInt64_def)
qed

text \<open>
  C16. The order is reversed: of two nodes with a prediction, the one that needs fewer watts never
  gets the lower score.
\<close>

theorem NormalizeScore_antitone:
  assumes "distinct (map ns_Name scores)" "watts_in_range scores"
    and "i < length scores" "j < length scores"
    and "\<not> special (ns_Score (scores ! i))" "\<not> special (ns_Score (scores ! j))"
    and "ns_Score (scores ! i) \<le> ns_Score (scores ! j)"
  shows "ns_Score (NormalizeScore scores ! j) \<le> ns_Score (NormalizeScore scores ! i)"
proof -
  note ei = watts_extremes [OF assms(2) nth_mem [OF assms(3)] assms(5)]
  note ej = watts_extremes [OF assms(2) nth_mem [OF assms(4)] assms(6)]
  have b: "0 \<le> ScoreBase" "ScoreBase < MaxNodeScore" by (simp_all add: ScoreBase_def MaxNodeScore_def)
  show ?thesis
  proof (cases "lowest_of (calculated ScoreReplaceMap scores) < highest_of (calculated ScoreReplaceMap scores)")
    case True
    from normalize1_mono [OF ei(1) assms(7) ej(2) True b ei(4)] assms show ?thesis
      by (simp add: NormalizeScore_nth rescore_not_special)
  next
    case False
    with ei ej assms show ?thesis by (simp add: NormalizeScore_nth rescore_not_special normalize1_def)
  qed
qed

theorem NormalizeScore_antitone_witness:
  "ns_Score (NormalizeScore example_scores ! 1) \<le> ns_Score (NormalizeScore example_scores ! 0)"
  by (rule NormalizeScore_antitone [OF example_scores_ok])
    (simp_all add: example_scores_def special_def ScoreError_def ScoreMax_def MaxInt64_def)

text \<open>
  The scale is used in full: when the predictions differ, a node with the fewest watts gets 100
  and a node with the most gets \<open>ScoreBase\<close>.
\<close>

theorem NormalizeScore_extremes:
  assumes "distinct (map ns_Name scores)" "watts_in_range scores"
    and "i < length scores" "j < length scores"
    and "\<not> special (ns_Score (scores ! i))" "\<not> special (ns_Score (scores ! j))"
    and "\<forall>k<length scores. \<not> special (ns_Score (scores ! k)) \<longrightarrow>
           ns_Score (scores ! i) \<le> ns_Score (scores ! k) \<and> ns_Score (scores ! k) \<le> ns_Score (scores ! j)"
    and "ns_Score (scores ! i) < ns_Score (scores ! j)"
  shows "ns_Score (NormalizeScore scores ! i) = MaxNodeScore \<and> ns_Score (NormalizeScore scores ! j) = ScoreBase"
proof -
  let ?c = "calculated ScoreReplaceMap scores"
  note ei = watts_extremes [OF assms(2) nth_mem [OF assms(3)] assms(5)]
  note ej = watts_extremes [OF assms(2) nth_mem [OF assms(4)] assms(6)]
  have all: "ns_Score (scores ! i) \<le> ns_Score t \<and> ns_Score t \<le> ns_Score (scores ! j)" if "t \<in> set ?c" for t
    using that assms(7) by (auto simp: calculated_special in_set_conv_nth)
  have ne: "?c \<noteq> []" using assms(3,5) by (metis (mono_tags, lifting) calculated_special empty_iff
        mem_Collect_eq nth_mem set_empty)
  have "\<forall>t\<in>set ?c. is_i64 (ns_Score t)"
    using assms(2) by (fastforce simp: watts_in_range_def calculated_special is_i64_def MinInt64_def MaxInt64_def)
  with ne have "lowest_of ?c \<in> ns_Score ` set ?c" "highest_of ?c \<in> ns_Score ` set ?c"
    by (simp_all add: lowest_of_in highest_of_in)
  then have lo: "lowest_of ?c = ns_Score (scores ! i)" and hi: "highest_of ?c = ns_Score (scores ! j)"
    using all ei(1) ej(2) by fastforce+
  have b: "0 \<le> ScoreBase" "ScoreBase < MaxNodeScore" by (simp_all add: ScoreBase_def MaxNodeScore_def)
  have lt: "lowest_of ?c < highest_of ?c" using assms(8) lo hi by simp
  show ?thesis
    using normalize1_exact(1) [OF ei(1,2) lt b ei(4)] normalize1_exact(1) [OF ej(1,2) lt b ej(4)] lt assms
    by (simp add: NormalizeScore_nth rescore_not_special lo hi)
qed

theorem NormalizeScore_extremes_witness:
  "ns_Score (NormalizeScore example_scores ! 0) = MaxNodeScore \<and>
   ns_Score (NormalizeScore example_scores ! 1) = ScoreBase"
proof (rule NormalizeScore_extremes [OF example_scores_ok])
  show "\<forall>k<length example_scores. \<not> special (ns_Score (example_scores ! k)) \<longrightarrow>
      ns_Score (example_scores ! 0) \<le> ns_Score (example_scores ! k) \<and>
      ns_Score (example_scores ! k) \<le> ns_Score (example_scores ! 1)"
    by (simp add: example_scores_def special_def All_less_Suc eval_nat_numeral)
qed (simp_all add: example_scores_def special_def ScoreError_def ScoreMax_def MaxInt64_def)

text \<open>
  C20. The rewriting through two lists and a map equals the pointwise one: for distinct nodes, a
  score in the replacement map is replaced and every other is normalised between the extremes of
  the others, whatever the base score and the map.
\<close>

theorem PowerConsumptions2Scores_refines:
  assumes "distinct (map ns_Name scores)"
  shows "PowerConsumptions2Scores scores baseScore replaceMap =
    map (\<lambda>s. s\<lparr>ns_Score := rescore scores baseScore replaceMap (ns_Score s)\<rparr>) scores"
  using assms by (rule PowerConsumptions2Scores_pointwise)

theorem PowerConsumptions2Scores_refines_witness:
  "PowerConsumptions2Scores example_scores 20 ScoreReplaceMap =
     map (\<lambda>s. s\<lparr>ns_Score := rescore example_scores 20 ScoreReplaceMap (ns_Score s)\<rparr>) example_scores"
  by (rule PowerConsumptions2Scores_refines [OF example_scores_ok(1)])

text \<open>
  Beyond that range the product wraps around: three nodes at 0, \<open>2 ^ 60\<close> and \<open>ScoreMax - 1\<close>
  watts all get the score 100, the most expensive one included.
\<close>

theorem NormalizeScore_overflow:
  "map ns_Score (NormalizeScore [\<lparr>ns_Name = ''n1'', ns_Score = 0\<rparr>,
     \<lparr>ns_Name = ''n2'', ns_Score = 2 ^ 60\<rparr>, \<lparr>ns_Name = ''n3'', ns_Score = ScoreMax - 1\<rparr>]) = [100, 100, 100]"
  by code_simp

section \<open>Properties of Score and PreFilter\<close>

text \<open>
  How a client can bring \<open>Score\<close> down: it panics itself, or it returns a nil pointer and no error where the code goes on to
  read through the pointer.
\<close>

definition client_fault :: "'s score_env \<Rightarrow> goerr \<Rightarrow> bool" where
  "client_fault env e \<longleftrightarrow>
     (\<exists>n. panics (se_GetNodeMetrics env n) e) \<or> (\<exists>n m. panics (se_GetCustomMetric env n m) e) \<or>
     (\<exists>ns t ty. panics (se_GetPredictorEndpoint env ns t ty) e) \<or> (\<exists>ns t u i d. panics (se_Predict env ns t u i d) e) \<or>
     e = Panic ''nodeMetrics'' \<and> (\<exists>n. returns (se_GetNodeMetrics env n) None) \<or>
     (e = Panic ''inletTemp'' \<or> e = Panic ''deltaP'') \<and> (\<exists>n m. returns (se_GetCustomMetric env n m) None) \<or>
     e = Panic ''ep2'' \<and> (\<exists>ns t ty. returns (se_GetPredictorEndpoint env ns t ty) None)"

lemma client_faults:
  "faults_only (client_fault env) (\<lambda>p. p = None \<longrightarrow> client_fault env (Panic ''nodeMetrics'')) (se_GetNodeMetrics env n)"
  "faults_only (client_fault env) (\<lambda>p. p = None \<longrightarrow> client_fault env (Panic ''inletTemp'') \<and> client_fault env (Panic ''deltaP'')) (se_GetCustomMetric env n m)"
  "faults_only (client_fault env) (\<lambda>p. p = None \<longrightarrow> client_fault env (Panic ''ep2'')) (se_GetPredictorEndpoint env ns t ty)"
  "faults_only (client_fault env) (\<lambda>_. True) (se_Predict env ns t u i d)"
  by (rule faults_only_panics; simp add: client_fault_def; blast)+

lemma returns_or_deref:
  "(p = None \<Longrightarrow> F (Panic what)) \<Longrightarrow> (\<And>x. returns_or F P (k x)) \<Longrightarrow> returns_or F P (deref what p k)"
  by (auto simp: deref_def split: option.split)

lemma podPowerConsumption_range:
  "(\<And>x. is_i64 (oob x)) \<Longrightarrow> 0 \<le> podPowerConsumption oob b a \<and> podPowerConsumption oob b a \<le> MaxInt64"
  by (auto simp: podPowerConsumption_def Let_def f64_to_int_def is_i64_def MaxInt64_def split: f64.split)

lemma ScoreError_range: "0 \<le> ScoreError \<and> ScoreError \<le> MaxInt64"
  by (simp add: ScoreError_def MaxInt64_def)

lemma ScoreMax_range: "0 \<le> ScoreMax \<and> ScoreMax \<le> MaxInt64"
  by (simp add: ScoreMax_def MaxInt64_def)

lemma predictDelta_returns:
  assumes "\<And>x. is_i64 (oob x)"
  shows "returns_or (client_fault env) (\<lambda>w. 0 \<le> w \<and> w \<le> MaxInt64) (predictDelta env oob nc b a i d)"
proof -
  have pr: "returns_or (client_fault env) (\<lambda>w. 0 \<le> w \<and> w \<le> MaxInt64)
    (on_err (se_Predict env ns ep b i d) ScoreError (\<lambda>bw.
     on_err (se_Predict env ns ep a i d) ScoreError (\<lambda>aw. ret (podPowerConsumption oob bw aw))))" for ns ep
    by (intro returns_or_on_err [OF client_faults(4)])
      (simp_all add: ScoreError_range podPowerConsumption_range assms)
  show ?thesis
    unfolding predictDelta_def Let_def
    by (auto split: option.split intro!: pr returns_or_deref ScoreError_range returns_or_on_err [OF client_faults(3)])
qed

text \<open>
  C21. \<open>Score\<close> turns every error into a score: whatever the state, the pod and the node, and whatever errors its clients return, it
  returns no error and a number of watts from 0 to the largest 64-bit integer. The one other outcome is a panic, and then a
  client is the cause: it panicked itself or returned a nil pointer without an error. The conversion of a float that is out of range is taken
  to give some 64-bit integer, as Go leaves it open which.
\<close>

theorem Score_total:
  assumes "\<forall>x. is_i64 (oob x)"
  shows "(\<exists>w s'. Score env oob args pod nodeName s = (Inr w, s') \<and> 0 \<le> w \<and> w \<le> MaxInt64) \<or>
    (\<exists>e s'. Score env oob args pod nodeName s = (Inl e, s') \<and> is_panic e \<and> client_fault env e)"
proof -
  have "returns_or (client_fault env) (\<lambda>w. 0 \<le> w \<and> w \<le> MaxInt64) (Score env oob args pod nodeName)"
    using assms unfolding Score_def Let_def
    by (auto simp: ScoreError_range ScoreMax_range split: sum.split option.split
        intro!: returns_or_deref ScoreError_range returns_or_if predictDelta_returns
          returns_or_on_err [OF client_faults(1)] returns_or_on_err [OF client_faults(2)])
  then show ?thesis by (rule returns_orD)
qed

text \<open>A node with four cores at one core of load, and a model of 100 watts plus 8 per core.\<close>

definition example_node :: Node where
  "example_node = \<lparr>node_Name = ''n1'', node_Labels = [], node_Addresses = [], node_CapacityCpu = Fin 4\<rparr>"

definition example_pod :: Pod where
  "example_pod = \<lparr>pod_Name = ''p'', pod_Namespace = ''default'', pod_Annotations = [],
     pod_OwnerReferences = [], pod_NodeName = [], pod_Phase = ''Pending'',
     pod_Containers = [\<lparr>c_RequestsCpu = Fin 2, c_LimitsCpu = Fin 0\<rparr>], pod_Conditions = [], pod_Tolerations = []\<rparr>"

definition example_term :: EndpointTerm where
  "example_term = emptyEndpointTerm\<lparr>et_Type := TypeFake\<rparr>"

definition example_nc :: NodeConfig where
  "example_nc = \<lparr>nc_Name = ''t-n1'', nc_Namespace = ''wao-system'', nc_Deleting = False, nc_Owner = None,
     nc_Spec = \<lparr>ncs_NodeName = ''n1'',
       ncs_MetricsCollector = \<lparr>mc_InletTemp = example_term, mc_DeltaP = example_term\<rparr>,
       ncs_Predictor = \<lparr>pr_PowerConsumption = Some example_term, pr_PowerConsumptionEndpointProvider = None\<rparr>\<rparr>\<rparr>"

definition example_args :: MinimizePowerArgs where
  "example_args = Default \<lparr>mpa_MetricsCacheTTL = 0, mpa_PredictorCacheTTL = 0,
     mpa_PodUsageAssumption = Fin 0, mpa_CPUUsageFormat = []\<rparr>"

definition example_env :: "unit score_env" where
  "example_env = \<lparr>
     se_NodeInfo = (\<lambda>n. if n = ''n1'' then Inr \<lparr>ni_Node = example_node, ni_Pods = []\<rparr> else Inl (External ''not found'')),
     se_GetNodeMetrics = (\<lambda>n. ret (Some (Fin 1))),
     se_GetCustomMetric = (\<lambda>n m. ret (Some (Fin 20))),
     se_ListNodeConfigs = Inr [example_nc],
     se_GetPredictorEndpoint = (\<lambda>ns e t. ret (Some e)),
     se_Predict = (\<lambda>ns e u i d. ret (f64_add (Fin 100) (f64_mul (Fin 8) u)))\<rparr>"

theorem Score_total_witness:
  "\<exists>w s'. Score example_env (\<lambda>_. MinInt64) example_args example_pod ''n1'' () = (Inr w, s') \<and> 0 \<le> w \<and> w \<le> MaxInt64"
proof -
  have "\<not> client_fault example_env e" for e
    by (auto simp: client_fault_def panics_def returns_def example_env_def)
  then show ?thesis using Score_total [of "\<lambda>_. MinInt64" example_env example_args example_pod "''n1''" "()"]
    by (simp add: is_i64_def MinInt64_def MaxInt64_def)
qed

lemma Score_example: "Score example_env (\<lambda>_. MinInt64) example_args example_pod ''n1'' () = (Inr 16, ())"
  by code_simp

text \<open>
  An overcommitted node is marked: when the use after the pod would exceed the node's CPU
  capacity, the score is \<open>ScoreMax\<close>, and no custom metric and no prediction is asked for.
\<close>

theorem Score_overcommit:
  assumes "se_NodeInfo env nodeName = Inr ni"
    and "se_GetNodeMetrics env (node_Name (ni_Node ni)) s = (Inr (Some usage), s1)"
    and "before = f64_add usage (assumedAdditionalUsage args ni)"
    and "after = f64_add before (PodCPURequestOrLimit pod)"
    and "\<not> f64_eq before after" "f64_lt (node_CapacityCpu (ni_Node ni)) after"
  shows "Score env oob args pod nodeName s = (Inr ScoreMax, s1)"
  using assms by (simp add: Score_def on_err_def deref_def Let_def)

definition example_big_pod :: Pod where
  "example_big_pod = example_pod\<lparr>pod_Containers := [\<lparr>c_RequestsCpu = Fin 0, c_LimitsCpu = Fin 5\<rparr>]\<rparr>"

theorem Score_overcommit_witness:
  "Score example_env (\<lambda>_. MinInt64) example_args example_big_pod ''n1'' () = (Inr ScoreMax, ())"
  by (rule Score_overcommit [where ni = "\<lparr>ni_Node = example_node, ni_Pods = []\<rparr>" and usage = "Fin 1"
        and before = "Fin 1" and after = "Fin 6"]; code_simp)

text \<open>
  The arguments that are accepted: those that were given, with half a CPU's use assumed, 30 seconds, 30 minutes and the raw format
  where nothing was given, if the assumption is not below 0 and not above 1, which the value that is not a number is not either,
  and the format is one of two.
\<close>

theorem getArgs_exact:
  "getArgs (Some given) = Inr args \<longleftrightarrow>
     args = \<lparr>mpa_MetricsCacheTTL = (if mpa_MetricsCacheTTL given = 0 then 30 * 10 ^ 9 else mpa_MetricsCacheTTL given),
       mpa_PredictorCacheTTL = (if mpa_PredictorCacheTTL given = 0 then 30 * 60 * 10 ^ 9 else mpa_PredictorCacheTTL given),
       mpa_PodUsageAssumption = (if mpa_PodUsageAssumption given = Fin 0 then Fin (1 / 2) else mpa_PodUsageAssumption given),
       mpa_CPUUsageFormat = (if mpa_CPUUsageFormat given = [] then ''Raw'' else mpa_CPUUsageFormat given)\<rparr> \<and>
     (case mpa_PodUsageAssumption given of NaN \<Rightarrow> True | Fin x \<Rightarrow> 0 \<le> x \<and> x \<le> 1 | _ \<Rightarrow> False) \<and>
     mpa_CPUUsageFormat given \<in> {[], ''Raw'', ''Percent''}"
proof -
  let ?d = "\<lparr>mpa_MetricsCacheTTL = (if mpa_MetricsCacheTTL given = 0 then 30 * 10 ^ 9 else mpa_MetricsCacheTTL given),
       mpa_PredictorCacheTTL = (if mpa_PredictorCacheTTL given = 0 then 30 * 60 * 10 ^ 9 else mpa_PredictorCacheTTL given),
       mpa_PodUsageAssumption = (if mpa_PodUsageAssumption given = Fin 0 then Fin (1 / 2) else mpa_PodUsageAssumption given),
       mpa_CPUUsageFormat = (if mpa_CPUUsageFormat given = [] then ''Raw'' else mpa_CPUUsageFormat given)\<rparr>"
  have d: "Default given = ?d"
    by (cases given) (simp add: Default_def f64_eq_def Let_def DefaultMetricsCacheTTL_def DefaultPredictorCacheTTL_def
        DefaultPodUsageAssumption_def DefaultCPUUsageFormat_def CPUUsageFormatRaw_def)
  have v: "Validate args = None \<longleftrightarrow>
      (case mpa_PodUsageAssumption args of NaN \<Rightarrow> True | Fin x \<Rightarrow> 0 \<le> x \<and> x \<le> 1 | _ \<Rightarrow> False) \<and> mpa_CPUUsageFormat args \<in> {''Raw'', ''Percent''}" for args
    by (cases "mpa_PodUsageAssumption args") (auto simp: Validate_def CPUUsageFormatRaw_def CPUUsageFormatPercent_def)
  have "getArgs (Some given) = Inr args \<longleftrightarrow> args = Default given \<and> Validate (Default given) = None"
    by (auto simp: getArgs_def Let_def split: option.split)
  also have "\<dots> \<longleftrightarrow> args = ?d \<and> Validate ?d = None" unfolding d ..
  finally show ?thesis unfolding v by (cases "mpa_PodUsageAssumption given") auto
qed

end
