(* ===== verification/Pod_Spread.thy ===== *)
theory Pod_Spread
  imports Kube_Objects
begin

text \<open>
  The scheduler plugin \<open>wao-scheduler/pkg/plugins/podspread\<close>: the session it keeps per ReplicaSet,
  how a session is brought up to date from the cluster's pods and nodes, and which nodes the next
  pod may go to. \<open>strconv.ParseFloat\<close>, the API server's answers and \<open>metav1.IsControlledBy\<close> are
  parameters; a \<open>float64\<close> out of range converts to whatever \<open>oob\<close> says. Pod counts are far from
  64 bits, so they are plain integers.
\<close>

section \<open>Areas\<close>

type_synonym SpreadInfo = "(string, (string, bool) gomap) gomap"

fun GetNodeArea :: "SpreadInfo \<Rightarrow> string \<Rightarrow> string \<times> bool" where
  "GetNodeArea [] node = ([], False)"
| "GetNodeArea ((area, nodes) # s) node =
     (if map_of nodes node \<noteq> None then (area, True) else GetNodeArea s node)"

definition GetAreasOnlyControlPlane :: "SpreadInfo \<Rightarrow> string list" where
  "GetAreasOnlyControlPlane s = [area. (area, nodes) \<leftarrow> s, list_all (\<lambda>(n, isCP). isCP) nodes]"

datatype SpreadMode = SpreadModeRegion | SpreadModeZone | SpreadModeNode

record SchedulingSession =
  ss_TotalReplicas :: int
  ss_Redunduncy :: int
  ss_DeployedNodes :: "(string, int) gomap"
  ss_TotalDeployed :: int
  ss_SpreadMode :: SpreadMode
  ss_SpreadInfo :: SpreadInfo

text \<open>One pass over the nodes: those with the label are grouped by its value.\<close>

definition group_by_label :: "string \<Rightarrow> Node list \<Rightarrow> SpreadInfo" where
  "group_by_label label nodes =
     fold (\<lambda>n areas. case map_of (node_Labels n) label of
         None \<Rightarrow> areas
       | Some area \<Rightarrow>
           (let isCP = (map_of (node_Labels n) labelControlPlane \<noteq> None);
                areas = (if map_of areas area = None then AList.update area [] areas else areas)
            in AList.update area (AList.update (node_Name n) isCP (get_or [] areas area)) areas))
       nodes []"

definition getSpreadMode :: "Node list \<Rightarrow> SpreadMode \<times> SpreadInfo \<times> SpreadInfo" where
  "getSpreadMode nodeList =
     (let zones = group_by_label labelZone nodeList;
          regions = group_by_label labelRegion nodeList;
          mode = (if length regions \<ge> 2 then SpreadModeRegion
                  else if length zones \<ge> 2 then SpreadModeZone
                  else SpreadModeNode)
      in (mode, regions, zones))"

section \<open>The annotation\<close>

definition AnnotationPodSpreadRate :: string where
  "AnnotationPodSpreadRate = ''waok8s.github.io/podspread-rate''"

definition parseAnnotationPodSpreadRate ::
  "(string \<Rightarrow> f64 result) \<Rightarrow> (string, string) gomap \<Rightarrow> f64 result" where
  "parseAnnotationPodSpreadRate parseFloat annotations =
     (case map_of annotations AnnotationPodSpreadRate of
        None \<Rightarrow> Inl (Errorf ''annotation not found'')
      | Some podspreadRate \<Rightarrow>
          (case parseFloat podspreadRate of
             Inl err \<Rightarrow> Inl (Wrap ''parse annotation got error'' err)
           | Inr v \<Rightarrow> if f64_lt v (Fin 0) \<or> f64_lt (Fin 1) v
                      then Inl (Errorf ''annotation should be 0 <= v <= 1'') else Inr v))"

section \<open>The session\<close>

type_synonym sessions = "(string, SchedulingSession) gomap"

definition scheduled :: "string \<times> string \<Rightarrow> bool" where
  "scheduled cond \<longleftrightarrow> fst cond = ''PodScheduled'' \<and> snd cond = ''True''"

definition setDeployNodes ::
  "(Pod \<Rightarrow> ReplicaSet \<Rightarrow> bool) \<Rightarrow> ReplicaSet \<Rightarrow> Pod list \<Rightarrow> SchedulingSession \<Rightarrow> SchedulingSession" where
  "setDeployNodes isControlledBy rs podList ss =
     fold (\<lambda>pod ss. if \<not> isControlledBy pod rs then ss
         else fold (\<lambda>cond ss. if scheduled cond
               then ss\<lparr>ss_DeployedNodes := AList.update (pod_NodeName pod)
                          (get_or 0 (ss_DeployedNodes ss) (pod_NodeName pod) + 1) (ss_DeployedNodes ss),
                       ss_TotalDeployed := ss_TotalDeployed ss + 1\<rparr>
               else ss) (pod_Conditions pod) ss)
       podList (ss\<lparr>ss_TotalDeployed := 0\<rparr>)"

definition newSession :: "int \<Rightarrow> int \<Rightarrow> SchedulingSession" where
  "newSession totalReplicas redunduncy =
     \<lparr>ss_TotalReplicas = totalReplicas, ss_Redunduncy = redunduncy, ss_DeployedNodes = [],
      ss_TotalDeployed = 0, ss_SpreadMode = SpreadModeNode, ss_SpreadInfo = []\<rparr>"

text \<open>Every node that has no entry yet gets one with a count of 0.\<close>

fun zeroNodes :: "Node list \<Rightarrow> (string, int) gomap \<Rightarrow> (string, int) gomap" where
  "zeroNodes [] m = m"
| "zeroNodes (n # ns) m =
     zeroNodes ns (if map_of m (node_Name n) = None then AList.update (node_Name n) 0 m else m)"

text \<open>The update of a session that exists, from the pods and nodes of the cluster.\<close>

definition refreshSession ::
  "(Pod \<Rightarrow> ReplicaSet \<Rightarrow> bool) \<Rightarrow> ReplicaSet \<Rightarrow> Pod list \<Rightarrow> Node list \<Rightarrow> SchedulingSession \<Rightarrow> SchedulingSession" where
  "refreshSession isControlledBy rs podList nodeList ss =
     (let ss = setDeployNodes isControlledBy rs podList (ss\<lparr>ss_DeployedNodes := zeroNodes nodeList []\<rparr>);
          (mode, regions, zones) = getSpreadMode nodeList
      in ss\<lparr>ss_SpreadMode := mode,
            ss_SpreadInfo := (case mode of SpreadModeRegion \<Rightarrow> regions | SpreadModeZone \<Rightarrow> zones | SpreadModeNode \<Rightarrow> [])\<rparr>)"

definition updateSchedulingSession ::
  "(string \<Rightarrow> f64 result) \<Rightarrow> (f64 \<Rightarrow> int) \<Rightarrow> (Pod \<Rightarrow> ReplicaSet \<Rightarrow> bool) \<Rightarrow>
   ReplicaSet \<Rightarrow> Pod list \<Rightarrow> Node list \<Rightarrow> (sessions, unit) call" where
  "updateSchedulingSession parseFloat oob isControlledBy rs podList nodeList st =
     (let init = (case map_of st (rs_Name rs) of
            Some _ \<Rightarrow> Inr st
          | None \<Rightarrow>
              (let totalReplicas = (case rs_Replicas rs of None \<Rightarrow> 0 | Some n \<Rightarrow> n) in
               case parseAnnotationPodSpreadRate parseFloat (rs_Annotations rs) of
                 Inl err \<Rightarrow> Inl err
               | Inr rate \<Rightarrow>
                   Inr (AList.update (rs_Name rs)
                     (newSession totalReplicas (f64_to_int oob (f64_mul (f64_of_int totalReplicas) rate))) st)))
      in case init of
           Inl err \<Rightarrow> (Inl err, st)
         | Inr st \<Rightarrow>
             (Inr (), AList.update (rs_Name rs)
               (refreshSession isControlledBy rs podList nodeList (the (map_of st (rs_Name rs)))) st))"

section \<open>The nodes the next pod may go to\<close>

definition isControlPlane :: "Node list \<Rightarrow> string \<Rightarrow> bool" where
  "isControlPlane nodeList name \<longleftrightarrow>
     list_ex (\<lambda>n. node_Name n = name \<and> map_of (node_Labels n) labelControlPlane \<noteq> None) nodeList"

definition isControlPlaneSchedulable :: "Pod \<Rightarrow> bool" where
  "isControlPlaneSchedulable pod \<longleftrightarrow>
     list_ex (\<lambda>t. tol_Key t = labelControlPlane \<and> tol_Operator t = ''Exists'' \<and> tol_Effect t = ''NoSchedule'')
       (pod_Tolerations pod)"

definition areaCount :: "(string, int) gomap \<Rightarrow> (string, bool) gomap \<Rightarrow> int" where
  "areaCount deployedNodes nodes = fold (\<lambda>(n, cp) d. d + get_or 0 deployedNodes n) nodes 0"

definition MaxInt :: int where
  "MaxInt = MaxInt64"

definition getAllocatableNodes :: "SchedulingSession \<Rightarrow> Pod \<Rightarrow> Node list \<Rightarrow> string list" where
  "getAllocatableNodes ss pod nodeList =
     (if ss_TotalDeployed ss \<ge> ss_Redunduncy ss then map node_Name nodeList
      else
       (let cpOk = isControlPlaneSchedulable pod in
        case ss_SpreadMode ss of
          SpreadModeNode \<Rightarrow>
            (let eligible = [(n, d) \<leftarrow> ss_DeployedNodes ss. \<not> (isControlPlane nodeList n \<and> \<not> cpOk)];
                 minDeployed = min_loop MaxInt (map snd eligible)
             in map fst [(n, d) \<leftarrow> eligible. d = minDeployed])
        | _ \<Rightarrow>
            (let areaDeployed = map (\<lambda>(area, nodes). (area, areaCount (ss_DeployedNodes ss) nodes)) (ss_SpreadInfo ss);
                 cpOnlyAreas = [area. (area, nodes) \<leftarrow> ss_SpreadInfo ss, \<not> list_ex (\<lambda>(n, cp). \<not> cp) nodes];
                 minNum = min_loop MaxInt (map snd areaDeployed);
                 minAreas = [area. (area, deployed) \<leftarrow> areaDeployed,
                               \<not> (\<not> cpOk \<and> area \<in> set cpOnlyAreas), deployed = minNum];
                 allowedNodes = fold (\<lambda>area m.
                     fold (\<lambda>(n, cp) m. if cp \<and> \<not> cpOk then m else AList.update n () m)
                       (get_or [] (ss_SpreadInfo ss) area) m) minAreas []
             in map fst allowedNodes)))"

section \<open>PreFilter\<close>

text \<open>What the API server answers; a call may fail.\<close>

record ps_api =
  pa_GetReplicaSet :: "string \<Rightarrow> string \<Rightarrow> ReplicaSet result"
  pa_ListPods :: "string \<Rightarrow> Pod list result"
  pa_ListNodes :: "Node list result"

definition controllerReplicaSet :: "Pod \<Rightarrow> string" where
  "controllerReplicaSet pod =
     fold (\<lambda>r name. if or_Controller r = Some True \<and> or_Kind r = ''ReplicaSet'' then or_Name r else name)
       (pod_OwnerReferences pod) []"

text \<open>\<open>None\<close> leaves every node to the other plugins; \<open>Some\<close> restricts the pod to these nodes.\<close>

definition PreFilter ::
  "(string \<Rightarrow> f64 result) \<Rightarrow> (f64 \<Rightarrow> int) \<Rightarrow> (Pod \<Rightarrow> ReplicaSet \<Rightarrow> bool) \<Rightarrow> ps_api \<Rightarrow> Pod \<Rightarrow>
   sessions \<Rightarrow> string list option \<times> sessions" where
  "PreFilter parseFloat oob isControlledBy api pod st =
     (case parseAnnotationPodSpreadRate parseFloat (pod_Annotations pod) of Inl _ \<Rightarrow> (None, st) | Inr _ \<Rightarrow>
      if controllerReplicaSet pod = [] then (None, st)
      else (case pa_GetReplicaSet api (pod_Namespace pod) (controllerReplicaSet pod) of Inl _ \<Rightarrow> (None, st) | Inr rs \<Rightarrow>
      (case pa_ListPods api (rs_Namespace rs) of Inl _ \<Rightarrow> (None, st) | Inr podList \<Rightarrow>
      (case pa_ListNodes api of Inl _ \<Rightarrow> (None, st) | Inr nodeList \<Rightarrow>
      (case updateSchedulingSession parseFloat oob isControlledBy rs podList nodeList st of
         (Inl _, st) \<Rightarrow> (None, st)
       | (Inr _, st) \<Rightarrow>
           (Some (getAllocatableNodes (the (map_of st (rs_Name rs))) pod nodeList), st))))))"

section \<open>Lemmas on the session\<close>

lemma sum_update:
  "wf_map m \<Longrightarrow> sum_list (map snd (AList.update k v m)) = sum_list (map snd m) - get_or 0 m k + (v::int)"
proof (induction m)
  case Nil
  then show ?case by (simp add: get_or_def)
next
  case (Cons x m)
  obtain k' v' where x: "x = (k', v')" by fastforce
  show ?case
  proof (cases "k' = k")
    case True
    then show ?thesis by (simp add: x get_or_def)
  next
    case False
    with Cons show ?thesis by (simp add: x get_or_def)
  qed
qed

text \<open>The counts of a session are not negative and add up to the total, one entry per node.\<close>

definition session_inv :: "SchedulingSession \<Rightarrow> bool" where
  "session_inv ss \<longleftrightarrow> wf_map (ss_DeployedNodes ss) \<and>
     (\<forall>(n, d)\<in>set (ss_DeployedNodes ss). 0 \<le> d) \<and>
     sum_list (map snd (ss_DeployedNodes ss)) = ss_TotalDeployed ss"

definition count1 :: "string \<Rightarrow> SchedulingSession \<Rightarrow> SchedulingSession" where
  "count1 n ss = ss\<lparr>ss_DeployedNodes := AList.update n (get_or 0 (ss_DeployedNodes ss) n + 1) (ss_DeployedNodes ss),
     ss_TotalDeployed := ss_TotalDeployed ss + 1\<rparr>"

lemma get_or_nonneg: "\<forall>(n, d)\<in>set m. (0::int) \<le> d \<Longrightarrow> 0 \<le> get_or 0 m n"
  by (auto simp: get_or_def split: option.split dest!: map_of_SomeD)

lemma count1_inv: "session_inv ss \<Longrightarrow> session_inv (count1 n ss)"
proof -
  assume inv: "session_inv ss"
  let ?m = "ss_DeployedNodes ss"
  have "0 \<le> get_or 0 ?m n" using inv by (intro get_or_nonneg) (simp add: session_inv_def)
  then have "\<forall>(n, d)\<in>set (AList.update n (get_or 0 ?m n + 1) ?m). 0 \<le> d"
    using inv by (intro Ball_update) (simp_all add: session_inv_def)
  then show ?thesis
    using inv by (simp add: session_inv_def count1_def sum_update)
qed

lemma setDeployNodes_count1:
  "setDeployNodes isControlledBy rs podList ss =
     fold (\<lambda>n. count1 n) [pod_NodeName pod. pod \<leftarrow> podList, isControlledBy pod rs, c \<leftarrow> pod_Conditions pod, scheduled c]
       (ss\<lparr>ss_TotalDeployed := 0\<rparr>)"
proof -
  have inner: "fold (\<lambda>cond ss. if scheduled cond
        then ss\<lparr>ss_DeployedNodes := AList.update n (get_or 0 (ss_DeployedNodes ss) n + 1) (ss_DeployedNodes ss),
                ss_TotalDeployed := ss_TotalDeployed ss + 1\<rparr> else ss) cs ss =
      fold (\<lambda>n. count1 n) [n. c \<leftarrow> cs, scheduled c] ss" for n cs ss
    by (induction cs arbitrary: ss) (simp_all add: count1_def)
  have "fold (\<lambda>pod ss. if \<not> isControlledBy pod rs then ss
         else fold (\<lambda>cond ss. if scheduled cond
               then ss\<lparr>ss_DeployedNodes := AList.update (pod_NodeName pod)
                          (get_or 0 (ss_DeployedNodes ss) (pod_NodeName pod) + 1) (ss_DeployedNodes ss),
                       ss_TotalDeployed := ss_TotalDeployed ss + 1\<rparr>
               else ss) (pod_Conditions pod) ss) podList ss =
      fold (\<lambda>n. count1 n) [pod_NodeName pod. pod \<leftarrow> podList, isControlledBy pod rs, c \<leftarrow> pod_Conditions pod, scheduled c] ss" for ss
    by (induction podList arbitrary: ss) (simp_all add: inner)
  then show ?thesis by (simp add: setDeployNodes_def)
qed

lemma fold_count1_inv: "session_inv ss \<Longrightarrow> session_inv (fold (\<lambda>n. count1 n) ns ss)"
  by (induction ns arbitrary: ss) (simp_all add: count1_inv)

lemma fold_count1_lookup:
  "get_or 0 (ss_DeployedNodes (fold (\<lambda>n. count1 n) ns ss)) n =
     get_or 0 (ss_DeployedNodes ss) n + int (count_list ns n)"
  by (induction ns arbitrary: ss) (simp_all add: count1_def)

lemma fold_count1_frame:
  "ss_Redunduncy (fold (\<lambda>n. count1 n) ns ss) = ss_Redunduncy ss"
  "ss_TotalReplicas (fold (\<lambda>n. count1 n) ns ss) = ss_TotalReplicas ss"
  "ss_TotalDeployed (fold (\<lambda>n. count1 n) ns ss) = ss_TotalDeployed ss + int (length ns)"
  by (induction ns arbitrary: ss) (simp_all add: count1_def)

lemma fold_count1_dom:
  "fst ` set (ss_DeployedNodes (fold (\<lambda>n. count1 n) ns ss)) = fst ` set (ss_DeployedNodes ss) \<union> set ns"
  by (induction ns arbitrary: ss) (auto simp: count1_def keys_update)

lemma zeroNodes_wf: "wf_map m \<Longrightarrow> wf_map (zeroNodes ns m)"
  by (induction ns m rule: zeroNodes.induct) simp_all

lemma zeroNodes_zero: "\<forall>x\<in>set m. snd x = 0 \<Longrightarrow> \<forall>x\<in>set (zeroNodes ns m). snd x = 0"
proof (induction ns m rule: zeroNodes.induct)
  case (2 n ns m)
  have "\<forall>x\<in>set (if map_of m (node_Name n) = None then AList.update (node_Name n) 0 m else m). snd x = 0"
    using "2.prems" Ball_update [of m "\<lambda>x. snd x = 0"] by simp
  then show ?case using "2.IH" by simp
qed simp

lemma zeroNodes_dom: "fst ` set (zeroNodes ns m) = fst ` set m \<union> node_Name ` set ns"
proof (induction ns m rule: zeroNodes.induct)
  case (2 n ns m)
  show ?case
  proof (cases "map_of m (node_Name n) = None")
    case True
    with "2.IH" show ?thesis by (simp add: keys_update)
  next
    case False
    then obtain v where v: "map_of m (node_Name n) = Some v" by blast
    then have "node_Name n \<in> fst ` set m" by (metis map_of_eq_None_iff option.distinct(1))
    with v "2.IH" show ?thesis by (simp add: insert_absorb)
  qed
qed simp

definition placements ::
  "(Pod \<Rightarrow> ReplicaSet \<Rightarrow> bool) \<Rightarrow> ReplicaSet \<Rightarrow> Pod list \<Rightarrow> string list" where
  "placements isControlledBy rs podList =
     [pod_NodeName pod. pod \<leftarrow> podList, isControlledBy pod rs, c \<leftarrow> pod_Conditions pod, scheduled c]"

lemma refreshSession_spec:
  fixes isControlledBy rs podList nodeList ss
  defines "ss' \<equiv> refreshSession isControlledBy rs podList nodeList ss"
  shows "session_inv ss'"
    and "get_or 0 (ss_DeployedNodes ss') n = int (count_list (placements isControlledBy rs podList) n)"
    and "ss_TotalDeployed ss' = int (length (placements isControlledBy rs podList))"
    and "ss_Redunduncy ss' = ss_Redunduncy ss"
    and "fst ` set (ss_DeployedNodes ss') = node_Name ` set nodeList \<union> set (placements isControlledBy rs podList)"
proof -
  define m0 where "m0 = zeroNodes nodeList []"
  define s0 where "s0 = ss\<lparr>ss_DeployedNodes := m0, ss_TotalDeployed := 0\<rparr>"
  define s1 where "s1 = fold (\<lambda>n. count1 n) (placements isControlledBy rs podList) s0"
  have m: "wf_map m0" "\<forall>x\<in>set m0. snd x = 0" "fst ` set m0 = node_Name ` set nodeList"
    using zeroNodes_zero [of "[]" nodeList] by (simp_all add: m0_def zeroNodes_wf zeroNodes_dom)
  have same: "ss_DeployedNodes ss' = ss_DeployedNodes s1" "ss_TotalDeployed ss' = ss_TotalDeployed s1"
      "ss_Redunduncy ss' = ss_Redunduncy s1"
    by (simp_all add: ss'_def refreshSession_def Let_def setDeployNodes_count1 placements_def s1_def s0_def m0_def
        split: prod.split)
  have z: "get_or 0 m0 n = 0" for n
    using m(2) by (auto simp: get_or_def split: option.split dest!: map_of_SomeD)
  have "sum_list (map snd m0) = 0" using m(2) by (induction m0) auto
  then have "session_inv s0" using m by (fastforce simp: session_inv_def s0_def)
  then have "session_inv s1" by (simp add: s1_def fold_count1_inv)
  then show "session_inv ss'" by (simp add: session_inv_def same)
  show "get_or 0 (ss_DeployedNodes ss') n = int (count_list (placements isControlledBy rs podList) n)"
    by (simp add: same s1_def fold_count1_lookup s0_def z)
  show "ss_TotalDeployed ss' = int (length (placements isControlledBy rs podList))"
    "ss_Redunduncy ss' = ss_Redunduncy ss"
    by (simp_all add: same s1_def fold_count1_frame s0_def)
  show "fst ` set (ss_DeployedNodes ss') = node_Name ` set nodeList \<union> set (placements isControlledBy rs podList)"
    by (simp add: same s1_def fold_count1_dom s0_def m(3))
qed

section \<open>Properties of the session\<close>

text \<open>
  C18. A successful update leaves an exact session: the count of every node is the number of times
  a pod of the ReplicaSet is reported as scheduled there, the counts are not negative and add up to
  the total, every node of the cluster has an entry, and no other session is touched; a failed
  update changes nothing.
\<close>

theorem updateSchedulingSession_exact:
  assumes "updateSchedulingSession parseFloat oob isControlledBy rs podList nodeList st = (r, st')"
  shows "(case r of
      Inl _ \<Rightarrow> st' = st
    | Inr _ \<Rightarrow> (\<exists>ss. map_of st' (rs_Name rs) = Some ss \<and> session_inv ss \<and>
        node_Name ` set nodeList \<subseteq> fst ` set (ss_DeployedNodes ss) \<and>
        (\<forall>n. get_or 0 (ss_DeployedNodes ss) n = int (count_list (placements isControlledBy rs podList) n)) \<and>
        ss_TotalDeployed ss = int (length (placements isControlledBy rs podList))) \<and>
        (\<forall>k. k \<noteq> rs_Name rs \<longrightarrow> map_of st' k = map_of st k))"
proof (cases r)
  case (Inl e)
  with assms show ?thesis
    by (auto simp: updateSchedulingSession_def Let_def split: option.splits sum.splits)
next
  case (Inr u)
  with assms obtain ss st1 where
      "st' = AList.update (rs_Name rs) (refreshSession isControlledBy rs podList nodeList ss) st1"
      and "\<forall>k. k \<noteq> rs_Name rs \<longrightarrow> map_of st1 k = map_of st k"
    by (auto simp: updateSchedulingSession_def Let_def split: option.splits sum.splits)
  then show ?thesis using Inr by (auto simp: refreshSession_spec)
qed

definition example_nodes :: "Node list" where
  "example_nodes = map (\<lambda>(n, z, cp). \<lparr>node_Name = n,
      node_Labels = (labelZone, z) # (if cp then [(labelControlPlane, [])] else []),
      node_Addresses = [], node_CapacityCpu = Fin 4\<rparr>)
     [(''w1'', ''z1'', False), (''w2'', ''z2'', False), (''cp'', ''z3'', True)]"

definition example_rs :: ReplicaSet where
  "example_rs = \<lparr>rs_Name = ''rs'', rs_Namespace = ''default'', rs_UID = ''u'', rs_Replicas = Some 4,
     rs_Annotations = [(AnnotationPodSpreadRate, ''1.0'')]\<rparr>"

definition example_replica :: "string \<Rightarrow> Pod" where
  "example_replica n = \<lparr>pod_Name = ''p'', pod_Namespace = ''default'', pod_Annotations = rs_Annotations example_rs,
     pod_OwnerReferences = [\<lparr>or_Kind = ''ReplicaSet'', or_Name = ''rs'', or_UID = ''u'', or_Controller = Some True\<rparr>],
     pod_NodeName = n, pod_Phase = ''Running'', pod_Containers = [],
     pod_Conditions = (if n = [] then [] else [(''PodScheduled'', ''True'')]), pod_Tolerations = []\<rparr>"

definition example_controlled :: "Pod \<Rightarrow> ReplicaSet \<Rightarrow> bool" where
  "example_controlled pod rs \<longleftrightarrow>
     list_ex (\<lambda>r. or_Controller r = Some True \<and> or_UID r = rs_UID rs) (pod_OwnerReferences pod)"

definition example_parse :: "string \<Rightarrow> f64 result" where
  "example_parse v = (if v = ''1.0'' then Inr (Fin 1) else if v = ''NaN'' then Inr NaN else Inl (External ''invalid syntax''))"

theorem updateSchedulingSession_exact_witness:
  "\<exists>ss. map_of (snd (updateSchedulingSession example_parse (\<lambda>_. 0) example_controlled example_rs
        [example_replica ''w1'', example_replica ''w2'', example_replica []] example_nodes [])) ''rs'' = Some ss \<and>
     session_inv ss \<and> ss_TotalDeployed ss = 2"
proof -
  let ?u = "updateSchedulingSession example_parse (\<lambda>_. 0) example_controlled example_rs
        [example_replica ''w1'', example_replica ''w2'', example_replica []] example_nodes []"
  have ok: "fst ?u = Inr ()" by code_simp
  have len: "length (placements example_controlled example_rs
      [example_replica ''w1'', example_replica ''w2'', example_replica []]) = 2" by code_simp
  have "?u = (Inr (), snd ?u)" using ok by (metis prod.collapse)
  from updateSchedulingSession_exact [OF this] len show ?thesis by (auto simp: example_rs_def)
qed

section \<open>Properties of the allocation\<close>

definition mayUse :: "Pod \<Rightarrow> Node list \<Rightarrow> string \<Rightarrow> bool" where
  "mayUse pod nodeList n \<longleftrightarrow> isControlPlaneSchedulable pod \<or> \<not> isControlPlane nodeList n"

lemma node_mode_eq:
  assumes "ss_SpreadMode ss = SpreadModeNode" "ss_TotalDeployed ss < ss_Redunduncy ss"
  shows "set (getAllocatableNodes ss pod nodeList) =
    {n. \<exists>d. (n, d) \<in> set (ss_DeployedNodes ss) \<and> mayUse pod nodeList n \<and>
       d = min_loop MaxInt (map snd [(n, d) \<leftarrow> ss_DeployedNodes ss. mayUse pod nodeList n])}"
  using assms
  by (auto simp: getAllocatableNodes_def Let_def mayUse_def case_prod_beta' disj_commute image_iff)

lemma node_mode_min:
  assumes "ss_SpreadMode ss = SpreadModeNode" "ss_TotalDeployed ss < ss_Redunduncy ss"
    and "wf_map (ss_DeployedNodes ss)" "\<forall>(n, d)\<in>set (ss_DeployedNodes ss). d \<le> MaxInt"
  shows "n \<in> set (getAllocatableNodes ss pod nodeList) \<longleftrightarrow>
    (\<exists>d. map_of (ss_DeployedNodes ss) n = Some d \<and> mayUse pod nodeList n \<and>
      (\<forall>m e. map_of (ss_DeployedNodes ss) m = Some e \<and> mayUse pod nodeList m \<longrightarrow> d \<le> e))"
proof -
  let ?D = "ss_DeployedNodes ss"
  let ?E = "map snd [(n, d) \<leftarrow> ?D. mayUse pod nodeList n]"
  have inE: "x \<in> set ?E \<longleftrightarrow> (\<exists>m. (m, x) \<in> set ?D \<and> mayUse pod nodeList m)" for x
    by (auto simp: image_iff)
  have mn: "x = min_loop MaxInt ?E \<longleftrightarrow> (\<forall>e\<in>set ?E. x \<le> e)" if "x \<in> set ?E" for x
  proof -
    have "\<forall>e\<in>set ?E. e \<le> MaxInt" using assms(4) by auto
    moreover have "?E \<noteq> []" using that by (metis empty_iff empty_set)
    ultimately have "min_loop MaxInt ?E \<in> set ?E" by (rule min_loop_in [rotated])
    then show ?thesis using that by (metis min_loop_le order_antisym)
  qed
  have mem: "(m, e) \<in> set ?D \<longleftrightarrow> map_of ?D m = Some e" for m e
    by (rule wf_map_mem_iff [OF assms(3)])
  have "d = min_loop MaxInt ?E \<longleftrightarrow> (\<forall>m e. map_of ?D m = Some e \<and> mayUse pod nodeList m \<longrightarrow> d \<le> e)"
    if "map_of ?D n = Some d" "mayUse pod nodeList n" for d
  proof -
    have "d \<in> set ?E" unfolding inE mem using that by blast
    from mn [OF this] show ?thesis unfolding Ball_def inE mem by blast
  qed
  then show ?thesis
    unfolding node_mode_eq [OF assms(1,2)] mem_Collect_eq mem by blast
qed

text \<open>
  C19. Spreading over nodes picks exactly the least loaded ones: while the ReplicaSet is not
  redundant enough, a node is offered to the next pod just when the pod may use it and no other
  node the pod may use holds fewer pods of the ReplicaSet, so some node is offered whenever there
  is one the pod may use.
\<close>

theorem getAllocatableNodes_least_loaded:
  assumes "ss_SpreadMode ss = SpreadModeNode" "ss_TotalDeployed ss < ss_Redunduncy ss"
    and "session_inv ss" "\<forall>(n, d)\<in>set (ss_DeployedNodes ss). d \<le> MaxInt"
  shows "(\<forall>n. n \<in> set (getAllocatableNodes ss pod nodeList) \<longleftrightarrow>
      (\<exists>d. map_of (ss_DeployedNodes ss) n = Some d \<and> mayUse pod nodeList n \<and>
        (\<forall>m e. map_of (ss_DeployedNodes ss) m = Some e \<and> mayUse pod nodeList m \<longrightarrow> d \<le> e))) \<and>
    ((\<exists>n\<in>fst ` set (ss_DeployedNodes ss). mayUse pod nodeList n) \<longrightarrow> getAllocatableNodes ss pod nodeList \<noteq> [])"
proof (intro conjI impI allI)
  let ?D = "ss_DeployedNodes ss"
  let ?E = "map snd [(n, d) \<leftarrow> ?D. mayUse pod nodeList n]"
  have wf: "wf_map ?D" using assms(3) by (simp add: session_inv_def)
  show "n \<in> set (getAllocatableNodes ss pod nodeList) \<longleftrightarrow>
      (\<exists>d. map_of ?D n = Some d \<and> mayUse pod nodeList n \<and>
        (\<forall>m e. map_of ?D m = Some e \<and> mayUse pod nodeList m \<longrightarrow> d \<le> e))" for n
    by (rule node_mode_min [OF assms(1,2) wf assms(4)])
  assume "\<exists>n\<in>fst ` set ?D. mayUse pod nodeList n"
  then have "?E \<noteq> []" by (force simp: filter_empty_conv)
  moreover have "\<forall>e\<in>set ?E. e \<le> MaxInt" using assms(4) by auto
  ultimately have "min_loop MaxInt ?E \<in> set ?E" by (rule min_loop_in)
  then obtain n where "(n, min_loop MaxInt ?E) \<in> set ?D" "mayUse pod nodeList n" by auto
  then have "n \<in> set (getAllocatableNodes ss pod nodeList)"
    unfolding node_mode_eq [OF assms(1,2)] by blast
  then show "getAllocatableNodes ss pod nodeList \<noteq> []" by auto
qed

definition example_session :: SchedulingSession where
  "example_session = \<lparr>ss_TotalReplicas = 4, ss_Redunduncy = 4,
     ss_DeployedNodes = [(''w1'', 1), (''w2'', 0), (''cp'', 0)], ss_TotalDeployed = 1,
     ss_SpreadMode = SpreadModeNode, ss_SpreadInfo = []\<rparr>"

theorem getAllocatableNodes_least_loaded_witness:
  "''w2'' \<in> set (getAllocatableNodes example_session (example_replica []) example_nodes) \<and>
   getAllocatableNodes example_session (example_replica []) example_nodes \<noteq> []"
proof -
  have h: "ss_SpreadMode example_session = SpreadModeNode"
    "ss_TotalDeployed example_session < ss_Redunduncy example_session" "session_inv example_session"
    "\<forall>(n, d)\<in>set (ss_DeployedNodes example_session). d \<le> MaxInt"
    by (simp_all add: example_session_def session_inv_def MaxInt_def MaxInt64_def)
  have u: "mayUse (example_replica []) example_nodes ''w2''"
    "\<not> mayUse (example_replica []) example_nodes ''cp''" by code_simp+
  show ?thesis
    using getAllocatableNodes_least_loaded [OF h, of "example_replica []" example_nodes] u
    by (auto simp: example_session_def split: if_splits)
qed

text \<open>
  Scheduling in rounds: each pod of the ReplicaSet is put on one of the offered nodes, and the next
  session counts it there.
\<close>

inductive spread_run :: "Pod \<Rightarrow> Node list \<Rightarrow> SchedulingSession \<Rightarrow> SchedulingSession \<Rightarrow> bool"
  for pod nodeList ss where
  start: "spread_run pod nodeList ss ss"
| place: "spread_run pod nodeList ss ss' \<Longrightarrow> ss_TotalDeployed ss' < ss_Redunduncy ss' \<Longrightarrow>
     n \<in> set (getAllocatableNodes ss' pod nodeList) \<Longrightarrow> spread_run pod nodeList ss (count1 n ss')"

definition balanced :: "Pod \<Rightarrow> Node list \<Rightarrow> SchedulingSession \<Rightarrow> bool" where
  "balanced pod nodeList ss \<longleftrightarrow> (\<forall>n d m e.
     map_of (ss_DeployedNodes ss) n = Some d \<and> mayUse pod nodeList n \<and>
     map_of (ss_DeployedNodes ss) m = Some e \<and> mayUse pod nodeList m \<longrightarrow> d \<le> e + 1)"

lemma place_balanced:
  assumes "ss_SpreadMode ss = SpreadModeNode" "ss_TotalDeployed ss < ss_Redunduncy ss"
    and "wf_map (ss_DeployedNodes ss)" "\<forall>(n, d)\<in>set (ss_DeployedNodes ss). d \<le> MaxInt"
    and "balanced pod nodeList ss" "n \<in> set (getAllocatableNodes ss pod nodeList)"
  shows "balanced pod nodeList (count1 n ss)"
proof -
  obtain d where d: "map_of (ss_DeployedNodes ss) n = Some d"
    "\<forall>m e. map_of (ss_DeployedNodes ss) m = Some e \<and> mayUse pod nodeList m \<longrightarrow> d \<le> e"
    using assms(6) node_mode_min [OF assms(1-4)] by blast
  then have "get_or 0 (ss_DeployedNodes ss) n = d" by (simp add: get_or_def)
  then show ?thesis
    using assms(5) d unfolding balanced_def count1_def by (fastforce split: if_splits)
qed

lemma spread_run_frame:
  "spread_run pod nodeList ss ss' \<Longrightarrow>
     ss_SpreadMode ss' = ss_SpreadMode ss \<and> ss_Redunduncy ss' = ss_Redunduncy ss \<and>
     ss_TotalDeployed ss \<le> ss_TotalDeployed ss'"
  by (induction rule: spread_run.induct) (auto simp: count1_def)

lemma member_le_sum:
  assumes "\<forall>(n, d)\<in>set m. (0::int) \<le> d" "(n, d) \<in> set m"
  shows "d \<le> sum_list (map snd m)"
  using assms
proof (induction m)
  case (Cons x m)
  have "0 \<le> sum_list (map snd m)" using Cons.prems(1) by (intro sum_list_nonneg) auto
  with Cons show ?case by (cases x) fastforce
qed simp

text \<open>
  C24. In the mode that spreads over nodes, the spread is even: placing the pods of a ReplicaSet one by one on
  offered nodes, from an exact session whose counts differ by at most one, keeps the counts of any two nodes the pods
  may use within one of each other, and the session exact, as long as less than the wanted redundancy is
  deployed. The wanted redundancy is assumed to fit the machine's integers. (In the modes that spread over zones or regions
  the counts of nodes need not be even, and nothing is said of them here.)
\<close>

theorem spread_run_even:
  assumes "spread_run pod nodeList ss ss'"
    and "ss_SpreadMode ss = SpreadModeNode" "session_inv ss" "balanced pod nodeList ss"
    and "ss_Redunduncy ss \<le> MaxInt"
  shows "session_inv ss' \<and> balanced pod nodeList ss'"
  using assms(1)
proof (induction rule: spread_run.induct)
  case start
  with assms show ?case by simp
next
  case (place ss' n)
  have fr: "ss_SpreadMode ss' = SpreadModeNode" "ss_TotalDeployed ss' < MaxInt"
    using spread_run_frame [OF place.hyps(1)] place.hyps(2) assms(2,5) by auto
  have inv: "session_inv ss'" using place.IH by simp
  then have "\<forall>(n, d)\<in>set (ss_DeployedNodes ss'). d \<le> MaxInt"
    using member_le_sum [of "ss_DeployedNodes ss'"] fr(2) by (fastforce simp: session_inv_def)
  then have "balanced pod nodeList (count1 n ss')"
    using place fr inv by (intro place_balanced) (simp_all add: session_inv_def)
  with inv show ?case by (simp add: count1_inv)
qed

theorem spread_run_even_witness:
  "session_inv (count1 ''w2'' example_session) \<and>
   balanced (example_replica []) example_nodes (count1 ''w2'' example_session)"
proof (rule spread_run_even)
  show "spread_run (example_replica []) example_nodes example_session (count1 ''w2'' example_session)"
    by (rule spread_run.place [OF spread_run.start]; code_simp)
  have u: "\<not> mayUse (example_replica []) example_nodes ''cp''" by code_simp
  show "balanced (example_replica []) example_nodes example_session"
    using u by (auto simp: balanced_def example_session_def split: if_splits)
qed (simp_all add: example_session_def session_inv_def MaxInt_def MaxInt64_def)

section \<open>Properties of the allocation over zones and regions\<close>

lemma fold_update_keys:
  "fst ` set (fold (\<lambda>(n, cp) m. if cp \<and> \<not> ok then m else AList.update n () m) nodes m) =
     fst ` set m \<union> {n. \<exists>cp. (n, cp) \<in> set nodes \<and> (cp \<longrightarrow> ok)}"
proof (induction nodes arbitrary: m)
  case (Cons x nodes)
  obtain n cp where x: "x = (n, cp)" by fastforce
  show ?case
  proof (cases "cp \<and> \<not> ok")
    case True
    then show ?thesis using Cons.IH [of m] by (auto simp: x)
  next
    case False
    then have "fst ` set (fold (\<lambda>(n, cp) m. if cp \<and> \<not> ok then m else AList.update n () m) (x # nodes) m) =
        insert n (fst ` set m) \<union> {n. \<exists>cp. (n, cp) \<in> set nodes \<and> (cp \<longrightarrow> ok)}"
      by (simp only: x fold.simps comp_def prod.case if_False Cons.IH keys_update)
    with False show ?thesis by (auto simp: x)
  qed
qed simp

lemma fold_areas_keys:
  "fst ` set (fold (\<lambda>area m. fold (\<lambda>(n, cp) m. if cp \<and> \<not> ok then m else AList.update n () m) (f area) m) areas m) =
     fst ` set m \<union> {n. \<exists>area\<in>set areas. \<exists>cp. (n, cp) \<in> set (f area) \<and> (cp \<longrightarrow> ok)}"
  by (induction areas arbitrary: m) (auto simp: fold_update_keys)

definition areaCounts :: "SchedulingSession \<Rightarrow> int list" where
  "areaCounts ss = map (\<lambda>(area, nodes). areaCount (ss_DeployedNodes ss) nodes) (ss_SpreadInfo ss)"

definition hasWorker :: "(string, bool) gomap \<Rightarrow> bool" where
  "hasWorker nodes \<longleftrightarrow> list_ex (\<lambda>(n, cp). \<not> cp) nodes"

lemma areaCounts_eq:
  "areaCounts ss = map snd (map (\<lambda>(area, nodes). (area, areaCount (ss_DeployedNodes ss) nodes)) (ss_SpreadInfo ss))"
  by (simp add: areaCounts_def case_prod_beta')

lemma area_mode_eq:
  assumes "ss_SpreadMode ss \<noteq> SpreadModeNode" "ss_TotalDeployed ss < ss_Redunduncy ss" "wf_map (ss_SpreadInfo ss)"
  shows "set (getAllocatableNodes ss pod nodeList) =
    {n. \<exists>area nodes cp. (area, nodes) \<in> set (ss_SpreadInfo ss) \<and> (n, cp) \<in> set nodes \<and>
       (isControlPlaneSchedulable pod \<or> hasWorker nodes \<and> \<not> cp) \<and>
       areaCount (ss_DeployedNodes ss) nodes = min_loop MaxInt (areaCounts ss)}"
proof -
  let ?ok = "isControlPlaneSchedulable pod"
  let ?S = "ss_SpreadInfo ss"
  define cpOnly where "cpOnly = [area. (area, nodes) \<leftarrow> ?S, \<not> list_ex (\<lambda>(n, cp). \<not> cp) nodes]"
  define minAreas where "minAreas = [area. (area, deployed) \<leftarrow> map (\<lambda>(area, nodes). (area, areaCount (ss_DeployedNodes ss) nodes)) ?S,
      \<not> (\<not> ?ok \<and> area \<in> set cpOnly), deployed = min_loop MaxInt (areaCounts ss)]"
  have get: "get_or [] ?S area = nodes" if "(area, nodes) \<in> set ?S" for area nodes
    using that assms(3) by (simp add: get_or_def)
  have cp: "area \<in> set cpOnly \<longleftrightarrow> \<not> hasWorker nodes" if "(area, nodes) \<in> set ?S" for area nodes
  proof -
    have "area \<in> set cpOnly \<longleftrightarrow> (\<exists>ns. (area, ns) \<in> set ?S \<and> \<not> hasWorker ns)"
      unfolding cpOnly_def hasWorker_def by force
    then show ?thesis using that by (metis get)
  qed
  have min: "area \<in> set minAreas \<longleftrightarrow> (\<exists>nodes. (area, nodes) \<in> set ?S \<and> (?ok \<or> hasWorker nodes) \<and>
      areaCount (ss_DeployedNodes ss) nodes = min_loop MaxInt (areaCounts ss))" for area
    using cp by (force simp: minAreas_def)
  have "getAllocatableNodes ss pod nodeList = map fst (fold (\<lambda>area m.
      fold (\<lambda>(n, cp) m. if cp \<and> \<not> ?ok then m else AList.update n () m) (get_or [] ?S area) m) minAreas [])"
    using assms(1) assms(2) [unfolded not_le [symmetric]]
    by (cases "ss_SpreadMode ss")
      (simp_all only: getAllocatableNodes_def Let_def minAreas_def cpOnly_def areaCounts_eq comp_def case_prod_beta'
        SpreadMode.simps refl if_True if_False not_False_eq_True simp_thms)
  then have "set (getAllocatableNodes ss pod nodeList) =
      {n. \<exists>area\<in>set minAreas. \<exists>cp. (n, cp) \<in> set (get_or [] ?S area) \<and> (cp \<longrightarrow> ?ok)}"
    by (simp add: fold_areas_keys)
  also have "\<dots> = {n. \<exists>area nodes cp. (area, nodes) \<in> set ?S \<and> (n, cp) \<in> set nodes \<and>
       (?ok \<or> hasWorker nodes \<and> \<not> cp) \<and> areaCount (ss_DeployedNodes ss) nodes = min_loop MaxInt (areaCounts ss)}"
    (is "?L = ?R")
  proof
    show "?L \<subseteq> ?R"
    proof
      fix n assume "n \<in> ?L"
      then obtain area cp where a: "area \<in> set minAreas" "(n, cp) \<in> set (get_or [] ?S area)" "cp \<longrightarrow> ?ok" by blast
      obtain nodes where b: "(area, nodes) \<in> set ?S" "?ok \<or> hasWorker nodes"
          "areaCount (ss_DeployedNodes ss) nodes = min_loop MaxInt (areaCounts ss)"
        using a(1) unfolding min by blast
      from a(2,3) b show "n \<in> ?R" unfolding get [OF b(1)] by blast
    qed
    show "?R \<subseteq> ?L"
    proof
      fix n assume "n \<in> ?R"
      then obtain area nodes cp where n: "(area, nodes) \<in> set ?S" "(n, cp) \<in> set nodes" "?ok \<or> hasWorker nodes \<and> \<not> cp"
          "areaCount (ss_DeployedNodes ss) nodes = min_loop MaxInt (areaCounts ss)" by blast
      then have "area \<in> set minAreas" unfolding min by blast
      with n get [OF n(1)] show "n \<in> ?L" by blast
    qed
  qed
  finally show ?thesis .
qed

text \<open>
  Spreading over zones or regions is sound, and complete when every area has a worker: an
  offered node lies in an area that holds the fewest pods of the ReplicaSet of all areas, is not a
  control plane node unless the pod tolerates those, and if there is an area and every area has a
  worker node some node is offered.
\<close>

theorem getAllocatableNodes_areas:
  assumes "ss_SpreadMode ss \<noteq> SpreadModeNode" "ss_TotalDeployed ss < ss_Redunduncy ss" "wf_map (ss_SpreadInfo ss)"
    and "\<forall>d\<in>set (areaCounts ss). d \<le> MaxInt"
  shows "(\<forall>n\<in>set (getAllocatableNodes ss pod nodeList). \<exists>area nodes cp.
      (area, nodes) \<in> set (ss_SpreadInfo ss) \<and> (n, cp) \<in> set nodes \<and> (cp \<longrightarrow> isControlPlaneSchedulable pod) \<and>
      (\<forall>d\<in>set (areaCounts ss). areaCount (ss_DeployedNodes ss) nodes \<le> d)) \<and>
    (ss_SpreadInfo ss \<noteq> [] \<and> (\<forall>(area, nodes)\<in>set (ss_SpreadInfo ss). hasWorker nodes) \<longrightarrow>
      getAllocatableNodes ss pod nodeList \<noteq> [])"
proof (intro conjI impI ballI)
  note eq = area_mode_eq [OF assms(1-3), of pod nodeList]
  fix n assume "n \<in> set (getAllocatableNodes ss pod nodeList)"
  then show "\<exists>area nodes cp. (area, nodes) \<in> set (ss_SpreadInfo ss) \<and> (n, cp) \<in> set nodes \<and>
      (cp \<longrightarrow> isControlPlaneSchedulable pod) \<and> (\<forall>d\<in>set (areaCounts ss). areaCount (ss_DeployedNodes ss) nodes \<le> d)"
    unfolding eq using min_loop_le by fastforce
next
  note eq = area_mode_eq [OF assms(1-3), of pod nodeList]
  assume all: "ss_SpreadInfo ss \<noteq> [] \<and> (\<forall>(area, nodes)\<in>set (ss_SpreadInfo ss). hasWorker nodes)"
  then have "areaCounts ss \<noteq> []" by (simp add: areaCounts_def)
  then have "min_loop MaxInt (areaCounts ss) \<in> set (areaCounts ss)" using assms(4) by (rule min_loop_in)
  then obtain area nodes where a: "(area, nodes) \<in> set (ss_SpreadInfo ss)"
      "areaCount (ss_DeployedNodes ss) nodes = min_loop MaxInt (areaCounts ss)"
    by (auto simp: areaCounts_def)
  with all have w: "hasWorker nodes" by auto
  then obtain n where "(n, False) \<in> set nodes" by (auto simp: hasWorker_def list_ex_iff)
  with a w have "n \<in> set (getAllocatableNodes ss pod nodeList)" unfolding eq by blast
  then show "getAllocatableNodes ss pod nodeList \<noteq> []" by auto
qed

definition example_zone_session :: "int \<Rightarrow> SchedulingSession" where
  "example_zone_session k = \<lparr>ss_TotalReplicas = 4, ss_Redunduncy = 4,
     ss_DeployedNodes = [(''w1'', 1), (''w2'', k), (''cp'', 0)], ss_TotalDeployed = 1 + k,
     ss_SpreadMode = SpreadModeZone,
     ss_SpreadInfo = [(''z1'', [(''w1'', False)]), (''z2'', [(''w2'', False), (''cp'', True)])]\<rparr>"

theorem getAllocatableNodes_areas_witness:
  "getAllocatableNodes (example_zone_session 0) (example_replica []) example_nodes \<noteq> []"
proof -
  have h: "ss_SpreadMode (example_zone_session 0) \<noteq> SpreadModeNode"
    "ss_TotalDeployed (example_zone_session 0) < ss_Redunduncy (example_zone_session 0)"
    "wf_map (ss_SpreadInfo (example_zone_session 0))"
    "\<forall>d\<in>set (areaCounts (example_zone_session 0)). d \<le> MaxInt"
    by (simp_all add: example_zone_session_def areaCounts_def areaCount_def get_or_def MaxInt_def MaxInt64_def)
  show ?thesis
    using getAllocatableNodes_areas [OF h, of "example_replica []" example_nodes]
    by (simp add: example_zone_session_def hasWorker_def)
qed

text \<open>
  With an area of control plane nodes only, the spread can get stuck: the minimum is taken over
  all areas but such an area is not offered, so once both worker zones hold a pod and the control
  plane zone holds none, no node is offered for the third of four replicas, though two idle enough
  worker nodes exist, and \<open>PreFilter\<close> leaves the pod without any node.
\<close>

theorem PreFilter_stuck:
  "fst (PreFilter example_parse (\<lambda>_. 0) example_controlled
     \<lparr>pa_GetReplicaSet = (\<lambda>ns n. Inr example_rs),
      pa_ListPods = (\<lambda>ns. Inr [example_replica ''w1'', example_replica ''w2'']),
      pa_ListNodes = Inr example_nodes\<rparr> (example_replica []) []) = Some [] \<and>
   \<not> isControlPlane example_nodes ''w1'' \<and> \<not> isControlPlane example_nodes ''w2''"
  by code_simp

text \<open>
  \<open>GetNodeArea\<close> reports every node it finds as a control plane node: for a worker node of an
  area it returns true as its second value.
\<close>

theorem GetNodeArea_worker:
  assumes "(area, nodes) \<in> set s" "map_of nodes n = Some False"
  shows "snd (GetNodeArea s n)"
  using assms by (induction s n rule: GetNodeArea.induct) auto

theorem GetNodeArea_worker_witness: "snd (GetNodeArea [(''z1'', [(''w1'', False)])] ''w1'')"
  by (rule GetNodeArea_worker [where area = "''z1''" and nodes = "[(''w1'', False)]"]) simp_all

text \<open>
  The session of a ReplicaSet is found by its name alone: once a session exists, an update for
  any ReplicaSet of that name, in whatever namespace and with whatever annotation or number of
  replicas, succeeds and keeps the redundancy and the number of replicas of the first one.
\<close>

theorem updateSchedulingSession_by_name:
  assumes "map_of st (rs_Name rs) = Some ss"
  shows "\<exists>st' ss'. updateSchedulingSession parseFloat oob isControlledBy rs podList nodeList st = (Inr (), st') \<and>
    map_of st' (rs_Name rs) = Some ss' \<and> ss_Redunduncy ss' = ss_Redunduncy ss"
  using assms by (simp add: updateSchedulingSession_def refreshSession_spec)

theorem updateSchedulingSession_by_name_witness:
  "\<exists>st' ss'. updateSchedulingSession example_parse (\<lambda>_. 0) example_controlled
      (example_rs\<lparr>rs_Namespace := ''other'', rs_Annotations := [], rs_Replicas := Some 9\<rparr>) [] [] [(''rs'', example_session)] =
      (Inr (), st') \<and> map_of st' ''rs'' = Some ss' \<and> ss_Redunduncy ss' = 4"
proof -
  let ?rs = "example_rs\<lparr>rs_Namespace := ''other'', rs_Annotations := [], rs_Replicas := Some 9\<rparr>"
  have "map_of [(''rs'', example_session)] (rs_Name ?rs) = Some example_session" by (simp add: example_rs_def)
  from updateSchedulingSession_by_name [OF this, of example_parse "\<lambda>_. 0" example_controlled "[]" "[]"]
  show ?thesis by (simp add: example_rs_def example_session_def)
qed

text \<open>
  The check of the annotation lets NaN through: the bounds are tested with comparisons that are
  false for NaN, so an annotation \<open>strconv.ParseFloat\<close> reads as NaN is accepted as a rate.
\<close>

theorem parseAnnotation_accepts_NaN:
  assumes "map_of annotations AnnotationPodSpreadRate = Some v" "parseFloat v = Inr NaN"
  shows "parseAnnotationPodSpreadRate parseFloat annotations = Inr NaN"
  using assms by (simp add: parseAnnotationPodSpreadRate_def)

theorem parseAnnotation_accepts_NaN_witness:
  "parseAnnotationPodSpreadRate example_parse [(AnnotationPodSpreadRate, ''NaN'')] = Inr NaN"
  by (rule parseAnnotation_accepts_NaN [where v = "''NaN''"]) (simp_all add: example_parse_def)

end
