(* ===== verification/Template_Controller.thy ===== *)
theory Template_Controller
  imports Node_Config
begin

text \<open>
  The controller of \<open>NodeConfigTemplate\<close>, \<open>wao-core/internal/controller/node\<close>: one \<open>NodeConfig\<close>
  per matching node, rendered from the template. The API server with its state \<open>'s\<close>, label
  selectors, \<open>CreateOrUpdate\<close> and \<open>SetControllerReference\<close> are parameters; \<open>'t\<close> is the state of the
  template engine.
\<close>

record ('s, 't) template_env =
  tc_Get :: "NamespacedName \<Rightarrow> NodeConfigTemplate option result"
  tc_GetNode :: "string \<Rightarrow> Node result"
  tc_ListTemplates :: "NodeConfigTemplate list result"
  tc_ListNodes :: "(Node \<Rightarrow> bool) \<Rightarrow> Node list result"
  tc_Selector :: "string \<Rightarrow> (Node \<Rightarrow> bool) result"
  tc_CreateOrUpdate :: "NamespacedName \<Rightarrow> (NodeConfig \<Rightarrow> ('t, NodeConfig) call) \<Rightarrow> ('s \<times> 't, unit) call"
  tc_SetControllerReference :: "NodeConfigTemplate \<Rightarrow> NodeConfig \<Rightarrow> NodeConfig result"
  tc_engine :: "'t engine"

text \<open>The object is built anew from the template, then rendered, then given its owner.\<close>

definition mutateNodeConfig ::
  "('s, 't) template_env \<Rightarrow> NodeConfigTemplate \<Rightarrow> Node \<Rightarrow> NodeConfig \<Rightarrow> ('t, NodeConfig) call" where
  "mutateNodeConfig env nct node nc t =
     (let nc = nc\<lparr>nc_Spec := (nct_Template nct)\<lparr>ncs_NodeName := node_Name node\<rparr>\<rparr>;
          (nc, t) = TemplateParseNodeConfig (tc_engine env) nc (NewTemplateDataFromNode node) t
      in (tc_SetControllerReference env nct nc, t))"

definition ncKey :: "NodeConfigTemplate \<Rightarrow> Node \<Rightarrow> NamespacedName" where
  "ncKey nct node = \<lparr>nn_Namespace = nct_Namespace nct, nn_Name = nct_Name nct @ ''-'' @ node_Name node\<rparr>"

definition reconcileNodeConfig ::
  "('s, 't) template_env \<Rightarrow> NodeConfigTemplate \<Rightarrow> Node \<Rightarrow> ('s \<times> 't, unit) call" where
  "reconcileNodeConfig env nct node = tc_CreateOrUpdate env (ncKey nct node) (mutateNodeConfig env nct node)"

definition reconcileNodeConfigTemplate ::
  "('s, 't) template_env \<Rightarrow> NodeConfigTemplate \<Rightarrow> ('s \<times> 't, unit) call" where
  "reconcileNodeConfigTemplate env nct st = (case tc_Selector env (nct_NodeSelector nct) of
     Inl e \<Rightarrow> (Inl e, st)
   | Inr s \<Rightarrow> (case tc_ListNodes env s of
       Inl e \<Rightarrow> (Inl e, st)
     | Inr nodes \<Rightarrow> (Inr (), fold (\<lambda>node st. snd (reconcileNodeConfig env nct node st)) nodes st)))"

definition Reconcile :: "('s, 't) template_env \<Rightarrow> NamespacedName \<Rightarrow> ('s \<times> 't, unit) call" where
  "Reconcile env req = (case tc_Get env req of
     Inl e \<Rightarrow> fail e
   | Inr None \<Rightarrow> ret ()
   | Inr (Some nct) \<Rightarrow> if nct_Deleting nct then ret () else reconcileNodeConfigTemplate env nct)"

fun firstMatch :: "('s, 't) template_env \<Rightarrow> Node \<Rightarrow> NodeConfigTemplate list \<Rightarrow> NamespacedName list" where
  "firstMatch env node [] = []"
| "firstMatch env node (nct # ncts) = (case tc_Selector env (nct_NodeSelector nct) of
     Inl _ \<Rightarrow> firstMatch env node ncts
   | Inr s \<Rightarrow> if s node then [\<lparr>nn_Namespace = nct_Namespace nct, nn_Name = nct_Name nct\<rparr>]
              else firstMatch env node ncts)"

definition mapFuncNodeToNodeConfigTemplate :: "('s, 't) template_env \<Rightarrow> string \<Rightarrow> NamespacedName list" where
  "mapFuncNodeToNodeConfigTemplate env obj = (case tc_GetNode env obj of
     Inl _ \<Rightarrow> []
   | Inr node \<Rightarrow> (case tc_ListTemplates env of Inl _ \<Rightarrow> [] | Inr ncts \<Rightarrow> firstMatch env node ncts))"

section \<open>Properties\<close>

text \<open>
  What the library documents: \<open>CreateOrUpdate\<close> applies the function to the stored object, or to an
  empty one of that name, which has no owner, and stores the result, unless the function fails (no request is
  refused by the API server); \<open>SetControllerReference\<close> changes the owner only, and fails with
  an \<open>AlreadyOwnedError\<close> when the object has a controller that is not this one. \<open>lookup\<close> reads the
  stored objects, \<open>same\<close> tells which recorded owners refer to this template.
\<close>

definition createOrUpdate_doc ::
  "('s, 't) template_env \<Rightarrow> ('s \<Rightarrow> NamespacedName \<Rightarrow> NodeConfig option) \<Rightarrow> (NamespacedName \<Rightarrow> NodeConfig) \<Rightarrow> bool" where
  "createOrUpdate_doc env lookup blank \<longleftrightarrow> (\<forall>key. nc_Owner (blank key) = None) \<and>
     (\<forall>key f s t. case f (case lookup s key of Some nc \<Rightarrow> nc | None \<Rightarrow> blank key) t of
        (Inl e, t') \<Rightarrow> tc_CreateOrUpdate env key f (s, t) = (Inl e, (s, t'))
      | (Inr nc', t') \<Rightarrow> \<exists>s'. tc_CreateOrUpdate env key f (s, t) = (Inr (), (s', t')) \<and>
          lookup s' key = Some nc' \<and> (\<forall>k. k \<noteq> key \<longrightarrow> lookup s' k = lookup s k))"

definition owned_by_other :: "(string \<Rightarrow> bool) \<Rightarrow> NodeConfig \<Rightarrow> bool" where
  "owned_by_other same nc \<longleftrightarrow> (case nc_Owner nc of None \<Rightarrow> False | Some uid \<Rightarrow> \<not> same uid)"

definition setControllerReference_doc :: "('s, 't) template_env \<Rightarrow> NodeConfigTemplate \<Rightarrow> (string \<Rightarrow> bool) \<Rightarrow> bool" where
  "setControllerReference_doc env nct same \<longleftrightarrow>
     (\<forall>nc. if owned_by_other same nc then \<exists>e. tc_SetControllerReference env nct nc = Inl e
           else tc_SetControllerReference env nct nc = Inr (nc\<lparr>nc_Owner := Some (nct_UID nct)\<rparr>))"

text \<open>
  The template engine is shared by all texts. \<open>replaces te s\<close> says that \<open>s\<close> is rendered the same whatever was
  parsed before it, which its documentation promises of every text that has more than white space and comments and refers to no
  definition of another text. \<open>rendered te t0 data s v\<close>: such a text was rendered as by an engine in the state \<open>t0\<close>,
  say a new one; a text that fails to render keeps its form.
\<close>

definition replaces :: "'t engine \<Rightarrow> string \<Rightarrow> bool" where
  "replaces te s \<longleftrightarrow> (\<forall>data t t'. fst (TemplateParseString te s data t) = fst (TemplateParseString te s data t'))"

definition rendered :: "'t engine \<Rightarrow> 't \<Rightarrow> TemplateData \<Rightarrow> string \<Rightarrow> string \<Rightarrow> bool" where
  "rendered te t0 data s v \<longleftrightarrow>
     (replaces te s \<longrightarrow> v = (case fst (TemplateParseString te s data t0) of Inr r \<Rightarrow> r | Inl _ \<Rightarrow> s))"

definition rendered_term :: "'t engine \<Rightarrow> 't \<Rightarrow> TemplateData \<Rightarrow> EndpointTerm \<Rightarrow> EndpointTerm \<Rightarrow> bool" where
  "rendered_term te t0 data x y \<longleftrightarrow>
     rendered te t0 data (et_Type x) (et_Type y) \<and> rendered te t0 data (et_Endpoint x) (et_Endpoint y) \<and>
     rel_option (rendered te t0 data) (et_BasicAuthSecret x) (et_BasicAuthSecret y) \<and> et_FetchInterval y = et_FetchInterval x"

text \<open>A \<open>NodeConfig\<close> as the template says, field by field, rendered for the node, with the template as its owner.\<close>

definition rendered_for :: "('s, 't) template_env \<Rightarrow> 't \<Rightarrow> NodeConfigTemplate \<Rightarrow> Node \<Rightarrow> NodeConfig \<Rightarrow> bool" where
  "rendered_for env t0 nct node nc \<longleftrightarrow>
     (let term = rendered_term (tc_engine env) t0 (NewTemplateDataFromNode node);
          x = nct_Template nct; y = nc_Spec nc
      in nc_Owner nc = Some (nct_UID nct) \<and> ncs_NodeName y = node_Name node \<and>
         term (mc_InletTemp (ncs_MetricsCollector x)) (mc_InletTemp (ncs_MetricsCollector y)) \<and>
         term (mc_DeltaP (ncs_MetricsCollector x)) (mc_DeltaP (ncs_MetricsCollector y)) \<and>
         rel_option term (pr_PowerConsumption (ncs_Predictor x)) (pr_PowerConsumption (ncs_Predictor y)) \<and>
         rel_option term (pr_PowerConsumptionEndpointProvider (ncs_Predictor x)) (pr_PowerConsumptionEndpointProvider (ncs_Predictor y)))"

lemma render_field_rendered: "rendered te t0 data s (fst (render_field te data s t))"
proof -
  have "fst (render_field te data s t) = (case fst (TemplateParseString te s data t) of Inr r \<Rightarrow> r | Inl _ \<Rightarrow> s)"
    by (simp add: render_field_def split: prod.split sum.split)
  then show ?thesis unfolding rendered_def replaces_def by metis
qed

lemma TemplateParseEndpointTerm_rendered:
  "rel_option (rendered_term te t0 data) e (fst (TemplateParseEndpointTerm te e data t))"
proof (cases e)
  case (Some et)
  obtain ty t1 where a: "render_field te data (et_Type et) t = (ty, t1)" by fastforce
  obtain ep t2 where b: "render_field te data (et_Endpoint et) t1 = (ep, t2)" by fastforce
  have "rendered te t0 data (et_Type et) ty" "rendered te t0 data (et_Endpoint et) ep"
    using render_field_rendered [of te t0 data "et_Type et" t] render_field_rendered [of te t0 data "et_Endpoint et" t1] a b by simp_all
  moreover have "rendered te t0 data name v" if "render_field te data name t2 = (v, t3)" for name v t3
    using render_field_rendered [of te t0 data name t2] that by simp
  ultimately show ?thesis
    using Some a b by (auto simp: TemplateParseEndpointTerm_def rendered_term_def Let_def split: option.split prod.split)
qed simp

lemma mutate_rendered:
  assumes "setControllerReference_doc env nct same" "\<not> owned_by_other same nc"
  shows "\<exists>nc' t'. mutateNodeConfig env nct node nc t = (Inr nc', t') \<and> rendered_for env t0 nct node nc'"
proof -
  let ?te = "tc_engine env" and ?data = "NewTemplateDataFromNode node" and ?x = "nct_Template nct"
  let ?nc = "nc\<lparr>nc_Spec := ?x\<lparr>ncs_NodeName := node_Name node\<rparr>\<rparr>"
  obtain a t1 where a: "TemplateParseEndpointTerm ?te (Some (mc_InletTemp (ncs_MetricsCollector ?x))) ?data t = (a, t1)" by fastforce
  obtain b t2 where b: "TemplateParseEndpointTerm ?te (Some (mc_DeltaP (ncs_MetricsCollector ?x))) ?data t1 = (b, t2)" by fastforce
  obtain c t3 where c: "TemplateParseEndpointTerm ?te (pr_PowerConsumption (ncs_Predictor ?x)) ?data t2 = (c, t3)" by fastforce
  obtain d t4 where d: "TemplateParseEndpointTerm ?te (pr_PowerConsumptionEndpointProvider (ncs_Predictor ?x)) ?data t3 = (d, t4)" by fastforce
  note r = TemplateParseEndpointTerm_rendered [of ?te t0 ?data]
  obtain a' where a': "a = Some a'" "rendered_term ?te t0 ?data (mc_InletTemp (ncs_MetricsCollector ?x)) a'"
    using r [of "Some (mc_InletTemp (ncs_MetricsCollector ?x))" t] a by (cases a) simp_all
  obtain b' where b': "b = Some b'" "rendered_term ?te t0 ?data (mc_DeltaP (ncs_MetricsCollector ?x)) b'"
    using r [of "Some (mc_DeltaP (ncs_MetricsCollector ?x))" t1] b by (cases b) simp_all
  have cd: "rel_option (rendered_term ?te t0 ?data) (pr_PowerConsumption (ncs_Predictor ?x)) c"
    "rel_option (rendered_term ?te t0 ?data) (pr_PowerConsumptionEndpointProvider (ncs_Predictor ?x)) d"
    using r [of "pr_PowerConsumption (ncs_Predictor ?x)" t2] c r [of "pr_PowerConsumptionEndpointProvider (ncs_Predictor ?x)" t3] d by simp_all
  obtain nc' where p: "TemplateParseNodeConfig ?te ?nc ?data t = (nc', t4)"
    and f: "nc_Spec nc' = ?x\<lparr>ncs_NodeName := node_Name node,
      ncs_MetricsCollector := (ncs_MetricsCollector ?x)\<lparr>mc_InletTemp := a', mc_DeltaP := b'\<rparr>,
      ncs_Predictor := (ncs_Predictor ?x)\<lparr>pr_PowerConsumption := c, pr_PowerConsumptionEndpointProvider := d\<rparr>\<rparr>" "nc_Owner nc' = nc_Owner nc"
    using a b c d a'(1) b'(1) by (simp add: TemplateParseNodeConfig_def Let_def)
  have "\<not> owned_by_other same nc'" using assms(2) f(2) by (simp add: owned_by_other_def)
  then have "tc_SetControllerReference env nct nc' = Inr (nc'\<lparr>nc_Owner := Some (nct_UID nct)\<rparr>)"
    using assms(1) by (simp add: setControllerReference_doc_def)
  moreover have "rendered_for env t0 nct node (nc'\<lparr>nc_Owner := Some (nct_UID nct)\<rparr>)"
    unfolding rendered_for_def Let_def using a'(2) b'(2) cd by (simp add: f(1))
  ultimately show ?thesis using p by (simp add: mutateNodeConfig_def)
qed

lemma mutate_refused:
  assumes "setControllerReference_doc env nct same" "owned_by_other same nc"
  shows "\<exists>e t'. mutateNodeConfig env nct node nc t = (Inl e, t')"
proof -
  let ?nc = "nc\<lparr>nc_Spec := (nct_Template nct)\<lparr>ncs_NodeName := node_Name node\<rparr>\<rparr>"
  obtain nc' t' where p: "TemplateParseNodeConfig (tc_engine env) ?nc (NewTemplateDataFromNode node) t = (nc', t')" by fastforce
  then have "owned_by_other same nc'"
    using assms(2) TemplateParseNodeConfig_frame(3) [of "tc_engine env" ?nc "NewTemplateDataFromNode node" t] by (simp add: owned_by_other_def)
  then show ?thesis using p assms(1) by (auto simp: mutateNodeConfig_def setControllerReference_doc_def)
qed

text \<open>What becomes of the object of a node: it stays if another controller owns it, and is rendered otherwise.\<close>

definition settled :: "('s, 't) template_env \<Rightarrow> 't \<Rightarrow> NodeConfigTemplate \<Rightarrow> (string \<Rightarrow> bool) \<Rightarrow> Node \<Rightarrow> NodeConfig option \<Rightarrow> NodeConfig option \<Rightarrow> bool" where
  "settled env t0 nct same node old new \<longleftrightarrow>
     (case old of Some nc \<Rightarrow> if owned_by_other same nc then new = old else \<exists>nc'. new = Some nc' \<and> rendered_for env t0 nct node nc'
      | None \<Rightarrow> \<exists>nc'. new = Some nc' \<and> rendered_for env t0 nct node nc')"

lemma reconcile_step:
  assumes "createOrUpdate_doc env lookup blank" "setControllerReference_doc env nct same"
  shows "\<exists>r s' t'. reconcileNodeConfig env nct node (s, t) = (r, (s', t')) \<and>
    settled env t0 nct same node (lookup s (ncKey nct node)) (lookup s' (ncKey nct node)) \<and>
    (\<forall>k. k \<noteq> ncKey nct node \<longrightarrow> lookup s' k = lookup s k)"
proof -
  define nc where "nc = (case lookup s (ncKey nct node) of Some nc \<Rightarrow> nc | None \<Rightarrow> blank (ncKey nct node))"
  have doc: "case mutateNodeConfig env nct node nc t of
     (Inl e, t') \<Rightarrow> reconcileNodeConfig env nct node (s, t) = (Inl e, (s, t'))
   | (Inr nc', t') \<Rightarrow> \<exists>s'. reconcileNodeConfig env nct node (s, t) = (Inr (), (s', t')) \<and>
       lookup s' (ncKey nct node) = Some nc' \<and> (\<forall>k. k \<noteq> ncKey nct node \<longrightarrow> lookup s' k = lookup s k)"
    using conjunct2 [OF assms(1) [unfolded createOrUpdate_doc_def], THEN spec [of _ "ncKey nct node"], THEN spec [of _ "mutateNodeConfig env nct node"], THEN spec [of _ s], THEN spec [of _ t]]
    unfolding reconcileNodeConfig_def nc_def .
  have blank: "\<not> owned_by_other same (blank key)" for key
    using assms(1) by (simp add: createOrUpdate_doc_def owned_by_other_def)
  show ?thesis
  proof (cases "owned_by_other same nc")
    case True
    then have "lookup s (ncKey nct node) = Some nc" using blank by (auto simp: nc_def split: option.splits)
    with True doc mutate_refused [OF assms(2) True, of node t] show ?thesis by (auto simp: settled_def)
  next
    case False
    with doc mutate_rendered [OF assms(2) False, of node t t0] show ?thesis
      by (fastforce simp: settled_def nc_def split: option.splits)
  qed
qed

lemma reconcile_fold:
  assumes "createOrUpdate_doc env lookup blank" "setControllerReference_doc env nct same" "distinct (map node_Name nodes)"
    and "fold (\<lambda>node st. snd (reconcileNodeConfig env nct node st)) nodes (s, t) = (s', t')"
  shows "(\<forall>node\<in>set nodes. settled env t0 nct same node (lookup s (ncKey nct node)) (lookup s' (ncKey nct node))) \<and>
    (\<forall>k. k \<notin> ncKey nct ` set nodes \<longrightarrow> lookup s' k = lookup s k)"
  using assms(3,4)
proof (induction nodes arbitrary: s t)
  case (Cons node nodes)
  obtain r s1 t1 where st: "reconcileNodeConfig env nct node (s, t) = (r, (s1, t1))"
      "settled env t0 nct same node (lookup s (ncKey nct node)) (lookup s1 (ncKey nct node))"
      "\<forall>k. k \<noteq> ncKey nct node \<longrightarrow> lookup s1 k = lookup s k"
    using reconcile_step [OF assms(1,2)] by blast
  then have IH: "(\<forall>node\<in>set nodes. settled env t0 nct same node (lookup s1 (ncKey nct node)) (lookup s' (ncKey nct node))) \<and>
      (\<forall>k. k \<notin> ncKey nct ` set nodes \<longrightarrow> lookup s' k = lookup s1 k)"
    using Cons by simp
  have "ncKey nct node \<notin> ncKey nct ` set nodes" and "\<forall>n\<in>set nodes. ncKey nct n \<noteq> ncKey nct node"
    using Cons.prems(1) by (auto simp: ncKey_def rev_image_eqI)
  with IH st show ?case by auto
qed simp

text \<open>
  C34. Every matching node gets its configuration: one pass over a template succeeds and leaves, for each node the selector matches, the
  \<open>NodeConfig\<close> named after template and node owned by the template and as the template says, rendered for that node; if an object of that name is
  controlled by another owner, it is left as it was, and the pass goes on with the next node. No other object is touched. Field by field, a text that
  replaces what the shared template engine held before, which a blank text does not, has the form a new engine gives it for the data of the
  node, or its own form if it cannot be rendered. Assumed is that the list of nodes has no duplicates, that the API server refuses no request and that the two library functions
  do what is documented of them.
\<close>

theorem reconcileNodeConfigTemplate_complete:
  assumes "createOrUpdate_doc env lookup blank" "setControllerReference_doc env nct same"
    and "tc_Selector env (nct_NodeSelector nct) = Inr sel" "tc_ListNodes env sel = Inr nodes" "distinct (map node_Name nodes)"
    and "reconcileNodeConfigTemplate env nct (s, t) = (r, (s', t'))"
  shows "r = Inr () \<and>
    (\<forall>node\<in>set nodes. let key = \<lparr>nn_Namespace = nct_Namespace nct, nn_Name = nct_Name nct @ ''-'' @ node_Name node\<rparr> in
       settled env t0 nct same node (lookup s key) (lookup s' key)) \<and>
    (\<forall>k. k \<notin> ncKey nct ` set nodes \<longrightarrow> lookup s' k = lookup s k)"
proof -
  have "r = Inr ()" and f: "fold (\<lambda>node st. snd (reconcileNodeConfig env nct node st)) nodes (s, t) = (s', t')"
    using assms(3,4,6) by (simp_all add: reconcileNodeConfigTemplate_def)
  then show ?thesis using reconcile_fold [OF assms(1,2,5) f] unfolding ncKey_def Let_def by blast
qed

definition example_engine :: "string engine" where
  "example_engine = \<lparr>te_Parse = (\<lambda>s t. Inr (if s = [] then t else s)), te_Execute = (\<lambda>t data. Inr t)\<rparr>"

definition example_template :: NodeConfigTemplate where
  "example_template = \<lparr>nct_Name = ''tmpl'', nct_Namespace = ''wao-system'', nct_UID = ''u1'', nct_Deleting = False,
     nct_NodeSelector = [],
     nct_Template = \<lparr>ncs_NodeName = [],
       ncs_MetricsCollector = \<lparr>mc_InletTemp = emptyEndpointTerm\<lparr>et_Type := TypeFake\<rparr>, mc_DeltaP = emptyEndpointTerm\<lparr>et_Type := TypeFake\<rparr>\<rparr>,
       ncs_Predictor = \<lparr>pr_PowerConsumption = None, pr_PowerConsumptionEndpointProvider = None\<rparr>\<rparr>\<rparr>"

definition example_cluster_node :: Node where
  "example_cluster_node = \<lparr>node_Name = ''n1'', node_Labels = [], node_Addresses = [], node_CapacityCpu = Fin 4\<rparr>"

definition example_blank :: "NamespacedName \<Rightarrow> NodeConfig" where
  "example_blank key = \<lparr>nc_Name = nn_Name key, nc_Namespace = nn_Namespace key, nc_Deleting = False, nc_Owner = None,
     nc_Spec = nct_Template example_template\<rparr>"

definition example_cou ::
  "NamespacedName \<Rightarrow> (NodeConfig \<Rightarrow> (string, NodeConfig) call) \<Rightarrow> ((NamespacedName, NodeConfig) gomap \<times> string, unit) call" where
  "example_cou key f st =
     (case f (case map_of (fst st) key of Some nc \<Rightarrow> nc | None \<Rightarrow> example_blank key) (snd st) of
        (Inl e, t) \<Rightarrow> (Inl e, (fst st, t))
      | (Inr nc', t) \<Rightarrow> (Inr (), (AList.update key nc' (fst st), t)))"

definition example_tenv :: "((NamespacedName, NodeConfig) gomap, string) template_env" where
  "example_tenv = \<lparr>tc_Get = (\<lambda>_. Inr (Some example_template)), tc_GetNode = (\<lambda>_. Inr example_cluster_node),
     tc_ListTemplates = Inr [example_template, example_template\<lparr>nct_Name := ''second''\<rparr>],
     tc_ListNodes = (\<lambda>sel. Inr (filter sel [example_cluster_node, example_cluster_node\<lparr>node_Name := ''n2''\<rparr>])), tc_Selector = (\<lambda>_. Inr (\<lambda>_. True)),
     tc_CreateOrUpdate = example_cou,
     tc_SetControllerReference = (\<lambda>nct nc. if nc_Owner nc = None \<or> nc_Owner nc = Some (nct_UID nct) then Inr (nc\<lparr>nc_Owner := Some (nct_UID nct)\<rparr>)
       else Inl (Errorf ''already owned'')), tc_engine = example_engine\<rparr>"

text \<open>The object of the second node has another controller and stays; that of the first is made, its type rendered although the engine held another text.\<close>

theorem reconcileNodeConfigTemplate_complete_witness:
  "let k1 = \<lparr>nn_Namespace = ''wao-system'', nn_Name = ''tmpl-n1''\<rparr>; k2 = \<lparr>nn_Namespace = ''wao-system'', nn_Name = ''tmpl-n2''\<rparr>;
       foreign = (example_blank k2)\<lparr>nc_Owner := Some ''other''\<rparr>;
       s' = fst (snd (reconcileNodeConfigTemplate example_tenv example_template ([(k2, foreign)], ''old'')))
   in map_of s' k2 = Some foreign \<and>
      (\<exists>nc. map_of s' k1 = Some nc \<and> nc_Owner nc = Some ''u1'' \<and> ncs_NodeName (nc_Spec nc) = ''n1'' \<and>
        et_Type (mc_InletTemp (ncs_MetricsCollector (nc_Spec nc))) = TypeFake)"
proof -
  define k1 :: NamespacedName where "k1 = \<lparr>nn_Namespace = ''wao-system'', nn_Name = ''tmpl-n1''\<rparr>"
  define k2 :: NamespacedName where "k2 = \<lparr>nn_Namespace = ''wao-system'', nn_Name = ''tmpl-n2''\<rparr>"
  define foreign where "foreign = (example_blank k2)\<lparr>nc_Owner := Some ''other''\<rparr>"
  let ?nodes = "[example_cluster_node, example_cluster_node\<lparr>node_Name := ''n2''\<rparr>]" and ?same = "\<lambda>uid. uid = nct_UID example_template"
  have 1: "createOrUpdate_doc example_tenv map_of example_blank"
    by (auto simp: createOrUpdate_doc_def example_blank_def example_tenv_def example_cou_def split: prod.split sum.split)
  have 2: "setControllerReference_doc example_tenv example_template ?same"
    by (auto simp: setControllerReference_doc_def owned_by_other_def example_tenv_def split: option.split)
  have 3: "tc_Selector example_tenv (nct_NodeSelector example_template) = Inr (\<lambda>_. True)" "tc_ListNodes example_tenv (\<lambda>_. True) = Inr ?nodes"
    "distinct (map node_Name ?nodes)"
    by (simp_all add: example_tenv_def example_cluster_node_def)
  obtain r s' t' where r: "reconcileNodeConfigTemplate example_tenv example_template ([(k2, foreign)], ''old'') = (r, (s', t'))"
    by (metis surj_pair)
  note c = reconcileNodeConfigTemplate_complete [OF 1 2 3 r, of "[]"]
  have "settled example_tenv [] example_template ?same (example_cluster_node\<lparr>node_Name := ''n2''\<rparr>) (map_of [(k2, foreign)] k2) (map_of s' k2)"
    "settled example_tenv [] example_template ?same example_cluster_node (map_of [(k2, foreign)] k1) (map_of s' k1)"
    using c by (simp_all add: k1_def k2_def example_template_def example_cluster_node_def)
  moreover have "owned_by_other ?same foreign" by (simp add: owned_by_other_def foreign_def example_template_def)
  moreover have "k1 \<noteq> k2" by (simp add: k1_def k2_def)
  ultimately have s: "map_of s' k2 = Some foreign" "\<exists>nc. map_of s' k1 = Some nc \<and> rendered_for example_tenv [] example_template example_cluster_node nc"
    by (simp_all add: settled_def)
  have "replaces example_engine TypeFake" by (simp add: replaces_def TemplateParseString_def example_engine_def TypeFake_def)
  then have "rendered example_engine [] data TypeFake v \<Longrightarrow> v = TypeFake" for data v
    by (simp add: rendered_def TemplateParseString_def example_engine_def TypeFake_def)
  then have "rendered_for example_tenv [] example_template example_cluster_node nc \<Longrightarrow> nc_Owner nc = Some ''u1'' \<and> ncs_NodeName (nc_Spec nc) = ''n1'' \<and>
      et_Type (mc_InletTemp (ncs_MetricsCollector (nc_Spec nc))) = TypeFake" for nc
    by (auto simp: rendered_for_def rendered_term_def example_template_def example_tenv_def example_cluster_node_def Let_def)
  then show ?thesis unfolding Let_def using s r by (auto simp: k1_def k2_def foreign_def)
qed

text \<open>
  A new or changed node is reported to one template only: the request made for a node event is for
  the first template, in the order of the list, whose selector is valid and matches the node,
  whatever other templates match it too.
\<close>

theorem mapFunc_first_only:
  assumes "tc_GetNode env obj = Inr node" "tc_ListTemplates env = Inr (pre @ nct # post)"
    and "\<forall>n\<in>set pre. \<forall>s. tc_Selector env (nct_NodeSelector n) = Inr s \<longrightarrow> \<not> s node"
    and "tc_Selector env (nct_NodeSelector nct) = Inr sel" "sel node"
  shows "mapFuncNodeToNodeConfigTemplate env obj = [\<lparr>nn_Namespace = nct_Namespace nct, nn_Name = nct_Name nct\<rparr>]"
proof -
  have "firstMatch env node (pre @ nct # post) = [\<lparr>nn_Namespace = nct_Namespace nct, nn_Name = nct_Name nct\<rparr>]"
    using assms(3-5) by (induction pre) (auto split: sum.split)
  with assms(1,2) show ?thesis by (simp add: mapFuncNodeToNodeConfigTemplate_def)
qed

theorem mapFunc_first_only_witness:
  "mapFuncNodeToNodeConfigTemplate example_tenv ''n1'' = [\<lparr>nn_Namespace = ''wao-system'', nn_Name = ''tmpl''\<rparr>]"
  using mapFunc_first_only [of example_tenv "''n1''" example_cluster_node "[]" example_template
      "[example_template\<lparr>nct_Name := ''second''\<rparr>]" "\<lambda>_. True"]
  by (simp add: example_tenv_def example_template_def)

text \<open>
  An empty string in a template takes over the text of the field before it: the engine keeps its
  body when it parses an empty one, as documented, and all fields share one engine, so an endpoint
  that is left empty comes out as the rendered type.
\<close>

theorem TemplateParse_blank_leaks:
  assumes "te_Parse te (et_Type et) t = Inr t1" "te_Execute te t1 data = Inr v"
    and "te_Parse te [] t1 = Inr t1" "et_Endpoint et = []" "et_BasicAuthSecret et = None"
  shows "TemplateParseEndpointTerm te (Some et) data t = (Some (et\<lparr>et_Type := v, et_Endpoint := v\<rparr>), t1)"
  using assms by (simp add: TemplateParseEndpointTerm_def render_field_def TemplateParseString_def)

theorem TemplateParse_blank_leaks_witness:
  "TemplateParseEndpointTerm example_engine (Some (emptyEndpointTerm\<lparr>et_Type := ''Fake''\<rparr>)) (NewTemplateDataFromNode example_cluster_node) [] =
     (Some (emptyEndpointTerm\<lparr>et_Type := ''Fake'', et_Endpoint := ''Fake''\<rparr>), ''Fake'')"
  using TemplateParse_blank_leaks [of example_engine "emptyEndpointTerm\<lparr>et_Type := ''Fake''\<rparr>" "[]" "''Fake''"
      "NewTemplateDataFromNode example_cluster_node" "''Fake''"]
  by (simp add: example_engine_def emptyEndpointTerm_def)

end
