(* ===== verification/Adapter_Controller.thy ===== *)
theory Adapter_Controller
  imports Http_Agents
begin

text \<open>
  The controller of the metrics adapter, \<open>wao-metrics-adapter/pkg/controller\<close>: for every
  \<open>NodeConfig\<close> it registers an agent for the inlet temperature and one for the pressure, and removes
  them when the object is gone. The API server is a parameter; the state is the collector.
\<close>

datatype agent = AgentFake FakeAgent | AgentRedfish InletTempAgent | AgentDeltaP DeltaPAgent

text \<open>\<open>re_Get\<close> answers \<open>Inr None\<close> for an object that is not found.\<close>

record reconcile_env =
  re_Get :: "NamespacedName \<Rightarrow> NodeConfig option result"
  re_GetSecret :: "string \<Rightarrow> string \<Rightarrow> (string, string) gomap result"
  re_nnString :: "NamespacedName \<Rightarrow> string"

definition reconcileNodeConfigDeletion :: "reconcile_env \<Rightarrow> NamespacedName \<Rightarrow> (agent Collector, unit) call" where
  "reconcileNodeConfigDeletion env objKey =
     fold (\<lambda>vt m. then_do m (\<lambda>_. Unregister (CollectorKey (re_nnString env) objKey vt))) ValueTypes (ret ())"

definition DefaultFetchInterval :: int where
  "DefaultFetchInterval = 15 * 10 ^ 9"

definition defaultEndpointTerm :: "EndpointTerm \<Rightarrow> EndpointTerm" where
  "defaultEndpointTerm et = (case et_FetchInterval et of
     None \<Rightarrow> et\<lparr>et_FetchInterval := Some DefaultFetchInterval\<rparr> | Some _ \<Rightarrow> et)"

definition interval_of :: "EndpointTerm \<Rightarrow> int" where
  "interval_of et = (case et_FetchInterval et of None \<Rightarrow> 0 | Some d \<Rightarrow> d)"

definition margin :: int where
  "margin = 300 * 10 ^ 6"

definition inletTempAgent :: "reconcile_env \<Rightarrow> NamespacedName \<Rightarrow> EndpointTerm \<Rightarrow> agent result" where
  "inletTempAgent env objKey conf =
     (let (username, password) = GetBasicAuthFromNamespaceScopedSecret (re_GetSecret env) (nn_Namespace objKey) (et_BasicAuthSecret conf);
          fetchTimeout = i64_sub (interval_of conf) margin
      in if et_Type conf = TypeFake
         then Inr (AgentFake \<lparr>fa_Type = ValueInletTemperature, fa_Value = Fin (31 / 2), fa_Error = None, fa_Delay = 100 * 10 ^ 6\<rparr>)
         else if et_Type conf = TypeRedfish
         then Inr (AgentRedfish (NewInletTempAgent (et_Endpoint conf) TypeAutoDetect (i64_sub fetchTimeout margin)
                [WithBasicAuth username password, WithCurlLogger]))
         else Inl (Errorf ''unsupported metricsCollector.inletTemp.type''))"

definition deltaPAgent :: "reconcile_env \<Rightarrow> NamespacedName \<Rightarrow> string \<Rightarrow> EndpointTerm \<Rightarrow> agent result" where
  "deltaPAgent env objKey nodeName conf =
     (let (username, password) = GetBasicAuthFromNamespaceScopedSecret (re_GetSecret env) (nn_Namespace objKey) (et_BasicAuthSecret conf);
          fetchTimeout = i64_sub (interval_of conf) margin
      in if et_Type conf = TypeFake
         then Inr (AgentFake \<lparr>fa_Type = ValueDeltaPressure, fa_Value = Fin (15 / 2), fa_Error = None, fa_Delay = 100 * 10 ^ 6\<rparr>)
         else if et_Type conf = TypeDPAPI
         then Inr (AgentDeltaP (NewDeltaPAgent (et_Endpoint conf) [] nodeName [] (i64_sub fetchTimeout margin)
                [WithBasicAuth username password, WithCurlLogger]))
         else Inl (Errorf ''unsupported metricsCollector.deltaP.type''))"

definition reconcileNodeConfig :: "reconcile_env \<Rightarrow> NamespacedName \<Rightarrow> NodeConfig \<Rightarrow> (agent Collector, unit) call" where
  "reconcileNodeConfig env objKey nc c =
     (let mc = ncs_MetricsCollector (nc_Spec nc);
          nodeName = ncs_NodeName (nc_Spec nc);
          conf = defaultEndpointTerm (mc_InletTemp mc)
      in case inletTempAgent env objKey conf of
           Inl e \<Rightarrow> (Inl e, c)
         | Inr agent \<Rightarrow>
             (let c = Register (CollectorKey (re_nnString env) objKey ValueInletTemperature) agent nodeName
                        (interval_of conf) (i64_sub (interval_of conf) margin) c;
                  conf = defaultEndpointTerm (mc_DeltaP mc)
              in case deltaPAgent env objKey nodeName conf of
                   Inl e \<Rightarrow> (Inl e, c)
                 | Inr agent \<Rightarrow>
                     (Inr (), Register (CollectorKey (re_nnString env) objKey ValueDeltaPressure) agent nodeName
                        (interval_of conf) (i64_sub (interval_of conf) margin) c)))"

definition Reconcile :: "reconcile_env \<Rightarrow> NamespacedName \<Rightarrow> (agent Collector, unit) call" where
  "Reconcile env req = (case re_Get env req of
     Inl e \<Rightarrow> fail e
   | Inr None \<Rightarrow> reconcileNodeConfigDeletion env req
   | Inr (Some nc) \<Rightarrow>
       if nc_Deleting nc then reconcileNodeConfigDeletion env req
       else reconcileNodeConfig env req nc)"

section \<open>Lemmas\<close>

lemma CollectorKey_inj:
  assumes "CollectorKey f obj vt = CollectorKey f obj' vt'" "vt \<in> set ValueTypes" "vt' \<in> set ValueTypes"
  shows "f obj = f obj' \<and> vt = vt'"
proof -
  have "rev vt @ CHR ''#'' # rev (f obj) = rev vt' @ CHR ''#'' # rev (f obj')"
    using arg_cong [OF assms(1), of rev] by (simp add: CollectorKey_def)
  then show ?thesis
    using assms(2,3) by (auto simp: ValueTypes_def ValueInletTemperature_def ValueDeltaPressure_def)
qed

lemma reconcileNodeConfig_run: "col_run c (snd (reconcileNodeConfig env objKey nc c))"
proof -
  have reg: "col_run c (Register k a n i t c)" for k c and a :: agent and n i t
    by (rule col_run.Step [OF col_run.Start col_step.Reg])
  have reg2: "col_run c (Register k a n i t (Register k' a' n' i' t' c))" for k k' c and a a' :: agent and n i t n' i' t'
    by (rule col_run.Step [OF reg col_step.Reg])
  show ?thesis
    by (auto simp: reconcileNodeConfig_def Let_def reg reg2 intro: col_run.Start split: sum.split)
qed

lemma reconcileNodeConfigDeletion_eq:
  "reconcileNodeConfigDeletion env objKey c =
     then_do (Unregister (CollectorKey (re_nnString env) objKey ValueInletTemperature))
       (\<lambda>_. Unregister (CollectorKey (re_nnString env) objKey ValueDeltaPressure)) c"
  by (simp add: reconcileNodeConfigDeletion_def ValueTypes_def then_do_def)

lemma reconcileNodeConfigDeletion_ok:
  assumes "col_inv c"
  shows "reconcileNodeConfigDeletion env objKey c =
    (Inr (), snd (Unregister (CollectorKey (re_nnString env) objKey ValueDeltaPressure)
      (snd (Unregister (CollectorKey (re_nnString env) objKey ValueInletTemperature) c))))"
  using Unregister_ok [OF assms] Unregister_ok [OF col_inv_Unregister [OF assms]]
  by (simp add: reconcileNodeConfigDeletion_eq then_do_def)

lemma reconcileNodeConfigDeletion_run:
  assumes "col_inv c"
  shows "col_run c (snd (reconcileNodeConfigDeletion env objKey c))"
  unfolding reconcileNodeConfigDeletion_ok [OF assms] snd_conv
  by (intro col_run.Step [OF col_run.Step [OF col_run.Start]] col_step.Unreg) (rule prod.collapse [symmetric])+

lemma Reconcile_run:
  assumes "col_inv c"
  shows "col_run c (snd (Reconcile env req c))"
  by (auto simp: Reconcile_def reconcileNodeConfig_run reconcileNodeConfigDeletion_run [OF assms] intro: col_run.Start
      split: sum.split option.split)

section \<open>Properties\<close>

lemma value_keys_differ [simp]:
  "CollectorKey f objKey ValueInletTemperature \<noteq> CollectorKey f objKey ValueDeltaPressure"
  using CollectorKey_inj [of f objKey ValueInletTemperature objKey ValueDeltaPressure]
  by (auto simp: ValueTypes_def ValueInletTemperature_def ValueDeltaPressure_def)

text \<open>A successful pass over a \<open>NodeConfig\<close> starts two runners, one for each key.\<close>

lemma reconcileNodeConfig_success:
  assumes "reconcileNodeConfig env objKey nc c = (Inr (), c')"
  shows "\<exists>a b i j t u. c' = Register (CollectorKey (re_nnString env) objKey ValueDeltaPressure) b (ncs_NodeName (nc_Spec nc)) j u
    (Register (CollectorKey (re_nnString env) objKey ValueInletTemperature) a (ncs_NodeName (nc_Spec nc)) i t c)"
  using assms by (auto simp: reconcileNodeConfig_def Let_def split: sum.splits) blast

lemma Register_simps [simp]:
  "length (col_runners (Register k a n i t c)) = Suc (length (col_runners c))"
  "map_of (col_m (Register k a n i t c)) k' = (if k' = k then Some (length (col_runners c)) else map_of (col_m c) k')"
  "j < length (col_runners c) \<Longrightarrow> col_runners (Register k a n i t c) ! j = col_runners c ! j"
  by (simp_all add: Register_def nth_append)

text \<open>
  C31. A \<open>NodeConfig\<close> that is processed once is cleaned up: from any state of the collector that calls
  can lead to, without runners of this object, a successful pass starts two runners for its node,
  and the deletion of the object then stops both, leaves every other runner and key as it was, and
  does not fail.
\<close>

theorem Reconcile_then_delete:
  assumes "col_run emptyCollector c" "reconcileNodeConfig env objKey nc c = (Inr (), c1)"
    and "\<forall>vt\<in>set ValueTypes. map_of (col_m c) (CollectorKey (re_nnString env) objKey vt) = None"
    and "reconcileNodeConfigDeletion env objKey c1 = (r, c2)"
  shows "r = Inr () \<and> length (col_runners c2) = length (col_runners c) + 2 \<and>
    (\<forall>i<length (col_runners c). col_runners c2 ! i = col_runners c ! i) \<and>
    (\<forall>i. length (col_runners c) \<le> i \<and> i < length (col_runners c2) \<longrightarrow>
       ar_stopped (col_runners c2 ! i) \<and> ar_nodeName (col_runners c2 ! i) = ncs_NodeName (nc_Spec nc)) \<and>
    (\<forall>k. map_of (col_m c2) k = map_of (col_m c) k)"
proof -
  let ?k1 = "CollectorKey (re_nnString env) objKey ValueInletTemperature"
  let ?k2 = "CollectorKey (re_nnString env) objKey ValueDeltaPressure"
  let ?n = "length (col_runners c)"
  have inv: "col_inv c" using assms(1) col_inv_empty by (rule col_inv_run)
  obtain a b i j t u where c1: "c1 = Register ?k2 b (ncs_NodeName (nc_Spec nc)) j u (Register ?k1 a (ncs_NodeName (nc_Spec nc)) i t c)"
    using reconcileNodeConfig_success [OF assms(2)] by blast
  have inv1: "col_inv c1" unfolding c1 by (intro col_inv_Register inv)
  have none: "map_of (col_m c) ?k1 = None" "map_of (col_m c) ?k2 = None"
    using assms(3) by (simp_all add: ValueTypes_def)
  have m1: "map_of (col_m c1) ?k1 = Some ?n" "map_of (col_m c1) ?k2 = Some (Suc ?n)" "length (col_runners c1) = ?n + 2"
    by (simp_all add: c1)
  let ?c = "c1\<lparr>col_m := AList.delete ?k1 (col_m c1), col_runners := (col_runners c1)[?n := (col_runners c1 ! ?n)\<lparr>ar_stopped := True\<rparr>]\<rparr>"
  have u1: "Unregister ?k1 c1 = (Inr (), ?c)"
    using Unregister_ok [OF inv1, of ?k1] m1(1) by simp
  have invc: "col_inv ?c" using col_inv_Unregister [OF inv1, of ?k1] u1 by simp
  have u2: "Unregister ?k2 ?c = (Inr (), ?c\<lparr>col_m := AList.delete ?k2 (col_m ?c),
      col_runners := (col_runners ?c)[Suc ?n := (col_runners ?c ! Suc ?n)\<lparr>ar_stopped := True\<rparr>]\<rparr>)"
    using Unregister_ok [OF invc, of ?k2] m1(2) by (simp add: value_keys_differ [symmetric])
  have "r = Inr ()" and c2: "c2 = ?c\<lparr>col_m := AList.delete ?k2 (col_m ?c),
      col_runners := (col_runners ?c)[Suc ?n := (col_runners ?c ! Suc ?n)\<lparr>ar_stopped := True\<rparr>]\<rparr>"
    using assms(4) by (simp_all add: reconcileNodeConfigDeletion_eq then_do_def u1 u2)
  have nodes: "ar_nodeName (col_runners c1 ! ?n) = ncs_NodeName (nc_Spec nc)"
      "ar_nodeName (col_runners c1 ! Suc ?n) = ncs_NodeName (nc_Spec nc)"
    by (simp_all add: c1 Register_def newAgentRunner_def nth_append)
  have two: "i = ?n \<or> i = Suc ?n" if "?n \<le> i" "i < ?n + 2" for i using that by auto
  have "\<forall>i<?n. col_runners c2 ! i = col_runners c ! i"
    by (simp add: c2 nth_list_update_if) (simp add: c1)
  moreover have "ar_stopped (col_runners c2 ! i) \<and> ar_nodeName (col_runners c2 ! i) = ncs_NodeName (nc_Spec nc)"
    if "?n \<le> i" "i < ?n + 2" for i
    using two [OF that] nodes m1(3) by (auto simp: c2 nth_list_update_if)
  moreover have "map_of (col_m c2) k = map_of (col_m c) k" for k
    using none by (auto simp: c2 c1)
  ultimately show ?thesis using \<open>r = Inr ()\<close> m1(3) by (simp add: c2)
qed

definition example_renv :: "NodeConfig option \<Rightarrow> reconcile_env" where
  "example_renv nc = \<lparr>re_Get = (\<lambda>_. Inr nc), re_GetSecret = (\<lambda>_ _. Inr []),
     re_nnString = (\<lambda>n. nn_Namespace n @ ''/'' @ nn_Name n)\<rparr>"

definition example_config :: "string \<Rightarrow> NodeConfig" where
  "example_config deltaPType = \<lparr>nc_Name = ''nc'', nc_Namespace = ''ns'', nc_Deleting = False, nc_Owner = None,
     nc_Spec = \<lparr>ncs_NodeName = ''n1'',
       ncs_MetricsCollector = \<lparr>mc_InletTemp = emptyEndpointTerm\<lparr>et_Type := TypeFake\<rparr>,
                               mc_DeltaP = emptyEndpointTerm\<lparr>et_Type := deltaPType\<rparr>\<rparr>,
       ncs_Predictor = \<lparr>pr_PowerConsumption = None, pr_PowerConsumptionEndpointProvider = None\<rparr>\<rparr>\<rparr>"

definition example_key :: NamespacedName where
  "example_key = \<lparr>nn_Namespace = ''ns'', nn_Name = ''nc''\<rparr>"

lemma example_reconcile_ok:
  "fst (reconcileNodeConfig (example_renv None) example_key (example_config TypeFake) c) = Inr ()"
  by (simp add: reconcileNodeConfig_def inletTempAgent_def deltaPAgent_def example_config_def defaultEndpointTerm_def
      emptyEndpointTerm_def TypeFake_def Let_def split: prod.split)

theorem Reconcile_then_delete_witness:
  "\<exists>c2. reconcileNodeConfigDeletion (example_renv None) example_key
      (snd (reconcileNodeConfig (example_renv None) example_key (example_config TypeFake) emptyCollector)) = (Inr (), c2) \<and>
    length (col_runners c2) = 2 \<and> ar_stopped (col_runners c2 ! 0) \<and> ar_stopped (col_runners c2 ! 1)"
proof -
  let ?c1 = "snd (reconcileNodeConfig (example_renv None) example_key (example_config TypeFake) emptyCollector)"
  obtain r c2 where d: "reconcileNodeConfigDeletion (example_renv None) example_key ?c1 = (r, c2)" by fastforce
  have "reconcileNodeConfig (example_renv None) example_key (example_config TypeFake) emptyCollector = (Inr (), ?c1)"
    by (metis example_reconcile_ok prod.collapse)
  from Reconcile_then_delete [OF col_run.Start this _ d] d show ?thesis
    by (auto simp: emptyCollector_def)
qed

text \<open>
  A \<open>NodeConfig\<close> that is processed again leaks: when a second pass over the same object succeeds,
  say because it was changed, the two runners of the first pass keep running, and no later sequence
  of calls stops them, the deletion of the object included.
\<close>

theorem Reconcile_again_leaks:
  assumes "col_run emptyCollector c" "reconcileNodeConfig env objKey nc c = (Inr (), c1)"
    and "re_nnString env' = re_nnString env" "reconcileNodeConfig env' objKey nc' c1 = (Inr (), c2)" "col_run c2 c3"
    and "length (col_runners c) \<le> i" "i < length (col_runners c1)"
  shows "i < length (col_runners c3) \<and> \<not> ar_stopped (col_runners c3 ! i)"
proof -
  let ?k1 = "CollectorKey (re_nnString env) objKey ValueInletTemperature"
  let ?k2 = "CollectorKey (re_nnString env) objKey ValueDeltaPressure"
  have inv: "col_inv c" using assms(1) col_inv_empty by (rule col_inv_run)
  obtain a b n m ia ib ta tb where c1: "c1 = Register ?k2 b m ib tb (Register ?k1 a n ia ta c)"
    using reconcileNodeConfig_success [OF assms(2)] by blast
  obtain a' b' n' m' ia' ib' ta' tb' where c2: "c2 = Register ?k2 b' m' ib' tb' (Register ?k1 a' n' ia' ta' c1)"
    using reconcileNodeConfig_success [OF assms(4)] assms(3) by metis
  have inv1: "col_inv c1" unfolding c1 by (intro col_inv_Register inv)
  let ?d = "Register ?k1 a' n' ia' ta' c1"
  have invd: "col_inv ?d" and inv2: "col_inv c2" unfolding c2 by (intro col_inv_Register inv1)+
  have "orphan i c2"
  proof (cases "i = length (col_runners c)")
    case True
    then have "orphan i ?d" by (intro orphan_Register inv1) (simp add: c1)
    then show ?thesis unfolding c2 using orphan_step [OF col_step.Reg invd] by blast
  next
    case False
    then have "i = Suc (length (col_runners c))" using assms(6,7) by (simp add: c1)
    then show ?thesis unfolding c2
      by (intro orphan_Register invd) (simp add: c1 value_keys_differ [symmetric] del: value_keys_differ)
  qed
  from orphan_run [OF assms(5) inv2 this] show ?thesis by (simp add: orphan_def)
qed

theorem Reconcile_again_leaks_witness:
  "\<exists>c3. snd (reconcileNodeConfigDeletion (example_renv None) example_key
      (snd (reconcileNodeConfig (example_renv None) example_key (example_config TypeFake)
        (snd (reconcileNodeConfig (example_renv None) example_key (example_config TypeFake) emptyCollector))))) = c3 \<and>
    \<not> ar_stopped (col_runners c3 ! 0)"
proof -
  let ?r = "reconcileNodeConfig (example_renv None) example_key (example_config TypeFake)"
  let ?c1 = "snd (?r emptyCollector)" and ?c2 = "snd (?r (snd (?r emptyCollector)))"
  have r1: "?r emptyCollector = (Inr (), ?c1)" and r2: "?r ?c1 = (Inr (), ?c2)"
    by (metis example_reconcile_ok prod.collapse)+
  have inv2: "col_inv ?c2"
    by (rule col_inv_run [OF reconcileNodeConfig_run col_inv_run [OF reconcileNodeConfig_run col_inv_empty]])
  obtain a b n m ia ib ta tb where "?c1 = Register (CollectorKey (re_nnString (example_renv None)) example_key ValueDeltaPressure) b m ib tb
      (Register (CollectorKey (re_nnString (example_renv None)) example_key ValueInletTemperature) a n ia ta emptyCollector)"
    using reconcileNodeConfig_success [OF r1] by blast
  then have "0 < length (col_runners ?c1)" by simp
  from Reconcile_again_leaks [OF col_run.Start r1 refl r2 reconcileNodeConfigDeletion_run [OF inv2] _ this]
  show ?thesis by (simp add: emptyCollector_def)
qed

text \<open>
  An unsupported pressure sensor starts a runner with every attempt: the temperature agent is
  registered before the type of the other one is looked at, so each of the attempts the work queue
  makes after the error returns that error and leaves one more running agent.
\<close>

theorem Reconcile_error_leaks:
  assumes "re_Get env req = Inr (Some nc)" "\<not> nc_Deleting nc"
    and "et_Type (mc_InletTemp (ncs_MetricsCollector (nc_Spec nc))) \<in> {TypeFake, TypeRedfish}"
    and "et_Type (mc_DeltaP (ncs_MetricsCollector (nc_Spec nc))) \<notin> {TypeFake, TypeDPAPI}"
  shows "isErr (fst (Reconcile env req c)) \<and>
    length (col_runners (((\<lambda>c. snd (Reconcile env req c)) ^^ m) c)) = length (col_runners c) + m \<and>
    (\<forall>i. length (col_runners c) \<le> i \<and> i < length (col_runners c) + m \<longrightarrow>
      \<not> ar_stopped (col_runners (((\<lambda>c. snd (Reconcile env req c)) ^^ m) c) ! i))"
proof -
  let ?f = "\<lambda>c. snd (Reconcile env req c)"
  have ty: "et_Type (defaultEndpointTerm et) = et_Type et" for et
    by (simp add: defaultEndpointTerm_def split: option.split)
  let ?mc = "ncs_MetricsCollector (nc_Spec nc)"
  have "\<exists>agent. inletTempAgent env req (defaultEndpointTerm (mc_InletTemp ?mc)) = Inr agent"
    using assms(3) by (auto simp: inletTempAgent_def ty Let_def split: prod.split)
  then obtain agent where ag: "inletTempAgent env req (defaultEndpointTerm (mc_InletTemp ?mc)) = Inr agent" ..
  have bad: "deltaPAgent env req (ncs_NodeName (nc_Spec nc)) (defaultEndpointTerm (mc_DeltaP ?mc)) =
      Inl (Errorf ''unsupported metricsCollector.deltaP.type'')"
    using assms(4) by (auto simp: deltaPAgent_def ty Let_def split: prod.split)
  have step: "\<exists>k a n i t. ?f c = Register k a n i t c" for c
    using assms(1,2) ag bad by (simp add: Reconcile_def reconcileNodeConfig_def Let_def) blast
  have err: "isErr (fst (Reconcile env req c))"
    using assms(1,2) ag bad by (simp add: Reconcile_def reconcileNodeConfig_def Let_def)
  have "length (col_runners ((?f ^^ m) c)) = length (col_runners c) + m \<and>
      (\<forall>i. length (col_runners c) \<le> i \<and> i < length (col_runners c) + m \<longrightarrow> \<not> ar_stopped (col_runners ((?f ^^ m) c) ! i))"
  proof (induction m)
    case (Suc m)
    obtain k a n i t where s: "?f ((?f ^^ m) c) = Register k a n i t ((?f ^^ m) c)" using step by blast
    show ?case using Suc by (simp add: s) (auto simp: Register_def nth_append newAgentRunner_def)
  qed auto
  with err show ?thesis by blast
qed

theorem Reconcile_error_leaks_witness:
  "length (col_runners (((\<lambda>c. snd (Reconcile (example_renv (Some (example_config TypeRedfish))) example_key c)) ^^ 5) emptyCollector)) = 5"
proof -
  let ?nc = "example_config TypeRedfish"
  have "re_Get (example_renv (Some ?nc)) example_key = Inr (Some ?nc)" "\<not> nc_Deleting ?nc"
    by (simp_all add: example_renv_def example_config_def)
  moreover have "et_Type (mc_InletTemp (ncs_MetricsCollector (nc_Spec ?nc))) \<in> {TypeFake, TypeRedfish}"
    by (simp add: example_config_def)
  moreover have "et_Type (mc_DeltaP (ncs_MetricsCollector (nc_Spec ?nc))) \<notin> {TypeFake, TypeDPAPI}" by code_simp
  ultimately show ?thesis
    using Reconcile_error_leaks [of "example_renv (Some ?nc)" example_key ?nc emptyCollector 5]
    by (simp add: emptyCollector_def)
qed

end
