(* ===== verification/Metrics_Provider.thy ===== *)
theory Metrics_Provider
  imports Metric_Collector
begin

text \<open>
  The custom metrics API of the adapter, \<open>wao-metrics-adapter/pkg/provider\<close>: a request is checked,
  the store is asked, values older than \<open>MetricTTL\<close> are refused and the rest is returned with six
  decimals. The REST mapper and the helpers of the metrics library are parameters; the clock is
  read twice per value, \<open>now\<close> for the age and \<open>now'\<close> for the answer.
\<close>

definition MetricTTL :: int where
  "MetricTTL = 60 * 10 ^ 9"

definition grNode :: GroupResource where
  "grNode = \<lparr>gr_Group = [], gr_Resource = ''nodes''\<rparr>"

definition supportedGRs :: "GroupResource list" where
  "supportedGRs = [grNode]"

record 'o MetricValue =
  mv_DescribedObject :: 'o
  mv_Metric :: string
  mv_Timestamp :: int
  mv_Value :: int
  mv_Scale :: int

record 'o provider_env =
  pe_normalized :: "CustomMetricInfo \<Rightarrow> CustomMetricInfo result"
  pe_ReferenceFor :: "NamespacedName \<Rightarrow> CustomMetricInfo \<Rightarrow> 'o result"
  pe_ListObjectNames :: "string \<Rightarrow> string \<Rightarrow> CustomMetricInfo \<Rightarrow> string list result"
  pe_grString :: "GroupResource \<Rightarrow> string"

definition validateResource :: "'o provider_env \<Rightarrow> CustomMetricInfo \<Rightarrow> CustomMetricInfo result" where
  "validateResource env info = (case pe_normalized env info of
     Inl e \<Rightarrow> Inl e
   | Inr info \<Rightarrow>
       if list_ex (\<lambda>gr. cmi_GroupResource info = gr) supportedGRs then Inr info
       else Inl (Errorf ''unsupported GroupResource''))"

definition fixedScale :: "(f64 \<Rightarrow> int) \<Rightarrow> f64 \<Rightarrow> nat \<Rightarrow> int \<times> int" where
  "fixedScale oob r precision =
     (f64_to_int oob (f64_mul r (f64_of_int (10 ^ precision))), - int precision)"

text \<open>\<open>NewMilliQuantity\<close> is the quantity \<open>val\<close> with the scale \<open>-3\<close>.\<close>

definition metricValueMilli :: "'o \<Rightarrow> int \<Rightarrow> string \<Rightarrow> int \<Rightarrow> 'o MetricValue" where
  "metricValueMilli objRef t key val =
     \<lparr>mv_DescribedObject = objRef, mv_Metric = key, mv_Timestamp = t, mv_Value = val, mv_Scale = -3\<rparr>"

definition metricValueScale :: "'o \<Rightarrow> int \<Rightarrow> string \<Rightarrow> int \<Rightarrow> int \<Rightarrow> 'o MetricValue" where
  "metricValueScale objRef t key val scale =
     \<lparr>mv_DescribedObject = objRef, mv_Metric = key, mv_Timestamp = t, mv_Value = val, mv_Scale = scale\<rparr>"

definition newMetricExpiredForError :: goerr where
  "newMetricExpiredForError = Errorf ''metric is expired''"

definition NewMetricNotFoundForError :: goerr where
  "NewMetricNotFoundForError = Errorf ''the server could not find the metric''"

definition metricFor ::
  "'o provider_env \<Rightarrow> (f64 \<Rightarrow> int) \<Rightarrow> int \<Rightarrow> int \<Rightarrow> Store \<Rightarrow> string \<Rightarrow> string \<Rightarrow> CustomMetricInfo \<Rightarrow> 'o MetricValue result" where
  "metricFor env oob now now' store namespace name info = (case validateResource env info of
     Inl e \<Rightarrow> Inl (Wrap ''BadRequest'' e)
   | Inr info \<Rightarrow>
      (case Store_Get store (StoreKey (pe_grString env) namespace name info) of
         None \<Rightarrow> Inl NewMetricNotFoundForError
       | Some m \<Rightarrow>
          (let metric = cmi_Metric info;
               nn = \<lparr>nn_Namespace = namespace, nn_Name = name\<rparr>;
               answer = (\<lambda>x. case pe_ReferenceFor env nn info of
                  Inl e \<Rightarrow> Inl (Wrap ''InternalError'' e)
                | Inr objRef \<Rightarrow> (let (v, s) = fixedScale oob x 6 in Inr (metricValueScale objRef now' metric v s)))
           in if metric = ValueInletTemperature then
                (if md_InletTempTimestamp m + MetricTTL < now then Inl newMetricExpiredForError else answer (md_InletTemp m))
              else if metric = ValueDeltaPressure then
                (if md_DeltaPressureTimestamp m + MetricTTL < now then Inl newMetricExpiredForError else answer (md_DeltaPressure m))
              else Inl (Errorf ''metric not supported''))))"

definition GetMetricByName where
  "GetMetricByName env oob now now' store name info = metricFor env oob now now' store (nn_Namespace name) (nn_Name name) info"

fun metricsFor where
  "metricsFor env oob clock store namespace [] info = Inr []"
| "metricsFor env oob clock store namespace (name # names) info =
     (case metricFor env oob (fst (clock (length names))) (snd (clock (length names))) store namespace name info of
        Inl e \<Rightarrow> Inl e
      | Inr v \<Rightarrow> (case metricsFor env oob clock store namespace names info of Inl e \<Rightarrow> Inl e | Inr vs \<Rightarrow> Inr (v # vs)))"

text \<open>\<open>clock i\<close> is what the clock shows, twice, when \<open>i\<close> names are still to come.\<close>

definition GetMetricBySelector where
  "GetMetricBySelector env oob clock store namespace selector info =
     (case pe_ListObjectNames env namespace selector info of
        Inl e \<Rightarrow> Inl (Wrap ''InternalError: failed to list objects'' e)
      | Inr names \<Rightarrow> metricsFor env oob clock store namespace names info)"

section \<open>Lemmas\<close>

text \<open>The key under which the collector stores a node is the one the provider asks for.\<close>

lemma StoreKey_node:
  assumes "grString grNode = ''nodes''" "cmi_GroupResource info = grNode"
  shows "StoreKey grString [] name info = StoreKeyForNode name"
  using assms by (simp add: StoreKey_def StoreKeyForNode_def)

text \<open>The error of truncating to six decimals.\<close>

lemma round64_near: "\<bar>x\<bar> < 2 ^ 53 \<Longrightarrow> \<bar>round64 x - x\<bar> \<le> 1 / 2"
proof -
  assume "\<bar>x\<bar> < 2 ^ 53"
  moreover have "round64 (- x) = - round64 x" by (simp add: round_rat_def)
  ultimately show ?thesis using round64_error [of x 53] round64_error [of "- x" 53] by (cases "0 \<le> x") (auto simp: abs_minus_commute)
qed

lemma trunc_rat_error: "\<bar>of_int (trunc_rat x) - x\<bar> < 1"
  by (simp add: trunc_rat_def) linarith

lemma fixedScale_close:
  assumes "\<bar>r\<bar> \<le> 10 ^ 6"
  shows "snd (fixedScale oob (Fin r) 6) = - 6 \<and>
    \<bar>of_int (fst (fixedScale oob (Fin r) 6)) / 10 ^ 6 - r\<bar> \<le> 15 / 10 ^ 7"
proof -
  let ?x = "r * 10 ^ 6"
  have x: "\<bar>?x\<bar> \<le> 10 ^ 12" using assms by (simp add: abs_mult)
  have "round64 (10 ^ 6) = 10 ^ 6" using r64.rnd_int [of "10 ^ 6"] by simp
  then have "f64_of_int (10 ^ 6) = Fin (10 ^ 6)" by (simp add: f64_of_int_def f64_round_fin)
  moreover have "\<bar>?x\<bar> \<le> 2 ^ 999" using x by (rule order_trans) simp
  ultimately have m: "f64_mul (Fin r) (f64_of_int (10 ^ 6)) = Fin (round64 ?x)" by (simp add: f64_round_fin)
  have e: "\<bar>round64 ?x - ?x\<bar> \<le> 1 / 2" by (intro round64_near le_less_trans [OF x]) simp
  have t: "\<bar>of_int (trunc_rat (round64 ?x)) - round64 ?x\<bar> < 1" by (rule trunc_rat_error)
  have "\<bar>of_int (trunc_rat (round64 ?x))\<bar> \<le> (10 ^ 12 + 2 :: rat)" using e t x by linarith
  then have "rat_of_int \<bar>trunc_rat (round64 ?x)\<bar> \<le> rat_of_int (10 ^ 12 + 2)" by simp
  then have "\<bar>trunc_rat (round64 ?x)\<bar> \<le> 10 ^ 12 + 2" by (simp only: of_int_le_iff)
  then have "is_i64 (trunc_rat (round64 ?x))" by (simp add: is_i64_def MaxInt64_def MinInt64_def abs_le_iff)
  then have "fst (fixedScale oob (Fin r) 6) = trunc_rat (round64 ?x)" using m by (simp add: fixedScale_def f64_to_int_def)
  moreover have "\<bar>of_int (trunc_rat (round64 ?x)) - ?x\<bar> \<le> 3 / 2" using e t by linarith
  then have "\<bar>(of_int (trunc_rat (round64 ?x)) - ?x) / 10 ^ 6\<bar> \<le> 3 / 2 / 10 ^ 6" by (simp add: abs_divide)
  ultimately show ?thesis by (simp add: fixedScale_def diff_divide_distrib)
qed

section \<open>Properties\<close>

text \<open>
  C32. What a runner stored is served for a minute and no longer: after a pass of a runner for a node
  and a sensor at time \<open>t\<close>, a request for that node and sensor gets an answer within one and a half
  millionths of the value (for readings up to a million) until \<open>t\<close> plus \<open>MetricTTL\<close>, and the error
  for expired metrics after that; a sensor that never answered counts as expired.
\<close>

theorem provider_serves_runner:
  assumes "pe_normalized env info = Inr info" "cmi_GroupResource info = grNode" "pe_grString env grNode = ''nodes''"
    and "cmi_Metric info \<in> {ValueInletTemperature, ValueDeltaPressure}"
    and "pe_ReferenceFor env \<lparr>nn_Namespace = [], nn_Name = node\<rparr> info = Inr ref"
    and "\<bar>r\<bar> \<le> 10 ^ 6" "s = runOnce node (cmi_Metric info) (Inr (Fin r)) t s0"
  shows "(now \<le> t + MetricTTL \<longrightarrow> (\<exists>mv. metricFor env oob now now' s [] node info = Inr mv \<and>
      mv_DescribedObject mv = ref \<and> mv_Metric mv = cmi_Metric info \<and> mv_Scale mv = - 6 \<and>
      \<bar>of_int (mv_Value mv) / 10 ^ 6 - r\<bar> \<le> 15 / 10 ^ 7)) \<and>
    (t + MetricTTL < now \<longrightarrow> metricFor env oob now now' s [] node info = Inl newMetricExpiredForError) \<and>
    (Store_Get s0 (StoreKeyForNode node) = None \<and> MetricTTL < now \<longrightarrow>
      (\<forall>m. m \<in> {ValueInletTemperature, ValueDeltaPressure} \<and> m \<noteq> cmi_Metric info \<longrightarrow>
        pe_normalized env (info\<lparr>cmi_Metric := m\<rparr>) = Inr (info\<lparr>cmi_Metric := m\<rparr>) \<longrightarrow>
        metricFor env oob now now' s [] node (info\<lparr>cmi_Metric := m\<rparr>) = Inl newMetricExpiredForError))"
proof -
  have valid: "validateResource env info = Inr info"
      "pe_normalized env (info\<lparr>cmi_Metric := m\<rparr>) = Inr (info\<lparr>cmi_Metric := m\<rparr>) \<Longrightarrow>
        validateResource env (info\<lparr>cmi_Metric := m\<rparr>) = Inr (info\<lparr>cmi_Metric := m\<rparr>)" for m
    using assms(1,2) by (simp_all add: validateResource_def supportedGRs_def)
  have key: "StoreKey (pe_grString env) [] node (info\<lparr>cmi_Metric := m\<rparr>) = StoreKeyForNode node"
      "StoreKey (pe_grString env) [] node info = StoreKeyForNode node" for m
    using assms(2,3) by (simp_all add: StoreKey_node)
  have got: "Store_Get s (StoreKeyForNode node) = Some (setValue (cmi_Metric info) (Fin r) t (entry s0 (StoreKeyForNode node)))"
    by (simp add: assms(7) Store_Get_runOnce)
  have ne: "ValueInletTemperature \<noteq> ValueDeltaPressure" by (simp add: ValueInletTemperature_def ValueDeltaPressure_def)
  obtain v where fs: "fixedScale oob (Fin r) 6 = (v, - 6)" "\<bar>of_int v / 10 ^ 6 - r\<bar> \<le> 15 / 10 ^ 7"
    using fixedScale_close [OF assms(6), of oob] by (metis fst_conv prod.collapse snd_conv)
  have fresh: "\<exists>mv. metricFor env oob now now' s [] node info = Inr mv \<and>
      mv_DescribedObject mv = ref \<and> mv_Metric mv = cmi_Metric info \<and> mv_Scale mv = - 6 \<and>
      \<bar>of_int (mv_Value mv) / 10 ^ 6 - r\<bar> \<le> 15 / 10 ^ 7" if "now \<le> t + MetricTTL"
    using that assms(4,5) ne fs by (auto simp: metricFor_def valid key got setValue_def metricValueScale_def Let_def)
  have old: "metricFor env oob now now' s [] node info = Inl newMetricExpiredForError" if "t + MetricTTL < now"
    using that assms(4) ne by (auto simp: metricFor_def valid key got setValue_def Let_def)
  have other: "metricFor env oob now now' s [] node (info\<lparr>cmi_Metric := m\<rparr>) = Inl newMetricExpiredForError"
    if "Store_Get s0 (StoreKeyForNode node) = None" "MetricTTL < now" "m \<in> {ValueInletTemperature, ValueDeltaPressure}"
      "m \<noteq> cmi_Metric info" "pe_normalized env (info\<lparr>cmi_Metric := m\<rparr>) = Inr (info\<lparr>cmi_Metric := m\<rparr>)" for m
    using that assms(4) ne
    by (auto simp: metricFor_def valid(2) key got setValue_def entry_def zeroMetricData_def Let_def)
  from fresh old other show ?thesis by blast
qed

definition example_penv :: "string provider_env" where
  "example_penv = \<lparr>pe_normalized = Inr, pe_ReferenceFor = (\<lambda>nn info. Inr (nn_Name nn)),
     pe_ListObjectNames = (\<lambda>_ _ _. Inr [''n1'', ''n2'']),
     pe_grString = (\<lambda>gr. if gr_Group gr = [] then gr_Resource gr else gr_Resource gr @ ''.'' @ gr_Group gr)\<rparr>"

definition example_info :: CustomMetricInfo where
  "example_info = \<lparr>cmi_GroupResource = grNode, cmi_Namespaced = False, cmi_Metric = ValueInletTemperature\<rparr>"

theorem provider_serves_runner_witness:
  "\<exists>mv. metricFor example_penv (\<lambda>_. 0) (10 ^ 9) (10 ^ 9)
      (runOnce ''n1'' ValueInletTemperature (Inr (Fin (45 / 2))) 0 []) [] ''n1'' example_info = Inr mv \<and>
    mv_DescribedObject mv = ''n1'' \<and> mv_Scale mv = - 6 \<and> \<bar>of_int (mv_Value mv) / 10 ^ 6 - 45 / 2\<bar> \<le> (15 / 10 ^ 7 :: rat)"
  using provider_serves_runner [of example_penv example_info "''n1''" "''n1''" "45 / 2"
      "runOnce ''n1'' ValueInletTemperature (Inr (Fin (45 / 2))) 0 []" 0 "[]" "10 ^ 9" "\<lambda>_. 0" "10 ^ 9"]
  by (auto simp: example_penv_def example_info_def grNode_def MetricTTL_def)

text \<open>
  A list of metrics is complete or an error: \<open>GetMetricBySelector\<close> returns one value per object,
  in the order of the objects, each what a request for that object alone gives; if it fails, either
  the objects could not be listed or the request for some object alone fails with that error.
\<close>

theorem GetMetricBySelector_complete:
  shows "case GetMetricBySelector env oob (\<lambda>_. (now, now')) store namespace selector info of
      Inr items \<Rightarrow> \<exists>names. pe_ListObjectNames env namespace selector info = Inr names \<and> length items = length names \<and>
        (\<forall>i<length names. metricFor env oob now now' store namespace (names ! i) info = Inr (items ! i))
    | Inl e \<Rightarrow> isErr (pe_ListObjectNames env namespace selector info) \<or>
        (\<exists>names name. pe_ListObjectNames env namespace selector info = Inr names \<and> name \<in> set names \<and>
          metricFor env oob now now' store namespace name info = Inl e)"
proof -
  have "case metricsFor env oob (\<lambda>_. (now, now')) store namespace names info of
      Inr items \<Rightarrow> length items = length names \<and>
        (\<forall>i<length names. metricFor env oob now now' store namespace (names ! i) info = Inr (items ! i))
    | Inl e \<Rightarrow> \<exists>name\<in>set names. metricFor env oob now now' store namespace name info = Inl e" for names
    by (induction names) (auto simp: nth_Cons' split: sum.splits)
  from this [of "projr (pe_ListObjectNames env namespace selector info)"] show ?thesis
    by (auto simp: GetMetricBySelector_def split: sum.splits)
qed

end
