(* ===== verification/Cached_Clients.thy ===== *)
theory Cached_Clients
  imports Predictors
begin

text \<open>
  The caching clients of the scheduler and of the load balancer,
  \<open>wao-metrics-adapter/pkg/client/{metrics,predictor}.go\<close>, for calls that do not overlap. The API servers
  and model servers behind them are functions on a world \<open>'w\<close>, whose clock is \<open>clk\<close>. Both clients
  share one protocol, \<open>cached\<close>: a live entry is returned, otherwise an empty entry with the new expiry
  time is pushed and then filled and stored again, and an error removes the key. The lock of an entry keeps other callers
  waiting while it is filled; a single caller never waits on it. Calls that overlap, where a caller can
  get the empty entry of another one whose request failed, are the subject of \<open>Cache_Race\<close>.
\<close>

section \<open>The protocol\<close>

definition cached ::
  "('e \<Rightarrow> int) \<Rightarrow> (int \<Rightarrow> 'e) \<Rightarrow> ('w \<Rightarrow> int) \<Rightarrow> int \<Rightarrow> string \<Rightarrow> (int \<Rightarrow> ('w, 'e) call) \<Rightarrow> ((string, 'e) gomap \<times> 'w, 'e) call" where
  "cached expiredAt blank clk ttl key fill st =
     (let (cache, w) = st;
          pushed = AList.update key (blank (clk w + ttl)) cache;
          miss = (case fill (clk w + ttl) w of
                    (Inl e, w') \<Rightarrow> (Inl e, (AList.delete key pushed, w'))
                  | (Inr cv, w') \<Rightarrow> (Inr cv, (AList.update key cv pushed, w')))
      in case map_of cache key of
           None \<Rightarrow> miss
         | Some cv \<Rightarrow> if expiredAt cv > clk w then (Inr cv, st) else miss)"

lemma AList_delete_pushed: "AList.delete k (AList.update k v m) = AList.delete k m"
  by (induction m) (auto simp: AList.delete_eq)

text \<open>
  The contract between the protocol and what fills an entry: the entry carries the expiry time it
  was given.
\<close>

locale ttl_cache =
  fixes expiredAt :: "'e \<Rightarrow> int" and fill :: "int \<Rightarrow> ('w, 'e) call"
  assumes fill_expiry: "fill x w = (Inr cv, w') \<Longrightarrow> expiredAt cv = x"
begin

lemma cached_result:
  assumes "cached expiredAt blank clk ttl key fill (cache, w) = (Inr cv, (cache', w'))"
  shows "map_of cache' key = Some cv \<and>
    (map_of cache key = Some cv \<and> clk w < expiredAt cv \<and> cache' = cache \<and> w' = w \<or>
     fill (clk w + ttl) w = (Inr cv, w') \<and> expiredAt cv = clk w + ttl \<and> cache' = AList.update key cv cache)"
  using assms fill_expiry [of "clk w + ttl" w cv w']
  by (auto simp: cached_def Let_def split: option.splits prod.splits sum.splits if_splits)

lemma cached_error:
  assumes "cached expiredAt blank clk ttl key fill (cache, w) = (Inl e, (cache', w'))"
  shows "fill (clk w + ttl) w = (Inl e, w') \<and> cache' = AList.delete key cache"
  using assms by (auto simp: cached_def Let_def AList_delete_pushed split: option.splits prod.splits sum.splits if_splits)

lemma cached_hit:
  assumes "cached expiredAt blank clk ttl key fill st = (Inr cv, (cache, w))"
    and "map_of cache2 key = map_of cache key" "clk w2 < expiredAt cv"
  shows "cached expiredAt blank clk ttl key fill (cache2, w2) = (Inr cv, (cache2, w2))"
  using cached_result [of blank clk ttl key "fst st" "snd st" cv cache w] assms by (simp add: cached_def)

end

section \<open>Metrics\<close>

record ('w, 'p) metrics_origin =
  mo_NodeMetrics :: "string \<Rightarrow> ('w, f64) call"
  mo_CustomMetric :: "string \<Rightarrow> string \<Rightarrow> ('w, f64) call"
  mo_PodMetrics :: "string \<Rightarrow> string \<Rightarrow> ('w, 'p) call"

definition metricsCacheKey :: "(NamespacedName \<Rightarrow> string) \<Rightarrow> NamespacedName \<Rightarrow> string \<Rightarrow> string \<Rightarrow> string" where
  "metricsCacheKey nnString obj metricType metricName =
     nnString obj @ ''#'' @ metricType @ ''#'' @ metricName"

definition metricTypeNode :: string where "metricTypeNode = ''node''"

definition metricTypePod :: string where "metricTypePod = ''pod''"

definition metricNameMetrics :: string where "metricNameMetrics = ''metrics''"

record 'p metricsCache =
  mca_NodeMetrics :: "f64 option"
  mca_PodMetrics :: "'p option"
  mca_CustomMetrics :: "(string, f64) gomap"
  mca_ExpiredAt :: int

definition emptyMetricsCache :: "int \<Rightarrow> 'p metricsCache" where
  "emptyMetricsCache expiredAt =
     \<lparr>mca_NodeMetrics = None, mca_PodMetrics = None, mca_CustomMetrics = [], mca_ExpiredAt = expiredAt\<rparr>"

text \<open>The \<open>switch\<close> of \<open>get\<close> on an entry that was just pushed.\<close>

definition fillMetrics ::
  "('w, 'p) metrics_origin \<Rightarrow> NamespacedName \<Rightarrow> string \<Rightarrow> string \<Rightarrow> int \<Rightarrow> ('w, 'p metricsCache) call" where
  "fillMetrics origin obj metricType metricName expiredAt w =
     (let cv = emptyMetricsCache expiredAt
      in if metricType = metricTypeNode then
           (if metricName = metricNameMetrics then
              (case mo_NodeMetrics origin (nn_Name obj) w of
                 (Inl e, w') \<Rightarrow> (Inl (Wrap ''unable to get metrics'' e), w')
               | (Inr v, w') \<Rightarrow> (Inr (cv\<lparr>mca_NodeMetrics := Some v\<rparr>), w'))
            else if metricName = ValueInletTemperature \<or> metricName = ValueDeltaPressure then
              (case mo_CustomMetric origin (nn_Name obj) metricName w of
                 (Inl e, w') \<Rightarrow> (Inl (Wrap ''unable to get metrics'' e), w')
               | (Inr v, w') \<Rightarrow> (Inr (cv\<lparr>mca_CustomMetrics := AList.update metricName v []\<rparr>), w'))
            else (Inl (Errorf ''unknown metricName''), w))
         else if metricType = metricTypePod then
           (if metricName = metricNameMetrics then
              (case mo_PodMetrics origin (nn_Namespace obj) (nn_Name obj) w of
                 (Inl e, w') \<Rightarrow> (Inl (Wrap ''unable to get metrics'' e), w')
               | (Inr v, w') \<Rightarrow> (Inr (cv\<lparr>mca_PodMetrics := Some v\<rparr>), w'))
            else (Inl (Errorf ''unknown metricName''), w))
         else (Inl (Errorf ''unknown metricType''), w))"

type_synonym ('w, 'p) metrics_client = "(string, 'p metricsCache) gomap \<times> 'w"

definition CachedMetrics_get ::
  "(NamespacedName \<Rightarrow> string) \<Rightarrow> ('w \<Rightarrow> int) \<Rightarrow> int \<Rightarrow> ('w, 'p) metrics_origin \<Rightarrow>
   NamespacedName \<Rightarrow> string \<Rightarrow> string \<Rightarrow> (('w, 'p) metrics_client, 'p metricsCache) call" where
  "CachedMetrics_get nnString clk ttl origin obj metricType metricName =
     cached mca_ExpiredAt emptyMetricsCache clk ttl (metricsCacheKey nnString obj metricType metricName)
       (fillMetrics origin obj metricType metricName)"

definition GetNodeMetrics where
  "GetNodeMetrics nnString clk ttl origin name =
     then_do (CachedMetrics_get nnString clk ttl origin \<lparr>nn_Namespace = [], nn_Name = name\<rparr> metricTypeNode metricNameMetrics)
       (\<lambda>cv. ret (mca_NodeMetrics cv))"

definition GetPodMetrics where
  "GetPodMetrics nnString clk ttl origin namespace name =
     then_do (CachedMetrics_get nnString clk ttl origin \<lparr>nn_Namespace = namespace, nn_Name = name\<rparr> metricTypePod metricNameMetrics)
       (\<lambda>cv. ret (mca_PodMetrics cv))"

definition GetCustomMetricForNode where
  "GetCustomMetricForNode nnString clk ttl origin name metricName =
     then_do (CachedMetrics_get nnString clk ttl origin \<lparr>nn_Namespace = [], nn_Name = name\<rparr> metricTypeNode metricName)
       (\<lambda>cv. ret (map_of (mca_CustomMetrics cv) metricName))"

section \<open>Predictions\<close>

text \<open>The verb \<open>%f\<close>: six decimals, rounded half to even.\<close>

definition pad6 :: "string \<Rightarrow> string" where
  "pad6 s = replicate (6 - length s) CHR ''0'' @ s"

fun fmt_f :: "f64 \<Rightarrow> string" where
  "fmt_f NaN = ''NaN''"
| "fmt_f PosInf = ''+Inf''"
| "fmt_f NegInf = ''-Inf''"
| "fmt_f (Fin r) =
     (let n = rne (\<bar>r\<bar> * 10 ^ 6)
      in (if r < 0 then ''-'' else []) @ Itoa (n div 10 ^ 6) @ ''.'' @ pad6 (Itoa (n mod 10 ^ 6)))"

definition predictorCacheKey ::
  "string \<Rightarrow> string \<Rightarrow> EndpointTerm \<Rightarrow> string \<Rightarrow> f64 \<Rightarrow> f64 \<Rightarrow> f64 \<Rightarrow> string" where
  "predictorCacheKey valueType namespace et predictorType cpuUsage inletTemp deltaP =
     (let secretName = (case et_BasicAuthSecret et of None \<Rightarrow> [] | Some n \<Rightarrow> n);
          ep = et_Type et @ ''|'' @ et_Endpoint et @ ''|'' @ secretName
      in valueType @ ''#'' @ namespace @ ''#'' @ ep @ ''#'' @ predictorType @ ''#'' @
         fmt_f cpuUsage @ ''#'' @ fmt_f inletTemp @ ''#'' @ fmt_f deltaP)"

definition valueTypePowerConsumptionEndpoint :: string where
  "valueTypePowerConsumptionEndpoint = ''PowerConsumptionEndpoint''"

definition valueTypeWatt :: string where
  "valueTypeWatt = ''Watt''"

record predictionCache =
  pca_PowerConsumptionEndpoint :: "EndpointTerm option"
  pca_Watt :: f64
  pca_ExpiredAt :: int

definition emptyPredictionCache :: "int \<Rightarrow> predictionCache" where
  "emptyPredictionCache expiredAt =
     \<lparr>pca_PowerConsumptionEndpoint = None, pca_Watt = Fin 0, pca_ExpiredAt = expiredAt\<rparr>"

text \<open>What \<open>fromnodeconfig\<close> and the objects it makes do, as calls on the world.\<close>

record 'w predictor_origin =
  po_Endpoint :: "string \<Rightarrow> EndpointTerm \<Rightarrow> string \<Rightarrow> ('w, EndpointTerm) call"
  po_Predict :: "string \<Rightarrow> EndpointTerm \<Rightarrow> f64 \<Rightarrow> f64 \<Rightarrow> f64 \<Rightarrow> ('w, f64) call"

definition fillPrediction ::
  "'w predictor_origin \<Rightarrow> string \<Rightarrow> string \<Rightarrow> EndpointTerm \<Rightarrow> string \<Rightarrow> f64 \<Rightarrow> f64 \<Rightarrow> f64 \<Rightarrow>
   int \<Rightarrow> ('w, predictionCache) call" where
  "fillPrediction origin valueType namespace et predictorType cpuUsage inletTemp deltaP expiredAt w =
     (let cv = emptyPredictionCache expiredAt in
      if valueType = valueTypePowerConsumptionEndpoint then
        (case po_Endpoint origin namespace et predictorType w of
           (Inl e, w') \<Rightarrow> (Inl e, w')
         | (Inr ep, w') \<Rightarrow> (Inr (cv\<lparr>pca_PowerConsumptionEndpoint := Some ep\<rparr>), w'))
      else
        (case po_Predict origin namespace et cpuUsage inletTemp deltaP w of
           (Inl e, w') \<Rightarrow> (Inl e, w')
         | (Inr watt, w') \<Rightarrow> (Inr (cv\<lparr>pca_Watt := watt\<rparr>), w')))"

type_synonym 'w predictor_client = "(string, predictionCache) gomap \<times> 'w"

text \<open>
  For an unknown value type the entry is deleted under the wrong key, the entry itself, so the empty
  entry stays in the cache.
\<close>

definition CachedPredictor_do ::
  "('w \<Rightarrow> int) \<Rightarrow> int \<Rightarrow> 'w predictor_origin \<Rightarrow> string \<Rightarrow> string \<Rightarrow> EndpointTerm \<Rightarrow> string \<Rightarrow> f64 \<Rightarrow> f64 \<Rightarrow> f64 \<Rightarrow>
   ('w predictor_client, predictionCache) call" where
  "CachedPredictor_do clk ttl origin valueType namespace et predictorType cpuUsage inletTemp deltaP st =
     (let key = predictorCacheKey valueType namespace et predictorType cpuUsage inletTemp deltaP in
      if valueType = valueTypePowerConsumptionEndpoint \<or> valueType = valueTypeWatt
      then cached pca_ExpiredAt emptyPredictionCache clk ttl key
             (fillPrediction origin valueType namespace et predictorType cpuUsage inletTemp deltaP) st
      else
        (let (cache, w) = st;
             miss = (Inl (Errorf ''unknown valueType''), (AList.update key (emptyPredictionCache (clk w + ttl)) cache, w))
         in case map_of cache key of
              None \<Rightarrow> miss
            | Some cv \<Rightarrow> if pca_ExpiredAt cv > clk w then (Inr cv, st) else miss))"

definition GetPredictorEndpoint where
  "GetPredictorEndpoint clk ttl origin namespace ep predictorType =
     then_do (CachedPredictor_do clk ttl origin valueTypePowerConsumptionEndpoint namespace ep predictorType (Fin 0) (Fin 0) (Fin 0))
       (\<lambda>cv. ret (pca_PowerConsumptionEndpoint cv))"

definition PredictPowerConsumption where
  "PredictPowerConsumption clk ttl origin namespace ep cpuUsage inletTemp deltaP =
     then_do (CachedPredictor_do clk ttl origin valueTypeWatt namespace ep [] cpuUsage inletTemp deltaP)
       (\<lambda>cv. ret (pca_Watt cv))"

section \<open>Both clients keep the contract\<close>

interpretation mcache: ttl_cache mca_ExpiredAt "fillMetrics origin obj metricType metricName"
  for origin obj metricType metricName
  by unfold_locales
    (auto simp: fillMetrics_def emptyMetricsCache_def Let_def split: if_splits prod.splits sum.splits)

interpretation pcache: ttl_cache pca_ExpiredAt
    "fillPrediction origin valueType namespace et predictorType cpuUsage inletTemp deltaP"
  for origin valueType namespace et predictorType cpuUsage inletTemp deltaP
  by unfold_locales
    (auto simp: fillPrediction_def emptyPredictionCache_def Let_def split: if_splits prod.splits sum.splits)

section \<open>Properties\<close>

lemma sep_append_inj:
  "p @ c # x = q @ c # y \<Longrightarrow> c \<notin> set p \<Longrightarrow> c \<notin> set q \<Longrightarrow> p = q \<and> x = y"
proof (induction p arbitrary: q)
  case Nil
  then show ?case by (cases q) auto
next
  case (Cons a p)
  then show ?case by (cases q) auto
qed

lemma append_sep_inj:
  assumes "a @ c # b = a' @ c # b'" "c \<notin> set b" "c \<notin> set b'"
  shows "a = a' \<and> b = b'"
proof -
  have "rev b @ c # rev a = rev b' @ c # rev a'"
    using arg_cong [OF assms(1), of rev] by simp
  from sep_append_inj [OF this] assms(2,3) show ?thesis by simp
qed

lemma nnString_inj:
  assumes "nnString_doc nnString" "nnString obj = nnString obj'"
    and "CHR ''/'' \<notin> set (nn_Namespace obj)" "CHR ''/'' \<notin> set (nn_Namespace obj')"
  shows "obj = obj'"
  using sep_append_inj [of "nn_Namespace obj" "CHR ''/''" "nn_Name obj" "nn_Namespace obj'" "nn_Name obj'"] assms
  by (simp add: nnString_doc_def)

lemma metricsCacheKey_inj:
  assumes "metricsCacheKey nnString obj ty n = metricsCacheKey nnString obj' ty' n'" "nnString_doc nnString"
    and "CHR ''#'' \<notin> set ty \<union> set n" "CHR ''#'' \<notin> set ty' \<union> set n'"
    and "CHR ''/'' \<notin> set (nn_Namespace obj)" "CHR ''/'' \<notin> set (nn_Namespace obj')"
  shows "obj = obj' \<and> ty = ty' \<and> n = n'"
proof -
  from assms(1) have "(nnString obj @ ''#'' @ ty) @ CHR ''#'' # n = (nnString obj' @ ''#'' @ ty') @ CHR ''#'' # n'"
    by (simp add: metricsCacheKey_def)
  then have "nnString obj @ ''#'' @ ty = nnString obj' @ ''#'' @ ty'" and n: "n = n'"
    using append_sep_inj assms(3,4) by (metis UnI2)+
  then have "nnString obj @ CHR ''#'' # ty = nnString obj' @ CHR ''#'' # ty'" by simp
  then have "nnString obj = nnString obj' \<and> ty = ty'"
    using assms(3,4) by (intro append_sep_inj) auto
  with n nnString_inj [OF assms(2) _ assms(5,6)] show ?thesis by simp
qed

text \<open>Every entry is what some earlier request for its key gave, with the expiry time of that moment.\<close>

definition metrics_cache_ok where
  "metrics_cache_ok nnString clk ttl origin cache \<longleftrightarrow> (\<forall>key cv. map_of cache key = Some cv \<longrightarrow>
     (\<exists>obj ty n w0 w1. key = metricsCacheKey nnString obj ty n \<and> CHR ''#'' \<notin> set ty \<union> set n \<and>
        CHR ''/'' \<notin> set (nn_Namespace obj) \<and> fillMetrics origin obj ty n (clk w0 + ttl) w0 = (Inr cv, w1)))"

lemma CachedMetrics_get_fresh:
  assumes ok: "metrics_cache_ok nnString clk ttl origin cache" and "nnString_doc nnString" "0 < ttl"
    and sep: "CHR ''#'' \<notin> set ty \<union> set n" "CHR ''/'' \<notin> set (nn_Namespace obj)"
    and get: "CachedMetrics_get nnString clk ttl origin obj ty n (cache, w) = (r, (cache', w'))"
  shows "metrics_cache_ok nnString clk ttl origin cache' \<and> (case r of
      Inl e \<Rightarrow> map_of cache' (metricsCacheKey nnString obj ty n) = None
    | Inr cv \<Rightarrow> \<exists>w0 w1. fillMetrics origin obj ty n (clk w0 + ttl) w0 = (Inr cv, w1) \<and> clk w < clk w0 + ttl)"
proof (cases r)
  case (Inl e)
  with get have "cache' = AList.delete (metricsCacheKey nnString obj ty n) cache"
    unfolding CachedMetrics_get_def by (auto dest: mcache.cached_error)
  with ok Inl show ?thesis by (simp add: metrics_cache_ok_def)
next
  case (Inr cv)
  let ?k = "metricsCacheKey nnString obj ty n"
  from get Inr consider (hit) "map_of cache ?k = Some cv" "clk w < mca_ExpiredAt cv" "cache' = cache"
    | (miss) "fillMetrics origin obj ty n (clk w + ttl) w = (Inr cv, w')" "cache' = AList.update ?k cv cache"
    unfolding CachedMetrics_get_def by (auto dest: mcache.cached_result)
  then show ?thesis
  proof cases
    case hit
    then obtain obj' ty' n' w0 w1 where o: "?k = metricsCacheKey nnString obj' ty' n'"
        "CHR ''#'' \<notin> set ty' \<union> set n'" "CHR ''/'' \<notin> set (nn_Namespace obj')" "fillMetrics origin obj' ty' n' (clk w0 + ttl) w0 = (Inr cv, w1)"
      using ok unfolding metrics_cache_ok_def by blast
    then have "obj' = obj \<and> ty' = ty \<and> n' = n" using metricsCacheKey_inj assms(2) sep by metis
    with o hit ok Inr show ?thesis using mcache.fill_expiry [OF o(4)] by auto
  next
    case miss
    then have "metrics_cache_ok nnString clk ttl origin cache'"
      using ok sep unfolding metrics_cache_ok_def by (metis map_of_update option.inject)
    with miss Inr assms(3) show ?thesis by auto
  qed
qed

lemma fillMetrics_node:
  "fillMetrics origin obj metricTypeNode metricNameMetrics x w0 = (Inr cv, w1) \<Longrightarrow>
   \<exists>usage w1. mca_NodeMetrics cv = Some usage \<and> mo_NodeMetrics origin (nn_Name obj) w0 = (Inr usage, w1)"
  by (auto simp: fillMetrics_def Let_def split: prod.splits sum.splits)

lemma fillMetrics_custom:
  "metricName \<in> {ValueInletTemperature, ValueDeltaPressure} \<Longrightarrow>
   fillMetrics origin obj metricTypeNode metricName x w0 = (Inr cv, w1) \<Longrightarrow>
   \<exists>v w1. map_of (mca_CustomMetrics cv) metricName = Some v \<and>
     mo_CustomMetric origin (nn_Name obj) metricName w0 = (Inr v, w1)"
  by (auto simp: fillMetrics_def Let_def metricNameMetrics_def ValueInletTemperature_def ValueDeltaPressure_def
      split: prod.splits sum.splits)

text \<open>
  C28. A cached metric is a metric of the node asked for and not older than the TTL, as long as calls do not
  overlap: from a cache filled by such calls one after the other, a call of \<open>GetNodeMetrics\<close> that is made alone returns what the metrics
  server gave for that node less than a TTL ago, not nil, and \<open>GetCustomMetricForNode\<close> the same for the sensor asked
  for; an error leaves no entry behind, the pushed empty one included, and the cache stays well-formed. (Of calls that overlap this does
  not hold: one that waits for another whose request fails can return nil without an error, see \<open>Cache_Race\<close>.) Assumed are
  a positive TTL and the documented text of a namespaced name, the two parts with a slash between them.
\<close>

theorem GetNodeMetrics_fresh:
  assumes "metrics_cache_ok nnString clk ttl origin cache" "nnString_doc nnString" "0 < ttl"
    and "metricName \<in> {ValueInletTemperature, ValueDeltaPressure}"
  shows "(case GetNodeMetrics nnString clk ttl origin name (cache, w) of
      (Inl e, (cache', w')) \<Rightarrow> metrics_cache_ok nnString clk ttl origin cache' \<and>
        map_of cache' (metricsCacheKey nnString \<lparr>nn_Namespace = [], nn_Name = name\<rparr> metricTypeNode metricNameMetrics) = None
    | (Inr v, (cache', w')) \<Rightarrow> metrics_cache_ok nnString clk ttl origin cache' \<and>
        (\<exists>usage w0 w1. v = Some usage \<and> mo_NodeMetrics origin name w0 = (Inr usage, w1) \<and> clk w < clk w0 + ttl)) \<and>
    (case GetCustomMetricForNode nnString clk ttl origin name metricName (cache, w) of
      (Inl e, (cache', w')) \<Rightarrow> metrics_cache_ok nnString clk ttl origin cache' \<and>
        map_of cache' (metricsCacheKey nnString \<lparr>nn_Namespace = [], nn_Name = name\<rparr> metricTypeNode metricName) = None
    | (Inr v, (cache', w')) \<Rightarrow> metrics_cache_ok nnString clk ttl origin cache' \<and>
        (\<exists>x w0 w1. v = Some x \<and> mo_CustomMetric origin name metricName w0 = (Inr x, w1) \<and> clk w < clk w0 + ttl))"
proof -
  let ?obj = "\<lparr>nn_Namespace = [], nn_Name = name\<rparr>"
  have sep: "CHR ''#'' \<notin> set metricTypeNode \<union> set n"
    if "n \<in> {metricNameMetrics, ValueInletTemperature, ValueDeltaPressure}" for n
    using that by (auto simp: metricTypeNode_def metricNameMetrics_def ValueInletTemperature_def ValueDeltaPressure_def)
  obtain r cache' w' where a: "CachedMetrics_get nnString clk ttl origin ?obj metricTypeNode metricNameMetrics (cache, w) = (r, (cache', w'))"
    by (metis surj_pair)
  obtain r2 cache2 w2 where b: "CachedMetrics_get nnString clk ttl origin ?obj metricTypeNode metricName (cache, w) = (r2, (cache2, w2))"
    by (metis surj_pair)
  have s: "CHR ''#'' \<notin> set metricTypeNode \<union> set metricNameMetrics" "CHR ''#'' \<notin> set metricTypeNode \<union> set metricName"
    using sep assms(4) by blast+
  note A = CachedMetrics_get_fresh [OF assms(1-3) s(1) _ a, simplified]
    and B = CachedMetrics_get_fresh [OF assms(1-3) s(2) _ b, simplified]
  have "\<exists>usage w0 w1. mca_NodeMetrics cv = Some usage \<and> mo_NodeMetrics origin name w0 = (Inr usage, w1) \<and> clk w < clk w0 + ttl"
    if "r = Inr cv" for cv
    using A that fillMetrics_node [of origin ?obj] by fastforce
  moreover have "\<exists>x w0 w1. map_of (mca_CustomMetrics cv) metricName = Some x \<and>
      mo_CustomMetric origin name metricName w0 = (Inr x, w1) \<and> clk w < clk w0 + ttl"
    if "r2 = Inr cv" for cv
    using B that fillMetrics_custom [of metricName origin ?obj] assms(4) by fastforce
  ultimately show ?thesis
    using A B by (cases r; cases r2) (simp_all add: GetNodeMetrics_def GetCustomMetricForNode_def then_do_def a b)
qed

definition example_nnString :: "NamespacedName \<Rightarrow> string" where
  "example_nnString n = nn_Namespace n @ ''/'' @ nn_Name n"

definition example_origin :: "(int, unit) metrics_origin" where
  "example_origin = \<lparr>mo_NodeMetrics = (\<lambda>n w. (Inr (Fin (of_int w)), w + 1)),
     mo_CustomMetric = (\<lambda>n m w. (Inr (Fin 22), w + 1)), mo_PodMetrics = (\<lambda>ns n w. (Inr (), w + 1))\<rparr>"

theorem GetNodeMetrics_fresh_witness:
  "\<exists>usage w0 w1. fst (GetNodeMetrics example_nnString id 30 example_origin ''n1''
       (snd (GetNodeMetrics example_nnString id 30 example_origin ''n1'' ([], 5)))) = Inr (Some usage) \<and>
     mo_NodeMetrics example_origin ''n1'' w0 = (Inr usage, w1) \<and> 6 < w0 + 30 \<and> usage = Fin 5"
proof -
  have doc: "nnString_doc example_nnString" by (simp add: nnString_doc_def example_nnString_def)
  have st: "snd (GetNodeMetrics example_nnString id 30 example_origin ''n1'' ([], 5)) =
      ([(''/n1#node#metrics'', (emptyMetricsCache 35)\<lparr>mca_NodeMetrics := Some (Fin 5)\<rparr>)], 6)"
    by code_simp
  have hit: "GetNodeMetrics example_nnString id 30 example_origin ''n1''
      ([(''/n1#node#metrics'', (emptyMetricsCache 35)\<lparr>mca_NodeMetrics := Some (Fin 5)\<rparr>)], 6) =
      (Inr (Some (Fin 5)), ([(''/n1#node#metrics'', (emptyMetricsCache 35)\<lparr>mca_NodeMetrics := Some (Fin 5)\<rparr>)], 6))"
    by code_simp
  have "metrics_cache_ok example_nnString id 30 example_origin []" by (simp add: metrics_cache_ok_def)
  from GetNodeMetrics_fresh [OF this doc, of ValueInletTemperature "''n1''" 5]
  have "metrics_cache_ok example_nnString id 30 example_origin
      (fst (snd (GetNodeMetrics example_nnString id 30 example_origin ''n1'' ([], 5))))"
    by (auto split: prod.splits sum.splits)
  from GetNodeMetrics_fresh [OF this doc, of ValueInletTemperature "''n1''" 6] st hit
  show ?thesis by auto
qed

text \<open>
  A prediction is asked for once per TTL: after \<open>PredictPowerConsumption\<close> got a value from the
  model, every call with the same namespace and endpoint whose inputs print alike with six decimals
  returns that value, without asking the model, until the TTL is over.
\<close>

theorem PredictPowerConsumption_once:
  assumes "map_of cache (predictorCacheKey valueTypeWatt namespace ep [] cpuUsage inletTemp deltaP) = None"
    and "PredictPowerConsumption clk ttl origin namespace ep cpuUsage inletTemp deltaP (cache, w) = (Inr watt, (cache', w'))"
    and "fmt_f cpuUsage' = fmt_f cpuUsage" "fmt_f inletTemp' = fmt_f inletTemp" "fmt_f deltaP' = fmt_f deltaP"
    and "clk w2 < clk w + ttl"
  shows "fst (po_Predict origin namespace ep cpuUsage inletTemp deltaP w) = Inr watt \<and>
    PredictPowerConsumption clk ttl origin namespace ep cpuUsage' inletTemp' deltaP' (cache', w2) = (Inr watt, (cache', w2))"
proof -
  let ?k = "predictorCacheKey valueTypeWatt namespace ep [] cpuUsage inletTemp deltaP"
  let ?fill = "\<lambda>u t d. fillPrediction origin valueTypeWatt namespace ep [] u t d"
  have k: "predictorCacheKey valueTypeWatt namespace ep [] cpuUsage' inletTemp' deltaP' = ?k"
    using assms(3-5) by (simp add: predictorCacheKey_def)
  from assms(2) obtain cv where cv: "cached pca_ExpiredAt emptyPredictionCache clk ttl ?k (?fill cpuUsage inletTemp deltaP) (cache, w) = (Inr cv, (cache', w'))"
      "watt = pca_Watt cv"
    by (auto simp: PredictPowerConsumption_def CachedPredictor_do_def then_do_def split: prod.splits sum.splits)
  have fetched: "?fill cpuUsage inletTemp deltaP (clk w + ttl) w = (Inr cv, w')" "pca_ExpiredAt cv = clk w + ttl"
      "map_of cache' ?k = Some cv"
    using pcache.cached_result [OF cv(1)] assms(1) by auto
  then have "fst (po_Predict origin namespace ep cpuUsage inletTemp deltaP w) = Inr watt"
    using cv(2)
    by (auto simp: fillPrediction_def valueTypeWatt_def valueTypePowerConsumptionEndpoint_def Let_def
        split: prod.splits sum.splits)
  moreover have "PredictPowerConsumption clk ttl origin namespace ep cpuUsage' inletTemp' deltaP' (cache', w2) = (Inr watt, (cache', w2))"
    using fetched(2,3) cv(2) assms(6) by (simp add: PredictPowerConsumption_def CachedPredictor_do_def then_do_def cached_def k)
  ultimately show ?thesis by blast
qed

definition example_porigin :: "int predictor_origin" where
  "example_porigin = \<lparr>po_Endpoint = (\<lambda>ns ep t w. (Inr ep, w)),
     po_Predict = (\<lambda>ns ep u t d w. (Inr (f64_mul u (Fin 100)), w + 1))\<rparr>"

theorem PredictPowerConsumption_once_witness:
  "fst (PredictPowerConsumption id 30 example_porigin ''ns'' emptyEndpointTerm (Fin (1 + 1 / 2 ^ 30)) (Fin 22) (Fin 5)
     (snd (PredictPowerConsumption id 30 example_porigin ''ns'' emptyEndpointTerm (Fin 1) (Fin 22) (Fin 5) ([], 0)))) = Inr (Fin 100)"
proof -
  let ?k = "predictorCacheKey valueTypeWatt ''ns'' emptyEndpointTerm [] (Fin 1) (Fin 22) (Fin 5)"
  let ?cache = "[(?k, (emptyPredictionCache 30)\<lparr>pca_Watt := Fin 100\<rparr>)]"
  have a: "PredictPowerConsumption id 30 example_porigin ''ns'' emptyEndpointTerm (Fin 1) (Fin 22) (Fin 5) ([], 0) =
      (Inr (Fin 100), (?cache, 1))"
    by code_simp
  have "fmt_f (Fin (1 + 1 / 2 ^ 30)) = fmt_f (Fin 1)" by code_simp
  from PredictPowerConsumption_once [OF _ a this, of "Fin 22" "Fin 5" 1] a show ?thesis by simp
qed

end
