(* ===== verification/Cache_Race.thy ===== *)
theory Cache_Race
  imports Cached_Clients
begin

text \<open>
  The protocol of both caching clients with overlapping calls for one key. A thread is a goroutine
  inside \<open>get\<close> or \<open>do\<close>; the heap holds every entry ever made, with its mutex, and \<open>cr_map\<close> is what
  the \<open>sync.Map\<close> has under the key. A waiter takes the mutex of the entry it found only to release
  it again, so waiting is a step that needs the entry unlocked. The value of an entry is \<open>None\<close>
  until it is filled: the nil pointer or the zero the fields start with.
\<close>

record 'v centry =
  cen_value :: "'v option"
  cen_ExpiredAt :: int
  cen_locked :: bool

datatype 'v cpc =
    Calling
  | Waiting_for nat
  | Missed
  | Fetching nat
  | Storing nat
  | Deleting nat goerr
  | Returned "'v option result"

record 'v cache_state =
  cr_map :: "nat option"
  cr_heap :: "'v centry list"
  cr_threads :: "'v cpc list"
  cr_now :: int

definition set_pc :: "nat \<Rightarrow> 'v cpc \<Rightarrow> 'v cache_state \<Rightarrow> 'v cache_state" where
  "set_pc i pc s = s\<lparr>cr_threads := (cr_threads s)[i := pc]\<rparr>"

definition set_entry :: "nat \<Rightarrow> 'v centry \<Rightarrow> 'v cache_state \<Rightarrow> 'v cache_state" where
  "set_entry a e s = s\<lparr>cr_heap := (cr_heap s)[a := e]\<rparr>"

text \<open>\<open>fails\<close> says whether requests to the origin may fail.\<close>

inductive cache_step :: "bool \<Rightarrow> int \<Rightarrow> 'v cache_state \<Rightarrow> 'v cache_state \<Rightarrow> bool" for fails ttl where
  Load_found: "i < length (cr_threads s) \<Longrightarrow> cr_threads s ! i = Calling \<Longrightarrow> cr_map s = Some a \<Longrightarrow>
    cache_step fails ttl s (set_pc i (Waiting_for a) s)"
| Load_missing: "i < length (cr_threads s) \<Longrightarrow> cr_threads s ! i = Calling \<Longrightarrow> cr_map s = None \<Longrightarrow>
    cache_step fails ttl s (set_pc i Missed s)"
| Hit: "i < length (cr_threads s) \<Longrightarrow> cr_threads s ! i = Waiting_for a \<Longrightarrow> \<not> cen_locked (cr_heap s ! a) \<Longrightarrow>
    cen_ExpiredAt (cr_heap s ! a) > cr_now s \<Longrightarrow>
    cache_step fails ttl s (set_pc i (Returned (Inr (cen_value (cr_heap s ! a)))) s)"
| Expired: "i < length (cr_threads s) \<Longrightarrow> cr_threads s ! i = Waiting_for a \<Longrightarrow> \<not> cen_locked (cr_heap s ! a) \<Longrightarrow>
    \<not> cen_ExpiredAt (cr_heap s ! a) > cr_now s \<Longrightarrow>
    cache_step fails ttl s (set_pc i Missed s)"
| Push: "i < length (cr_threads s) \<Longrightarrow> cr_threads s ! i = Missed \<Longrightarrow>
    cache_step fails ttl s (set_pc i (Fetching (length (cr_heap s)))
      (s\<lparr>cr_heap := cr_heap s @ [\<lparr>cen_value = None, cen_ExpiredAt = cr_now s + ttl, cen_locked = True\<rparr>],
         cr_map := Some (length (cr_heap s))\<rparr>))"
| Fetch_ok: "i < length (cr_threads s) \<Longrightarrow> cr_threads s ! i = Fetching a \<Longrightarrow>
    cache_step fails ttl s (set_pc i (Storing a) (set_entry a ((cr_heap s ! a)\<lparr>cen_value := Some v\<rparr>) s))"
| Store_unlock: "i < length (cr_threads s) \<Longrightarrow> cr_threads s ! i = Storing a \<Longrightarrow>
    cache_step fails ttl s (set_pc i (Returned (Inr (cen_value (cr_heap s ! a))))
      (set_entry a ((cr_heap s ! a)\<lparr>cen_locked := False\<rparr>) (s\<lparr>cr_map := Some a\<rparr>)))"
| Fetch_err: "i < length (cr_threads s) \<Longrightarrow> cr_threads s ! i = Fetching a \<Longrightarrow> fails \<Longrightarrow>
    cache_step fails ttl s (set_pc i (Deleting a e) (set_entry a ((cr_heap s ! a)\<lparr>cen_locked := False\<rparr>) s))"
| Delete: "i < length (cr_threads s) \<Longrightarrow> cr_threads s ! i = Deleting a e \<Longrightarrow>
    cache_step fails ttl s (set_pc i (Returned (Inl e)) (s\<lparr>cr_map := None\<rparr>))"
| Tick: "cr_now s \<le> t \<Longrightarrow> cache_step fails ttl s (s\<lparr>cr_now := t\<rparr>)"

definition cache_start :: "nat \<Rightarrow> 'v cache_state" where
  "cache_start n = \<lparr>cr_map = None, cr_heap = [], cr_threads = replicate n Calling, cr_now = 0\<rparr>"

section \<open>No failure, no nil\<close>

text \<open>An entry that is not locked is filled, and threads refer to entries of the heap.\<close>

fun pc_ok :: "'v centry list \<Rightarrow> 'v cpc \<Rightarrow> bool" where
  "pc_ok h Calling = True"
| "pc_ok h (Waiting_for a) = (a < length h)"
| "pc_ok h Missed = True"
| "pc_ok h (Fetching a) = (a < length h)"
| "pc_ok h (Storing a) = (a < length h \<and> cen_value (h ! a) \<noteq> None)"
| "pc_ok h (Deleting a e) = False"
| "pc_ok h (Returned r) = (\<exists>v. r = Inr (Some v))"

definition cache_inv :: "'v cache_state \<Rightarrow> bool" where
  "cache_inv s \<longleftrightarrow> (\<forall>a. cr_map s = Some a \<longrightarrow> a < length (cr_heap s)) \<and>
     (\<forall>e\<in>set (cr_heap s). cen_locked e \<or> cen_value e \<noteq> None) \<and>
     (\<forall>pc\<in>set (cr_threads s). pc_ok (cr_heap s) pc)"

text \<open>Heaps only grow and values, once there, stay: what is known of the other threads is kept.\<close>

definition heap_le :: "'v centry list \<Rightarrow> 'v centry list \<Rightarrow> bool" where
  "heap_le h h' \<longleftrightarrow> length h \<le> length h' \<and>
     (\<forall>a<length h. cen_value (h ! a) \<noteq> None \<longrightarrow> cen_value (h' ! a) \<noteq> None)"

lemma pc_ok_mono: "pc_ok h pc \<Longrightarrow> heap_le h h' \<Longrightarrow> pc_ok h' pc"
  by (cases pc) (auto simp: heap_le_def)

lemma cache_inv_set_pc:
  assumes "cache_inv s" "heap_le (cr_heap s) (cr_heap s')" "cr_threads s' = cr_threads s"
    and "\<forall>a. cr_map s' = Some a \<longrightarrow> a < length (cr_heap s')"
    and "\<forall>e\<in>set (cr_heap s'). cen_locked e \<or> cen_value e \<noteq> None" "pc_ok (cr_heap s') pc"
  shows "cache_inv (set_pc i pc s')"
  using assms set_update_subset_insert [of "cr_threads s" i pc]
  by (auto simp: cache_inv_def set_pc_def intro: pc_ok_mono)

lemma heap_le_refl [simp]: "heap_le h h"
  by (simp add: heap_le_def)

lemma pc_ok_nth: "cache_inv s \<Longrightarrow> i < length (cr_threads s) \<Longrightarrow> pc_ok (cr_heap s) (cr_threads s ! i)"
  by (simp add: cache_inv_def)

lemma entry_ok_update:
  "\<forall>e\<in>set h. P e \<Longrightarrow> P x \<Longrightarrow> \<forall>e\<in>set (h[a := x]). P e"
  using set_update_subset_insert [of h a x] by auto

lemma cache_step_inv:
  assumes "cache_step False ttl s s'" "cache_inv s"
  shows "cache_inv s'"
proof -
  have m: "\<forall>a. cr_map s = Some a \<longrightarrow> a < length (cr_heap s)"
    and e: "\<forall>e\<in>set (cr_heap s). cen_locked e \<or> cen_value e \<noteq> None"
    using assms(2) by (auto simp: cache_inv_def)
  have nth: "pc_ok (cr_heap s) pc" if "i < length (cr_threads s)" "cr_threads s ! i = pc" for i pc
    using pc_ok_nth [OF assms(2)] that by blast
  show ?thesis
    using assms(1)
  proof cases
    case (Load_found i a)
    then show ?thesis using m e by (auto intro!: cache_inv_set_pc [OF assms(2)] simp del: not_None_eq)
  next
    case (Load_missing i)
    then show ?thesis using m e by (auto intro!: cache_inv_set_pc [OF assms(2)] simp del: not_None_eq)
  next
    case (Hit i a)
    then have "cen_value (cr_heap s ! a) \<noteq> None" using nth [OF Hit(2,3)] e by auto
    with Hit show ?thesis using m e by (auto intro!: cache_inv_set_pc [OF assms(2)])
  next
    case (Expired i a)
    then show ?thesis using m e by (auto intro!: cache_inv_set_pc [OF assms(2)] simp del: not_None_eq)
  next
    case (Push i)
    then show ?thesis using m e
      by (auto intro!: cache_inv_set_pc [OF assms(2)] simp: heap_le_def nth_append)
  next
    case (Fetch_ok i a v)
    then have "a < length (cr_heap s)" using nth [OF Fetch_ok(2,3)] by simp
    then show ?thesis unfolding Fetch_ok(1)
      using m entry_ok_update [OF e, of "(cr_heap s ! a)\<lparr>cen_value := Some v\<rparr>" a]
      by (intro cache_inv_set_pc [OF assms(2)]) (auto simp: set_entry_def heap_le_def nth_list_update)
  next
    case (Store_unlock i a)
    then have "a < length (cr_heap s)" "cen_value (cr_heap s ! a) \<noteq> None" using nth [OF Store_unlock(2,3)] by simp_all
    then show ?thesis unfolding Store_unlock(1)
      using m entry_ok_update [OF e, of "(cr_heap s ! a)\<lparr>cen_locked := False\<rparr>" a]
      by (intro cache_inv_set_pc [OF assms(2)]) (auto simp: set_entry_def heap_le_def nth_list_update)
  next
    case (Delete i a e)
    then show ?thesis using nth [OF Delete(2,3)] by simp
  next
    case (Tick t)
    then show ?thesis using assms(2) by (simp add: cache_inv_def)
  qed simp
qed

text \<open>
  C29. Without failures callers never see an empty entry: if no request to the origin fails, then
  whatever the number of overlapping calls and their interleaving, a call that returned has a
  value.
\<close>

theorem cache_no_failure_no_nil:
  assumes "(cache_step False ttl)\<^sup>*\<^sup>* (cache_start n) s" "i < length (cr_threads s)" "cr_threads s ! i = Returned r"
  shows "\<exists>v. r = Inr (Some v)"
proof -
  have "cache_inv (cache_start n :: 'a cache_state)" by (simp add: cache_inv_def cache_start_def)
  with assms(1) have "cache_inv s" by (induction rule: rtranclp_induct) (auto intro: cache_step_inv)
  with pc_ok_nth [OF this assms(2)] assms(3) show ?thesis by simp
qed

text \<open>The beginning of every race: thread 0 has pushed an entry and asks the origin.\<close>

definition fetching_state :: "nat option \<Rightarrow> int \<Rightarrow> nat cpc list \<Rightarrow> nat cache_state" where
  "fetching_state m ttl ts = \<lparr>cr_map = m, cr_heap = [\<lparr>cen_value = None, cen_ExpiredAt = ttl, cen_locked = True\<rparr>],
     cr_threads = ts, cr_now = 0\<rparr>"

lemma fetching_reached:
  "(cache_step fails ttl)\<^sup>*\<^sup>* (cache_start (Suc n)) (fetching_state (Some 0) ttl (Fetching 0 # replicate n Calling))"
proof -
  let ?s = "cache_start (Suc n) :: nat cache_state"
  have "cache_step fails ttl ?s (set_pc 0 Missed ?s)"
    by (rule Load_missing) (simp_all add: cache_start_def)
  moreover have "cache_step fails ttl (set_pc 0 Missed ?s) (fetching_state (Some 0) ttl (Fetching 0 # replicate n Calling))"
    using Push [of 0 "set_pc 0 Missed ?s" fails ttl]
    by (simp add: cache_start_def set_pc_def fetching_state_def)
  ultimately show ?thesis by (meson converse_rtranclp_into_rtranclp rtranclp.rtrancl_refl)
qed

theorem cache_no_failure_no_nil_witness:
  "\<exists>s. (cache_step False 30)\<^sup>*\<^sup>* (cache_start 1 :: nat cache_state) s \<and> cr_threads s = [Returned (Inr (Some 7))] \<and>
     (\<exists>v. (Inr (Some 7) :: nat option result) = Inr (Some v))"
proof -
  let ?s = "fetching_state (Some 0) 30 [Fetching 0]"
  let ?s1 = "set_pc 0 (Storing 0) (set_entry 0 ((cr_heap ?s ! 0)\<lparr>cen_value := Some 7\<rparr>) ?s)"
  let ?s2 = "set_pc 0 (Returned (Inr (cen_value (cr_heap ?s1 ! 0))))
    (set_entry 0 ((cr_heap ?s1 ! 0)\<lparr>cen_locked := False\<rparr>) (?s1\<lparr>cr_map := Some 0\<rparr>))"
  have "(cache_step False 30)\<^sup>*\<^sup>* (cache_start 1) ?s" using fetching_reached [of False 30 0] by simp
  moreover have "cache_step False 30 ?s ?s1" by (rule Fetch_ok) (simp_all add: fetching_state_def)
  moreover have "cache_step False 30 ?s1 ?s2" by (rule Store_unlock) (simp_all add: fetching_state_def set_pc_def set_entry_def)
  ultimately have run: "(cache_step False 30)\<^sup>*\<^sup>* (cache_start 1) ?s2" by (meson rtranclp.rtrancl_into_rtrancl)
  have ts: "cr_threads ?s2 = [Returned (Inr (Some 7))]" by (simp add: fetching_state_def set_pc_def set_entry_def)
  show ?thesis
    using run ts cache_no_failure_no_nil [OF run, of 0 "Inr (Some 7)"] by auto
qed

section \<open>Two races\<close>

text \<open>
  After a failed request a waiter gets an empty entry and no error: of two overlapping calls, the
  first one's request fails and its entry is unlocked before it is deleted; the second call, which
  waited for that entry, returns it as a hit, so its caller sees nil without an error.
\<close>

theorem cache_race_nil:
  "0 < ttl \<Longrightarrow> \<exists>s. (cache_step True ttl)\<^sup>*\<^sup>* (cache_start 2 :: nat cache_state) s \<and>
     cr_threads s = [Returned (Inl e), Returned (Inr None)]"
proof -
  assume ttl: "0 < ttl"
  let ?s = "fetching_state (Some 0) ttl [Fetching 0, Calling]"
  let ?s1 = "set_pc 1 (Waiting_for 0) ?s"
  let ?s2 = "set_pc 0 (Deleting 0 e) (set_entry 0 ((cr_heap ?s1 ! 0)\<lparr>cen_locked := False\<rparr>) ?s1)"
  let ?s3 = "set_pc 1 (Returned (Inr (cen_value (cr_heap ?s2 ! 0)))) ?s2"
  let ?s4 = "set_pc 0 (Returned (Inl e)) (?s3\<lparr>cr_map := None\<rparr>)"
  note simps = fetching_state_def set_pc_def set_entry_def
  have "(cache_step True ttl)\<^sup>*\<^sup>* (cache_start 2) ?s" using fetching_reached [of True ttl 1] by (simp add: numeral_2_eq_2)
  moreover have "cache_step True ttl ?s ?s1" by (rule Load_found) (simp_all add: simps)
  moreover have "cache_step True ttl ?s1 ?s2" by (rule Fetch_err) (simp_all add: simps)
  moreover have "cache_step True ttl ?s2 ?s3" by (rule Hit) (simp_all add: simps ttl)
  moreover have "cache_step True ttl ?s3 ?s4" by (rule Delete) (simp_all add: simps)
  ultimately have "(cache_step True ttl)\<^sup>*\<^sup>* (cache_start 2) ?s4" by (meson rtranclp.rtrancl_into_rtrancl)
  moreover have "cr_threads ?s4 = [Returned (Inl e), Returned (Inr None)]" by (simp add: simps)
  ultimately show ?thesis by blast
qed

theorem cache_race_nil_witness:
  "\<exists>s. (cache_step True 30)\<^sup>*\<^sup>* (cache_start 2 :: nat cache_state) s \<and>
     cr_threads s = [Returned (Inl (External ''timeout'')), Returned (Inr None)]"
  by (rule cache_race_nil) simp

text \<open>
  The mutex does not keep requests for one key apart: two calls that both load the map before
  either has pushed its entry ask the origin at the same time.
\<close>

theorem cache_double_fetch:
  "\<exists>s. (cache_step fails ttl)\<^sup>*\<^sup>* (cache_start 2 :: nat cache_state) s \<and> cr_threads s = [Fetching 0, Fetching 1]"
proof -
  let ?s = "cache_start 2 :: nat cache_state"
  let ?s1 = "set_pc 0 Missed ?s"
  let ?s2 = "set_pc 1 Missed ?s1"
  note simps = cache_start_def set_pc_def numeral_2_eq_2
  have "cache_step fails ttl ?s ?s1" by (rule Load_missing) (simp_all add: simps)
  moreover have "cache_step fails ttl ?s1 ?s2" by (rule Load_missing) (simp_all add: simps)
  moreover obtain s3 where "cache_step fails ttl ?s2 s3" "cr_threads s3 = [Fetching 0, Missed]" "length (cr_heap s3) = 1"
    using Push [of 0 ?s2 fails ttl] by (simp add: simps)
  moreover from this obtain s4 where "cache_step fails ttl s3 s4" "cr_threads s4 = [Fetching 0, Fetching 1]"
    using Push [of 1 s3 fails ttl] by (simp add: set_pc_def)
  ultimately show ?thesis by (meson converse_rtranclp_into_rtranclp rtranclp.rtrancl_refl)
qed

end
