(* ===== verification/Proxy_Types.thy ===== *)
theory Proxy_Types
  imports Kube_Objects
begin

text \<open>
  Names, endpoints and address helpers of the proxy, \<open>wao-loadbalancer/pkg/proxy/{types,endpoint}.go\<close>
  and \<open>util/{utils,endpoints}.go\<close>. The text of a \<open>NamespacedName\<close> comes from apimachinery and the
  parsing of addresses from \<open>k8s.io/utils/net\<close>; both are parameters. A \<open>net.IP\<close> is the text its
  \<open>String\<close> gives, \<open>None\<close> for nil; a set of strings is a list without repetitions, and adding to it
  is \<open>List.insert\<close>.

  The interface \<open>Endpoint\<close> has two implementations here, the plain one and the one of the nftables
  proxier, which embeds the plain one; a type assertion is a case distinction.
\<close>

section \<open>Names\<close>

record ServicePortName =
  spn_NamespacedName :: NamespacedName
  spn_Port :: string
  spn_Protocol :: string

definition fmtPortName :: "string \<Rightarrow> string" where
  "fmtPortName inp = (if inp = [] then [] else '':'' @ inp)"

definition ServicePortName_String :: "(NamespacedName \<Rightarrow> string) \<Rightarrow> ServicePortName \<Rightarrow> string" where
  "ServicePortName_String nnString spn = nnString (spn_NamespacedName spn) @ fmtPortName (spn_Port spn)"

record ServiceEndpoint =
  se_Endpoint :: string
  se_ServicePortName :: ServicePortName

text \<open>The values of \<open>v1.IPFamily\<close> and \<open>v1.Protocol\<close> the sources compare with.\<close>

definition IPv4Protocol :: string where
  "IPv4Protocol = ''IPv4''"

definition IPv6Protocol :: string where
  "IPv6Protocol = ''IPv6''"

definition ProtocolUDP :: string where
  "ProtocolUDP = ''UDP''"

section \<open>Endpoints\<close>

record BaseEndpointInfo =
  bei_ip :: string
  bei_port :: int
  bei_endpoint :: string
  bei_isLocal :: bool
  bei_ready :: bool
  bei_serving :: bool
  bei_terminating :: bool
  bei_zoneHints :: "string list"

text \<open>\<open>net.JoinHostPort\<close>: a host that has a colon is put in brackets.\<close>

definition JoinHostPort :: "string \<Rightarrow> string \<Rightarrow> string" where
  "JoinHostPort host port =
     (if CHR '':'' \<in> set host then ''['' @ host @ '']:'' @ port else host @ '':'' @ port)"

definition newBaseEndpointInfo ::
  "string \<Rightarrow> int \<Rightarrow> bool \<Rightarrow> bool \<Rightarrow> bool \<Rightarrow> bool \<Rightarrow> string list \<Rightarrow> BaseEndpointInfo" where
  "newBaseEndpointInfo ip port isLocal ready serving terminating zoneHints =
     \<lparr>bei_ip = ip, bei_port = port, bei_endpoint = JoinHostPort ip (Itoa port), bei_isLocal = isLocal,
      bei_ready = ready, bei_serving = serving, bei_terminating = terminating, bei_zoneHints = zoneHints\<rparr>"

record endpointInfo =
  epi_BaseEndpointInfo :: BaseEndpointInfo
  epi_chainName :: string
  epi_affinitySetName :: string

datatype Endpoint = BaseEndpoint BaseEndpointInfo | NftEndpoint endpointInfo

fun Endpoint_base :: "Endpoint \<Rightarrow> BaseEndpointInfo" where
  "Endpoint_base (BaseEndpoint b) = b"
| "Endpoint_base (NftEndpoint e) = epi_BaseEndpointInfo e"

definition Endpoint_String :: "Endpoint \<Rightarrow> string" where
  "Endpoint_String ep = bei_endpoint (Endpoint_base ep)"

definition Endpoint_IP :: "Endpoint \<Rightarrow> string" where
  "Endpoint_IP ep = bei_ip (Endpoint_base ep)"

definition IsLocal :: "Endpoint \<Rightarrow> bool" where
  "IsLocal ep = bei_isLocal (Endpoint_base ep)"

definition IsReady :: "Endpoint \<Rightarrow> bool" where
  "IsReady ep = bei_ready (Endpoint_base ep)"

definition IsServing :: "Endpoint \<Rightarrow> bool" where
  "IsServing ep = bei_serving (Endpoint_base ep)"

definition IsTerminating :: "Endpoint \<Rightarrow> bool" where
  "IsTerminating ep = bei_terminating (Endpoint_base ep)"

definition ZoneHints :: "Endpoint \<Rightarrow> string list" where
  "ZoneHints ep = bei_zoneHints (Endpoint_base ep)"

section \<open>Addresses\<close>

type_synonym IP = "string option"

definition IP_String :: "IP \<Rightarrow> string" where
  "IP_String ip = (case ip of None \<Rightarrow> ''<nil>'' | Some s \<Rightarrow> s)"

record net_env =
  ne_ParseIPSloppy :: "string \<Rightarrow> IP"
  ne_IsIPv6String :: "string \<Rightarrow> bool"
  ne_IPFamilyOf :: "IP \<Rightarrow> string"
  ne_ParseCIDR :: "string \<Rightarrow> (string \<times> string) result"
  ne_LoadBalancerIPMode :: bool

text \<open>The family a parsed address or prefix belongs to; the prefix comes with its own.\<close>

definition GetIPFamilyFromIP :: "net_env \<Rightarrow> IP \<Rightarrow> string" where
  "GetIPFamilyFromIP env ip = ne_IPFamilyOf env ip"

definition OtherIPFamily :: "string \<Rightarrow> string" where
  "OtherIPFamily ipFamily = (if ipFamily = IPv6Protocol then IPv4Protocol else IPv6Protocol)"

definition append_at :: "'k \<Rightarrow> 'v \<Rightarrow> ('k, 'v list) gomap \<Rightarrow> ('k, 'v list) gomap" where
  "append_at k v m = AList.update k (get_or [] m k @ [v]) m"

definition MapIPsByIPFamily :: "net_env \<Rightarrow> string list \<Rightarrow> (string, IP list) gomap" where
  "MapIPsByIPFamily env ipStrings =
     fold (\<lambda>ipStr m. case ne_ParseIPSloppy env ipStr of
             None \<Rightarrow> m
           | Some ip \<Rightarrow> append_at (GetIPFamilyFromIP env (Some ip)) (Some ip) m) ipStrings []"

text \<open>\<open>strings.TrimSpace\<close> on ASCII white space, the only kind an address text can have.\<close>

definition is_space :: "char \<Rightarrow> bool" where
  "is_space c \<longleftrightarrow> of_char c \<in> {9, 10, 11, 12, 13, 32 :: nat}"

definition TrimSpace :: "string \<Rightarrow> string" where
  "TrimSpace s = rev (dropWhile is_space (rev (dropWhile is_space s)))"

definition MapCIDRsByIPFamily :: "net_env \<Rightarrow> string list \<Rightarrow> (string, string list) gomap" where
  "MapCIDRsByIPFamily env cidrsStrings =
     fold (\<lambda>untrimmed m. case ne_ParseCIDR env (TrimSpace untrimmed) of
             Inl _ \<Rightarrow> m
           | Inr (cidr, ipFamily) \<Rightarrow> append_at ipFamily cidr m) cidrsStrings []"

lemma get_append_at [simp]:
  "get_or [] (append_at k v m) k' = (if k' = k then get_or [] m k @ [v] else get_or [] m k')"
  by (simp add: append_at_def)

text \<open>Reading one family out of the map gives the addresses of that family in the order given.\<close>

lemma get_or_fold_append:
  "get_or [] (fold (\<lambda>x m. case f x of None \<Rightarrow> m | Some (k, v) \<Rightarrow> append_at k v m) xs m) k =
     get_or [] m k @ map snd (filter (\<lambda>(k', _). k' = k) (List.map_filter f xs))"
  by (induction xs arbitrary: m) (auto simp: List.map_filter_simps split: option.split)

lemma MapIPsByIPFamily_get:
  "get_or [] (MapIPsByIPFamily env ips) fam =
     filter (\<lambda>ip. ip \<noteq> None \<and> GetIPFamilyFromIP env ip = fam) (map (ne_ParseIPSloppy env) ips)"
proof -
  have "MapIPsByIPFamily env ips = fold (\<lambda>x m. case map_option (\<lambda>ip. (GetIPFamilyFromIP env (Some ip), Some ip))
      (ne_ParseIPSloppy env x) of None \<Rightarrow> m | Some (k, v) \<Rightarrow> append_at k v m) ips []"
    unfolding MapIPsByIPFamily_def by (intro arg_cong [where f = "\<lambda>f. fold f ips []"]) (auto simp: fun_eq_iff split: option.split)
  then have "get_or [] (MapIPsByIPFamily env ips) fam = map snd (filter (\<lambda>(k', _). k' = fam)
      (List.map_filter (\<lambda>x. map_option (\<lambda>ip. (GetIPFamilyFromIP env (Some ip), Some ip)) (ne_ParseIPSloppy env x)) ips))"
    by (simp only: get_or_fold_append) (simp add: get_or_def)
  also have "\<dots> = filter (\<lambda>ip. ip \<noteq> None \<and> GetIPFamilyFromIP env ip = fam) (map (ne_ParseIPSloppy env) ips)"
    by (induction ips) (auto simp: List.map_filter_simps split: option.split)
  finally show ?thesis .
qed

end
