(* ===== verification/Service_Ports.thy ===== *)
theory Service_Ports
  imports Proxy_Types
begin

text \<open>
  Service ports, \<open>wao-loadbalancer/pkg/proxy/serviceport.go\<close>, with the helpers of \<open>util/utils.go\<close>
  they call. The traffic policies of a service are decided by \<open>k8s.io/kubernetes/pkg/api/v1/service\<close>
  and are parameters. \<open>newBaseServiceInfo\<close> reads the affinity timeout through a pointer that the API
  server sets for client IP affinity; without it the code panics.
\<close>

record v1_ServicePort =
  vsp_Name :: string
  vsp_Protocol :: string
  vsp_Port :: int
  vsp_NodePort :: int

record LoadBalancerIngress =
  lbi_IP :: string
  lbi_IPMode :: "string option"

record v1_Service =
  vs_Namespace :: string
  vs_Name :: string
  vs_Annotations :: "(string, string) gomap"
  vs_ClusterIP :: string
  vs_ClusterIPs :: "string list"
  vs_IPFamilies :: "string list"
  vs_Type :: string
  vs_SessionAffinity :: string
  vs_TimeoutSeconds :: "int option"
  vs_Ports :: "v1_ServicePort list"
  vs_ExternalIPs :: "string list"
  vs_LoadBalancerSourceRanges :: "string list"
  vs_Ingress :: "LoadBalancerIngress list"
  vs_HealthCheckNodePort :: int

record svc_env = net_env +
  sv_IsServiceIPSet :: "v1_Service \<Rightarrow> bool"
  sv_ExternalPolicyLocal :: "v1_Service \<Rightarrow> bool"
  sv_InternalPolicyLocal :: "v1_Service \<Rightarrow> bool"
  sv_NeedsHealthCheck :: "v1_Service \<Rightarrow> bool"

section \<open>Helpers\<close>

definition ClusterIPNone :: string where
  "ClusterIPNone = ''None''"

definition ServiceTypeExternalName :: string where
  "ServiceTypeExternalName = ''ExternalName''"

definition ServiceAffinityClientIP :: string where
  "ServiceAffinityClientIP = ''ClientIP''"

definition DeprecatedAnnotationTopologyAwareHints :: string where
  "DeprecatedAnnotationTopologyAwareHints = ''service.kubernetes.io/topology-aware-hints''"

definition AnnotationTopologyMode :: string where
  "AnnotationTopologyMode = ''service.kubernetes.io/topology-mode''"

definition ShouldSkipService :: "svc_env \<Rightarrow> v1_Service \<Rightarrow> bool" where
  "ShouldSkipService env service =
     (if \<not> sv_IsServiceIPSet env service then True
      else if vs_Type service = ServiceTypeExternalName then True
      else False)"

fun clusterIP_at :: "string \<Rightarrow> string list \<Rightarrow> string list \<Rightarrow> string" where
  "clusterIP_at ipFamily [] ips = []"
| "clusterIP_at ipFamily (family # families) ips =
     (if family = ipFamily \<and> ips \<noteq> [] then hd ips else clusterIP_at ipFamily families (tl ips))"

definition GetClusterIPByFamily :: "svc_env \<Rightarrow> string \<Rightarrow> v1_Service \<Rightarrow> string" where
  "GetClusterIPByFamily env ipFamily service =
     (if vs_IPFamilies service = [] then
        (if vs_ClusterIP service = [] \<or> vs_ClusterIP service = ClusterIPNone then []
         else if (ipFamily = IPv6Protocol) = ne_IsIPv6String env (vs_ClusterIP service) then vs_ClusterIP service
         else [])
      else clusterIP_at ipFamily (vs_IPFamilies service) (vs_ClusterIPs service))"

definition IsVIPMode :: "svc_env \<Rightarrow> LoadBalancerIngress \<Rightarrow> bool" where
  "IsVIPMode env ing =
     (if \<not> ne_LoadBalancerIPMode env then True
      else case lbi_IPMode ing of None \<Rightarrow> True | Some mode \<Rightarrow> mode = ''VIP'')"

section \<open>The port of a service\<close>

record BaseServicePortInfo =
  bsp_clusterIP :: IP
  bsp_port :: int
  bsp_protocol :: string
  bsp_nodePort :: int
  bsp_loadBalancerVIPs :: "IP list"
  bsp_sessionAffinityType :: string
  bsp_stickyMaxAgeSeconds :: int
  bsp_externalIPs :: "IP list"
  bsp_loadBalancerSourceRanges :: "string list"
  bsp_healthCheckNodePort :: int
  bsp_externalPolicyLocal :: bool
  bsp_internalPolicyLocal :: bool
  bsp_hintsAnnotation :: string

record servicePortInfo =
  spi_BaseServicePortInfo :: BaseServicePortInfo
  spi_nameString :: string
  spi_clusterPolicyChainName :: string
  spi_localPolicyChainName :: string
  spi_externalChainName :: string
  spi_firewallChainName :: string

datatype ServicePort = BaseServicePort BaseServicePortInfo | NftServicePort servicePortInfo

fun ServicePort_base :: "ServicePort \<Rightarrow> BaseServicePortInfo" where
  "ServicePort_base (BaseServicePort b) = b"
| "ServicePort_base (NftServicePort s) = spi_BaseServicePortInfo s"

definition BaseServicePortInfo_String :: "BaseServicePortInfo \<Rightarrow> string" where
  "BaseServicePortInfo_String b =
     IP_String (bsp_clusterIP b) @ '':'' @ Itoa (bsp_port b) @ ''/'' @ bsp_protocol b"

definition ExternallyAccessible :: "BaseServicePortInfo \<Rightarrow> bool" where
  "ExternallyAccessible b \<longleftrightarrow>
     bsp_nodePort b \<noteq> 0 \<or> length (bsp_loadBalancerVIPs b) \<noteq> 0 \<or> length (bsp_externalIPs b) \<noteq> 0"

definition UsesClusterEndpoints :: "BaseServicePortInfo \<Rightarrow> bool" where
  "UsesClusterEndpoints b \<longleftrightarrow> \<not> bsp_internalPolicyLocal b \<or> ExternallyAccessible b"

definition UsesLocalEndpoints :: "BaseServicePortInfo \<Rightarrow> bool" where
  "UsesLocalEndpoints b \<longleftrightarrow>
     bsp_internalPolicyLocal b \<or> (bsp_externalPolicyLocal b \<and> ExternallyAccessible b)"

definition ingressVIPs :: "svc_env \<Rightarrow> string \<Rightarrow> LoadBalancerIngress list \<Rightarrow> IP list" where
  "ingressVIPs env ipFamily ings =
     fold (\<lambda>ing vips.
       if lbi_IP ing = [] then vips
       else if \<not> IsVIPMode env ing then vips
       else (let ip = ne_ParseIPSloppy env (lbi_IP ing)
             in if GetIPFamilyFromIP (net_env.truncate env) ip = ipFamily then vips @ [ip] else vips)) ings []"

definition newBaseServiceInfo ::
  "svc_env \<Rightarrow> v1_Service \<Rightarrow> string \<Rightarrow> v1_ServicePort \<Rightarrow> BaseServicePortInfo result" where
  "newBaseServiceInfo env service ipFamily port =
     (case (if vs_SessionAffinity service = ServiceAffinityClientIP
            then (case vs_TimeoutSeconds service of None \<Rightarrow> Inl (Panic ''TimeoutSeconds'') | Some t \<Rightarrow> Inr t)
            else Inr 0) of
        Inl e \<Rightarrow> Inl e
      | Inr stickyMaxAgeSeconds \<Rightarrow>
          Inr \<lparr>bsp_clusterIP = ne_ParseIPSloppy env (GetClusterIPByFamily env ipFamily service),
               bsp_port = vsp_Port port,
               bsp_protocol = vsp_Protocol port,
               bsp_nodePort = vsp_NodePort port,
               bsp_loadBalancerVIPs = ingressVIPs env ipFamily (vs_Ingress service),
               bsp_sessionAffinityType = vs_SessionAffinity service,
               bsp_stickyMaxAgeSeconds = stickyMaxAgeSeconds,
               bsp_externalIPs = get_or [] (MapIPsByIPFamily (net_env.truncate env) (vs_ExternalIPs service)) ipFamily,
               bsp_loadBalancerSourceRanges =
                 get_or [] (MapCIDRsByIPFamily (net_env.truncate env) (vs_LoadBalancerSourceRanges service)) ipFamily,
               bsp_healthCheckNodePort = (if sv_NeedsHealthCheck env service then vs_HealthCheckNodePort service else 0),
               bsp_externalPolicyLocal = sv_ExternalPolicyLocal env service,
               bsp_internalPolicyLocal = sv_InternalPolicyLocal env service,
               bsp_hintsAnnotation =
                 (case map_of (vs_Annotations service) DeprecatedAnnotationTopologyAwareHints of
                    Some v \<Rightarrow> v
                  | None \<Rightarrow> get_or [] (vs_Annotations service) AnnotationTopologyMode)\<rparr>)"

section \<open>Lemmas\<close>

lemma clusterIP_at_nth:
  "clusterIP_at fam fams ips =
     (case find (\<lambda>i. fams ! i = fam \<and> i < length ips) [0..<length fams] of None \<Rightarrow> [] | Some i \<Rightarrow> ips ! i)"
proof (induction fams arbitrary: ips)
  case (Cons f fams)
  have map_upt: "[0..<length (f # fams)] = 0 # map Suc [0..<length fams]"
    by (simp add: upt_conv_Cons map_Suc_upt del: upt_Suc)
  have find_map: "find P (map Suc xs) = map_option Suc (find (P \<circ> Suc) xs)" for P :: "nat \<Rightarrow> bool" and xs
    by (induction xs) auto
  have tail: "(\<lambda>i. (f # fams) ! i = fam \<and> i < length ips) \<circ> Suc = (\<lambda>i. fams ! i = fam \<and> i < length (tl ips))"
    by (auto simp: fun_eq_iff)
  have nth_tl': "ips ! Suc i = tl ips ! i" if "i < length (tl ips)" for i using that by (simp add: nth_tl)
  have found: "i < length (tl ips)" if "find (\<lambda>i. fams ! i = fam \<and> i < length (tl ips)) [0..<length fams] = Some i" for i
    using that unfolding find_Some_iff by auto
  show ?case
    unfolding map_upt using found nth_tl'
    by (simp add: Cons.IH find_map tail hd_conv_nth del: length_tl split: option.split)
qed simp

text \<open>A service port always has somewhere to send traffic by policy.\<close>

lemma uses_some_endpoints: "UsesClusterEndpoints b \<or> UsesLocalEndpoints b"
  by (auto simp: UsesClusterEndpoints_def UsesLocalEndpoints_def)

lemma newBaseServiceInfo_ok:
  assumes "vs_SessionAffinity service = ServiceAffinityClientIP \<Longrightarrow> vs_TimeoutSeconds service \<noteq> None"
  shows "\<exists>b. newBaseServiceInfo env service ipFamily port = Inr b"
  using assms by (auto simp: newBaseServiceInfo_def)

end
