(* ===== verification/WAO_Score.thy ===== *)
theory WAO_Score
  imports Predictors Proxy_Types
begin

text \<open>
  The scores of the load balancer, \<open>wao-loadbalancer/pkg/proxy/nftables/wao.go\<close>: options, the watts
  of a node (\<open>ScoreNode\<close>), the scores of a Service's endpoints (\<open>ScoreService\<close>, \<open>normalizeScores\<close>)
  and the table of all Services (\<open>Score\<close>). The Kubernetes client, the caching clients with their
  state \<open>'s\<close> and the parser of quantities are the fields of \<open>lb_env\<close>; a \<open>float64\<close> out of range
  converts to whatever \<open>oob\<close> says.
\<close>

section \<open>Options\<close>

definition CPUUsageFormatRaw :: string where "CPUUsageFormatRaw = ''Raw''"

definition CPUUsageFormatPercent :: string where "CPUUsageFormatPercent = ''Percent''"

definition AnnotationCPUPerRequest :: string where
  "AnnotationCPUPerRequest = ''waok8s.github.io/cpu-per-request''"

definition Parallelism :: int where "Parallelism = 64"

definition ScoreMax :: int where "ScoreMax = 100"

definition ScoreMin :: int where "ScoreMin = 0"

definition DefaultMetricsCacheTTL :: int where "DefaultMetricsCacheTTL = 30 * 10 ^ 9"

definition DefaultPredictorCacheTTL :: int where "DefaultPredictorCacheTTL = 30 * 60 * 10 ^ 9"

record WAOLBOptions =
  wo_IPFamily :: string
  wo_MetricsCacheTTL :: int
  wo_PredictorCacheTTL :: int
  wo_CPUUsageFormat :: string

definition DefaultingWAOLBOptions :: "WAOLBOptions \<Rightarrow> WAOLBOptions" where
  "DefaultingWAOLBOptions opts =
     (let opts = (if wo_MetricsCacheTTL opts = 0 then opts\<lparr>wo_MetricsCacheTTL := DefaultMetricsCacheTTL\<rparr> else opts);
          opts = (if wo_PredictorCacheTTL opts = 0 then opts\<lparr>wo_PredictorCacheTTL := DefaultPredictorCacheTTL\<rparr> else opts)
      in if wo_CPUUsageFormat opts = [] then opts\<lparr>wo_CPUUsageFormat := CPUUsageFormatPercent\<rparr> else opts)"

definition ValidatingWAOLBOptions :: "WAOLBOptions \<Rightarrow> unit result" where
  "ValidatingWAOLBOptions opts =
     (if wo_IPFamily opts = [] then Inl (Errorf ''IPFamily is required'')
      else if wo_MetricsCacheTTL opts \<le> 0 then Inl (Errorf ''MetricsCacheTTL must be positive'')
      else if wo_PredictorCacheTTL opts \<le> 0 then Inl (Errorf ''PredictorCacheTTL must be positive'')
      else if wo_CPUUsageFormat opts \<noteq> CPUUsageFormatRaw \<and> wo_CPUUsageFormat opts \<noteq> CPUUsageFormatPercent
      then Inl (Errorf ''CPUUsageFormat must be either Raw or Percent'')
      else Inr ())"

text \<open>
  The size of the work items; \<open>isqrt\<close> is the integer part of the root, which \<open>float64\<close> computes
  exactly for the lengths of lists.
\<close>

fun isqrt :: "nat \<Rightarrow> nat" where
  "isqrt n = (if n = 0 then 0 else
     (let r = 2 * isqrt (n div 4) in if (r + 1) * (r + 1) \<le> n then r + 1 else r))"

declare isqrt.simps [simp del]

definition betterChunkSize :: "int \<Rightarrow> int \<Rightarrow> int" where
  "betterChunkSize n parallelism =
     (let s = int (isqrt (nat n)); r = n div parallelism + 1
      in if s > r then r else if s < 1 then 1 else s)"

section \<open>The watts of a node\<close>

record EndpointSliceEndpoint =
  ese_NodeName :: "string option"
  ese_Addresses :: "string list"

record EndpointSlice =
  es_AddressType :: string
  es_Endpoints :: "EndpointSliceEndpoint list"

record Service =
  svc_Namespace :: string
  svc_Name :: string
  svc_Annotations :: "(string, string) gomap"

record 's lb_env =
  lb_GetNode :: "string \<Rightarrow> Node result"
  lb_GetService :: "NamespacedName \<Rightarrow> Service result"
  lb_ListEndpointSlices :: "string \<Rightarrow> string \<Rightarrow> EndpointSlice list result"
  lb_ListNodeConfigs :: "NodeConfig list result"
  lb_ParseQuantity :: "string \<Rightarrow> f64 result"
  lb_GetNodeMetrics :: "string \<Rightarrow> ('s, f64 option) call"
  lb_GetCustomMetric :: "string \<Rightarrow> string \<Rightarrow> ('s, f64 option) call"
  lb_GetPredictorEndpoint :: "string \<Rightarrow> EndpointTerm \<Rightarrow> string \<Rightarrow> ('s, EndpointTerm option) call"
  lb_Predict :: "string \<Rightarrow> EndpointTerm \<Rightarrow> f64 \<Rightarrow> f64 \<Rightarrow> f64 \<Rightarrow> ('s, f64) call"

definition PodCPURequestOrLimit :: "Pod \<Rightarrow> f64" where
  "PodCPURequestOrLimit pod =
     fold (\<lambda>c v. f64_add v (if f64_eq (c_RequestsCpu c) (Fin 0) then c_LimitsCpu c else c_RequestsCpu c))
       (pod_Containers pod) (Fin 0)"

text \<open>A pod with one container that asks for the CPU of one request.\<close>

definition virtualPod :: "f64 \<Rightarrow> Pod" where
  "virtualPod cpuUsage = \<lparr>pod_Name = [], pod_Namespace = [], pod_Annotations = [], pod_OwnerReferences = [],
     pod_NodeName = [], pod_Phase = [], pod_Containers = [\<lparr>c_RequestsCpu = cpuUsage, c_LimitsCpu = Fin 0\<rparr>],
     pod_Conditions = [], pod_Tolerations = []\<rparr>"

definition formatUsage :: "string \<Rightarrow> f64 \<Rightarrow> f64 \<Rightarrow> f64" where
  "formatUsage format cpuCapacity usage =
     (if format = CPUUsageFormatPercent then f64_mul (f64_div usage cpuCapacity) (Fin 100) else usage)"

definition powerConsumption :: "(f64 \<Rightarrow> int) \<Rightarrow> f64 \<Rightarrow> f64 \<Rightarrow> int" where
  "powerConsumption oob beforeWatt afterWatt =
     (let w = f64_to_int oob (f64_sub afterWatt beforeWatt) in if w < 0 then 0 else w)"

definition deref :: "string \<Rightarrow> 'a option \<Rightarrow> ('a \<Rightarrow> ('s, 'b) call) \<Rightarrow> ('s, 'b) call" where
  "deref what p k = (case p of None \<Rightarrow> fail (Panic what) | Some x \<Rightarrow> k x)"

definition predictNode ::
  "'s lb_env \<Rightarrow> (f64 \<Rightarrow> int) \<Rightarrow> NodeConfig \<Rightarrow> f64 \<Rightarrow> f64 \<Rightarrow> f64 \<Rightarrow> f64 \<Rightarrow> ('s, int) call" where
  "predictNode env oob nc beforeUsage afterUsage inletTemp deltaP =
     (let pr = ncs_Predictor (nc_Spec nc);
          ep = (case pr_PowerConsumption pr of Some ep \<Rightarrow> ep | None \<Rightarrow> emptyEndpointTerm);
          predict = (\<lambda>ep.
            then_do (lb_Predict env (nc_Namespace nc) ep beforeUsage inletTemp deltaP) (\<lambda>beforeWatt.
            then_do (lb_Predict env (nc_Namespace nc) ep afterUsage inletTemp deltaP) (\<lambda>afterWatt.
            ret (powerConsumption oob beforeWatt afterWatt))))
      in case pr_PowerConsumptionEndpointProvider pr of
           None \<Rightarrow> predict ep
         | Some provider \<Rightarrow>
             then_do (lb_GetPredictorEndpoint env (nc_Namespace nc) provider TypePowerConsumption) (\<lambda>ep2.
               case ep2 of
                 None \<Rightarrow> ret 0
               | Some ep2 \<Rightarrow> predict (ep\<lparr>et_Type := et_Type ep2, et_Endpoint := et_Endpoint ep2\<rparr>)))"

text \<open>The early returns of the value 0 come without an error.\<close>

definition ScoreNode ::
  "'s lb_env \<Rightarrow> (f64 \<Rightarrow> int) \<Rightarrow> WAOLBOptions \<Rightarrow> string \<Rightarrow> f64 \<Rightarrow> ('s, int) call" where
  "ScoreNode env oob opts nodeName cpuUsage =
     (case lb_GetNode env nodeName of Inl e \<Rightarrow> fail e | Inr node \<Rightarrow>
       then_do (lb_GetNodeMetrics env (node_Name node)) (\<lambda>nodeMetrics.
       deref ''nodeMetrics'' nodeMetrics (\<lambda>usage.
         let beforeUsage = f64_add usage (Fin 0);
             afterUsage = f64_add beforeUsage (PodCPURequestOrLimit (virtualPod cpuUsage));
             cpuCapacity = node_CapacityCpu node
         in if f64_eq beforeUsage afterUsage then ret 0
            else
              then_do (lb_GetCustomMetric env nodeName ValueInletTemperature) (\<lambda>inletTemp.
              then_do (lb_GetCustomMetric env nodeName ValueDeltaPressure) (\<lambda>deltaP.
              case (inletTemp, deltaP) of
                (Some inletTemp, Some deltaP) \<Rightarrow>
                  (case lb_ListNodeConfigs env of Inl e \<Rightarrow> fail e | Inr ncs \<Rightarrow>
                    (case find (\<lambda>e. ncs_NodeName (nc_Spec e) = nodeName) ncs of
                       None \<Rightarrow> ret 0
                     | Some nc \<Rightarrow>
                         predictNode env oob nc
                           (formatUsage (wo_CPUUsageFormat opts) cpuCapacity beforeUsage)
                           (formatUsage (wo_CPUUsageFormat opts) cpuCapacity afterUsage)
                           inletTemp deltaP))
              | _ \<Rightarrow> ret 0)))))"

section \<open>Scores\<close>

definition scoreOf :: "(f64 \<Rightarrow> int) \<Rightarrow> int \<Rightarrow> int \<Rightarrow> int" where
  "scoreOf oob minWatt watt =
     (let score = f64_to_int oob (f64_Round (f64_mul (f64_of_int ScoreMax) (f64_div (f64_of_int minWatt) (f64_of_int watt))))
      in max ScoreMin (min ScoreMax score))"

definition normalizeScores :: "(f64 \<Rightarrow> int) \<Rightarrow> (string, int) gomap \<Rightarrow> (string, int) gomap" where
  "normalizeScores oob watts =
     (let watts2 = [(ip, i64_add watt 1). (ip, watt) \<leftarrow> watts, \<not> watt < 0];
          minWatt = min_loop MaxInt64 (map snd watts2)
      in map (\<lambda>(ip, watt). (ip, scoreOf oob minWatt watt)) watts2)"

text \<open>An endpoint whose node cannot be scored is left out; a panic ends the process.\<close>

fun endpointWatts ::
  "'s lb_env \<Rightarrow> (f64 \<Rightarrow> int) \<Rightarrow> WAOLBOptions \<Rightarrow> f64 \<Rightarrow> EndpointSliceEndpoint list \<Rightarrow> (string, int) gomap \<Rightarrow> ('s, (string, int) gomap) call" where
  "endpointWatts env oob opts cpuPerRequest [] watts s = (Inr watts, s)"
| "endpointWatts env oob opts cpuPerRequest (ep # eps) watts s =
     (case ScoreNode env oob opts (case ese_NodeName ep of None \<Rightarrow> [] | Some n \<Rightarrow> n) cpuPerRequest s of
        (Inl e, s') \<Rightarrow> if is_panic e then (Inl e, s') else endpointWatts env oob opts cpuPerRequest eps watts s'
      | (Inr watt, s') \<Rightarrow> endpointWatts env oob opts cpuPerRequest eps
           (fold (\<lambda>addr m. AList.update addr watt m) (ese_Addresses ep) watts) s')"

definition defaultCPUPerRequest :: f64 where
  "defaultCPUPerRequest = f64_round (1 / 10)"

definition ScoreService ::
  "'s lb_env \<Rightarrow> (f64 \<Rightarrow> int) \<Rightarrow> WAOLBOptions \<Rightarrow> NamespacedName \<Rightarrow> ('s, (string, int) gomap) call" where
  "ScoreService env oob opts svcName =
     (case lb_GetService env svcName of Inl e \<Rightarrow> fail e | Inr svc \<Rightarrow>
      (let cpuPerRequest = (case lb_ParseQuantity env (get_or [] (svc_Annotations svc) AnnotationCPUPerRequest) of
             Inl _ \<Rightarrow> defaultCPUPerRequest | Inr q \<Rightarrow> q)
       in case lb_ListEndpointSlices env (svc_Namespace svc) (svc_Name svc) of Inl e \<Rightarrow> fail e | Inr ess \<Rightarrow>
          (case find (\<lambda>e. es_AddressType e = wo_IPFamily opts) ess of
             None \<Rightarrow> fail (Errorf ''EndpointSlice not found'')
           | Some es \<Rightarrow> then_do (endpointWatts env oob opts cpuPerRequest (es_Endpoints es) [])
               (\<lambda>watts. ret (normalizeScores oob watts)))))"

definition decodeSvcPortNameString :: "string \<Rightarrow> string \<times> string \<times> string" where
  "decodeSvcPortNameString s =
     (let v = split_on CHR ''/'' s in
      if length v \<noteq> 2 then ([], [], [])
      else (let vv = split_on CHR '':'' (v ! 1)
            in (v ! 0, vv ! 0, if length vv = 2 then vv ! 1 else [])))"

text \<open>
  The table is emptied and filled again. The work items run in parallel on up to \<open>Parallelism\<close> workers;
  \<open>order\<close> is the order in which they come to their results, and \<open>clash svcPortName\<close> tells that another worker is
  writing the table when this item does. The table is a plain Go map, and the runtime ends the process with the fatal error
  \<open>concurrent map writes\<close> then; a fatal error is a \<open>Panic\<close> of the model.
\<close>

type_synonym Scores = "(string, (string, int) gomap) gomap"

definition concurrentMapWrites :: goerr where
  "concurrentMapWrites = Panic ''concurrent map writes''"

fun scorePieces ::
  "'s lb_env \<Rightarrow> (f64 \<Rightarrow> int) \<Rightarrow> WAOLBOptions \<Rightarrow> (string \<Rightarrow> bool) \<Rightarrow> string list \<Rightarrow> (Scores \<times> 's, unit) call" where
  "scorePieces env oob opts clash [] st = (Inr (), st)"
| "scorePieces env oob opts clash (svcPortName # order) (scores, s) =
     (let (svcNS, svcName, _) = decodeSvcPortNameString svcPortName
      in case ScoreService env oob opts \<lparr>nn_Namespace = svcNS, nn_Name = svcName\<rparr> s of
           (Inl e, s') \<Rightarrow> if is_panic e then (Inl e, (scores, s')) else scorePieces env oob opts clash order (scores, s')
         | (Inr sc, s') \<Rightarrow>
             if sc = [] then scorePieces env oob opts clash order (scores, s')
             else if clash svcPortName then (Inl concurrentMapWrites, (scores, s'))
             else scorePieces env oob opts clash order (AList.update svcPortName sc scores, s'))"

definition Score ::
  "'s lb_env \<Rightarrow> (f64 \<Rightarrow> int) \<Rightarrow> WAOLBOptions \<Rightarrow> (string \<Rightarrow> bool) \<Rightarrow> string list \<Rightarrow> (Scores \<times> 's, unit) call" where
  "Score env oob opts clash order st = scorePieces env oob opts clash order ([], snd st)"

section \<open>Lemmas on scores\<close>

definition clampScore :: "int \<Rightarrow> int" where
  "clampScore score = max ScoreMin (min ScoreMax score)"

lemma scoreOf_code [code]:
  "scoreOf oob minWatt watt = clampScore (f64_to_int oob (f64_Round (f64_mul (f64_of_int ScoreMax) (f64_div (f64_of_int minWatt) (f64_of_int watt)))))"
  by (simp add: scoreOf_def clampScore_def Let_def)

lemma round64_pos_int: "1 \<le> n \<Longrightarrow> 1 \<le> round64 (of_int n)"
  using r64.rnd_ge_int [of 1 "of_int n"] by simp

lemma f64_of_int_fin: "\<bar>n\<bar> \<le> 2 ^ 64 \<Longrightarrow> f64_of_int n = Fin (round64 (of_int n))"
proof -
  assume "\<bar>n\<bar> \<le> 2 ^ 64"
  then have "rat_of_int \<bar>n\<bar> \<le> rat_of_int (2 ^ 64)" by (simp only: of_int_le_iff)
  then have "\<bar>rat_of_int n\<bar> \<le> 2 ^ 64" by simp
  also have "\<dots> \<le> 2 ^ 999" by simp
  finally show ?thesis by (simp add: f64_of_int_def f64_round_fin)
qed

definition ratio :: "int \<Rightarrow> int \<Rightarrow> rat" where
  "ratio m w = round64 (100 * round64 (round64 (of_int m) / round64 (of_int w)))"

lemma ratio_range:
  assumes "1 \<le> m" "m \<le> w"
  shows "0 \<le> round64 (of_int m) / round64 (of_int w)" "round64 (of_int m) / round64 (of_int w) \<le> 1"
    "0 \<le> ratio m w" "ratio m w \<le> 100"
proof -
  let ?q = "round64 (of_int m) / round64 (of_int w)"
  have p: "1 \<le> round64 (of_int m)" "1 \<le> round64 (of_int w)" using assms by (simp_all add: round64_pos_int)
  have "round64 (of_int m) \<le> round64 (of_int w)" using assms(2) by (intro r64.rnd_mono) simp
  with p show q: "0 \<le> ?q" "?q \<le> 1" by (simp_all add: divide_le_eq)
  have "0 \<le> round64 ?q" "round64 ?q \<le> 1" using q r64.rnd_nonneg r64.rnd_le_int [of ?q 1] by simp_all
  then show "0 \<le> ratio m w" "ratio m w \<le> 100"
    using r64.rnd_nonneg r64.rnd_le_int [of "100 * round64 ?q" 100] by (simp_all add: ratio_def)
qed

lemma round_away_range: "0 \<le> x \<Longrightarrow> x \<le> 100 \<Longrightarrow> 0 \<le> round_away x \<and> round_away x \<le> 100"
  by (simp add: round_away_def)

lemma round_away_mono: "0 \<le> x \<Longrightarrow> x \<le> y \<Longrightarrow> round_away x \<le> round_away y"
  by (simp add: round_away_def floor_mono)

lemma scoreOf_eq:
  assumes "1 \<le> m" "m \<le> w" "w \<le> MaxInt64"
  shows "scoreOf oob m w = round_away (ratio m w)"
proof -
  let ?q = "round64 (of_int m) / round64 (of_int w)"
  have b: "\<bar>m\<bar> \<le> 2 ^ 64" "\<bar>w\<bar> \<le> 2 ^ 64" using assms by (simp_all add: MaxInt64_def)
  have w: "round64 (of_int w) \<noteq> 0" using round64_pos_int [of w] assms by simp
  note r = ratio_range [OF assms(1,2)]
  have "f64_div (f64_of_int m) (f64_of_int w) = Fin (round64 ?q)"
    using r(1,2) w by (simp add: f64_of_int_fin [OF b(1)] f64_of_int_fin [OF b(2)] f64_round_fin)
  moreover have "f64_of_int ScoreMax = Fin 100"
    using r64.rnd_int [of 100] by (simp add: f64_of_int_fin ScoreMax_def)
  moreover have "\<bar>100 * round64 ?q\<bar> \<le> 2 ^ 999"
  proof -
    have "0 \<le> round64 ?q" "round64 ?q \<le> 1" using r(1,2) r64.rnd_nonneg r64.rnd_le_int [of ?q 1] by simp_all
    then have "\<bar>100 * round64 ?q\<bar> \<le> 100" by simp
    then show ?thesis by (rule order_trans) simp
  qed
  ultimately have "f64_mul (f64_of_int ScoreMax) (f64_div (f64_of_int m) (f64_of_int w)) = Fin (ratio m w)"
    by (simp add: f64_round_fin ratio_def)
  moreover have "0 \<le> round_away (ratio m w)" "round_away (ratio m w) \<le> 100"
    using round_away_range r(3,4) by blast+
  ultimately show ?thesis
    by (simp add: scoreOf_def f64_to_int_def trunc_rat_def is_i64_def MaxInt64_def MinInt64_def ScoreMax_def ScoreMin_def)
qed

lemma ratio_antimono:
  assumes "1 \<le> m" "m \<le> w" "w \<le> w'"
  shows "ratio m w' \<le> ratio m w"
proof -
  have "round64 (of_int w) \<le> round64 (of_int w')" using assms by (intro r64.rnd_mono) simp
  then have "round64 (of_int m) / round64 (of_int w') \<le> round64 (of_int m) / round64 (of_int w)"
    using assms round64_pos_int [of m] round64_pos_int [of w] by (intro divide_left_mono) simp_all
  then have "round64 (round64 (of_int m) / round64 (of_int w')) \<le> round64 (round64 (of_int m) / round64 (of_int w))"
    by (rule r64.rnd_mono)
  then show ?thesis unfolding ratio_def by (intro r64.rnd_mono) simp
qed

lemma ratio_self: "1 \<le> m \<Longrightarrow> ratio m m = 100"
  using round64_pos_int [of m] r64.rnd_int [of 1] r64.rnd_int [of 100] by (simp add: ratio_def)

lemma ratio_share:
  assumes "1 \<le> m" "m \<le> w" "w \<le> 128 * m" "w < 2 ^ 53"
  shows "1 \<le> round_away (ratio m w)"
proof -
  have "round64 (of_int m) = of_int m" "round64 (of_int w) = of_int w"
    using assms r64.rnd_int [of m] r64.rnd_int [of w] by simp_all
  moreover have "rat_of_int w \<le> rat_of_int (128 * m)" using assms(3) by (simp only: of_int_le_iff)
  ultimately have "1 / 128 \<le> round64 (of_int m) / round64 (of_int w)" using assms(1,2) by (simp add: divide_simps)
  then have "round64 (1 / 128) \<le> round64 (round64 (of_int m) / round64 (of_int w))" by (rule r64.rnd_mono)
  moreover have "round64 (1 / 128) = 1 / 128" by code_simp
  ultimately have "round64 (100 / 128) \<le> ratio m w" unfolding ratio_def by (intro r64.rnd_mono) simp
  moreover have "round64 (100 / 128) = 100 / 128" by code_simp
  ultimately have "round_away (100 / 128) \<le> round_away (ratio m w)" by (intro round_away_mono) simp_all
  moreover have "round_away (100 / 128) = 1" by code_simp
  ultimately show ?thesis by simp
qed

lemma map_of_kept:
  "wf_map xs \<Longrightarrow> map_of [(k, f v). (k, v) \<leftarrow> xs, P v] k =
     (case map_of xs k of None \<Rightarrow> None | Some v \<Rightarrow> if P v then Some (f v) else None)"
proof (induction xs)
  case (Cons x xs)
  obtain k' v where x: "x = (k', v)" by fastforce
  have "map_of [(k, f v). (k, v) \<leftarrow> xs, P v] k' = None" using Cons by (force simp: x map_of_eq_None_iff)
  with Cons show ?case by (auto simp: x)
qed simp

definition shifted :: "(string, int) gomap \<Rightarrow> (string, int) gomap" where
  "shifted watts = [(ip, i64_add watt 1). (ip, watt) \<leftarrow> watts, \<not> watt < 0]"

lemma i64_add_1: "0 \<le> w \<Longrightarrow> w < MaxInt64 \<Longrightarrow> i64_add w 1 = w + 1"
  by (simp add: i64_add_def wrap64_id is_i64_def MinInt64_def)

lemma shifted_mem:
  assumes "\<forall>(ip, w)\<in>set watts. w < MaxInt64"
  shows "(ip, v) \<in> set (shifted watts) \<longleftrightarrow> (\<exists>w. (ip, w) \<in> set watts \<and> 0 \<le> w \<and> v = w + 1)"
proof -
  have "(ip, v) \<in> set (shifted watts) \<longleftrightarrow> (\<exists>w. (ip, w) \<in> set watts \<and> 0 \<le> w \<and> v = i64_add w 1)"
    unfolding shifted_def by (induction watts) (auto split: if_splits)
  also have "\<dots> \<longleftrightarrow> (\<exists>w. (ip, w) \<in> set watts \<and> 0 \<le> w \<and> v = w + 1)"
    using assms i64_add_1 by fastforce
  finally show ?thesis .
qed

lemma normalizeScores_keys: "map fst (normalizeScores oob watts) = map fst (filter (\<lambda>(ip, w). \<not> w < 0) watts)"
  by (induction watts) (auto simp: normalizeScores_def Let_def comp_def case_prod_beta')

lemma map_of_normalizeScores:
  assumes "wf_map watts" "\<forall>(ip, w)\<in>set watts. w < MaxInt64"
  shows "map_of (normalizeScores oob watts) ip = (case map_of watts ip of None \<Rightarrow> None | Some w \<Rightarrow>
    if \<not> w < 0 then Some (scoreOf oob (min_loop MaxInt64 (map snd (shifted watts))) (w + 1)) else None)"
proof -
  have "map_of (normalizeScores oob watts) ip =
      map_option (scoreOf oob (min_loop MaxInt64 (map snd (shifted watts)))) (map_of (shifted watts) ip)"
    by (simp add: normalizeScores_def shifted_def Let_def map_of_map)
  also have "map_of (shifted watts) ip = (case map_of watts ip of None \<Rightarrow> None | Some w \<Rightarrow> if \<not> w < 0 then Some (i64_add w 1) else None)"
    unfolding shifted_def by (rule map_of_kept) (rule assms(1))
  finally show ?thesis
    using assms(2) by (auto simp: i64_add_1 split: option.split dest!: map_of_SomeD)
qed

lemma min_shifted:
  assumes "\<forall>(ip, w)\<in>set watts. w < MaxInt64" "(a, w) \<in> set watts" "0 \<le> w"
  shows "1 \<le> min_loop MaxInt64 (map snd (shifted watts))" "min_loop MaxInt64 (map snd (shifted watts)) \<le> w + 1"
proof -
  let ?E = "map snd (shifted watts)"
  have mem: "(a, w + 1) \<in> set (shifted watts)" using assms by (simp add: shifted_mem)
  then have ne: "?E \<noteq> []" and in': "w + 1 \<in> set ?E" by force+
  have all: "\<forall>v\<in>set ?E. 1 \<le> v \<and> v \<le> MaxInt64" using shifted_mem [OF assms(1)] assms(1) by fastforce
  then have "min_loop MaxInt64 ?E \<in> set ?E" using ne by (intro min_loop_in) auto
  with all show "1 \<le> min_loop MaxInt64 ?E" by blast
  show "min_loop MaxInt64 ?E \<le> w + 1" using in' by (rule min_loop_le)
qed

lemma normalizeScores_ratio:
  assumes "\<forall>(ip, w)\<in>set watts. w < MaxInt64"
  shows "normalizeScores oob watts =
    map (\<lambda>(ip, w). (ip, round_away (ratio (min_loop MaxInt64 (map snd (shifted watts))) w))) (shifted watts)"
proof -
  let ?m = "min_loop MaxInt64 (map snd (shifted watts))"
  have "scoreOf oob ?m v = round_away (ratio ?m v)" if "(ip, v) \<in> set (shifted watts)" for ip v
  proof -
    from that obtain w where w: "(ip, w) \<in> set watts" "0 \<le> w" "v = w + 1" using shifted_mem [OF assms] by blast
    then have "w < MaxInt64" using assms by auto
    with w min_shifted [OF assms w(1,2)] show ?thesis by (intro scoreOf_eq) simp_all
  qed
  then show ?thesis by (auto simp: normalizeScores_def shifted_def [symmetric] Let_def)
qed






text \<open>
  Fewer watts, more traffic: for watts below the largest integer, an address with the fewest watts
  gets 100, an address never gets a lower score than one that needs at least as many watts, and an
  address within 128 times the fewest watts (each increased by one, below \<open>2 ^ 53\<close>) gets a positive
  score.
\<close>

theorem normalizeScores_order:
  assumes "wf_map watts" "\<forall>(ip, w)\<in>set watts. w < MaxInt64"
    and "map_of watts a = Some w" "0 \<le> w" "map_of watts b = Some v" "w \<le> v"
  shows "\<exists>x y. map_of (normalizeScores oob watts) a = Some x \<and> map_of (normalizeScores oob watts) b = Some y \<and> y \<le> x \<and>
    ((\<forall>ip u. map_of watts ip = Some u \<and> 0 \<le> u \<longrightarrow> w \<le> u) \<longrightarrow>
       x = 100 \<and> (v + 1 \<le> 128 * (w + 1) \<and> v + 1 < 2 ^ 53 \<longrightarrow> 1 \<le> y))"
proof -
  let ?m = "min_loop MaxInt64 (map snd (shifted watts))"
  let ?x = "scoreOf oob ?m (w + 1)" and ?y = "scoreOf oob ?m (v + 1)"
  have mem: "(a, w) \<in> set watts" "(b, v) \<in> set watts" using assms(3,5) by (simp_all add: map_of_SomeD)
  have le: "w < MaxInt64" "v < MaxInt64" using mem assms(2) by auto
  note m = min_shifted [OF assms(2) mem(1) assms(4)]
  have xy: "map_of (normalizeScores oob watts) a = Some ?x" "map_of (normalizeScores oob watts) b = Some ?y"
    using assms(3-6) by (simp_all add: map_of_normalizeScores [OF assms(1,2)])
  have sc: "?x = round_away (ratio ?m (w + 1))" "?y = round_away (ratio ?m (v + 1))"
    using m le assms(6) by (simp_all add: scoreOf_eq)
  have "ratio ?m (v + 1) \<le> ratio ?m (w + 1)" using m assms(6) by (intro ratio_antimono) simp_all
  then have "?y \<le> ?x" unfolding sc using m assms(6) by (intro round_away_mono ratio_range) simp_all
  moreover have "?x = 100 \<and> (v + 1 \<le> 128 * (w + 1) \<and> v + 1 < 2 ^ 53 \<longrightarrow> 1 \<le> ?y)"
    if least: "\<forall>ip u. map_of watts ip = Some u \<and> 0 \<le> u \<longrightarrow> w \<le> u"
  proof -
    have "w + 1 \<le> ?m"
    proof -
      have "?m \<in> set (map snd (shifted watts))"
        using mem(1) assms(2,4) shifted_mem [OF assms(2)] by (intro min_loop_in) (fastforce, fastforce)
      then obtain ip u where "(ip, u) \<in> set watts" "0 \<le> u" "?m = u + 1" using shifted_mem [OF assms(2)] by auto
      with least assms(1) show ?thesis by simp
    qed
    with m have eq: "?m = w + 1" by simp
    have "round_away 100 = 100" by code_simp
    then have "round_away (ratio (w + 1) (w + 1)) = 100" using assms(4) by (simp add: ratio_self)
    then have "?x = 100" using sc(1) eq by simp
    moreover have "1 \<le> ?y" if "v + 1 \<le> 128 * (w + 1)" "v + 1 < 2 ^ 53"
      using that assms(4,6) sc(2) eq ratio_share [of "w + 1" "v + 1"] by simp
    ultimately show ?thesis by blast
  qed
  ultimately show ?thesis using xy by blast
qed

theorem normalizeScores_order_witness:
  "\<exists>x y. map_of (normalizeScores (\<lambda>_. 0) [(''a'', 4), (''b'', 19)]) ''a'' = Some x \<and>
     map_of (normalizeScores (\<lambda>_. 0) [(''a'', 4), (''b'', 19)]) ''b'' = Some y \<and> y \<le> x \<and> x = 100 \<and> 1 \<le> y"
  using normalizeScores_order [of "[(''a'', 4), (''b'', 19)]" "''a''" 4 "''b''" 19 "\<lambda>_. 0"]
  by (auto simp: MaxInt64_def split: if_splits)

text \<open>
  The share of an expensive node is rounded down to nothing: next to an endpoint with 0 watts, one
  with 200 watts gets the score 0, not a score above 0, and so no traffic at all.
\<close>

theorem normalizeScores_zero:
  "normalizeScores oob [(''10.0.0.1'', 0), (''10.0.0.2'', 200)] = [(''10.0.0.1'', 100), (''10.0.0.2'', 0)]"
  by (subst normalizeScores_ratio, code_simp, code_simp)

section \<open>Properties of the services' scores\<close>

lemma endpointWatts_result:
  assumes "endpointWatts env oob opts cpu eps watts s = (Inr watts', s')"
  shows "fst ` set watts' \<subseteq> fst ` set watts \<union> (\<Union>ep\<in>set eps. set (ese_Addresses ep)) \<and> (wf_map watts \<longrightarrow> wf_map watts')"
  using assms
proof (induction env oob opts cpu eps watts s arbitrary: watts' s' rule: endpointWatts.induct)
  case (2 env oob opts cpu ep eps watts s)
  have k: "fst ` set (fold (\<lambda>addr m. AList.update addr w m) addrs m) = fst ` set m \<union> set addrs" for w :: int and addrs m
    by (induction addrs arbitrary: m) (auto simp: keys_update)
  have wf: "wf_map m \<Longrightarrow> wf_map (fold (\<lambda>addr m. AList.update addr w m) addrs m)" for w :: int and addrs m
    by (induction addrs arbitrary: m) auto
  obtain r s1 where r: "ScoreNode env oob opts (case ese_NodeName ep of None \<Rightarrow> [] | Some n \<Rightarrow> n) cpu s = (r, s1)" by fastforce
  show ?case
  proof (cases r)
    case (Inl e)
    then have "\<not> is_panic e" using 2(3) r by (auto split: if_splits)
    with 2(1) [OF r [symmetric]] 2(3) Inl r show ?thesis by auto
  next
    case (Inr w)
    let ?w = "fold (\<lambda>addr m. AList.update addr w m) (ese_Addresses ep) watts"
    have "endpointWatts env oob opts cpu eps ?w s1 = (Inr watts', s')" using 2(3) r Inr by simp
    from 2(2) [OF r [symmetric] Inr this] show ?thesis unfolding k using wf [of watts w "ese_Addresses ep"] by auto
  qed
qed simp

text \<open>
  The scores of one Service: some address has one, all are from 0 to 100, and the addresses are those
  of endpoints in a slice of that Service with the wanted address family.
\<close>

definition service_scores :: "'s lb_env \<Rightarrow> WAOLBOptions \<Rightarrow> NamespacedName \<Rightarrow> (string, int) gomap \<Rightarrow> bool" where
  "service_scores env opts name sc \<longleftrightarrow> sc \<noteq> [] \<and> (\<forall>(ip, score)\<in>set sc. 0 \<le> score \<and> score \<le> 100) \<and>
     (\<exists>svc ess es. lb_GetService env name = Inr svc \<and>
       lb_ListEndpointSlices env (svc_Namespace svc) (svc_Name svc) = Inr ess \<and> es \<in> set ess \<and>
       es_AddressType es = wo_IPFamily opts \<and>
       fst ` set sc \<subseteq> (\<Union>ep\<in>set (es_Endpoints es). set (ese_Addresses ep)))"

lemma ScoreService_scores:
  assumes "ScoreService env oob opts name s = (Inr sc, s1)" "sc \<noteq> []"
  shows "service_scores env opts name sc"
proof -
  obtain svc ess es cpu watts where d: "lb_GetService env name = Inr svc"
      "lb_ListEndpointSlices env (svc_Namespace svc) (svc_Name svc) = Inr ess"
      "find (\<lambda>e. es_AddressType e = wo_IPFamily opts) ess = Some es"
      "endpointWatts env oob opts cpu (es_Endpoints es) [] s = (Inr watts, s1)" "sc = normalizeScores oob watts"
    using assms(1) by (auto simp: ScoreService_def Let_def then_do_def split: sum.splits option.splits prod.splits)
  have "fst ` set sc \<subseteq> fst ` set watts"
    using arg_cong [OF normalizeScores_keys [of oob watts], of set] unfolding d(5) by auto
  also have "\<dots> \<subseteq> (\<Union>ep\<in>set (es_Endpoints es). set (ese_Addresses ep))"
    using endpointWatts_result [OF d(4)] by simp
  finally have "fst ` set sc \<subseteq> (\<Union>ep\<in>set (es_Endpoints es). set (ese_Addresses ep))" .
  moreover have "\<forall>(ip, score)\<in>set sc. 0 \<le> score \<and> score \<le> 100"
    unfolding d(5) by (auto simp: normalizeScores_def scoreOf_def Let_def ScoreMin_def ScoreMax_def)
  moreover have "es \<in> set ess" "es_AddressType es = wo_IPFamily opts"
    using d(3) by (auto simp: find_Some_iff)
  ultimately show ?thesis using d(1,2) assms(2) unfolding service_scores_def by blast
qed

definition nameOf :: "string \<Rightarrow> NamespacedName" where
  "nameOf svcPortName = \<lparr>nn_Namespace = fst (decodeSvcPortNameString svcPortName),
     nn_Name = fst (snd (decodeSvcPortNameString svcPortName))\<rparr>"

lemma scorePieces_Cons:
  "scorePieces env oob opts clash (n # order) (scores, s) = (case ScoreService env oob opts (nameOf n) s of
     (Inl e, s') \<Rightarrow> if is_panic e then (Inl e, (scores, s')) else scorePieces env oob opts clash order (scores, s')
   | (Inr sc, s') \<Rightarrow> if sc \<noteq> [] \<and> clash n then (Inl concurrentMapWrites, (scores, s'))
       else scorePieces env oob opts clash order (if sc = [] then scores else AList.update n sc scores, s'))"
  by (simp add: nameOf_def Let_def case_prod_beta' split: sum.split)

lemma scorePieces_sound:
  assumes "scorePieces env oob opts clash order (scores0, s) = (Inr (), (scores, s'))" "map_of scores name = Some sc"
  shows "map_of scores0 name = Some sc \<or> name \<in> set order \<and> service_scores env opts (nameOf name) sc"
  using assms
proof (induction order arbitrary: scores0 s)
  case (Cons n order)
  obtain r s1 where r: "ScoreService env oob opts (nameOf n) s = (r, s1)" by fastforce
  show ?case
  proof (cases r)
    case (Inl e)
    then have "scorePieces env oob opts clash order (scores0, s1) = (Inr (), (scores, s'))"
      using Cons.prems(1) r by (auto simp only: scorePieces_Cons split: if_splits prod.splits sum.splits)
    from Cons.IH [OF this Cons.prems(2)] show ?thesis by auto
  next
    case (Inr x)
    then have "scorePieces env oob opts clash order (if x = [] then scores0 else AList.update n x scores0, s1) = (Inr (), (scores, s'))"
      using Cons.prems(1) r by (simp add: scorePieces_Cons del: scorePieces.simps split: if_splits)
    from Cons.IH [OF this Cons.prems(2)] ScoreService_scores [of env oob opts "nameOf n" s x s1] r Inr
    show ?thesis by (auto split: if_splits)
  qed
qed simp

text \<open>
  C26. The table of scores is sound: after \<open>Score\<close>, whatever the order in which the Services finish,
  every entry is for one of the Services asked for, is not empty, and gives scores from 0 to 100 to
  addresses of endpoints in a slice of that Service with the wanted address family.
\<close>

theorem Score_table_sound:
  assumes "Score env oob opts clash order st = (Inr (), (scores, s'))" "map_of scores svcPortName = Some sc"
  shows "svcPortName \<in> set order \<and> service_scores env opts (nameOf svcPortName) sc"
  using scorePieces_sound [OF assms(1) [unfolded Score_def] assms(2)] by simp

definition example_lb_config :: NodeConfig where
  "example_lb_config = \<lparr>nc_Name = ''nc'', nc_Namespace = ''ns'', nc_Deleting = False, nc_Owner = None,
     nc_Spec = \<lparr>ncs_NodeName = ''n1'',
       ncs_MetricsCollector = \<lparr>mc_InletTemp = emptyEndpointTerm, mc_DeltaP = emptyEndpointTerm\<rparr>,
       ncs_Predictor = \<lparr>pr_PowerConsumption = Some emptyEndpointTerm, pr_PowerConsumptionEndpointProvider = None\<rparr>\<rparr>\<rparr>"

text \<open>One Service with an endpoint on a node with a configuration and one on a node without.\<close>

definition example_lb_env :: "unit lb_env" where
  "example_lb_env = \<lparr>
     lb_GetNode = (\<lambda>n. Inr \<lparr>node_Name = n, node_Labels = [], node_Addresses = [], node_CapacityCpu = Fin 4\<rparr>),
     lb_GetService = (\<lambda>nn. Inr \<lparr>svc_Namespace = nn_Namespace nn, svc_Name = nn_Name nn, svc_Annotations = []\<rparr>),
     lb_ListEndpointSlices = (\<lambda>ns n. Inr [\<lparr>es_AddressType = ''IPv4'', es_Endpoints =
        [\<lparr>ese_NodeName = Some ''n1'', ese_Addresses = [''10.0.0.1'']\<rparr>, \<lparr>ese_NodeName = Some ''n2'', ese_Addresses = [''10.0.0.2'']\<rparr>]\<rparr>]),
     lb_ListNodeConfigs = Inr [example_lb_config],
     lb_ParseQuantity = (\<lambda>_. Inr (Fin 1)),
     lb_GetNodeMetrics = (\<lambda>n s. (Inr (Some (Fin 1)), s)),
     lb_GetCustomMetric = (\<lambda>n m s. (Inr (Some (Fin 20)), s)),
     lb_GetPredictorEndpoint = (\<lambda>ns et t s. (Inr (Some et), s)),
     lb_Predict = (\<lambda>ns et u t d s. (Inr (f64_mul u (Fin 1)), s))\<rparr>"

definition example_opts :: WAOLBOptions where
  "example_opts = DefaultingWAOLBOptions \<lparr>wo_IPFamily = ''IPv4'', wo_MetricsCacheTTL = 0, wo_PredictorCacheTTL = 0, wo_CPUUsageFormat = []\<rparr>"

theorem Score_table_sound_witness:
  "map_of (fst (snd (Score example_lb_env (\<lambda>_. 0) example_opts (\<lambda>_. False) [''default/web:http''] ([], ())))) ''default/web:http'' =
     Some [(''10.0.0.1'', 4), (''10.0.0.2'', 100)] \<and>
   service_scores example_lb_env example_opts (nameOf ''default/web:http'') [(''10.0.0.1'', 4), (''10.0.0.2'', 100)]"
proof -
  have env: "lb_GetService example_lb_env nn = Inr \<lparr>svc_Namespace = nn_Namespace nn, svc_Name = nn_Name nn, svc_Annotations = []\<rparr>"
      "lb_ListEndpointSlices example_lb_env ns n = Inr [\<lparr>es_AddressType = ''IPv4'', es_Endpoints =
        [\<lparr>ese_NodeName = Some ''n1'', ese_Addresses = [''10.0.0.1'']\<rparr>, \<lparr>ese_NodeName = Some ''n2'', ese_Addresses = [''10.0.0.2'']\<rparr>]\<rparr>]"
      "lb_ParseQuantity example_lb_env q = Inr (Fin 1)" "wo_IPFamily example_opts = ''IPv4''" for nn ns n q
    by (simp_all add: example_lb_env_def example_opts_def DefaultingWAOLBOptions_def Let_def)
  have watts: "ScoreNode example_lb_env (\<lambda>_. 0) example_opts ''n1'' (Fin 1) () = (Inr 25, ())"
      "ScoreNode example_lb_env (\<lambda>_. 0) example_opts ''n2'' (Fin 1) () = (Inr 0, ())"
    by code_simp+
  have "normalizeScores (\<lambda>_. 0) [(''10.0.0.1'', 25), (''10.0.0.2'', 0)] = [(''10.0.0.1'', 4), (''10.0.0.2'', 100)]"
    by (subst normalizeScores_ratio, code_simp, code_simp)
  with env watts have "Score example_lb_env (\<lambda>_. 0) example_opts (\<lambda>_. False) [''default/web:http''] ([], ()) =
      (Inr (), ([(''default/web:http'', [(''10.0.0.1'', 4), (''10.0.0.2'', 100)])], ()))"
    by (simp add: Score_def scorePieces_Cons ScoreService_def then_do_def del: scorePieces.simps(2))
  from Score_table_sound [OF this, of "''default/web:http''"] this show ?thesis by simp
qed

text \<open>
  A node without a \<open>NodeConfig\<close> is taken for the cheapest one: \<open>ScoreNode\<close> reports 0 watts for it
  and no error, so the addresses of its endpoints get the score 100, whatever the other nodes need.
\<close>

theorem ScoreNode_unconfigured_best:
  assumes "lb_GetNode env nodeName = Inr node"
    and "lb_GetNodeMetrics env (node_Name node) s = (Inr (Some usage), s1)"
    and "lb_GetCustomMetric env nodeName ValueInletTemperature s1 = (Inr (Some t), s2)"
    and "lb_GetCustomMetric env nodeName ValueDeltaPressure s2 = (Inr (Some p), s3)"
    and "lb_ListNodeConfigs env = Inr ncs" "\<forall>nc\<in>set ncs. ncs_NodeName (nc_Spec nc) \<noteq> nodeName"
    and "wf_map watts" "\<forall>(ip, w)\<in>set watts. w < MaxInt64" "map_of watts ip = Some 0"
  shows "(\<exists>s'. ScoreNode env oob opts nodeName cpuUsage s = (Inr 0, s')) \<and>
    map_of (normalizeScores oob watts) ip = Some 100"
proof -
  have "find (\<lambda>e. ncs_NodeName (nc_Spec e) = nodeName) ncs = None" using assms(6) by (auto simp: find_None_iff)
  with assms(1-5) have "\<exists>s'. ScoreNode env oob opts nodeName cpuUsage s = (Inr 0, s')"
    by (simp add: ScoreNode_def then_do_def deref_def Let_def)
  moreover have "map_of (normalizeScores oob watts) ip = Some 100"
  proof -
    let ?m = "min_loop MaxInt64 (map snd (shifted watts))"
    have "(ip, 0) \<in> set watts" using assms(9) by (rule map_of_SomeD)
    from min_shifted [OF assms(8) this] have m: "?m = 1" by simp
    have "scoreOf oob 1 1 = 100" using scoreOf_eq [of 1 1 oob] ratio_self [of 1] by (simp add: MaxInt64_def) code_simp
    then show ?thesis using assms(9) m by (simp add: map_of_normalizeScores [OF assms(7,8)])
  qed
  ultimately show ?thesis by blast
qed

theorem ScoreNode_unconfigured_best_witness:
  "(\<exists>s'. ScoreNode example_lb_env (\<lambda>_. 0) example_opts ''n2'' (Fin 1) () = (Inr 0, s')) \<and>
   map_of (normalizeScores (\<lambda>_. 0) [(''10.0.0.1'', 25), (''10.0.0.2'', 0)]) ''10.0.0.2'' = Some 100"
  by (rule ScoreNode_unconfigured_best [of example_lb_env "''n2''"
        "\<lparr>node_Name = ''n2'', node_Labels = [], node_Addresses = [], node_CapacityCpu = Fin 4\<rparr>" "()" "Fin 1" "()"
        "Fin 20" "()" "Fin 20" "()" "[example_lb_config]"])
    (simp_all add: example_lb_env_def example_lb_config_def MaxInt64_def)

text \<open>
  C27. The name of a Service port can be read back from its text: for names without a slash or a colon,
  \<open>decodeSvcPortNameString\<close> returns the namespace, the name and the port that
  \<open>ServicePortName.String\<close> printed.
\<close>

theorem decodeSvcPortNameString_roundtrip:
  assumes "nnString_doc nnString"
    and "CHR ''/'' \<notin> set (nn_Namespace (spn_NamespacedName spn))"
    and "CHR ''/'' \<notin> set (nn_Name (spn_NamespacedName spn))" "CHR '':'' \<notin> set (nn_Name (spn_NamespacedName spn))"
    and "CHR ''/'' \<notin> set (spn_Port spn)" "CHR '':'' \<notin> set (spn_Port spn)"
  shows "decodeSvcPortNameString (ServicePortName_String nnString spn) =
    (nn_Namespace (spn_NamespacedName spn), nn_Name (spn_NamespacedName spn), spn_Port spn)"
proof -
  let ?n = "nn_Name (spn_NamespacedName spn)" and ?p = "fmtPortName (spn_Port spn)"
  have "ServicePortName_String nnString spn = nn_Namespace (spn_NamespacedName spn) @ CHR ''/'' # ?n @ ?p"
    using assms(1) by (simp add: ServicePortName_String_def nnString_doc_def)
  moreover have "CHR ''/'' \<notin> set (?n @ ?p)" using assms(3,5) by (auto simp: fmtPortName_def)
  ultimately have "split_on CHR ''/'' (ServicePortName_String nnString spn) = [nn_Namespace (spn_NamespacedName spn), ?n @ ?p]"
    using assms(2) by (simp add: split_on_append split_on_none)
  moreover have "split_on CHR '':'' (?n @ ?p) = (if spn_Port spn = [] then [?n] else [?n, spn_Port spn])"
    using assms(4,6) by (simp add: fmtPortName_def split_on_append split_on_none)
  ultimately show ?thesis by (simp add: decodeSvcPortNameString_def)
qed

theorem decodeSvcPortNameString_roundtrip_witness:
  "decodeSvcPortNameString (ServicePortName_String (\<lambda>n. nn_Namespace n @ ''/'' @ nn_Name n)
     \<lparr>spn_NamespacedName = \<lparr>nn_Namespace = ''default'', nn_Name = ''nginx''\<rparr>, spn_Port = ''http'', spn_Protocol = ''TCP''\<rparr>) =
   (''default'', ''nginx'', ''http'')"
  by (subst decodeSvcPortNameString_roundtrip) (simp_all add: nnString_doc_def)

end
