(* ===== verification/Nft_Rules.thy ===== *)
theory Nft_Rules
  imports Service_Ports WAO_Score
begin

text \<open>
  Chain names, the parts of an nftables transaction and the load balancing rule,
  \<open>wao-loadbalancer/pkg/proxy/nftables/proxier.go\<close>. The library \<open>knftables\<close> collects the operations
  of a transaction in order; a rule is the list of arguments given to its \<open>Concat\<close>, which joins them
  to the text of the rule. The hash in chain names, eight letters of the base32 of a SHA-256 sum, is a
  parameter.
\<close>

section \<open>Names\<close>

text \<open>\<open>net.SplitHostPort\<close>. The port starts after the last colon.\<close>

definition LastIndex :: "char \<Rightarrow> string \<Rightarrow> nat option" where
  "LastIndex c s = (if c \<in> set s then Some (length s - 1 - length (takeWhile (\<lambda>x. x \<noteq> c) (rev s))) else None)"

definition IndexByte :: "char \<Rightarrow> string \<Rightarrow> nat option" where
  "IndexByte c s = (if c \<in> set s then Some (length (takeWhile (\<lambda>x. x \<noteq> c) s)) else None)"

definition SplitHostPort :: "string \<Rightarrow> (string \<times> string) result" where
  "SplitHostPort hostport = (case LastIndex CHR '':'' hostport of
     None \<Rightarrow> Inl (Errorf ''missing port in address'')
   | Some i \<Rightarrow>
       res_bind
         (if hd hostport = CHR ''['' then
            (case IndexByte CHR '']'' hostport of
               None \<Rightarrow> Inl (Errorf ''missing ']' in address'')
             | Some e \<Rightarrow>
                 if e + 1 = length hostport then Inl (Errorf ''missing port in address'')
                 else if e + 1 = i then Inr (take (e - 1) (drop 1 hostport), 1, e + 1)
                 else if hostport ! (e + 1) = CHR '':'' then Inl (Errorf ''too many colons in address'')
                 else Inl (Errorf ''missing port in address''))
          else if CHR '':'' \<in> set (take i hostport) then Inl (Errorf ''too many colons in address'')
          else Inr (take i hostport, 0, 0))
         (\<lambda>(host, j, k).
            if CHR ''['' \<in> set (drop j hostport) then Inl (Errorf ''unexpected '[' in address'')
            else if CHR '']'' \<in> set (drop k hostport) then Inl (Errorf ''unexpected ']' in address'')
            else Inr (host, drop (i + 1) hostport)))"

definition chainNamePrefixLengthMax :: nat where "chainNamePrefixLengthMax = 16"

text \<open>\<open>knftables.NameLengthMax\<close> is 256.\<close>

definition chainNameBaseLengthMax :: nat where
  "chainNameBaseLengthMax = 256 - chainNamePrefixLengthMax"

definition servicePortPolicyClusterChainNamePrefix :: string where "servicePortPolicyClusterChainNamePrefix = ''service-''"
definition servicePortPolicyLocalChainNamePrefix :: string where "servicePortPolicyLocalChainNamePrefix = ''local-''"
definition serviceExternalChainNamePrefix :: string where "serviceExternalChainNamePrefix = ''external-''"
definition servicePortEndpointChainNamePrefix :: string where "servicePortEndpointChainNamePrefix = ''endpoint-''"
definition servicePortEndpointAffinityNamePrefix :: string where "servicePortEndpointAffinityNamePrefix = ''affinity-''"
definition servicePortFirewallChainNamePrefix :: string where "servicePortFirewallChainNamePrefix = ''firewall-''"

definition hashAndTruncate :: "(string \<Rightarrow> string) \<Rightarrow> string \<Rightarrow> string" where
  "hashAndTruncate hash8 name =
     (let name = hash8 name @ ''-'' @ name
      in if length name > chainNameBaseLengthMax then take (chainNameBaseLengthMax - 3) name @ ''...'' else name)"

definition servicePortChainNameBase :: "(string \<Rightarrow> string) \<Rightarrow> ServicePortName \<Rightarrow> string \<Rightarrow> string" where
  "servicePortChainNameBase hash8 servicePortName protocol =
     hashAndTruncate hash8
       (nn_Namespace (spn_NamespacedName servicePortName) @ ''/'' @ nn_Name (spn_NamespacedName servicePortName) @ ''/'' @
        protocol @ ''/'' @ spn_Port servicePortName)"

definition servicePortEndpointChainNameBase :: "(string \<Rightarrow> string) \<Rightarrow> ServicePortName \<Rightarrow> string \<Rightarrow> string \<Rightarrow> string" where
  "servicePortEndpointChainNameBase hash8 servicePortName protocol endpoint =
     (let (endpointIP, endpointPort) = (case SplitHostPort endpoint of Inr hp \<Rightarrow> hp | Inl _ \<Rightarrow> ([], []));
          endpointIP = (if CHR '':'' \<in> set endpointIP
                        then map (\<lambda>c. if c = CHR '':'' then CHR ''.'' else c) endpointIP else endpointIP)
      in hashAndTruncate hash8
           (nn_Namespace (spn_NamespacedName servicePortName) @ ''/'' @ nn_Name (spn_NamespacedName servicePortName) @ ''/'' @
            protocol @ ''/'' @ spn_Port servicePortName @ ''__'' @ endpointIP @ ''/'' @ endpointPort))"

definition isServiceChainName :: "string \<Rightarrow> bool" where
  "isServiceChainName chainString \<longleftrightarrow> CHR ''/'' \<in> set chainString"

definition isAffinitySetName :: "string \<Rightarrow> bool" where
  "isAffinitySetName s \<longleftrightarrow> take (length servicePortEndpointAffinityNamePrefix) s = servicePortEndpointAffinityNamePrefix"

text \<open>\<open>strings.ToLower\<close> on ASCII, which is what the names of protocols are.\<close>

definition ToLower :: "string \<Rightarrow> string" where
  "ToLower = map (\<lambda>c. if 65 \<le> (of_char c :: nat) \<and> of_char c \<le> (90 :: nat) then char_of (of_char c + 32 :: nat) else c)"

definition newServiceInfo ::
  "(NamespacedName \<Rightarrow> string) \<Rightarrow> (string \<Rightarrow> string) \<Rightarrow> v1_ServicePort \<Rightarrow> v1_Service \<Rightarrow> BaseServicePortInfo \<Rightarrow> ServicePort" where
  "newServiceInfo nnString hash8 port service bsvcPortInfo =
     (let svcName = \<lparr>nn_Namespace = vs_Namespace service, nn_Name = vs_Name service\<rparr>;
          svcPortName = \<lparr>spn_NamespacedName = svcName, spn_Port = vsp_Name port, spn_Protocol = []\<rparr>;
          chainNameBase = servicePortChainNameBase hash8 svcPortName (ToLower (bsp_protocol bsvcPortInfo))
      in NftServicePort
           \<lparr>spi_BaseServicePortInfo = bsvcPortInfo,
            spi_nameString = ServicePortName_String nnString svcPortName,
            spi_clusterPolicyChainName = servicePortPolicyClusterChainNamePrefix @ chainNameBase,
            spi_localPolicyChainName = servicePortPolicyLocalChainNamePrefix @ chainNameBase,
            spi_externalChainName = serviceExternalChainNamePrefix @ chainNameBase,
            spi_firewallChainName = servicePortFirewallChainNamePrefix @ chainNameBase\<rparr>)"

definition newEndpointInfo :: "(string \<Rightarrow> string) \<Rightarrow> BaseEndpointInfo \<Rightarrow> ServicePortName \<Rightarrow> Endpoint" where
  "newEndpointInfo hash8 baseInfo svcPortName =
     (let chainNameBase = servicePortEndpointChainNameBase hash8 svcPortName (ToLower (spn_Protocol svcPortName)) (bei_endpoint baseInfo)
      in NftEndpoint
           \<lparr>epi_BaseEndpointInfo = baseInfo,
            epi_chainName = servicePortEndpointChainNamePrefix @ chainNameBase,
            epi_affinitySetName = servicePortEndpointAffinityNamePrefix @ chainNameBase\<rparr>)"

section \<open>Transactions\<close>

record base_chain =
  bc_name :: string
  bc_chainType :: string
  bc_hook :: string
  bc_priority :: string

datatype nft_object =
    NTable
  | NChain string "base_chain option"
  | NRule string "string list"
  | NSet string string "string list" "int option"
  | NMap string string
  | NElement string "string list" "string list"

datatype nft_op = Add nft_object | Flush nft_object | Delete nft_object

type_synonym Transaction = "nft_op list"

definition ensureChain :: "string \<Rightarrow> bool \<Rightarrow> Transaction \<times> string list \<Rightarrow> Transaction \<times> string list" where
  "ensureChain chain skipCreation st =
     (let (tx, createdChains) = st
      in if chain \<in> set createdChains then (tx, createdChains)
         else if skipCreation then (tx, List.insert chain createdChains)
         else (tx @ [Add (NChain chain None), Flush (NChain chain None)], List.insert chain createdChains))"

section \<open>The load balancing rule\<close>

definition affinityRules :: "string \<Rightarrow> string \<Rightarrow> Endpoint list \<Rightarrow> Transaction" where
  "affinityRules ipX svcChain endpoints =
     fold (\<lambda>ep tx. case ep of
             BaseEndpoint _ \<Rightarrow> tx
           | NftEndpoint epInfo \<Rightarrow>
               tx @ [Add (NRule svcChain [ipX, ''saddr'', ''@'', epi_affinitySetName epInfo, ''goto'', epi_chainName epInfo])])
       endpoints []"

definition useWAO :: "(string, int) gomap \<Rightarrow> Endpoint list \<Rightarrow> bool" where
  "useWAO scores endpoints =
     (let eps = map (\<lambda>ep. case ep of BaseEndpoint _ \<Rightarrow> [] | NftEndpoint epInfo \<Rightarrow> bei_ip (epi_BaseEndpointInfo epInfo)) endpoints
      in list_ex (\<lambda>ep. get_or 0 scores ep > 0) eps)"

fun waoElements :: "(string, int) gomap \<Rightarrow> Endpoint list \<Rightarrow> int \<Rightarrow> string list \<Rightarrow> int \<times> string list" where
  "waoElements scores [] totalScore elements = (totalScore, elements)"
| "waoElements scores (BaseEndpoint _ # endpoints) totalScore elements = waoElements scores endpoints totalScore elements"
| "waoElements scores (NftEndpoint epInfo # endpoints) totalScore elements =
     (case map_of scores (bei_ip (epi_BaseEndpointInfo epInfo)) of
        None \<Rightarrow> waoElements scores endpoints totalScore elements
      | Some score \<Rightarrow>
          if score \<le> 0 then waoElements scores endpoints totalScore elements
          else waoElements scores endpoints (i64_add totalScore score)
                 (elements @ [Itoa totalScore @ ''-'' @ Itoa (i64_sub (i64_add totalScore score) 1), '':'', ''goto'', epi_chainName epInfo] @ ['','']))"

fun uniformElements :: "int \<Rightarrow> int \<Rightarrow> Endpoint list \<Rightarrow> string list \<Rightarrow> string list" where
  "uniformElements n i [] elements = elements"
| "uniformElements n i (BaseEndpoint _ # endpoints) elements = uniformElements n (i + 1) endpoints elements"
| "uniformElements n i (NftEndpoint epInfo # endpoints) elements =
     uniformElements n (i + 1) endpoints
       (elements @ [Itoa i, '':'', ''goto'', epi_chainName epInfo] @ (if i \<noteq> n - 1 then ['',''] else []))"

definition writeServiceToEndpointRules ::
  "string \<Rightarrow> Scores \<Rightarrow> string \<Rightarrow> servicePortInfo \<Rightarrow> string \<Rightarrow> Endpoint list \<Rightarrow> Transaction \<Rightarrow> Transaction result" where
  "writeServiceToEndpointRules ipFamily Scores svcPortNameString svcInfo svcChain endpoints tx =
     (let ipX = (if ipFamily = IPv6Protocol then ''ip6'' else ''ip'');
          tx = tx @ (if bsp_sessionAffinityType (spi_BaseServicePortInfo svcInfo) = ServiceAffinityClientIP
                     then affinityRules ipX svcChain endpoints else []);
          fallback = Inr (tx @ [Add (NRule svcChain ([''numgen random mod'', Itoa (int (length endpoints)), ''vmap'', ''{''] @
            uniformElements (int (length endpoints)) 0 endpoints [] @ [''}'']))])
      in case map_of Scores svcPortNameString of
           None \<Rightarrow> fallback
         | Some scores \<Rightarrow>
             if useWAO scores endpoints then
               (let (totalScore, elements) = waoElements scores endpoints 0 []
                in if elements = [] then Inl (Panic ''slice bounds out of range'')
                   else Inr (tx @ [Add (NRule svcChain ([''numgen random mod'', Itoa totalScore, ''vmap'', ''{''] @ butlast elements @ [''}'']))]))
             else fallback)"

section \<open>What the rule does\<close>

text \<open>
  The verdict map of the rule: ranges of the random number with the chain each goes to. \<open>weights\<close> are
  the endpoints that take part with their scores, \<open>ranges\<close> the map the rule is meant to have, and
  \<open>pick\<close> the chain a random number is sent to.
\<close>

definition weights :: "(string, int) gomap \<Rightarrow> Endpoint list \<Rightarrow> (string \<times> int) list" where
  "weights scores endpoints = concat (map (\<lambda>ep. case ep of
     BaseEndpoint _ \<Rightarrow> []
   | NftEndpoint epInfo \<Rightarrow> (case map_of scores (bei_ip (epi_BaseEndpointInfo epInfo)) of
       Some score \<Rightarrow> if score \<le> 0 then [] else [(epi_chainName epInfo, score)] | None \<Rightarrow> [])) endpoints)"

fun ranges :: "int \<Rightarrow> (string \<times> int) list \<Rightarrow> (int \<times> int \<times> string) list" where
  "ranges start [] = []"
| "ranges start ((chain, score) # ws) = (start, start + score - 1, chain) # ranges (start + score) ws"

fun print_range :: "int \<times> int \<times> string \<Rightarrow> string list" where
  "print_range (lo, hi, chain) = [Itoa lo @ ''-'' @ Itoa hi, '':'', ''goto'', chain, '','']"

definition pick :: "(int \<times> int \<times> string) list \<Rightarrow> int \<Rightarrow> string option" where
  "pick rs n = map_option (\<lambda>(_, _, chain). chain) (find (\<lambda>(lo, hi, _). lo \<le> n \<and> n \<le> hi) rs)"

abbreviation total :: "(string \<times> int) list \<Rightarrow> int" where
  "total ws \<equiv> sum_list (map snd ws)"

lemma weights_simps [simp]:
  "weights scores [] = []"
  "weights scores (BaseEndpoint b # eps) = weights scores eps"
  "weights scores (NftEndpoint e # eps) = (case map_of scores (bei_ip (epi_BaseEndpointInfo e)) of
     Some score \<Rightarrow> if score \<le> 0 then weights scores eps else (epi_chainName e, score) # weights scores eps
   | None \<Rightarrow> weights scores eps)"
  by (simp_all add: weights_def split: option.split)

lemma weights_pos: "(c, w) \<in> set (weights scores eps) \<Longrightarrow> 0 < w"
  by (induction eps rule: rev_induct) (auto simp: weights_def split: Endpoint.splits option.splits if_splits)

lemma total_nonneg: "\<forall>(c, w)\<in>set ws. 0 < w \<Longrightarrow> 0 \<le> total ws"
  by (induction ws) auto

lemma waoElements_eq:
  assumes "0 \<le> start" "start + total (weights scores eps) \<le> MaxInt64"
  shows "waoElements scores eps start els =
    (start + total (weights scores eps), els @ concat (map print_range (ranges start (weights scores eps))))"
  using assms
proof (induction scores eps start els rule: waoElements.induct)
  case (3 scores e eps start els)
  show ?case
  proof (cases "map_of scores (bei_ip (epi_BaseEndpointInfo e))")
    case None
    then show ?thesis using 3 by simp
  next
    case (Some score)
    show ?thesis
    proof (cases "score \<le> 0")
      case True
      then show ?thesis using 3 Some by simp
    next
      case False
      have "0 \<le> total (weights scores eps)" using weights_pos by (intro total_nonneg) auto
      then have "i64_add start score = start + score" "i64_sub (start + score) 1 = start + score - 1"
        using "3.prems" Some False by (simp_all add: i64_add_id i64_sub_id is_i64_def MinInt64_def)
      then show ?thesis using "3.IH"(3) [OF Some False] "3.prems" Some False by (simp add: add.assoc)
    qed
  qed
qed simp_all

lemma pick_simps [simp]:
  "pick [] n = None"
  "pick ((lo, hi, c) # rs) n = (if lo \<le> n \<and> n \<le> hi then Some c else pick rs n)"
  by (simp_all add: pick_def)

lemma pick_ranges:
  assumes "\<forall>(c, w)\<in>set ws. 0 < w" "start \<le> n" "n < start + total ws"
  shows "\<exists>c. pick (ranges start ws) n = Some c"
  using assms
proof (induction start ws rule: ranges.induct)
  case (2 start chain score ws)
  then show ?case by (cases "n < start + score") auto
qed simp

lemma pick_range_lo: "\<forall>(c, w)\<in>set ws. 0 < w \<Longrightarrow> n < start \<Longrightarrow> pick (ranges start ws) n = None"
  by (induction start ws rule: ranges.induct) auto

lemma pick_in: "pick (ranges start ws) n = Some c \<Longrightarrow> c \<in> fst ` set ws"
  by (induction start ws rule: ranges.induct) (auto split: if_splits)

text \<open>Every chain is picked by as many random numbers as its score says.\<close>

lemma pick_count:
  assumes "\<forall>(c, w)\<in>set ws. 0 < w" "distinct (map fst ws)" "(c, w) \<in> set ws"
  shows "card {n \<in> {start..<start + total ws}. pick (ranges start ws) n = Some c} = nat w"
  using assms
proof (induction start ws rule: ranges.induct)
  case (2 start chain score ws)
  have nn: "0 \<le> total ws" using "2.prems"(1) by (intro total_nonneg) auto
  have pos: "0 < score" "\<forall>(c, w)\<in>set ws. 0 < w" using "2.prems"(1) by auto
  let ?S = "{n \<in> {start..<start + total ((chain, score) # ws)}. pick (ranges start ((chain, score) # ws)) n = Some c}"
  show ?case
  proof (cases "c = chain")
    case True
    then have "w = score" using "2.prems"(2,3) by (auto simp: rev_image_eqI)
    have "c \<notin> fst ` set ws" using True "2.prems"(2) by simp
    then have "?S = {start..<start + score}"
      using nn pick_in [of "start + score" ws] True by (auto split: if_splits)
    then show ?thesis using \<open>w = score\<close> by simp
  next
    case False
    have "?S = {n \<in> {start + score..<start + score + total ws}. pick (ranges (start + score) ws) n = Some c}"
      using False pos by (auto simp: pick_range_lo split: if_splits)
    then show ?thesis using 2 False by (simp add: add.assoc)
  qed
qed simp

lemma useWAO_simps [simp]:
  "\<not> useWAO scores []"
  "useWAO scores (BaseEndpoint b # eps) \<longleftrightarrow> 0 < get_or 0 scores [] \<or> useWAO scores eps"
  "useWAO scores (NftEndpoint e # eps) \<longleftrightarrow> 0 < get_or 0 scores (bei_ip (epi_BaseEndpointInfo e)) \<or> useWAO scores eps"
  by (simp_all add: useWAO_def)

lemma weights_useWAO: "weights scores endpoints \<noteq> [] \<Longrightarrow> useWAO scores endpoints"
proof (induction endpoints)
  case (Cons ep endpoints)
  then show ?case by (cases ep) (auto simp: get_or_def split: option.splits if_splits)
qed simp

lemma useWAO_weights: "useWAO scores endpoints \<Longrightarrow> get_or 0 scores [] \<le> 0 \<Longrightarrow> weights scores endpoints \<noteq> []"
proof (induction endpoints)
  case (Cons ep endpoints)
  then show ?case by (cases ep) (auto simp: get_or_def split: option.splits if_splits)
qed simp

lemma ranges_nonempty: "ws \<noteq> [] \<Longrightarrow> concat (map print_range (ranges start ws)) \<noteq> []"
  by (cases ws) auto

text \<open>The code takes the last comma off the list without a check; it is never empty there.\<close>

lemma writeServiceToEndpointRules_total:
  assumes "\<And>scores. map_of Scores name = Some scores \<Longrightarrow> get_or 0 scores [] \<le> 0 \<and> total (weights scores endpoints) \<le> MaxInt64"
  shows "\<exists>ops. writeServiceToEndpointRules fam Scores name svcInfo chain endpoints tx = Inr (tx @ ops)"
proof (cases "map_of Scores name")
  case None
  then show ?thesis by (simp add: writeServiceToEndpointRules_def Let_def)
next
  case (Some scores)
  note s = assms [OF Some]
  show ?thesis
    using Some waoElements_eq [of 0 scores endpoints "[]"] s useWAO_weights [of scores endpoints]
      ranges_nonempty [of "weights scores endpoints" 0]
    by (simp add: writeServiceToEndpointRules_def Let_def del: concat_eq_Nil_conv)
qed

text \<open>Without scores every endpoint gets one number.\<close>

lemma uniformElements_eq:
  assumes "i + int (length es) = n"
  shows "uniformElements n i (map NftEndpoint es) els =
    els @ butlast (concat (map (\<lambda>(k, e). [Itoa k, '':'', ''goto'', epi_chainName e, '','']) (zip [i..n - 1] es)))"
  using assms
proof (induction es arbitrary: i els)
  case (Cons e es)
  have upto: "[i..n - 1] = i # [i + 1..n - 1]" using Cons.prems by (simp add: upto_rec1)
  show ?case
  proof (cases es)
    case Nil
    then show ?thesis using Cons.prems upto by simp
  next
    case (Cons e' es')
    then have "i + 1 \<le> n - 1" using Cons.prems by simp
    then have "[i + 1..n - 1] = (i + 1) # [(i + 1) + 1..n - 1]" by (rule upto_rec1)
    then have "concat (map (\<lambda>(k, e). [Itoa k, '':'', ''goto'', epi_chainName e, '','']) (zip [i + 1..n - 1] es)) \<noteq> []"
      using Cons by simp
    then show ?thesis
      using Cons.IH [of "i + 1"] Cons.prems upto \<open>i + 1 \<le> n - 1\<close> by (simp add: butlast_append)
  qed
qed simp

text \<open>
  C17. Traffic is spread by score: when some endpoint of the service has a positive score, the rule that is
  written draws a random number below the sum of the scores, its ranges cover every number that can be
  drawn, each endpoint is reached by exactly as many numbers as its score, and an endpoint without a
  positive score by none.
\<close>

theorem writeServiceToEndpointRules_weighted:
  fixes scores endpoints
  defines "ws \<equiv> weights scores endpoints"
  assumes "map_of Scores name = Some scores" "ws \<noteq> []" "distinct (map fst ws)" "total ws \<le> MaxInt64"
  shows "(\<exists>affinity. writeServiceToEndpointRules fam Scores name svcInfo chain endpoints tx =
      Inr (tx @ affinity @ [Add (NRule chain ([''numgen random mod'', Itoa (total ws), ''vmap'', ''{''] @
        butlast (concat (map print_range (ranges 0 ws))) @ [''}'']))])) \<and>
    (\<forall>n. 0 \<le> n \<and> n < total ws \<longrightarrow> (\<exists>c\<in>fst ` set ws. pick (ranges 0 ws) n = Some c)) \<and>
    (\<forall>(c, w)\<in>set ws. card {n \<in> {0..<total ws}. pick (ranges 0 ws) n = Some c} = nat w)"
proof (intro conjI)
  have pos: "\<forall>(c, w)\<in>set ws. 0 < w" using weights_pos by (auto simp: ws_def)
  show "\<exists>affinity. writeServiceToEndpointRules fam Scores name svcInfo chain endpoints tx =
      Inr (tx @ affinity @ [Add (NRule chain ([''numgen random mod'', Itoa (total ws), ''vmap'', ''{''] @
        butlast (concat (map print_range (ranges 0 ws))) @ [''}'']))])"
    using assms weights_useWAO [of scores endpoints] waoElements_eq [of 0 scores endpoints "[]"] ranges_nonempty [of ws 0]
    by (simp add: writeServiceToEndpointRules_def Let_def del: concat_eq_Nil_conv)
  show "\<forall>n. 0 \<le> n \<and> n < total ws \<longrightarrow> (\<exists>c\<in>fst ` set ws. pick (ranges 0 ws) n = Some c)"
    using pick_ranges [OF pos, of 0] pick_in by fastforce
  show "\<forall>(c, w)\<in>set ws. card {n \<in> {0..<total ws}. pick (ranges 0 ws) n = Some c} = nat w"
    using pick_count [OF pos assms(4), of _ _ 0] by auto
qed

definition example_nft_ep :: "string \<Rightarrow> Endpoint" where
  "example_nft_ep ip = newEndpointInfo (\<lambda>_. ''ULMVA6XW'') (newBaseEndpointInfo ip 80 False True True False [])
     \<lparr>spn_NamespacedName = \<lparr>nn_Namespace = ''ns1'', nn_Name = ''svc1''\<rparr>, spn_Port = ''p80'', spn_Protocol = ''TCP''\<rparr>"

definition example_svcInfo :: servicePortInfo where
  "example_svcInfo = \<lparr>spi_BaseServicePortInfo = \<lparr>bsp_clusterIP = Some ''172.30.0.41'', bsp_port = 80, bsp_protocol = ''TCP'',
       bsp_nodePort = 0, bsp_loadBalancerVIPs = [], bsp_sessionAffinityType = ''None'', bsp_stickyMaxAgeSeconds = 0,
       bsp_externalIPs = [], bsp_loadBalancerSourceRanges = [], bsp_healthCheckNodePort = 0, bsp_externalPolicyLocal = False,
       bsp_internalPolicyLocal = False, bsp_hintsAnnotation = []\<rparr>,
     spi_nameString = ''ns1/svc1:p80'', spi_clusterPolicyChainName = ''service-ULMVA6XW-ns1/svc1/tcp/p80'',
     spi_localPolicyChainName = [], spi_externalChainName = [], spi_firewallChainName = []\<rparr>"

definition example_lb_endpoints :: "Endpoint list" where
  "example_lb_endpoints = [example_nft_ep ''10.180.0.1'', example_nft_ep ''10.180.0.2'', example_nft_ep ''10.180.0.3'']"

definition example_table :: Scores where
  "example_table = [(''ns1/svc1:p80'', [(''10.180.0.1'', 100), (''10.180.0.2'', 50)])]"

lemma example_weights:
  "weights [(''10.180.0.1'', 100), (''10.180.0.2'', 50)] example_lb_endpoints =
     [(''endpoint-ULMVA6XW-ns1/svc1/tcp/p80__10.180.0.1/80'', 100), (''endpoint-ULMVA6XW-ns1/svc1/tcp/p80__10.180.0.2/80'', 50)]"
  by code_simp

theorem writeServiceToEndpointRules_weighted_witness:
  "card {n \<in> {0..<150}. pick (ranges 0 [(''endpoint-ULMVA6XW-ns1/svc1/tcp/p80__10.180.0.1/80'', 100),
       (''endpoint-ULMVA6XW-ns1/svc1/tcp/p80__10.180.0.2/80'', 50)]) n = Some ''endpoint-ULMVA6XW-ns1/svc1/tcp/p80__10.180.0.2/80''} = 50 \<and>
   writeServiceToEndpointRules IPv4Protocol example_table ''ns1/svc1:p80'' example_svcInfo ''c'' example_lb_endpoints [] =
     Inr [Add (NRule ''c'' [''numgen random mod'', ''150'', ''vmap'', ''{'',
       ''0-99'', '':'', ''goto'', ''endpoint-ULMVA6XW-ns1/svc1/tcp/p80__10.180.0.1/80'', '','',
       ''100-149'', '':'', ''goto'', ''endpoint-ULMVA6XW-ns1/svc1/tcp/p80__10.180.0.2/80'', ''}''])]"
proof
  have "map_of example_table ''ns1/svc1:p80'' = Some [(''10.180.0.1'', 100), (''10.180.0.2'', 50)]" by code_simp
  note t = writeServiceToEndpointRules_weighted [OF this, of example_lb_endpoints, unfolded example_weights]
  have "150 \<le> MaxInt64" by code_simp
  then show "card {n \<in> {0..<150}. pick (ranges 0 [(''endpoint-ULMVA6XW-ns1/svc1/tcp/p80__10.180.0.1/80'', 100),
       (''endpoint-ULMVA6XW-ns1/svc1/tcp/p80__10.180.0.2/80'', 50)]) n = Some ''endpoint-ULMVA6XW-ns1/svc1/tcp/p80__10.180.0.2/80''} = 50"
    using t by (simp del: ranges.simps)
qed code_simp

end
