(* ===== verification/Nft_Storage.thy ===== *)
theory Nft_Storage
  imports Nft_Rules
begin

text \<open>
  The proxier's copy of the nftables sets and maps it fills, \<open>nftElementStorage\<close> of
  \<open>wao-loadbalancer/pkg/proxy/nftables/proxier.go\<close>. Elements are compared with the copy, so that only
  differences go into the transaction. The main result is that running the transaction leaves in the
  kernel exactly the elements asked for, and that it does not fail.
\<close>

section \<open>Keys\<close>

fun joinNFTSlice :: "string list \<Rightarrow> string" where
  "joinNFTSlice [] = []"
| "joinNFTSlice [k] = k"
| "joinNFTSlice (k # k' # ks) = k @ '' . '' @ joinNFTSlice (k' # ks)"

function splitNFTSlice :: "string \<Rightarrow> string list" where
  "splitNFTSlice s =
     (if take 3 s = '' . '' then [] # splitNFTSlice (drop 3 s)
      else case s of [] \<Rightarrow> [[]] | c # cs \<Rightarrow> (case splitNFTSlice cs of [] \<Rightarrow> [[c]] | w # ws \<Rightarrow> (c # w) # ws))"
  by pat_completeness auto

termination splitNFTSlice
proof (relation "measure length")
  fix s :: string
  assume "take 3 s = '' . ''"
  then have "s \<noteq> []" by auto
  then show "(drop 3 s, s) \<in> measure length" by (cases s) auto
qed auto

declare splitNFTSlice.simps [simp del]

text \<open>The parts of a key, an address, a protocol and a port, have no blanks.\<close>

definition key_ok :: "string list \<Rightarrow> bool" where
  "key_ok ks \<longleftrightarrow> ks \<noteq> [] \<and> list_all (\<lambda>k. CHR '' '' \<notin> set k) ks"

lemma take3_no_blank: "s \<noteq> [] \<Longrightarrow> hd s \<noteq> CHR '' '' \<Longrightarrow> take 3 s \<noteq> '' . ''"
  by (cases s) auto

lemma split_no_blank: "CHR '' '' \<notin> set k \<Longrightarrow> splitNFTSlice k = [k]"
proof (induction k)
  case Nil
  show ?case by (subst splitNFTSlice.simps) simp
next
  case (Cons c k)
  then have "take 3 (c # k) \<noteq> '' . ''" by (intro take3_no_blank) auto
  then show ?case using Cons by (subst splitNFTSlice.simps) simp
qed

lemma split_append: "CHR '' '' \<notin> set k \<Longrightarrow> splitNFTSlice (k @ '' . '' @ s) = k # splitNFTSlice s"
proof (induction k)
  case Nil
  show ?case by (subst splitNFTSlice.simps) simp
next
  case (Cons c k)
  then have "take 3 (c # k @ '' . '' @ s) \<noteq> '' . ''" by (intro take3_no_blank) auto
  then show ?case using Cons by (subst splitNFTSlice.simps) simp
qed

lemma split_join: "key_ok ks \<Longrightarrow> splitNFTSlice (joinNFTSlice ks) = ks"
proof (induction ks rule: joinNFTSlice.induct)
  case (3 k k' ks)
  then have ok: "key_ok (k' # ks)" and k: "CHR '' '' \<notin> set k" by (auto simp: key_ok_def)
  show ?case unfolding joinNFTSlice.simps split_append [OF k] "3.IH" [OF ok] ..
qed (simp_all add: key_ok_def split_no_blank)

section \<open>The copy\<close>

record nftElementStorage =
  nes_elements :: "(string, string) gomap"
  nes_leftoverKeys :: "string list"
  nes_containerType :: string
  nes_containerName :: string

definition newNFTElementStorage :: "string \<Rightarrow> string \<Rightarrow> nftElementStorage" where
  "newNFTElementStorage containerType containerName =
     \<lparr>nes_elements = [], nes_leftoverKeys = [], nes_containerType = containerType, nes_containerName = containerName\<rparr>"

definition resetLeftoverKeys :: "nftElementStorage \<Rightarrow> nftElementStorage" where
  "resetLeftoverKeys s = s\<lparr>nes_leftoverKeys := fold (\<lambda>(key, _). List.insert key) (nes_elements s) []\<rparr>"

definition nes_reset :: "Transaction \<times> nftElementStorage \<Rightarrow> Transaction \<times> nftElementStorage" where
  "nes_reset st =
     (let (tx, s) = st; s = s\<lparr>nes_elements := []\<rparr>
      in (tx @ [if nes_containerType s = ''set'' then Flush (NSet (nes_containerName s) [] [] None)
                else Flush (NMap (nes_containerName s) [])],
          resetLeftoverKeys s))"

definition ensureElem :: "string list \<Rightarrow> string list \<Rightarrow> Transaction \<times> nftElementStorage \<Rightarrow> Transaction \<times> nftElementStorage" where
  "ensureElem key value st =
     (let (tx, s) = st;
          elem = NElement (nes_containerName s) key value;
          newKey = joinNFTSlice key; newValue = joinNFTSlice value
      in case map_of (nes_elements s) newKey of
           Some existingValue \<Rightarrow>
             (if existingValue \<noteq> newValue
              then (tx @ [Delete elem, Add elem],
                    s\<lparr>nes_elements := AList.update newKey newValue (nes_elements s),
                      nes_leftoverKeys := removeAll newKey (nes_leftoverKeys s)\<rparr>)
              else (tx, s\<lparr>nes_leftoverKeys := removeAll newKey (nes_leftoverKeys s)\<rparr>))
         | None \<Rightarrow> (tx @ [Add elem], s\<lparr>nes_elements := AList.update newKey newValue (nes_elements s)\<rparr>))"

definition cleanupLeftoverKeys :: "Transaction \<times> nftElementStorage \<Rightarrow> Transaction \<times> nftElementStorage" where
  "cleanupLeftoverKeys st =
     (let (tx, s) = st;
          (tx, s) = fold (\<lambda>key (tx, s). (tx @ [Delete (NElement (nes_containerName s) (splitNFTSlice key) [])],
                                          s\<lparr>nes_elements := AList.delete key (nes_elements s)\<rparr>))
                      (nes_leftoverKeys s) (tx, s)
      in (tx, resetLeftoverKeys s))"

section \<open>What nftables does\<close>

text \<open>
  The contents of one set or map of the kernel, by the text of its keys. As documented, adding an
  element that is there with another value fails, and so does deleting one that is not there; a
  failing operation fails the transaction.
\<close>

type_synonym contents = "string \<rightharpoonup> string"

fun nft_apply :: "string \<Rightarrow> nft_op \<Rightarrow> contents \<Rightarrow> contents option" where
  "nft_apply c (Add (NElement c' key value)) K =
     (if c' \<noteq> c then Some K
      else if K (joinNFTSlice key) = None \<or> K (joinNFTSlice key) = Some (joinNFTSlice value)
      then Some (K(joinNFTSlice key \<mapsto> joinNFTSlice value)) else None)"
| "nft_apply c (Delete (NElement c' key value)) K =
     (if c' \<noteq> c then Some K
      else if K (joinNFTSlice key) = None then None else Some (K(joinNFTSlice key := None)))"
| "nft_apply c (Flush (NSet c' _ _ _)) K = Some (if c' = c then Map.empty else K)"
| "nft_apply c (Flush (NMap c' _)) K = Some (if c' = c then Map.empty else K)"
| "nft_apply c _ K = Some K"

fun nft_run :: "string \<Rightarrow> Transaction \<Rightarrow> contents \<Rightarrow> contents option" where
  "nft_run c [] K = Some K"
| "nft_run c (op # tx) K = (case nft_apply c op K of None \<Rightarrow> None | Some K' \<Rightarrow> nft_run c tx K')"

lemma nft_run_append: "nft_run c (tx @ tx') K = (case nft_run c tx K of None \<Rightarrow> None | Some K' \<Rightarrow> nft_run c tx' K')"
  by (induction tx arbitrary: K) (auto split: option.split)

section \<open>The copy and the kernel agree\<close>

text \<open>\<open>synced K s\<close>: the copy \<open>s\<close> holds what the kernel has, under keys that can be split again.\<close>

definition synced :: "contents \<Rightarrow> nftElementStorage \<Rightarrow> bool" where
  "synced K s \<longleftrightarrow> wf_map (nes_elements s) \<and> map_of (nes_elements s) = K \<and>
     (\<forall>k. K k \<noteq> None \<longrightarrow> (\<exists>ks. key_ok ks \<and> k = joinNFTSlice ks))"

lemma resetLeftoverKeys_set: "set (nes_leftoverKeys (resetLeftoverKeys s)) = fst ` set (nes_elements s)"
proof -
  have "set (fold (\<lambda>(key, _). List.insert key) m acc) = set acc \<union> fst ` set m" for m :: "(string, string) gomap" and acc
    by (induction m arbitrary: acc) auto
  then show ?thesis by (simp add: resetLeftoverKeys_def)
qed

lemma resetLeftoverKeys_sel [simp]:
  "nes_elements (resetLeftoverKeys s) = nes_elements s"
  "nes_containerName (resetLeftoverKeys s) = nes_containerName s"
  "nes_containerType (resetLeftoverKeys s) = nes_containerType s"
  by (simp_all add: resetLeftoverKeys_def)

lemma ensureElem_step:
  assumes "synced K s" "key_ok key" "set (nes_leftoverKeys s) \<subseteq> dom K"
  shows "\<exists>ops s'. ensureElem key value (tx, s) = (tx @ ops, s') \<and>
    nft_run (nes_containerName s) ops K = Some (K(joinNFTSlice key \<mapsto> joinNFTSlice value)) \<and>
    synced (K(joinNFTSlice key \<mapsto> joinNFTSlice value)) s' \<and>
    set (nes_leftoverKeys s') = set (nes_leftoverKeys s) - {joinNFTSlice key} \<and>
    nes_containerName s' = nes_containerName s \<and> (distinct (nes_leftoverKeys s) \<longrightarrow> distinct (nes_leftoverKeys s'))"
proof (cases "K (joinNFTSlice key)")
  case None
  then have "joinNFTSlice key \<notin> set (nes_leftoverKeys s)" using assms(3) by auto
  moreover have "map_of (nes_elements s) (joinNFTSlice key) = None" using assms(1) None by (simp add: synced_def)
  ultimately show ?thesis using assms None
    by (auto simp: ensureElem_def Let_def synced_def fun_eq_iff)
next
  case (Some v)
  then have "map_of (nes_elements s) (joinNFTSlice key) = Some v" using assms(1) by (simp add: synced_def)
  then show ?thesis using assms Some
    by (cases "v = joinNFTSlice value") (auto simp: ensureElem_def Let_def synced_def fun_eq_iff distinct_removeAll)
qed

text \<open>Asking for a list of elements, one after the other.\<close>

definition ensureElems where
  "ensureElems es st = fold (\<lambda>(key, value). ensureElem key value) es st"

definition wanted :: "(string list \<times> string list) list \<Rightarrow> contents" where
  "wanted es = map_of (rev (map (\<lambda>(key, value). (joinNFTSlice key, joinNFTSlice value)) es))"

lemma wanted_simps [simp]:
  "wanted [] = Map.empty"
  "wanted ((key, value) # es) = [joinNFTSlice key \<mapsto> joinNFTSlice value] ++ wanted es"
  by (auto simp: wanted_def map_add_def fun_eq_iff split: option.split)

lemma ensureElems_run:
  assumes "synced K s" "\<forall>(key, value)\<in>set es. key_ok key" "set (nes_leftoverKeys s) \<subseteq> dom K"
  shows "\<exists>ops s'. ensureElems es (tx, s) = (tx @ ops, s') \<and>
    nft_run (nes_containerName s) ops K = Some (K ++ wanted es) \<and> synced (K ++ wanted es) s' \<and>
    set (nes_leftoverKeys s') = set (nes_leftoverKeys s) - dom (wanted es) \<and>
    nes_containerName s' = nes_containerName s \<and> (distinct (nes_leftoverKeys s) \<longrightarrow> distinct (nes_leftoverKeys s'))"
  using assms
proof (induction es arbitrary: tx s K)
  case Nil
  then show ?case by (simp add: ensureElems_def)
next
  case (Cons e es)
  obtain key val where e: "e = (key, val)" by (cases e)
  define K1 where "K1 = K(joinNFTSlice key \<mapsto> joinNFTSlice val)"
  obtain ops s1 where s1: "ensureElem key val (tx, s) = (tx @ ops, s1)"
    "nft_run (nes_containerName s) ops K = Some K1" "synced K1 s1"
    "set (nes_leftoverKeys s1) = set (nes_leftoverKeys s) - {joinNFTSlice key}"
    "nes_containerName s1 = nes_containerName s" "distinct (nes_leftoverKeys s) \<longrightarrow> distinct (nes_leftoverKeys s1)"
    using ensureElem_step [of K s key val tx, folded K1_def] Cons.prems e by auto
  have "set (nes_leftoverKeys s1) \<subseteq> dom K1" using Cons.prems(3) s1(4) by (auto simp: K1_def)
  then obtain ops' s' where s': "ensureElems es (tx @ ops, s1) = ((tx @ ops) @ ops', s')"
    "nft_run (nes_containerName s) ops' K1 = Some (K1 ++ wanted es)" "synced (K1 ++ wanted es) s'"
    "set (nes_leftoverKeys s') = set (nes_leftoverKeys s1) - dom (wanted es)"
    "nes_containerName s' = nes_containerName s" "distinct (nes_leftoverKeys s) \<longrightarrow> distinct (nes_leftoverKeys s')"
    using Cons.IH [OF s1(3), of "tx @ ops"] Cons.prems(2) s1(5,6) by (auto simp: e)
  have K: "K1 ++ wanted es = K ++ wanted (e # es)" by (auto simp: K1_def e map_add_def fun_eq_iff split: option.split)
  have "ensureElems (e # es) (tx, s) = (tx @ (ops @ ops'), s')" using s1(1) s'(1) by (simp add: ensureElems_def e)
  moreover have "nft_run (nes_containerName s) (ops @ ops') K = Some (K ++ wanted (e # es))"
    using s1(2) s'(2) by (simp add: nft_run_append K)
  moreover have "set (nes_leftoverKeys s') = set (nes_leftoverKeys s) - dom (wanted (e # es))"
    using s1(4) s'(4) by (auto simp: e)
  ultimately show ?case using s'(3,5,6) K by auto
qed

lemma delete_loop:
  assumes "synced K s" "distinct keys" "set keys \<subseteq> dom K"
  shows "\<exists>ops s'. fold (\<lambda>key (tx, s). (tx @ [Delete (NElement (nes_containerName s) (splitNFTSlice key) [])],
        s\<lparr>nes_elements := AList.delete key (nes_elements s)\<rparr>)) keys (tx, s) = (tx @ ops, s') \<and>
    nft_run (nes_containerName s) ops K = Some (K |` (- set keys)) \<and> synced (K |` (- set keys)) s' "
  using assms
proof (induction keys arbitrary: tx s K)
  case Nil
  then show ?case by simp
next
  case (Cons key keys)
  let ?s = "s\<lparr>nes_elements := AList.delete key (nes_elements s)\<rparr>"
  obtain ks where ks: "key_ok ks" "key = joinNFTSlice ks" using Cons.prems(1,3) by (auto simp: synced_def)
  have split: "joinNFTSlice (splitNFTSlice key) = key" using ks split_join by simp
  define K1 where "K1 = K(key := None)"
  have sy: "synced K1 ?s" using Cons.prems(1) by (auto simp: K1_def synced_def fun_eq_iff)
  have sub: "set keys \<subseteq> dom K1" using Cons.prems(2,3) by (auto simp: K1_def)
  have res: "K1 |` (- set keys) = K |` (- set (key # keys))" by (auto simp: K1_def restrict_map_def fun_eq_iff)
  let ?del = "[Delete (NElement (nes_containerName s) (splitNFTSlice key) [])]"
  have "K key \<noteq> None" using Cons.prems(3) by auto
  then have one: "nft_run (nes_containerName s) ?del K = Some K1"
    by (simp add: split K1_def)
  have "distinct keys" using Cons.prems(2) by simp
  from Cons.IH [OF sy this sub, of "tx @ ?del"]
  obtain ops s' where IH: "fold (\<lambda>key (tx, s). (tx @ [Delete (NElement (nes_containerName s) (splitNFTSlice key) [])],
        s\<lparr>nes_elements := AList.delete key (nes_elements s)\<rparr>)) keys (tx @ ?del, ?s) = ((tx @ ?del) @ ops, s')"
    "nft_run (nes_containerName s) ops K1 = Some (K1 |` (- set keys))"
    "synced (K1 |` (- set keys)) s'"
    by auto
  have "nft_run (nes_containerName s) (?del @ ops) K = Some (K |` (- set (key # keys)))"
    using one IH(2) unfolding nft_run_append res by (simp del: nft_run.simps)
  then show ?case using IH(1,3) unfolding res
    by (intro exI [of _ "?del @ ops"] exI [of _ s']) simp
qed

text \<open>Between synchronisations every key of the copy counts as left over.\<close>

definition at_rest :: "nftElementStorage \<Rightarrow> bool" where
  "at_rest s \<longleftrightarrow> set (nes_leftoverKeys s) = fst ` set (nes_elements s) \<and> distinct (nes_leftoverKeys s)"

lemma at_rest_reset: "at_rest (resetLeftoverKeys s)"
proof -
  have "distinct acc \<Longrightarrow> distinct (fold (\<lambda>(key, _). List.insert key) m acc)" for m :: "(string, string) gomap" and acc
    by (induction m arbitrary: acc) auto
  then show ?thesis unfolding at_rest_def using resetLeftoverKeys_set by (simp add: resetLeftoverKeys_def)
qed

text \<open>
  C38. A synchronisation of a set or map is exact: when the copy agrees with the kernel, asking for any list
  of elements and cleaning up writes operations that do not fail and leave in the kernel exactly the
  elements asked for, the last value of a key counting; then the copy agrees with the kernel again and
  is ready for the next round.
\<close>

theorem nftElementStorage_exact:
  assumes "synced K s" "at_rest s" "\<forall>(key, val)\<in>set es. key_ok key"
  shows "\<exists>ops s'. cleanupLeftoverKeys (ensureElems es (tx, s)) = (tx @ ops, s') \<and>
    nft_run (nes_containerName s) ops K = Some (wanted es) \<and> synced (wanted es) s' \<and> at_rest s'"
proof -
  have dom: "fst ` set (nes_elements s) = dom K" using assms(1) unfolding synced_def by (metis dom_map_of_conv_image_fst)
  obtain ops s1 where s1: "ensureElems es (tx, s) = (tx @ ops, s1)"
    "nft_run (nes_containerName s) ops K = Some (K ++ wanted es)" "synced (K ++ wanted es) s1"
    "set (nes_leftoverKeys s1) = set (nes_leftoverKeys s) - dom (wanted es)" "nes_containerName s1 = nes_containerName s"
    "distinct (nes_leftoverKeys s1)"
    using ensureElems_run [OF assms(1,3), of tx] assms(2) dom by (auto simp: at_rest_def)
  have rest: "set (nes_leftoverKeys s1) = dom K - dom (wanted es)" using s1(4) assms(2) dom by (simp add: at_rest_def)
  have K: "(K ++ wanted es) |` (- set (nes_leftoverKeys s1)) = wanted es"
    unfolding rest by (auto simp: restrict_map_def map_add_def fun_eq_iff split: option.split)
  from delete_loop [OF s1(3,6), of "tx @ ops"] rest
  obtain ops' s2 where s2: "fold (\<lambda>key (tx, s). (tx @ [Delete (NElement (nes_containerName s) (splitNFTSlice key) [])],
        s\<lparr>nes_elements := AList.delete key (nes_elements s)\<rparr>)) (nes_leftoverKeys s1) (tx @ ops, s1) = ((tx @ ops) @ ops', s2)"
    "nft_run (nes_containerName s1) ops' (K ++ wanted es) = Some (wanted es)" "synced (wanted es) s2"
    unfolding K by auto
  have "cleanupLeftoverKeys (ensureElems es (tx, s)) = (tx @ (ops @ ops'), resetLeftoverKeys s2)"
    by (simp add: cleanupLeftoverKeys_def s1(1) s2(1))
  moreover have "nft_run (nes_containerName s) (ops @ ops') K = Some (wanted es)"
    using s1(2,5) s2(2) by (simp add: nft_run_append)
  moreover have "synced (wanted es) (resetLeftoverKeys s2)" using s2(3) by (simp add: synced_def)
  ultimately show ?thesis using at_rest_reset [of s2] by auto
qed

definition example_storage :: nftElementStorage where
  "example_storage = \<lparr>nes_elements = [(''10.0.0.1 . tcp . 80'', ''goto a''), (''10.0.0.2 . tcp . 80'', ''goto b'')],
     nes_leftoverKeys = [''10.0.0.1 . tcp . 80'', ''10.0.0.2 . tcp . 80''], nes_containerType = ''map'', nes_containerName = ''service-ips''\<rparr>"

definition example_elems :: "(string list \<times> string list) list" where
  "example_elems = [([''10.0.0.1'', ''tcp'', ''80''], [''goto c'']), ([''10.0.0.3'', ''udp'', ''53''], [''goto d''])]"

text \<open>One element changes, one is new and one is gone.\<close>

theorem nftElementStorage_exact_witness:
  "\<exists>ops. fst (cleanupLeftoverKeys (ensureElems example_elems ([], example_storage))) = ops \<and>
    nft_run ''service-ips'' ops (map_of (nes_elements example_storage)) = Some (wanted example_elems) \<and> length ops = 4"
proof -
  have "joinNFTSlice [''10.0.0.1'', ''tcp'', ''80''] = ''10.0.0.1 . tcp . 80''" "joinNFTSlice [''10.0.0.2'', ''tcp'', ''80''] = ''10.0.0.2 . tcp . 80''"
    "key_ok [''10.0.0.1'', ''tcp'', ''80'']" "key_ok [''10.0.0.2'', ''tcp'', ''80'']" by code_simp+
  then have "synced (map_of (nes_elements example_storage)) example_storage"
    unfolding synced_def by (auto simp: example_storage_def split: if_splits)
  moreover have "at_rest example_storage" "\<forall>(key, val)\<in>set example_elems. key_ok key" by code_simp+
  ultimately obtain ops s' where "cleanupLeftoverKeys (ensureElems example_elems ([], example_storage)) = ([] @ ops, s')"
    "nft_run (nes_containerName example_storage) ops (map_of (nes_elements example_storage)) = Some (wanted example_elems)"
    using nftElementStorage_exact by meson
  moreover have "nes_containerName example_storage = ''service-ips''" by code_simp
  moreover have "length (fst (cleanupLeftoverKeys (ensureElems example_elems ([], example_storage)))) = 4" by code_simp
  ultimately show ?thesis by simp
qed

end
