(* ===== verification/Proxy_Util.thy ===== *)
theory Proxy_Util
  imports Nft_Rules
begin

text \<open>
  Helpers of the proxier, \<open>wao-loadbalancer/pkg/proxy/util/\<close>: the local traffic detectors of
  \<open>localdetector.go\<close>, the node port addresses of \<open>nodeport_addresses.go\<close>, \<open>IPPart\<close> of \<open>endpoints.go\<close>
  and \<open>AppendPortIfNeeded\<close> of \<open>utils.go\<close>. What the packages \<open>net\<close> and \<open>k8s.io/utils/net\<close> compute on
  addresses is a parameter; a CIDR is its text, and \<open>None\<close> the nil that parsing an invalid one gives.
\<close>

record util_env = net_env +
  ue_IsIPv4CIDRString :: "string \<Rightarrow> bool"
  ue_IsIPv6CIDRString :: "string \<Rightarrow> bool"
  ue_CIDR_IP :: "string \<Rightarrow> IP"
  ue_Contains :: "string \<Rightarrow> IP \<Rightarrow> bool"
  ue_IsLoopback :: "IP \<Rightarrow> bool"
  ue_To4 :: "string \<Rightarrow> bool"

section \<open>Local traffic\<close>

record detectLocal =
  dl_ifLocal :: "string list"
  dl_ifNotLocal :: "string list"
  dl_ifLocalNFT :: "string list"
  dl_ifNotLocalNFT :: "string list"

definition IsImplemented :: "detectLocal \<Rightarrow> bool" where
  "IsImplemented d \<longleftrightarrow> length (dl_ifLocal d) > 0"

definition NewNoOpLocalDetector :: detectLocal where
  "NewNoOpLocalDetector = \<lparr>dl_ifLocal = [], dl_ifNotLocal = [], dl_ifLocalNFT = [], dl_ifNotLocalNFT = []\<rparr>"

definition NewDetectLocalByCIDR :: "util_env \<Rightarrow> string \<Rightarrow> detectLocal" where
  "NewDetectLocalByCIDR env cidr =
     (let nftFamily = (if ue_IsIPv6CIDRString env cidr then ''ip6'' else ''ip'')
      in \<lparr>dl_ifLocal = [''-s'', cidr], dl_ifNotLocal = [''!'', ''-s'', cidr],
          dl_ifLocalNFT = [nftFamily, ''saddr'', cidr], dl_ifNotLocalNFT = [nftFamily, ''saddr'', ''!='', cidr]\<rparr>)"

definition NewDetectLocalByBridgeInterface :: "string \<Rightarrow> detectLocal" where
  "NewDetectLocalByBridgeInterface interfaceName =
     \<lparr>dl_ifLocal = [''-i'', interfaceName], dl_ifNotLocal = [''!'', ''-i'', interfaceName],
      dl_ifLocalNFT = [''iif'', interfaceName], dl_ifNotLocalNFT = [''iif'', ''!='', interfaceName]\<rparr>"

definition NewDetectLocalByInterfaceNamePrefix :: "string \<Rightarrow> detectLocal" where
  "NewDetectLocalByInterfaceNamePrefix interfacePrefix =
     \<lparr>dl_ifLocal = [''-i'', interfacePrefix @ ''+''], dl_ifNotLocal = [''!'', ''-i'', interfacePrefix @ ''+''],
      dl_ifLocalNFT = [''iif'', interfacePrefix @ ''*''], dl_ifNotLocalNFT = [''iif'', ''!='', interfacePrefix @ ''*'']\<rparr>"

section \<open>Node port addresses\<close>

definition IPv4ZeroCIDR :: string where "IPv4ZeroCIDR = ''0.0.0.0/0''"
definition IPv6ZeroCIDR :: string where "IPv6ZeroCIDR = ''::/0''"

definition IsZeroCIDR :: "string \<Rightarrow> bool" where
  "IsZeroCIDR cidr \<longleftrightarrow> (if cidr = IPv4ZeroCIDR \<or> cidr = IPv6ZeroCIDR then True else False)"

record NodePortAddresses =
  npa_cidrStrings :: "string list"
  npa_cidrs :: "string option list"
  npa_containsIPv4Loopback :: bool
  npa_matchAll :: bool

definition ipv4LoopbackStart :: IP where
  "ipv4LoopbackStart = Some ''127.0.0.0''"

text \<open>The loop that parses the CIDRs; it ends at the first that covers everything.\<close>

fun parseCIDRs :: "util_env \<Rightarrow> string list \<Rightarrow> NodePortAddresses \<Rightarrow> NodePortAddresses" where
  "parseCIDRs env [] npa = npa"
| "parseCIDRs env (str # strs) npa =
     (let parsed = ne_ParseCIDR env str;
          cidr = (case parsed of Inr (c, _) \<Rightarrow> Some c | Inl _ \<Rightarrow> None);
          npa = (case parsed of
                   Inr (c, family) \<Rightarrow>
                     if family = IPv4Protocol \<and> (ue_IsLoopback env (ue_CIDR_IP env c) \<or> ue_Contains env c ipv4LoopbackStart)
                     then npa\<lparr>npa_containsIPv4Loopback := True\<rparr> else npa
                 | Inl _ \<Rightarrow> npa)
      in if IsZeroCIDR str then npa\<lparr>npa_cidrs := [cidr], npa_matchAll := True\<rparr>
         else parseCIDRs env strs (npa\<lparr>npa_cidrs := npa_cidrs npa @ [cidr]\<rparr>))"

definition NewNodePortAddresses :: "util_env \<Rightarrow> string \<Rightarrow> string list \<Rightarrow> NodePortAddresses" where
  "NewNodePortAddresses env family cidrStrings =
     (let own = filter (\<lambda>str. (family = IPv4Protocol) = ue_IsIPv4CIDRString env str) cidrStrings;
          own = (if length own = 0 then (if family = IPv4Protocol then [IPv4ZeroCIDR] else [IPv6ZeroCIDR]) else own)
      in parseCIDRs env own \<lparr>npa_cidrStrings = own, npa_cidrs = [], npa_containsIPv4Loopback = False, npa_matchAll = False\<rparr>)"

datatype net_Addr = IPAddr IP | IPNet IP | OtherAddr string

definition Addr_IP :: "net_Addr \<Rightarrow> IP option" where
  "Addr_IP addr = (case addr of IPAddr ip \<Rightarrow> Some ip | IPNet ip \<Rightarrow> Some ip | OtherAddr _ \<Rightarrow> None)"

fun matchAddrs :: "util_env \<Rightarrow> string option list \<Rightarrow> net_Addr list \<Rightarrow> (string, IP) gomap \<Rightarrow> (string, IP) gomap result" where
  "matchAddrs env [] addrs addresses = Inr addresses"
| "matchAddrs env (cidr # cidrs) addrs addresses =
     (let ips = List.map_filter Addr_IP addrs
      in case cidr of
           None \<Rightarrow> if ips = [] then matchAddrs env cidrs addrs addresses else Inl (Panic ''cidr'')
         | Some c \<Rightarrow> matchAddrs env cidrs addrs
             (fold (\<lambda>ip m. if ue_Contains env c ip then AList.update (IP_String ip) ip m else m) ips addresses))"

definition GetNodeIPs :: "util_env \<Rightarrow> net_Addr list result \<Rightarrow> NodePortAddresses \<Rightarrow> IP list result" where
  "GetNodeIPs env InterfaceAddrs npa =
     (case InterfaceAddrs of
        Inl e \<Rightarrow> Inl (Wrap ''error listing all interfaceAddrs from host'' e)
      | Inr addrs \<Rightarrow> res_bind (matchAddrs env (npa_cidrs npa) addrs []) (\<lambda>addresses. Inr (map snd addresses)))"

section \<open>Addresses with ports\<close>

definition IPPart :: "util_env \<Rightarrow> string \<Rightarrow> string" where
  "IPPart env s =
     (if ne_ParseIPSloppy env s \<noteq> None then s
      else (case SplitHostPort s of
              Inl _ \<Rightarrow> []
            | Inr (host, _) \<Rightarrow>
                (case ne_ParseIPSloppy env host of None \<Rightarrow> [] | Some ip \<Rightarrow> IP_String (Some ip))))"

definition AppendPortIfNeeded :: "util_env \<Rightarrow> string \<Rightarrow> int \<Rightarrow> string" where
  "AppendPortIfNeeded env addr port =
     (case SplitHostPort addr of
        Inr _ \<Rightarrow> addr
      | Inl _ \<Rightarrow>
          (case ne_ParseIPSloppy env addr of
             None \<Rightarrow> addr
           | Some ip \<Rightarrow> if ue_To4 env ip then addr @ '':'' @ Itoa port else ''['' @ addr @ '']:'' @ Itoa port))"

section \<open>Lemmas\<close>

lemma LastIndex_append: "c \<notin> set p \<Longrightarrow> LastIndex c (h @ c # p) = Some (length h)"
proof -
  assume "c \<notin> set p"
  then have "takeWhile (\<lambda>x. x \<noteq> c) (rev p @ c # rev h) = rev p" by (simp add: takeWhile_append)
  then show ?thesis by (simp add: LastIndex_def)
qed

lemma IndexByte_append: "c \<notin> set h \<Longrightarrow> IndexByte c (h @ c # p) = Some (length h)"
  by (simp add: IndexByte_def takeWhile_append)

definition host_ok :: "string \<Rightarrow> bool" where
  "host_ok s \<longleftrightarrow> CHR ''['' \<notin> set s \<and> CHR '']'' \<notin> set s"

lemma SplitHostPort_JoinHostPort:
  assumes "host_ok host" "host_ok port" "CHR '':'' \<notin> set port"
  shows "SplitHostPort (JoinHostPort host port) = Inr (host, port)"
proof (cases "CHR '':'' \<in> set host")
  case True
  let ?hp = "CHR ''['' # host @ CHR '']'' # CHR '':'' # port"
  have "LastIndex CHR '':'' ((CHR ''['' # host @ [CHR '']'']) @ CHR '':'' # port) = Some (length host + 2)"
    by (subst LastIndex_append) (simp_all add: assms)
  then have l: "LastIndex CHR '':'' ?hp = Some (length host + 2)" by simp
  have "IndexByte CHR '']'' ((CHR ''['' # host) @ CHR '']'' # CHR '':'' # port) = Some (length host + 1)"
    by (subst IndexByte_append) (use assms in \<open>simp_all add: host_ok_def\<close>)
  then have e: "IndexByte CHR '']'' ?hp = Some (length host + 1)" by simp
  have "SplitHostPort ?hp = Inr (host, port)"
    unfolding SplitHostPort_def l e using assms by (simp add: host_ok_def)
  then show ?thesis using True by (simp add: JoinHostPort_def)
next
  case False
  let ?hp = "host @ CHR '':'' # port"
  have l: "LastIndex CHR '':'' ?hp = Some (length host)" by (rule LastIndex_append [OF assms(3)])
  have "hd ?hp \<noteq> CHR ''[''" using assms(1) by (cases host) (auto simp: host_ok_def)
  then have "SplitHostPort ?hp = Inr (host, port)"
    unfolding SplitHostPort_def l using False assms by (simp add: host_ok_def)
  then show ?thesis using False by (simp add: JoinHostPort_def)
qed

lemma Itoa_digits: "set (Itoa i) \<subseteq> insert CHR ''-'' (char_of ` {48..<58::nat})"
proof -
  have "set (nat_digits n) \<subseteq> char_of ` {48..<58::nat}" for n
  proof (induction n rule: nat_digits.induct)
    case (1 n)
    show ?case
    proof (cases "n < 10")
      case True
      then show ?thesis by (subst nat_digits.simps) auto
    next
      case False
      have "48 + n mod 10 \<in> {48..<58::nat}" by simp
      then show ?thesis using 1 [OF False] False by (subst nat_digits.simps) auto
    qed
  qed
  then show ?thesis by (auto simp: Itoa_def)
qed

lemma Itoa_no: "c \<notin> insert CHR ''-'' (char_of ` {48..<58::nat}) \<Longrightarrow> c \<notin> set (Itoa i)"
  using Itoa_digits [of i] by blast

lemma not_digit: "c \<noteq> CHR ''-'' \<Longrightarrow> of_char c < (48::nat) \<or> 58 \<le> (of_char c :: nat) \<Longrightarrow> c \<notin> insert CHR ''-'' (char_of ` {48..<58::nat})"
proof -
  assume c: "c \<noteq> CHR ''-''" "of_char c < (48::nat) \<or> 58 \<le> (of_char c :: nat)"
  have "(of_char (char_of n :: char) :: nat) = n" if "n < 58" for n :: nat using that by (simp add: of_char_of)
  then show ?thesis using c by force
qed

lemma Itoa_plain [simp]: "CHR '':'' \<notin> set (Itoa i)" "CHR ''['' \<notin> set (Itoa i)" "CHR '']'' \<notin> set (Itoa i)" "CHR '' '' \<notin> set (Itoa i)"
  by (rule Itoa_no, rule not_digit, simp, simp)+

text \<open>The address of an endpoint is found again in its text.\<close>

lemma IPPart_endpoint:
  assumes "ne_ParseIPSloppy env (JoinHostPort ip (Itoa port)) = None" "ne_ParseIPSloppy env ip = Some ip" "host_ok ip"
  shows "IPPart env (JoinHostPort ip (Itoa port)) = ip"
proof -
  have "SplitHostPort (JoinHostPort ip (Itoa port)) = Inr (ip, Itoa port)"
    by (rule SplitHostPort_JoinHostPort [OF assms(3)]) (simp_all add: host_ok_def)
  then show ?thesis using assms by (simp add: IPPart_def IP_String_def)
qed

end
