(* ===== verification/Service_Tracker.thy ===== *)
theory Service_Tracker
  imports Service_Ports
begin

text \<open>
  The tracker of service changes and the table of service ports,
  \<open>wao-loadbalancer/pkg/proxy/servicechangetracker.go\<close>. The tracker keeps, for every service with
  changes the proxier has not seen, the ports before and after; \<open>ServicePortMap.Update\<close> applies them.
  The main result is that the table then holds exactly the ports of the services as they are.

  A nil map is \<open>None\<close>, since \<open>reflect.DeepEqual\<close> tells it from an empty one. The callback
  \<open>processServiceMapChange\<close> is not given to any tracker of the nftables proxier; the model returns
  the calls it would get.
\<close>

section \<open>Maps that may be nil\<close>

type_synonym ServicePortMap = "(ServicePortName, ServicePort) gomap"

definition elems :: "('k, 'v) gomap option \<Rightarrow> ('k, 'v) gomap" where
  "elems m = (case m of None \<Rightarrow> [] | Some m \<Rightarrow> m)"

text \<open>\<open>reflect.DeepEqual\<close> on maps whose values are compared by what they hold.\<close>

definition DeepEqual_map :: "('k, 'v) gomap \<Rightarrow> ('k, 'v) gomap \<Rightarrow> bool" where
  "DeepEqual_map a b \<longleftrightarrow> length a = length b \<and> list_all (\<lambda>(k, v). map_of b k = Some v) a"

definition DeepEqual_nilmap :: "('k, 'v) gomap option \<Rightarrow> ('k, 'v) gomap option \<Rightarrow> bool" where
  "DeepEqual_nilmap a b = (case (a, b) of
     (None, None) \<Rightarrow> True | (Some a, Some b) \<Rightarrow> DeepEqual_map a b | _ \<Rightarrow> False)"

lemma elems_simps [simp]: "elems None = []" "elems (Some m) = m"
  by (simp_all add: elems_def)

lemma DeepEqual_map_iff:
  assumes "wf_map a" "wf_map b"
  shows "DeepEqual_map a b \<longleftrightarrow> map_of a = map_of b"
proof
  assume d: "DeepEqual_map a b"
  have "set a \<subseteq> set b" using d map_of_SomeD by (fastforce simp: DeepEqual_map_def list_all_iff)
  moreover have "card (set a) = card (set b)"
    using d distinct_card [OF wf_map_distinct [OF assms(1)]] distinct_card [OF wf_map_distinct [OF assms(2)]]
    by (simp add: DeepEqual_map_def)
  ultimately have "set a = set b" by (intro card_subset_eq) simp_all
  then show "map_of a = map_of b" using assms by (intro map_of_inject_set [THEN iffD2]) simp_all
next
  assume eq: "map_of a = map_of b"
  then have "set a = set b" using assms map_of_inject_set by blast
  then have "length a = length b" using assms by (metis distinct_card wf_map_distinct)
  then show "DeepEqual_map a b" using \<open>set a = set b\<close> assms by (auto simp: DeepEqual_map_def list_all_iff)
qed

lemma DeepEqual_nilmap_lookup:
  assumes "wf_map (elems a)" "wf_map (elems b)" "DeepEqual_nilmap a b"
  shows "map_of (elems a) = map_of (elems b)"
  using assms by (auto simp: DeepEqual_nilmap_def DeepEqual_map_iff split: option.splits)

section \<open>The tracker\<close>

record serviceChange =
  sc_previous :: "ServicePortMap option"
  sc_current :: "ServicePortMap option"

record ServiceChangeTracker =
  sct_items :: "(NamespacedName, serviceChange) gomap"
  sct_makeServiceInfo :: "(v1_ServicePort \<Rightarrow> v1_Service \<Rightarrow> BaseServicePortInfo \<Rightarrow> ServicePort) option"
  sct_processServiceMapChange :: bool
  sct_ipFamily :: string

definition NewServiceChangeTracker where
  "NewServiceChangeTracker makeServiceInfo ipFamily processServiceMapChange =
     \<lparr>sct_items = [], sct_makeServiceInfo = makeServiceInfo,
      sct_processServiceMapChange = processServiceMapChange, sct_ipFamily = ipFamily\<rparr>"

definition svcNN :: "v1_Service \<Rightarrow> NamespacedName" where
  "svcNN service = \<lparr>nn_Namespace = vs_Namespace service, nn_Name = vs_Name service\<rparr>"

definition portNameOf :: "v1_Service \<Rightarrow> v1_ServicePort \<Rightarrow> ServicePortName" where
  "portNameOf service port =
     \<lparr>spn_NamespacedName = svcNN service, spn_Port = vsp_Name port, spn_Protocol = vsp_Protocol port\<rparr>"

fun portsToMap ::
  "svc_env \<Rightarrow> ServiceChangeTracker \<Rightarrow> v1_Service \<Rightarrow> v1_ServicePort list \<Rightarrow> ServicePortMap \<Rightarrow> ServicePortMap result" where
  "portsToMap env sct service [] svcPortMap = Inr svcPortMap"
| "portsToMap env sct service (port # ports) svcPortMap =
     res_bind (newBaseServiceInfo env service (sct_ipFamily sct) port) (\<lambda>baseSvcInfo.
       portsToMap env sct service ports
         (AList.update (portNameOf service port)
            (case sct_makeServiceInfo sct of
               Some f \<Rightarrow> f port service baseSvcInfo | None \<Rightarrow> BaseServicePort baseSvcInfo) svcPortMap))"

definition serviceToServiceMap ::
  "svc_env \<Rightarrow> ServiceChangeTracker \<Rightarrow> v1_Service option \<Rightarrow> ServicePortMap option result" where
  "serviceToServiceMap env sct service = (case service of
     None \<Rightarrow> Inr None
   | Some service \<Rightarrow>
       if ShouldSkipService env service then Inr None
       else if GetClusterIPByFamily env (sct_ipFamily sct) service = [] then Inr None
       else res_bind (portsToMap env sct service (vs_Ports service) []) (\<lambda>m. Inr (Some m)))"

definition sct_Update ::
  "svc_env \<Rightarrow> v1_Service option \<Rightarrow> v1_Service option \<Rightarrow> ServiceChangeTracker \<Rightarrow> (bool \<times> ServiceChangeTracker) result" where
  "sct_Update env previous current sct =
     (case (case current of Some svc \<Rightarrow> Some svc | None \<Rightarrow> previous) of
        None \<Rightarrow> Inr (False, sct)
      | Some svc \<Rightarrow>
          (let namespacedName = svcNN svc in
           res_bind (case map_of (sct_items sct) namespacedName of
                       Some change \<Rightarrow> Inr (sc_previous change)
                     | None \<Rightarrow> serviceToServiceMap env sct previous) (\<lambda>changePrevious.
           res_bind (serviceToServiceMap env sct current) (\<lambda>changeCurrent.
             let change = \<lparr>sc_previous = changePrevious, sc_current = changeCurrent\<rparr>;
                 items = (if DeepEqual_nilmap changePrevious changeCurrent
                          then AList.delete namespacedName (sct_items sct)
                          else AList.update namespacedName change (sct_items sct))
             in Inr (items \<noteq> [], sct\<lparr>sct_items := items\<rparr>)))))"

section \<open>The table\<close>

record UpdateServiceMapResult =
  usr_UpdatedServices :: "NamespacedName list"
  usr_DeletedUDPClusterIPs :: "string list"
  usr_processed :: "(ServicePortMap option \<times> ServicePortMap option) list"

definition spm_merge :: "ServicePortMap \<Rightarrow> ServicePortMap \<Rightarrow> ServicePortMap" where
  "spm_merge other sm = fold (\<lambda>(svcPortName, info). AList.update svcPortName info) other sm"

definition spm_filter :: "ServicePortMap \<Rightarrow> ServicePortMap \<Rightarrow> ServicePortMap" where
  "spm_filter other sm = filter (\<lambda>(svcPortName, _). map_of other svcPortName = None) sm"

definition spm_unmerge :: "ServicePortMap \<Rightarrow> ServicePortMap \<times> string list \<Rightarrow> ServicePortMap \<times> string list" where
  "spm_unmerge other st =
     fold (\<lambda>(svcPortName, _) (sm, deletedUDPClusterIPs).
       case map_of sm svcPortName of
         None \<Rightarrow> (sm, deletedUDPClusterIPs)
       | Some info \<Rightarrow>
           (AList.delete svcPortName sm,
            if bsp_protocol (ServicePort_base info) = ProtocolUDP
            then List.insert (IP_String (bsp_clusterIP (ServicePort_base info))) deletedUDPClusterIPs
            else deletedUDPClusterIPs)) other st"

definition applyChange :: "NamespacedName \<times> serviceChange \<Rightarrow> ServicePortMap \<times> string list \<Rightarrow> ServicePortMap \<times> string list" where
  "applyChange c st =
     (let (nn, change) = c; (sm, deleted) = st;
          sm = spm_merge (elems (sc_current change)) sm;
          previous = spm_filter (elems (sc_current change)) (elems (sc_previous change))
      in spm_unmerge previous (sm, deleted))"

definition spm_Update ::
  "ServiceChangeTracker \<Rightarrow> ServicePortMap \<Rightarrow> UpdateServiceMapResult \<times> ServiceChangeTracker \<times> ServicePortMap" where
  "spm_Update sct sm =
     (let (sm, deleted) = fold applyChange (sct_items sct) (sm, [])
      in (\<lparr>usr_UpdatedServices = fold (\<lambda>(nn, _). List.insert nn) (sct_items sct) [],
           usr_DeletedUDPClusterIPs = deleted,
           usr_processed = (if sct_processServiceMapChange sct
                            then map (\<lambda>(_, change). (sc_previous change, sc_current change)) (sct_items sct) else [])\<rparr>,
          sct\<lparr>sct_items := []\<rparr>, sm))"

definition HealthCheckNodePorts :: "ServicePortMap \<Rightarrow> (NamespacedName, int) gomap" where
  "HealthCheckNodePorts sm =
     fold (\<lambda>(svcPortName, info) ports.
       if bsp_healthCheckNodePort (ServicePort_base info) \<noteq> 0
       then AList.update (spn_NamespacedName svcPortName) (bsp_healthCheckNodePort (ServicePort_base info) mod 2 ^ 16) ports
       else ports) sm []"

section \<open>The table holds the ports of the current services\<close>

lemma portsToMap_keys:
  assumes "portsToMap env sct service ports m = Inr m'" "wf_map m" "\<forall>k\<in>fst ` set m. spn_NamespacedName k = svcNN service"
  shows "wf_map m' \<and> (\<forall>k\<in>fst ` set m'. spn_NamespacedName k = svcNN service)"
  using assms
proof (induction env sct service ports m rule: portsToMap.induct)
  case (2 env sct service port ports m)
  from "2.prems"(1) obtain b where b: "newBaseServiceInfo env service (sct_ipFamily sct) port = Inr b"
    by (auto simp: res_bind_Inr_iff)
  show ?case
    by (rule "2.IH" [OF _ wf_map_update [OF "2.prems"(2)]])
      (use "2.prems" b in \<open>auto simp: keys_update portNameOf_def split: option.splits\<close>)
qed auto

lemma serviceToServiceMap_keys:
  assumes "serviceToServiceMap env sct svc = Inr m" "\<And>s. svc = Some s \<Longrightarrow> svcNN s = nn"
  shows "wf_map (elems m) \<and> (\<forall>k\<in>fst ` set (elems m). spn_NamespacedName k = nn)"
  using assms portsToMap_keys [of env sct _ _ "[]"]
  by (fastforce simp: serviceToServiceMap_def res_bind_Inr_iff split: option.splits if_splits)

lemma map_of_merge: "wf_map other \<Longrightarrow> map_of (spm_merge other sm) k = (case map_of other k of Some v \<Rightarrow> Some v | None \<Rightarrow> map_of sm k)"
  unfolding spm_merge_def by (rule map_of_fold_update)

lemma map_of_unmerge:
  "map_of (fst (spm_unmerge other st)) k = (if map_of other k = None then map_of (fst st) k else None)"
  by (induction other arbitrary: st) (auto simp: spm_unmerge_def simp del: map_of_eq_None_iff split: option.split prod.split)

lemma map_of_applyChange:
  assumes "wf_map (elems (sc_current ch))"
  shows "map_of (fst (applyChange (nn, ch) st)) k =
    (case map_of (elems (sc_current ch)) k of
       Some v \<Rightarrow> Some v
     | None \<Rightarrow> if map_of (elems (sc_previous ch)) k \<noteq> None then None else map_of (fst st) k)"
  by (cases st) (simp add: applyChange_def Let_def map_of_unmerge map_of_merge [OF assms] spm_filter_def map_of_filter_keys
      split: option.split)

definition udp_ip :: "ServicePort option \<Rightarrow> string set" where
  "udp_ip p = (case p of
     Some info \<Rightarrow> if bsp_protocol (ServicePort_base info) = ProtocolUDP then {IP_String (bsp_clusterIP (ServicePort_base info))} else {}
   | None \<Rightarrow> {})"

lemma udp_ip_None [simp]: "udp_ip None = {}"
  by (simp add: udp_ip_def)

lemma deleted_unmerge:
  assumes "wf_map other"
  shows "set (snd (spm_unmerge other st)) = set (snd st) \<union> (\<Union>k\<in>fst ` set other. udp_ip (map_of (fst st) k))"
  using assms
proof (induction other arbitrary: st)
  case (Cons x other)
  obtain sm d where st: "st = (sm, d)" by (cases st)
  obtain a b where x: "x = (a, b)" by (cases x)
  have "a \<notin> fst ` set other" using Cons.prems x by simp
  then have "(\<Union>k\<in>fst ` set other. udp_ip (map_of (AList.delete a sm) k)) = (\<Union>k\<in>fst ` set other. udp_ip (map_of sm k))"
    by (intro SUP_cong) auto
  then show ?case
    using Cons.IH [of "(AList.delete a sm, _)"] Cons.IH [of "(sm, d)"] Cons.prems
    by (auto simp: spm_unmerge_def st x udp_ip_def split: option.split)
qed (simp add: spm_unmerge_def)

definition change_ok :: "NamespacedName \<times> serviceChange \<Rightarrow> bool" where
  "change_ok c \<longleftrightarrow> wf_map (elems (sc_current (snd c))) \<and> wf_map (elems (sc_previous (snd c))) \<and>
     (\<forall>k\<in>fst ` set (elems (sc_current (snd c))). spn_NamespacedName k = fst c) \<and>
     (\<forall>k\<in>fst ` set (elems (sc_previous (snd c))). spn_NamespacedName k = fst c)"

lemma applyChange_other:
  assumes "change_ok (nn, ch)" "spn_NamespacedName k \<noteq> nn"
  shows "map_of (fst (applyChange (nn, ch) st)) k = map_of (fst st) k"
proof -
  have "map_of (elems (sc_current ch)) k = None" "map_of (elems (sc_previous ch)) k = None"
    using assms by (auto simp: change_ok_def map_of_eq_None_iff)
  then show ?thesis using assms by (simp add: map_of_applyChange change_ok_def)
qed

lemma map_of_applyChanges:
  assumes "wf_map items" "\<forall>c\<in>set items. change_ok c"
  shows "map_of (fst (fold applyChange items st)) k =
    (case map_of items (spn_NamespacedName k) of
       None \<Rightarrow> map_of (fst st) k
     | Some ch \<Rightarrow> (case map_of (elems (sc_current ch)) k of
         Some v \<Rightarrow> Some v
       | None \<Rightarrow> if map_of (elems (sc_previous ch)) k \<noteq> None then None else map_of (fst st) k))"
  using assms
proof (induction items arbitrary: st)
  case (Cons c items)
  obtain nn ch where c: "c = (nn, ch)" by (cases c)
  show ?case
  proof (cases "spn_NamespacedName k = nn")
    case True
    then have "map_of items (spn_NamespacedName k) = None"
      using Cons.prems c by (simp add: map_of_eq_None_iff)
    then show ?thesis
      using Cons.IH [of "applyChange c st"] Cons.prems True c by (simp add: map_of_applyChange change_ok_def)
  next
    case False
    have e: "map_of (fst (applyChange c st)) k = map_of (fst st) k"
      using Cons.prems c False by (simp add: applyChange_other)
    show ?thesis
      using Cons.IH [of "applyChange c st", unfolded e] Cons.prems False by (simp add: c)
  qed
qed simp

lemma deleted_applyChange:
  assumes "change_ok (nn, ch)"
  shows "set (snd (applyChange (nn, ch) st)) = set (snd st) \<union>
    (\<Union>k\<in>{k. map_of (elems (sc_current ch)) k = None \<and> map_of (elems (sc_previous ch)) k \<noteq> None}. udp_ip (map_of (fst st) k))"
proof -
  obtain sm d where st: "st = (sm, d)" by (cases st)
  let ?pre = "spm_filter (elems (sc_current ch)) (elems (sc_previous ch))"
  have wf: "wf_map (elems (sc_current ch))" "wf_map ?pre"
    using assms by (simp_all add: change_ok_def spm_filter_def distinct_map_filter)
  have keys: "fst ` set ?pre = {k. map_of (elems (sc_current ch)) k = None \<and> map_of (elems (sc_previous ch)) k \<noteq> None}"
    unfolding spm_filter_def by (rule set_eqI) (simp only: keys_map_of map_of_filter_keys mem_Collect_eq split: if_split, blast)
  have "(\<Union>k\<in>fst ` set ?pre. udp_ip (map_of (spm_merge (elems (sc_current ch)) sm) k)) = (\<Union>k\<in>fst ` set ?pre. udp_ip (map_of sm k))"
    unfolding keys using map_of_merge [OF wf(1)] by (intro SUP_cong) simp_all
  then show ?thesis
    unfolding st applyChange_def Let_def by (simp add: deleted_unmerge [OF wf(2)] keys)
qed

lemma deleted_applyChanges:
  assumes "wf_map items" "\<forall>c\<in>set items. change_ok c"
  shows "set (snd (fold applyChange items st)) = set (snd st) \<union> (\<Union>(nn, ch)\<in>set items.
    \<Union>k\<in>{k. map_of (elems (sc_current ch)) k = None \<and> map_of (elems (sc_previous ch)) k \<noteq> None}. udp_ip (map_of (fst st) k))"
  using assms
proof (induction items arbitrary: st)
  case (Cons c items)
  obtain nn ch where c: "c = (nn, ch)" by (cases c)
  have same: "map_of (fst (applyChange c st)) k = map_of (fst st) k"
    if "(n, x) \<in> set items" "map_of (elems (sc_previous x)) k \<noteq> None" for n x k
  proof -
    have "n \<noteq> nn" using that(1) Cons.prems(1) c by (auto simp: rev_image_eqI)
    moreover have "spn_NamespacedName k = n"
      using that Cons.prems(2) keys_map_of [of k "elems (sc_previous x)"] by (fastforce simp: change_ok_def)
    ultimately show ?thesis using Cons.prems(2) c by (intro applyChange_other [of nn ch k st, folded c]) simp_all
  qed
  have "(\<Union>(n, x)\<in>set items. \<Union>k\<in>{k. map_of (elems (sc_current x)) k = None \<and> map_of (elems (sc_previous x)) k \<noteq> None}.
        udp_ip (map_of (fst (applyChange c st)) k)) =
      (\<Union>(n, x)\<in>set items. \<Union>k\<in>{k. map_of (elems (sc_current x)) k = None \<and> map_of (elems (sc_previous x)) k \<noteq> None}.
        udp_ip (map_of (fst st) k))"
    by (intro SUP_cong refl) (auto simp: same)
  then show ?case
    using Cons.IH [of "applyChange c st"] Cons.prems deleted_applyChange [of nn ch st] by (simp add: c Un_assoc)
qed simp

text \<open>
  The environment of the table: the services as the API server has them, events that report one
  change each with the old and the new object, and calls of \<open>Update\<close> in between.
\<close>

inductive svc_reach ::
  "svc_env \<Rightarrow> ServiceChangeTracker \<Rightarrow> (NamespacedName \<Rightarrow> v1_Service option) \<Rightarrow> ServiceChangeTracker \<Rightarrow> ServicePortMap \<Rightarrow> bool"
  for env sct0 where
  Start: "sct_items sct0 = [] \<Longrightarrow> svc_reach env sct0 Map.empty sct0 []"
| Event: "svc_reach env sct0 svcs sct sm \<Longrightarrow> (\<And>s. new = Some s \<Longrightarrow> svcNN s = nn) \<Longrightarrow>
    sct_Update env (svcs nn) new sct = Inr (b, sct') \<Longrightarrow> svc_reach env sct0 (svcs(nn := new)) sct' sm"
| Sync: "svc_reach env sct0 svcs sct sm \<Longrightarrow> spm_Update sct sm = (res, sct', sm') \<Longrightarrow> svc_reach env sct0 svcs sct' sm'"

lemma portsToMap_items [simp]: "portsToMap env (sct\<lparr>sct_items := i\<rparr>) service ports m = portsToMap env sct service ports m"
  by (induction ports arbitrary: m) (simp_all add: res_bind_def)

lemma serviceToServiceMap_items [simp]:
  "serviceToServiceMap env (sct\<lparr>sct_items := i\<rparr>) svc = serviceToServiceMap env sct svc"
  by (cases svc) (simp_all add: serviceToServiceMap_def)

definition svc_inv where
  "svc_inv env sct0 svcs sct sm \<longleftrightarrow> sct0\<lparr>sct_items := sct_items sct\<rparr> = sct \<and> wf_map (sct_items sct) \<and>
     (\<forall>c\<in>set (sct_items sct). change_ok c) \<and>
     (\<forall>nn. (\<forall>s. svcs nn = Some s \<longrightarrow> svcNN s = nn) \<and>
       (\<exists>cur. serviceToServiceMap env sct0 (svcs nn) = Inr cur \<and>
         (case map_of (sct_items sct) nn of
            None \<Rightarrow> (\<forall>k. spn_NamespacedName k = nn \<longrightarrow> map_of sm k = map_of (elems cur) k)
          | Some ch \<Rightarrow> sc_current ch = cur \<and>
              (\<forall>k. spn_NamespacedName k = nn \<longrightarrow> map_of sm k = map_of (elems (sc_previous ch)) k))))"

lemma svc_inv_pending:
  assumes "svc_inv env sct0 svcs sct sm" "map_of (sct_items sct) nn = Some ch" "spn_NamespacedName k = nn"
  shows "map_of sm k = map_of (elems (sc_previous ch)) k"
proof -
  have "\<exists>cur. serviceToServiceMap env sct0 (svcs nn) = Inr cur \<and>
         (case map_of (sct_items sct) nn of
            None \<Rightarrow> (\<forall>k. spn_NamespacedName k = nn \<longrightarrow> map_of sm k = map_of (elems cur) k)
          | Some ch \<Rightarrow> sc_current ch = cur \<and>
              (\<forall>k. spn_NamespacedName k = nn \<longrightarrow> map_of sm k = map_of (elems (sc_previous ch)) k))"
    using assms(1) unfolding svc_inv_def by blast
  with assms(2,3) show ?thesis by simp
qed

lemma svc_inv_Start: "sct_items sct0 = [] \<Longrightarrow> svc_inv env sct0 Map.empty sct0 []"
  by (auto simp: svc_inv_def serviceToServiceMap_def)

lemma svc_inv_Sync:
  assumes inv: "svc_inv env sct0 svcs sct sm" and up: "spm_Update sct sm = (res, sct', sm')"
  shows "sct' = sct0\<lparr>sct_items := []\<rparr>"
    and "\<exists>cur. serviceToServiceMap env sct0 (svcs (spn_NamespacedName k)) = Inr cur \<and> map_of sm' k = map_of (elems cur) k"
proof -
  have sct': "sct' = sct\<lparr>sct_items := []\<rparr>" and sm': "sm' = fst (fold applyChange (sct_items sct) (sm, []))"
    using up by (auto simp: spm_Update_def split: prod.splits)
  have e: "sct = sct0\<lparr>sct_items := sct_items sct\<rparr>" using inv by (simp add: svc_inv_def)
  show "sct' = sct0\<lparr>sct_items := []\<rparr>" unfolding sct' by (subst e) simp
  let ?nn = "spn_NamespacedName k"
  obtain cur where cur: "serviceToServiceMap env sct0 (svcs ?nn) = Inr cur"
    and c: "case map_of (sct_items sct) ?nn of
            None \<Rightarrow> (\<forall>k. spn_NamespacedName k = ?nn \<longrightarrow> map_of sm k = map_of (elems cur) k)
          | Some ch \<Rightarrow> sc_current ch = cur \<and>
              (\<forall>k. spn_NamespacedName k = ?nn \<longrightarrow> map_of sm k = map_of (elems (sc_previous ch)) k)"
    using inv unfolding svc_inv_def by blast
  have wf: "wf_map (sct_items sct)" "\<forall>c\<in>set (sct_items sct). change_ok c"
    using inv by (simp_all add: svc_inv_def)
  have "map_of sm' k = map_of (elems cur) k"
  proof (cases "map_of (sct_items sct) ?nn")
    case None
    with c show ?thesis unfolding sm' map_of_applyChanges [OF wf] by simp
  next
    case (Some ch)
    with c have "sc_current ch = cur" "map_of sm k = map_of (elems (sc_previous ch)) k" by simp_all
    then show ?thesis
      unfolding sm' map_of_applyChanges [OF wf] Some by (cases "map_of (elems cur) k") simp_all
  qed
  then show "\<exists>cur. serviceToServiceMap env sct0 (svcs ?nn) = Inr cur \<and> map_of sm' k = map_of (elems cur) k"
    using cur by blast
qed

lemma svc_inv_Event:
  assumes inv: "svc_inv env sct0 svcs sct sm" and nn: "\<And>s. new = Some s \<Longrightarrow> svcNN s = nn"
    and up: "sct_Update env (svcs nn) new sct = Inr (b, sct')"
  shows "svc_inv env sct0 (svcs(nn := new)) sct' sm"
proof (cases "(case new of Some svc \<Rightarrow> Some svc | None \<Rightarrow> svcs nn)")
  case None
  then have "new = None" "svcs nn = None" by (auto split: option.splits)
  moreover then have "sct' = sct" using up by (simp add: sct_Update_def)
  moreover have "svcs(nn := new) = svcs" using calculation by (simp add: fun_upd_idem)
  ultimately show ?thesis using inv by simp
next
  case (Some svc)
  have "svcNN svc = nn" using Some nn inv by (auto simp: svc_inv_def split: option.splits)
  have e: "sct = sct0\<lparr>sct_items := sct_items sct\<rparr>" using inv by (simp add: svc_inv_def)
  have S: "serviceToServiceMap env sct = serviceToServiceMap env sct0"
    by (rule ext) (subst e, simp)
  obtain old where old: "serviceToServiceMap env sct0 (svcs nn) = Inr old"
    and c: "case map_of (sct_items sct) nn of
            None \<Rightarrow> (\<forall>k. spn_NamespacedName k = nn \<longrightarrow> map_of sm k = map_of (elems old) k)
          | Some ch \<Rightarrow> sc_current ch = old \<and>
              (\<forall>k. spn_NamespacedName k = nn \<longrightarrow> map_of sm k = map_of (elems (sc_previous ch)) k)"
    and svcs: "\<forall>s. svcs nn = Some s \<longrightarrow> svcNN s = nn"
    using inv unfolding svc_inv_def by blast
  define pre where "pre = (case map_of (sct_items sct) nn of Some ch \<Rightarrow> sc_previous ch | None \<Rightarrow> old)"
  have pre: "(case map_of (sct_items sct) nn of Some change \<Rightarrow> Inr (sc_previous change)
      | None \<Rightarrow> serviceToServiceMap env sct (svcs nn)) = Inr pre"
    unfolding pre_def S old by (simp split: option.split)
  obtain cur where cur: "serviceToServiceMap env sct0 new = Inr cur"
    and sct': "sct' = sct\<lparr>sct_items := if DeepEqual_nilmap pre cur then AList.delete nn (sct_items sct)
          else AList.update nn \<lparr>sc_previous = pre, sc_current = cur\<rparr> (sct_items sct)\<rparr>"
    using up unfolding sct_Update_def Some
    by (auto simp: \<open>svcNN svc = nn\<close> pre S Let_def res_bind_Inr_iff)
  have sm: "\<forall>k. spn_NamespacedName k = nn \<longrightarrow> map_of sm k = map_of (elems pre) k"
    using c by (simp add: pre_def split: option.splits)
  have cur_ok: "wf_map (elems cur) \<and> (\<forall>k\<in>fst ` set (elems cur). spn_NamespacedName k = nn)"
    by (rule serviceToServiceMap_keys [OF cur nn])
  have pre_ok: "wf_map (elems pre) \<and> (\<forall>k\<in>fst ` set (elems pre). spn_NamespacedName k = nn)"
  proof (cases "map_of (sct_items sct) nn")
    case None
    then show ?thesis using serviceToServiceMap_keys [OF old] svcs by (simp add: pre_def)
  next
    case (Some ch)
    then have "(nn, ch) \<in> set (sct_items sct)" by (rule map_of_SomeD)
    then have "change_ok (nn, ch)" using inv by (auto simp: svc_inv_def)
    then show ?thesis using Some by (simp add: pre_def change_ok_def)
  qed
  have ok0: "wf_map (sct_items sct)" "\<forall>c\<in>set (sct_items sct). change_ok c"
    using inv by (simp_all add: svc_inv_def)
  have "change_ok (nn, \<lparr>sc_previous = pre, sc_current = cur\<rparr>)"
    unfolding change_ok_def fst_conv snd_conv serviceChange.select_convs using cur_ok pre_ok by blast
  then have wf': "wf_map (sct_items sct')" "\<forall>c\<in>set (sct_items sct'). change_ok c"
    using ok0(1) Ball_update [OF ok0(2)] Ball_delete [OF ok0(2)] by (simp_all add: sct')
  show ?thesis
    unfolding svc_inv_def
  proof (intro conjI allI)
    show "sct0\<lparr>sct_items := sct_items sct'\<rparr> = sct'" unfolding sct' by (subst (4) e) simp
    show "wf_map (sct_items sct')" "\<forall>c\<in>set (sct_items sct'). change_ok c" by (rule wf')+
    fix n
    show "(svcs(nn := new)) n = Some s \<longrightarrow> svcNN s = n" for s using inv nn by (simp add: svc_inv_def)
    show "\<exists>cur. serviceToServiceMap env sct0 ((svcs(nn := new)) n) = Inr cur \<and>
         (case map_of (sct_items sct') n of
            None \<Rightarrow> (\<forall>k. spn_NamespacedName k = n \<longrightarrow> map_of sm k = map_of (elems cur) k)
          | Some ch \<Rightarrow> sc_current ch = cur \<and>
              (\<forall>k. spn_NamespacedName k = n \<longrightarrow> map_of sm k = map_of (elems (sc_previous ch)) k))"
    proof (cases "n = nn")
      case True
      have "DeepEqual_nilmap pre cur \<Longrightarrow> map_of (elems pre) = map_of (elems cur)"
        by (rule DeepEqual_nilmap_lookup [OF conjunct1 [OF pre_ok] conjunct1 [OF cur_ok]])
      then show ?thesis using True cur sm by (simp add: sct')
    next
      case False
      then have "map_of (sct_items sct') n = map_of (sct_items sct) n" by (simp add: sct')
      then show ?thesis using inv False unfolding svc_inv_def by simp
    qed
  qed
qed

lemma svc_reach_inv: "svc_reach env sct0 svcs sct sm \<Longrightarrow> svc_inv env sct0 svcs sct sm"
proof (induction rule: svc_reach.induct)
  case (Sync svcs sct sm res sct' sm')
  have cur: "map_of sm' k = map_of (elems cur) k"
    if "serviceToServiceMap env sct0 (svcs nn) = Inr cur" "spn_NamespacedName k = nn" for cur k nn
    using svc_inv_Sync(2) [OF Sync.IH Sync.hyps(2), of k] that by auto
  have "\<exists>cur. serviceToServiceMap env sct0 (svcs nn) = Inr cur" for nn
    using Sync.IH unfolding svc_inv_def by blast
  with cur show ?case
    using svc_inv_Sync(1) [OF Sync.IH Sync.hyps(2)] Sync.IH by (simp add: svc_inv_def) blast
qed (simp_all only: svc_inv_Start svc_inv_Event)

text \<open>
  C36. After \<open>Update\<close> the table of service ports is the one the current services give: whatever
  sequence of changes and synchronisations came before, a lookup finds a port exactly when translating
  the service as it is now produces it, and with that content; no changes are left over, and the
  addresses reported as deleted are exactly those of UDP ports that were in the table and are gone.
\<close>

theorem ServicePortMap_Update_exact:
  assumes "svc_reach env sct0 svcs sct sm" "spm_Update sct sm = (res, sct', sm')"
  shows "(\<exists>m. serviceToServiceMap env sct0 (svcs (spn_NamespacedName k)) = Inr m \<and> map_of sm' k = map_of (elems m) k) \<and>
    sct_items sct' = [] \<and>
    set (usr_DeletedUDPClusterIPs res) = (\<Union>k\<in>{k. map_of sm' k = None}. udp_ip (map_of sm k))"
proof (intro conjI)
  note inv = svc_reach_inv [OF assms(1)]
  show "\<exists>m. serviceToServiceMap env sct0 (svcs (spn_NamespacedName k)) = Inr m \<and> map_of sm' k = map_of (elems m) k"
    and "sct_items sct' = []"
    using svc_inv_Sync [OF inv assms(2)] by simp_all
  have ok: "wf_map (sct_items sct)" "\<forall>c\<in>set (sct_items sct). change_ok c"
    using inv by (simp_all add: svc_inv_def)
  have sm': "sm' = fst (fold applyChange (sct_items sct) (sm, []))"
    and res: "usr_DeletedUDPClusterIPs res = snd (fold applyChange (sct_items sct) (sm, []))"
    using assms(2) by (auto simp: spm_Update_def split: prod.splits)
  show "set (usr_DeletedUDPClusterIPs res) = (\<Union>k\<in>{k. map_of sm' k = None}. udp_ip (map_of sm k))" (is "?L = ?R")
  proof (intro equalityI subsetI)
    fix ip
    assume "ip \<in> ?L"
    then obtain nn ch k where ch: "(nn, ch) \<in> set (sct_items sct)" and k: "map_of (elems (sc_current ch)) k = None"
      "map_of (elems (sc_previous ch)) k \<noteq> None" and ip: "ip \<in> udp_ip (map_of sm k)"
      unfolding res deleted_applyChanges [OF ok] by auto
    have "spn_NamespacedName k = nn"
      using ok(2) ch k(2) keys_map_of [of k "elems (sc_previous ch)"] by (fastforce simp: change_ok_def)
    then have "map_of (sct_items sct) (spn_NamespacedName k) = Some ch" using ch ok(1) by simp
    then have "map_of sm' k = None" using k unfolding sm' map_of_applyChanges [OF ok] by simp
    with ip show "ip \<in> ?R" by blast
  next
    fix ip
    assume "ip \<in> ?R"
    then obtain k where k: "map_of sm' k = None" and ip: "ip \<in> udp_ip (map_of sm k)" by blast
    then have some: "map_of sm k \<noteq> None" by (cases "map_of sm k") simp_all
    obtain ch where ch: "map_of (sct_items sct) (spn_NamespacedName k) = Some ch"
      using k some unfolding sm' map_of_applyChanges [OF ok] by (auto split: option.splits)
    have "map_of (elems (sc_previous ch)) k = map_of sm k"
      by (rule svc_inv_pending [OF inv ch refl, symmetric])
    moreover have "map_of (elems (sc_current ch)) k = None"
      using k ch unfolding sm' map_of_applyChanges [OF ok] by (auto split: option.splits)
    ultimately show "ip \<in> ?L"
      using ip some unfolding res deleted_applyChanges [OF ok] by (intro UnI2 UN_I [OF map_of_SomeD [OF ch]]) auto
  qed
qed

definition example_svc_env :: svc_env where
  "example_svc_env = \<lparr>ne_ParseIPSloppy = Some, ne_IsIPv6String = (\<lambda>s. CHR '':'' \<in> set s), ne_IPFamilyOf = (\<lambda>_. IPv4Protocol),
     ne_ParseCIDR = (\<lambda>s. Inr (s, IPv4Protocol)), ne_LoadBalancerIPMode = True,
     sv_IsServiceIPSet = (\<lambda>s. vs_ClusterIP s \<noteq> [] \<and> vs_ClusterIP s \<noteq> ClusterIPNone),
     sv_ExternalPolicyLocal = (\<lambda>_. False), sv_InternalPolicyLocal = (\<lambda>_. False), sv_NeedsHealthCheck = (\<lambda>_. False)\<rparr>"

definition example_service :: v1_Service where
  "example_service = \<lparr>vs_Namespace = ''ns'', vs_Name = ''dns'', vs_Annotations = [], vs_ClusterIP = ''10.0.0.10'',
     vs_ClusterIPs = [''10.0.0.10''], vs_IPFamilies = [IPv4Protocol], vs_Type = ''ClusterIP'', vs_SessionAffinity = ''None'',
     vs_TimeoutSeconds = None, vs_Ports = [\<lparr>vsp_Name = ''p'', vsp_Protocol = ProtocolUDP, vsp_Port = 53, vsp_NodePort = 0\<rparr>],
     vs_ExternalIPs = [], vs_LoadBalancerSourceRanges = [], vs_Ingress = [], vs_HealthCheckNodePort = 0\<rparr>"

definition example_sct :: ServiceChangeTracker where
  "example_sct = NewServiceChangeTracker None IPv4Protocol False"

definition example_spn :: ServicePortName where
  "example_spn = \<lparr>spn_NamespacedName = svcNN example_service, spn_Port = ''p'', spn_Protocol = ProtocolUDP\<rparr>"

definition example_added :: ServiceChangeTracker where
  "example_added = snd (projr (sct_Update example_svc_env None (Some example_service) example_sct))"

definition example_sm :: ServicePortMap where
  "example_sm = snd (snd (spm_Update example_added []))"

definition example_removed :: ServiceChangeTracker where
  "example_removed = snd (projr (sct_Update example_svc_env (Some example_service) None (fst (snd (spm_Update example_added [])))))"

lemma not_isl_Inr: "\<not> isl r \<Longrightarrow> r = Inr (fst (projr r), snd (projr r))"
  by (cases r) simp_all

lemma example_svc_reach: "svc_reach example_svc_env example_sct Map.empty example_removed example_sm"
proof -
  have 1: "svc_reach example_svc_env example_sct Map.empty example_sct []"
    by (rule svc_reach.Start) code_simp
  have "\<not> isl (sct_Update example_svc_env None (Some example_service) example_sct)" by code_simp
  from not_isl_Inr [OF this, folded example_added_def]
  have 2: "svc_reach example_svc_env example_sct (Map.empty(svcNN example_service := Some example_service)) example_added []"
    by (intro svc_reach.Event [OF 1]) (simp, assumption)
  have 3: "svc_reach example_svc_env example_sct (Map.empty(svcNN example_service := Some example_service))
      (fst (snd (spm_Update example_added []))) example_sm"
    by (rule svc_reach.Sync [OF 2, of "fst (spm_Update example_added [])"]) (simp add: example_sm_def)
  have "\<not> isl (sct_Update example_svc_env (Some example_service) None (fst (snd (spm_Update example_added []))))" by code_simp
  from not_isl_Inr [OF this, folded example_removed_def]
  have "sct_Update example_svc_env ((Map.empty(svcNN example_service := Some example_service)) (svcNN example_service)) None
      (fst (snd (spm_Update example_added []))) =
      Inr (fst (projr (sct_Update example_svc_env (Some example_service) None (fst (snd (spm_Update example_added []))))), example_removed)"
    by (simp only: fun_upd_same)
  then have "svc_reach example_svc_env example_sct ((Map.empty(svcNN example_service := Some example_service))(svcNN example_service := None))
      example_removed example_sm"
    by (rule svc_reach.Event [OF 3, rotated]) simp
  then show ?thesis by simp
qed

text \<open>Adding a UDP service and removing it again empties the table and reports its address.\<close>

theorem ServicePortMap_Update_exact_witness:
  "map_of example_sm example_spn \<noteq> None \<and>
   map_of (snd (snd (spm_Update example_removed example_sm))) example_spn = None \<and>
   ''10.0.0.10'' \<in> set (usr_DeletedUDPClusterIPs (fst (spm_Update example_removed example_sm)))"
proof -
  obtain res sct' sm' where up: "spm_Update example_removed example_sm = (res, sct', sm')" by (cases "spm_Update example_removed example_sm")
  note t = ServicePortMap_Update_exact [OF example_svc_reach up, of example_spn]
  have gone: "map_of sm' example_spn = None" using t by (auto simp: serviceToServiceMap_def)
  have "map_of example_sm example_spn \<noteq> None" by code_simp
  moreover have "''10.0.0.10'' \<in> udp_ip (map_of example_sm example_spn)" by code_simp
  ultimately show ?thesis using t gone up by auto
qed

end
