(* ===== verification/Topology.thy ===== *)
theory Topology
  imports Service_Ports "HOL-Library.Multiset"
begin

text \<open>
  Which endpoints of a service are used, \<open>wao-loadbalancer/pkg/proxy/topology.go\<close>. Feature gates are
  a parameter. The combined list may be read from a map; \<open>order\<close> is the order in which \<open>range\<close>
  visits it, any permutation.
\<close>

record feature_gates =
  fg_TopologyAwareHints :: bool
  fg_ServiceTrafficDistribution :: bool

definition filterEndpoints :: "(Endpoint \<Rightarrow> bool) \<Rightarrow> Endpoint list \<Rightarrow> Endpoint list" where
  "filterEndpoints predicate endpoints =
     rev (fold (\<lambda>ep filtered. if predicate ep then ep # filtered else filtered) endpoints [])"

definition availableForTopology :: "(string, string) gomap \<Rightarrow> Endpoint \<Rightarrow> bool" where
  "availableForTopology nodeLabels endpoint =
     (let zone = get_or [] nodeLabels labelZone in zone \<in> set (ZoneHints endpoint))"

text \<open>The loop of \<open>canUseTopology\<close>; \<open>None\<close> is its early return.\<close>

fun zoneScan :: "string option \<Rightarrow> Endpoint list \<Rightarrow> bool \<Rightarrow> bool option" where
  "zoneScan zone [] hasEndpointForZone = Some hasEndpointForZone"
| "zoneScan zone (endpoint # endpoints) hasEndpointForZone =
     (if \<not> IsReady endpoint then zoneScan zone endpoints hasEndpointForZone
      else if length (ZoneHints endpoint) = 0 then None
      else (case zone of
              None \<Rightarrow> None
            | Some z \<Rightarrow>
                if z = [] then None
                else zoneScan zone endpoints (if z \<in> set (ZoneHints endpoint) then True else hasEndpointForZone)))"

definition canUseTopology ::
  "feature_gates \<Rightarrow> Endpoint list \<Rightarrow> BaseServicePortInfo \<Rightarrow> (string, string) gomap \<Rightarrow> bool" where
  "canUseTopology gates endpoints svcInfo nodeLabels =
     (if \<not> fg_TopologyAwareHints gates \<and> \<not> fg_ServiceTrafficDistribution gates then False
      else if \<not> fg_ServiceTrafficDistribution gates \<and>
              bsp_hintsAnnotation svcInfo \<in> {[], ''disabled'', ''Disabled''} then False
      else (case zoneScan (map_of nodeLabels labelZone) endpoints False of
              None \<Rightarrow> False
            | Some hasEndpointForZone \<Rightarrow> if \<not> hasEndpointForZone then False else True))"

record categories =
  cat_cluster :: "Endpoint list"
  cat_local :: "Endpoint list"
  cat_all :: "Endpoint list"
  cat_hasAny :: bool

text \<open>The scan before the local endpoints are chosen: is there any usable endpoint, a ready local
  one, a local one that terminates but still serves.\<close>

definition localScan :: "Endpoint list \<Rightarrow> bool \<Rightarrow> bool \<times> bool \<times> bool" where
  "localScan endpoints hasAny =
     fold (\<lambda>ep (hasAny, hasLocalReady, hasLocalServingTerminating).
       if IsReady ep then (True, if IsLocal ep then True else hasLocalReady, hasLocalServingTerminating)
       else if IsServing ep \<and> IsTerminating ep
       then (True, hasLocalReady, if IsLocal ep then True else hasLocalServingTerminating)
       else (hasAny, hasLocalReady, hasLocalServingTerminating)) endpoints (hasAny, False, False)"

definition CategorizeEndpoints ::
  "feature_gates \<Rightarrow> ((string, Endpoint) gomap \<Rightarrow> (string, Endpoint) gomap) \<Rightarrow> Endpoint list \<Rightarrow> BaseServicePortInfo \<Rightarrow>
   (string, string) gomap \<Rightarrow> categories" where
  "CategorizeEndpoints gates order endpoints svcInfo nodeLabels =
     (let useTopology = UsesClusterEndpoints svcInfo \<and> canUseTopology gates endpoints svcInfo nodeLabels;
          ready = filterEndpoints (\<lambda>ep. if \<not> IsReady ep then False
                    else if useTopology \<and> \<not> availableForTopology nodeLabels ep then False else True) endpoints;
          clusterEndpoints =
            (if \<not> UsesClusterEndpoints svcInfo then []
             else if length ready = 0 then filterEndpoints (\<lambda>ep. IsServing ep \<and> IsTerminating ep) endpoints
             else ready);
          hasAnyEndpoints = (UsesClusterEndpoints svcInfo \<and> length clusterEndpoints > 0)
      in if \<not> UsesLocalEndpoints svcInfo then
           \<lparr>cat_cluster = clusterEndpoints, cat_local = [], cat_all = clusterEndpoints, cat_hasAny = hasAnyEndpoints\<rparr>
         else
           (let (hasAnyEndpoints, hasLocalReadyEndpoints, hasLocalServingTerminatingEndpoints) =
                  localScan endpoints hasAnyEndpoints;
                useServingTerminatingEndpoints = (\<not> hasLocalReadyEndpoints \<and> hasLocalServingTerminatingEndpoints);
                localEndpoints =
                  (if hasLocalReadyEndpoints then filterEndpoints (\<lambda>ep. IsLocal ep \<and> IsReady ep) endpoints
                   else if hasLocalServingTerminatingEndpoints
                   then filterEndpoints (\<lambda>ep. IsLocal ep \<and> IsServing ep \<and> IsTerminating ep) endpoints
                   else []);
                all = (if \<not> UsesClusterEndpoints svcInfo then localEndpoints
                       else if \<not> useTopology \<and> \<not> useServingTerminatingEndpoints then clusterEndpoints
                       else map snd (order (map_of_loop Endpoint_String id localEndpoints
                              (map_of_loop Endpoint_String id clusterEndpoints []))))
            in \<lparr>cat_cluster = clusterEndpoints, cat_local = localEndpoints, cat_all = all, cat_hasAny = hasAnyEndpoints\<rparr>))"

section \<open>What is used\<close>

lemma filterEndpoints_filter [simp]: "filterEndpoints P xs = filter P xs"
proof -
  have "fold (\<lambda>ep acc. if P ep then ep # acc else acc) xs acc = rev (filter P xs) @ acc" for acc
    by (induction xs arbitrary: acc) auto
  then show ?thesis by (simp add: filterEndpoints_def)
qed

definition usable :: "Endpoint \<Rightarrow> bool" where
  "usable ep \<longleftrightarrow> IsReady ep \<or> IsServing ep \<and> IsTerminating ep"

lemma localScan_eq:
  "localScan endpoints hasAny =
     (hasAny \<or> (\<exists>ep\<in>set endpoints. usable ep),
      \<exists>ep\<in>set endpoints. IsReady ep \<and> IsLocal ep,
      \<exists>ep\<in>set endpoints. \<not> IsReady ep \<and> IsServing ep \<and> IsTerminating ep \<and> IsLocal ep)"
proof -
  have "fold (\<lambda>ep (a, b, c).
       if IsReady ep then (True, if IsLocal ep then True else b, c)
       else if IsServing ep \<and> IsTerminating ep then (True, b, if IsLocal ep then True else c)
       else (a, b, c)) endpoints (x, y, z) =
     (x \<or> (\<exists>ep\<in>set endpoints. usable ep), y \<or> (\<exists>ep\<in>set endpoints. IsReady ep \<and> IsLocal ep),
      z \<or> (\<exists>ep\<in>set endpoints. \<not> IsReady ep \<and> IsServing ep \<and> IsTerminating ep \<and> IsLocal ep))" for x y z
    by (induction endpoints arbitrary: x y z) (auto simp: usable_def)
  then show ?thesis unfolding localScan_def by simp
qed

lemma zoneScan_Some:
  assumes "zoneScan zone endpoints has = Some True"
  shows "has \<or> (\<exists>z ep. zone = Some z \<and> ep \<in> set endpoints \<and> IsReady ep \<and> z \<in> set (ZoneHints ep))"
  using assms by (induction zone endpoints has rule: zoneScan.induct) (auto split: if_splits option.splits)

lemma canUseTopology_available:
  assumes "canUseTopology gates endpoints svcInfo nodeLabels"
  shows "\<exists>ep\<in>set endpoints. IsReady ep \<and> availableForTopology nodeLabels ep"
  using assms zoneScan_Some [of "map_of nodeLabels labelZone" endpoints False]
  by (auto simp: canUseTopology_def availableForTopology_def get_or_def split: if_splits option.splits)

text \<open>Entries of the map of a merged list are the elements of the lists.\<close>

lemma map_of_loop_range:
  assumes "inj_on key (set xs \<union> set ys)"
  shows "snd ` set (map_of_loop key id ys (map_of_loop key id xs [])) = set xs \<union> set ys" (is "snd ` set ?m = _")
proof -
  have look: "map_of ?m k = Some v \<longleftrightarrow> v \<in> set xs \<union> set ys \<and> key v = k" for k v
  proof -
    have "map_of (map_of_loop key id zs m) k = Some v \<longleftrightarrow> v \<in> set zs \<and> key v = k \<or> (\<forall>z\<in>set zs. key z \<noteq> k) \<and> map_of m k = Some v"
      if "inj_on key (set zs)" for zs m
    proof (cases "filter (\<lambda>x. key x = k) zs")
      case Nil
      then show ?thesis by (auto simp: map_of_loop_lookup filter_empty_conv)
    next
      case (Cons a as)
      then have "last (a # as) \<in> set (filter (\<lambda>x. key x = k) zs)" by (metis last_in_set list.distinct(1))
      then have "last (a # as) \<in> set zs \<and> key (last (a # as)) = k" by simp
      then show ?thesis using Cons that by (auto simp: map_of_loop_lookup inj_on_def)
    qed
    note l = this
    show ?thesis
      using l [of ys "map_of_loop key id xs []"] l [of xs "[]"] assms
      by (auto simp: inj_on_def)
  qed
  have "wf_map ?m" by (intro wf_map_of_loop) simp
  then show ?thesis using look by (force simp: image_iff)
qed

lemma cluster_eq:
  assumes "UsesClusterEndpoints svcInfo"
  shows "cat_cluster (CategorizeEndpoints gates order endpoints svcInfo nodeLabels) =
    (let ready = filter (\<lambda>ep. IsReady ep \<and> (canUseTopology gates endpoints svcInfo nodeLabels \<longrightarrow> availableForTopology nodeLabels ep)) endpoints
     in if ready = [] then filter (\<lambda>ep. IsServing ep \<and> IsTerminating ep) endpoints else ready)"
proof -
  have "(\<lambda>ep. if \<not> IsReady ep then False else if t \<and> \<not> availableForTopology nodeLabels ep then False else True) =
      (\<lambda>ep. IsReady ep \<and> (t \<longrightarrow> availableForTopology nodeLabels ep))" for t by auto
  then show ?thesis using assms by (simp add: CategorizeEndpoints_def Let_def split: prod.split)
qed

lemma cluster_unused: "\<not> UsesClusterEndpoints svcInfo \<Longrightarrow> cat_cluster (CategorizeEndpoints gates order endpoints svcInfo nodeLabels) = []"
  by (simp add: CategorizeEndpoints_def Let_def split: prod.split)

lemma local_eq:
  "cat_local (CategorizeEndpoints gates order endpoints svcInfo nodeLabels) =
    (if \<not> UsesLocalEndpoints svcInfo then []
     else let ready = filter (\<lambda>ep. IsLocal ep \<and> IsReady ep) endpoints
          in if ready = [] then filter (\<lambda>ep. IsLocal ep \<and> IsServing ep \<and> IsTerminating ep) endpoints else ready)"
proof (cases "\<exists>ep\<in>set endpoints. IsReady ep \<and> IsLocal ep")
  case True
  then have "filter (\<lambda>ep. IsLocal ep \<and> IsReady ep) endpoints \<noteq> []" by (auto simp: filter_empty_conv)
  then show ?thesis using True by (simp add: CategorizeEndpoints_def Let_def localScan_eq)
next
  case False
  then have "filter (\<lambda>ep. IsLocal ep \<and> IsReady ep) endpoints = []" by (auto simp: filter_empty_conv)
  moreover have "(\<exists>ep\<in>set endpoints. \<not> IsReady ep \<and> IsServing ep \<and> IsTerminating ep \<and> IsLocal ep) \<longleftrightarrow>
      filter (\<lambda>ep. IsLocal ep \<and> IsServing ep \<and> IsTerminating ep) endpoints \<noteq> []"
    using False by (auto simp: filter_empty_conv)
  ultimately show ?thesis using False by (simp add: CategorizeEndpoints_def Let_def localScan_eq) auto
qed

lemma cluster_nonempty:
  assumes "UsesClusterEndpoints svcInfo"
  shows "cat_cluster (CategorizeEndpoints gates order endpoints svcInfo nodeLabels) \<noteq> [] \<longleftrightarrow> (\<exists>ep\<in>set endpoints. usable ep)"
proof (cases "filter (\<lambda>ep. IsReady ep \<and> (canUseTopology gates endpoints svcInfo nodeLabels \<longrightarrow> availableForTopology nodeLabels ep)) endpoints = []")
  case True
  then have "\<not> (\<exists>ep\<in>set endpoints. IsReady ep)"
    using canUseTopology_available [of gates endpoints svcInfo nodeLabels] by (auto simp: filter_empty_conv)
  then show ?thesis using True by (auto simp: cluster_eq [OF assms] filter_empty_conv usable_def)
next
  case False
  then show ?thesis by (auto simp: cluster_eq [OF assms] filter_empty_conv usable_def)
qed

lemma hasAny_eq:
  "cat_hasAny (CategorizeEndpoints gates order endpoints svcInfo nodeLabels) \<longleftrightarrow> (\<exists>ep\<in>set endpoints. usable ep)"
proof (cases "UsesLocalEndpoints svcInfo")
  case True
  have "cat_hasAny (CategorizeEndpoints gates order endpoints svcInfo nodeLabels) \<longleftrightarrow>
     UsesClusterEndpoints svcInfo \<and> cat_cluster (CategorizeEndpoints gates order endpoints svcInfo nodeLabels) \<noteq> [] \<or>
     (\<exists>ep\<in>set endpoints. usable ep)"
    using True by (simp add: CategorizeEndpoints_def Let_def localScan_eq)
  then show ?thesis using cluster_nonempty by blast
next
  case False
  then have "UsesClusterEndpoints svcInfo" using uses_some_endpoints by blast
  moreover have "cat_hasAny (CategorizeEndpoints gates order endpoints svcInfo nodeLabels) \<longleftrightarrow>
     UsesClusterEndpoints svcInfo \<and> cat_cluster (CategorizeEndpoints gates order endpoints svcInfo nodeLabels) \<noteq> []"
    using False by (simp add: CategorizeEndpoints_def Let_def)
  ultimately show ?thesis by (simp add: cluster_nonempty)
qed

lemma all_eq:
  assumes "inj_on Endpoint_String (set endpoints)" "\<And>m. set (order m) = set m"
  shows "set (cat_all (CategorizeEndpoints gates order endpoints svcInfo nodeLabels)) =
    set (cat_cluster (CategorizeEndpoints gates order endpoints svcInfo nodeLabels)) \<union>
    set (cat_local (CategorizeEndpoints gates order endpoints svcInfo nodeLabels))" (is "set (cat_all ?c) = _")
proof -
  have merged: "set (cat_all ?c) = set (cat_cluster ?c) \<union> set (cat_local ?c)"
    if "cat_all ?c = map snd (order (map_of_loop Endpoint_String id (cat_local ?c) (map_of_loop Endpoint_String id (cat_cluster ?c) [])))"
  proof -
    have "set (cat_cluster ?c) \<union> set (cat_local ?c) \<subseteq> set endpoints"
      using cluster_unused [of svcInfo gates order endpoints nodeLabels]
      by (cases "UsesClusterEndpoints svcInfo") (auto simp: cluster_eq local_eq Let_def split: if_splits)
    then have "inj_on Endpoint_String (set (cat_cluster ?c) \<union> set (cat_local ?c))"
      using assms(1) inj_on_subset by blast
    from map_of_loop_range [OF this] show ?thesis by (simp add: that assms(2))
  qed
  consider "\<not> UsesLocalEndpoints svcInfo" | "UsesLocalEndpoints svcInfo" "\<not> UsesClusterEndpoints svcInfo"
    | "UsesLocalEndpoints svcInfo" "UsesClusterEndpoints svcInfo" by blast
  then show ?thesis
  proof cases
    case 1
    then have "cat_all ?c = cat_cluster ?c" "cat_local ?c = []" by (simp_all add: CategorizeEndpoints_def Let_def)
    then show ?thesis by simp
  next
    case 2
    then have "cat_all ?c = cat_local ?c" by (simp add: CategorizeEndpoints_def Let_def split: prod.split)
    then show ?thesis using cluster_unused [OF 2(2)] by simp
  next
    case 3
    let ?topo = "canUseTopology gates endpoints svcInfo nodeLabels"
    let ?ending = "\<not> (\<exists>ep\<in>set endpoints. IsReady ep \<and> IsLocal ep) \<and>
      (\<exists>ep\<in>set endpoints. \<not> IsReady ep \<and> IsServing ep \<and> IsTerminating ep \<and> IsLocal ep)"
    have all: "cat_all ?c = (if \<not> ?topo \<and> \<not> ?ending then cat_cluster ?c
      else map snd (order (map_of_loop Endpoint_String id (cat_local ?c) (map_of_loop Endpoint_String id (cat_cluster ?c) []))))"
      unfolding CategorizeEndpoints_def Let_def localScan_eq using 3 by (simp only: prod.case categories.select_convs simp_thms if_True if_False)
    show ?thesis
    proof (cases "?topo \<or> ?ending")
      case True
      then have "\<not> (\<not> ?topo \<and> \<not> ?ending)" by blast
      then show ?thesis by (intro merged) (simp only: all if_False)
    next
      case False
      then have "\<not> ?topo \<and> \<not> ?ending" by blast
      then have "cat_all ?c = cat_cluster ?c" by (simp only: all simp_thms if_True)
      moreover have "set (cat_local ?c) \<subseteq> set (cat_cluster ?c)"
        using False 3 by (auto simp: cluster_eq local_eq Let_def filter_empty_conv)
      ultimately show ?thesis by auto
    qed
  qed
qed

text \<open>
  C35. The endpoints that are used: a service has any endpoint exactly when one is ready, or terminating
  but still serving; then the list for its cluster policy, if it has one, is not empty, whatever the
  topology hints say, and it has no terminating endpoint as long as one is ready. The list for the
  local policy has only endpoints of this node and is empty only if the node has no usable one. All
  lists are taken from the given endpoints, and the combined list is the union of the two.
\<close>

theorem CategorizeEndpoints_sound:
  fixes gates order endpoints svcInfo nodeLabels
  defines "c \<equiv> CategorizeEndpoints gates order endpoints svcInfo nodeLabels"
  assumes "inj_on Endpoint_String (set endpoints)" "\<And>m. mset (order m) = mset m"
  shows "cat_hasAny c = (\<exists>ep\<in>set endpoints. usable ep) \<and>
    (cat_cluster c \<noteq> []) = (UsesClusterEndpoints svcInfo \<and> cat_hasAny c) \<and>
    (cat_local c \<noteq> []) = (UsesLocalEndpoints svcInfo \<and> (\<exists>ep\<in>set endpoints. IsLocal ep \<and> usable ep)) \<and>
    set (cat_cluster c) \<subseteq> {ep \<in> set endpoints. usable ep \<and> ((\<exists>e\<in>set endpoints. IsReady e) \<longrightarrow> IsReady ep)} \<and>
    set (cat_local c) \<subseteq> {ep \<in> set endpoints. IsLocal ep \<and> usable ep} \<and>
    set (cat_all c) = set (cat_cluster c) \<union> set (cat_local c)"
proof (intro conjI)
  show any: "cat_hasAny c = (\<exists>ep\<in>set endpoints. usable ep)" by (simp add: c_def hasAny_eq)
  show "(cat_cluster c \<noteq> []) = (UsesClusterEndpoints svcInfo \<and> cat_hasAny c)"
    unfolding any unfolding c_def using cluster_nonempty cluster_unused by blast
  show "(cat_local c \<noteq> []) = (UsesLocalEndpoints svcInfo \<and> (\<exists>ep\<in>set endpoints. IsLocal ep \<and> usable ep))"
    by (auto simp: c_def local_eq Let_def filter_empty_conv usable_def)
  have "\<not> (\<exists>e\<in>set endpoints. IsReady e)"
    if "\<forall>ep\<in>set endpoints. IsReady ep \<longrightarrow> canUseTopology gates endpoints svcInfo nodeLabels \<and> \<not> availableForTopology nodeLabels ep"
    using that canUseTopology_available [of gates endpoints svcInfo nodeLabels] by blast
  then show "set (cat_cluster c) \<subseteq> {ep \<in> set endpoints. usable ep \<and> ((\<exists>e\<in>set endpoints. IsReady e) \<longrightarrow> IsReady ep)}"
    using cluster_unused [of svcInfo gates order endpoints nodeLabels]
    by (cases "UsesClusterEndpoints svcInfo") (auto simp: c_def cluster_eq Let_def filter_empty_conv usable_def split: if_splits)
  show "set (cat_local c) \<subseteq> {ep \<in> set endpoints. IsLocal ep \<and> usable ep}"
    by (auto simp: c_def local_eq Let_def usable_def split: if_splits)
  have "set (order m) = set m" for m using assms(3) by (rule mset_eq_setD)
  then show "set (cat_all c) = set (cat_cluster c) \<union> set (cat_local c)"
    unfolding c_def by (intro all_eq assms(2))
qed

definition example_ep :: "string \<Rightarrow> bool \<Rightarrow> bool \<Rightarrow> bool \<Rightarrow> Endpoint" where
  "example_ep ip isLocal ready terminating =
     BaseEndpoint (newBaseEndpointInfo ip 80 isLocal ready True terminating [''z1''])"

definition example_port :: BaseServicePortInfo where
  "example_port = \<lparr>bsp_clusterIP = Some ''10.0.0.1'', bsp_port = 80, bsp_protocol = ''TCP'', bsp_nodePort = 30080,
     bsp_loadBalancerVIPs = [], bsp_sessionAffinityType = ''None'', bsp_stickyMaxAgeSeconds = 0, bsp_externalIPs = [],
     bsp_loadBalancerSourceRanges = [], bsp_healthCheckNodePort = 0, bsp_externalPolicyLocal = True,
     bsp_internalPolicyLocal = False, bsp_hintsAnnotation = ''auto''\<rparr>"

definition example_endpoints :: "Endpoint list" where
  "example_endpoints = [example_ep ''10.1.0.1'' False True False, example_ep ''10.1.0.2'' True False True]"

text \<open>A ready endpoint elsewhere and a terminating one here, with an external policy of Local.\<close>

theorem CategorizeEndpoints_sound_witness:
  "set (cat_all (CategorizeEndpoints \<lparr>fg_TopologyAwareHints = True, fg_ServiceTrafficDistribution = False\<rparr> id
      example_endpoints example_port [(labelZone, ''z1'')])) = set example_endpoints"
proof -
  have "inj_on Endpoint_String (set example_endpoints)" by code_simp
  from CategorizeEndpoints_sound [OF this, of id "\<lparr>fg_TopologyAwareHints = True, fg_ServiceTrafficDistribution = False\<rparr>"
      example_port "[(labelZone, ''z1'')]"]
  have "set (cat_all (CategorizeEndpoints \<lparr>fg_TopologyAwareHints = True, fg_ServiceTrafficDistribution = False\<rparr> id
      example_endpoints example_port [(labelZone, ''z1'')])) =
    set (cat_cluster (CategorizeEndpoints \<lparr>fg_TopologyAwareHints = True, fg_ServiceTrafficDistribution = False\<rparr> id
      example_endpoints example_port [(labelZone, ''z1'')])) \<union>
    set (cat_local (CategorizeEndpoints \<lparr>fg_TopologyAwareHints = True, fg_ServiceTrafficDistribution = False\<rparr> id
      example_endpoints example_port [(labelZone, ''z1'')]))" by simp
  also have "\<dots> = set example_endpoints" by code_simp
  finally show ?thesis .
qed

end
