(* ===== verification/Endpoint_Slices.thy ===== *)
theory Endpoint_Slices
  imports Topology "HOL-Library.List_Lexorder" "HOL-Library.Char_ord"
begin

text \<open>
  The cache of endpoint slices, \<open>wao-loadbalancer/pkg/proxy/endpointslicecache.go\<close>. It keeps the
  slices of every service as the proxier has applied them and the changes since. The endpoints of a
  service port are collected over all its slices; the order in which the slices are visited is open
  and is the order of the list here, and \<open>checkoutChanges\<close> gets the orders it uses as arguments.
  Fields of a slice that nothing reads are \<open>des_other\<close>; they matter only when slices are compared.
\<close>

section \<open>Slices\<close>

record discovery_EndpointPort =
  dep_Name :: "string option"
  dep_Port :: "int option"
  dep_Protocol :: "string option"

record discovery_Endpoint =
  de_Addresses :: "string list"
  de_NodeName :: "string option"
  de_Ready :: "bool option"
  de_Serving :: "bool option"
  de_Terminating :: "bool option"
  de_ForZones :: "string list option"

record discovery_EndpointSlice =
  des_Namespace :: string
  des_Name :: string
  des_Labels :: "(string, string) gomap"
  des_Annotations :: "(string, string) gomap"
  des_AddressType :: string
  des_Ports :: "discovery_EndpointPort list"
  des_Endpoints :: "discovery_Endpoint list"
  des_other :: string

definition LabelServiceName :: string where
  "LabelServiceName = ''kubernetes.io/service-name''"

record endpointSliceData =
  esd_endpointSlice :: discovery_EndpointSlice
  esd_remove :: bool

type_synonym endpointSliceDataByName = "(string, endpointSliceData) gomap"

record endpointSliceTracker =
  est_applied :: endpointSliceDataByName
  est_pending :: endpointSliceDataByName

record EndpointSliceCache =
  esc_trackerByServiceMap :: "(NamespacedName, endpointSliceTracker) gomap"
  esc_makeEndpointInfo :: "BaseEndpointInfo \<Rightarrow> ServicePortName \<Rightarrow> Endpoint"
  esc_hostname :: string
  esc_ipFamily :: string

definition standardEndpointInfo :: "BaseEndpointInfo \<Rightarrow> ServicePortName \<Rightarrow> Endpoint" where
  "standardEndpointInfo ep _ = BaseEndpoint ep"

definition newEndpointSliceTracker :: endpointSliceTracker where
  "newEndpointSliceTracker = \<lparr>est_applied = [], est_pending = []\<rparr>"

definition NewEndpointSliceCache ::
  "string \<Rightarrow> string \<Rightarrow> (BaseEndpointInfo \<Rightarrow> ServicePortName \<Rightarrow> Endpoint) option \<Rightarrow> EndpointSliceCache" where
  "NewEndpointSliceCache hostname ipFamily makeEndpointInfo =
     \<lparr>esc_trackerByServiceMap = [],
      esc_makeEndpointInfo = (case makeEndpointInfo of None \<Rightarrow> standardEndpointInfo | Some f \<Rightarrow> f),
      esc_hostname = hostname, esc_ipFamily = ipFamily\<rparr>"

definition endpointSliceCacheKeys :: "discovery_EndpointSlice \<Rightarrow> (NamespacedName \<times> string) result" where
  "endpointSliceCacheKeys endpointSlice =
     (let serviceName = get_or [] (des_Labels endpointSlice) LabelServiceName
      in if serviceName = [] then Inl (Errorf ''no service name label set on endpoint slice'')
         else if des_Namespace endpointSlice = [] \<or> des_Name endpointSlice = []
         then Inl (Errorf ''expected EndpointSlice name and namespace to be set'')
         else Inr (\<lparr>nn_Namespace = des_Namespace endpointSlice, nn_Name = serviceName\<rparr>, des_Name endpointSlice))"

section \<open>From slices to endpoints\<close>

type_synonym EndpointsMap = "(ServicePortName, Endpoint list) gomap"

definition isLocal :: "EndpointSliceCache \<Rightarrow> string \<Rightarrow> bool" where
  "isLocal cache hostname \<longleftrightarrow> length (esc_hostname cache) > 0 \<and> hostname = esc_hostname cache"

definition endpointInfoOf ::
  "net_env \<Rightarrow> feature_gates \<Rightarrow> EndpointSliceCache \<Rightarrow> int \<Rightarrow> discovery_Endpoint \<Rightarrow> BaseEndpointInfo" where
  "endpointInfoOf env gates cache portNum endpoint =
     newBaseEndpointInfo (IP_String (ne_ParseIPSloppy env (hd (de_Addresses endpoint)))) portNum
       (case de_NodeName endpoint of None \<Rightarrow> False | Some n \<Rightarrow> isLocal cache n)
       (case de_Ready endpoint of None \<Rightarrow> True | Some b \<Rightarrow> b)
       (case de_Serving endpoint of None \<Rightarrow> True | Some b \<Rightarrow> b)
       (case de_Terminating endpoint of None \<Rightarrow> False | Some b \<Rightarrow> b)
       (if fg_TopologyAwareHints gates
        then (case de_ForZones endpoint of None \<Rightarrow> [] | Some zones \<Rightarrow> fold List.insert zones []) else [])"

definition skipEndpoint :: "net_env \<Rightarrow> EndpointSliceCache \<Rightarrow> discovery_Endpoint \<Rightarrow> bool" where
  "skipEndpoint env cache endpoint \<longleftrightarrow>
     de_Addresses endpoint = [] \<or>
     (esc_ipFamily cache = IPv6Protocol) \<noteq> ne_IsIPv6String env (hd (de_Addresses endpoint))"

definition addEndpoints ::
  "net_env \<Rightarrow> feature_gates \<Rightarrow> EndpointSliceCache \<Rightarrow> ServicePortName \<Rightarrow> int \<Rightarrow> (string, Endpoint) gomap \<Rightarrow>
   discovery_Endpoint list \<Rightarrow> (string, Endpoint) gomap" where
  "addEndpoints env gates cache svcPortName portNum endpointSet endpoints =
     fold (\<lambda>endpoint endpointSet.
       if skipEndpoint env cache endpoint then endpointSet
       else (let endpointInfo = endpointInfoOf env gates cache portNum endpoint
             in if map_of endpointSet (bei_endpoint endpointInfo) = None \<or> bei_isLocal endpointInfo
                then AList.update (bei_endpoint endpointInfo) (esc_makeEndpointInfo cache endpointInfo svcPortName) endpointSet
                else endpointSet)) endpoints endpointSet"

fun addPorts ::
  "net_env \<Rightarrow> feature_gates \<Rightarrow> EndpointSliceCache \<Rightarrow> NamespacedName \<Rightarrow> discovery_Endpoint list \<Rightarrow> discovery_EndpointPort list \<Rightarrow>
   (ServicePortName, (string, Endpoint) gomap) gomap \<Rightarrow> (ServicePortName, (string, Endpoint) gomap) gomap result" where
  "addPorts env gates cache serviceNN endpoints [] m = Inr m"
| "addPorts env gates cache serviceNN endpoints (port # ports) m =
     (case (dep_Name port, dep_Port port) of
        (Some name, Some portNum) \<Rightarrow>
          if portNum = 0 then addPorts env gates cache serviceNN endpoints ports m
          else (case dep_Protocol port of
                  None \<Rightarrow> Inl (Panic ''port.Protocol'')
                | Some protocol \<Rightarrow>
                    (let svcPortName = \<lparr>spn_NamespacedName = serviceNN, spn_Port = name, spn_Protocol = protocol\<rparr>
                     in addPorts env gates cache serviceNN endpoints ports
                          (AList.update svcPortName
                             (addEndpoints env gates cache svcPortName portNum (get_or [] m svcPortName) endpoints) m)))
      | _ \<Rightarrow> addPorts env gates cache serviceNN endpoints ports m)"

fun endpointInfoByServicePort ::
  "net_env \<Rightarrow> feature_gates \<Rightarrow> EndpointSliceCache \<Rightarrow> NamespacedName \<Rightarrow> endpointSliceDataByName \<Rightarrow>
   (ServicePortName, (string, Endpoint) gomap) gomap \<Rightarrow> (ServicePortName, (string, Endpoint) gomap) gomap result" where
  "endpointInfoByServicePort env gates cache serviceNN [] m = Inr m"
| "endpointInfoByServicePort env gates cache serviceNN ((name, sliceData) # rest) m =
     res_bind (addPorts env gates cache serviceNN (des_Endpoints (esd_endpointSlice sliceData)) (des_Ports (esd_endpointSlice sliceData)) m)
       (endpointInfoByServicePort env gates cache serviceNN rest)"

definition endpointsMapFromEndpointInfo :: "(ServicePortName, (string, Endpoint) gomap) gomap \<Rightarrow> EndpointsMap" where
  "endpointsMapFromEndpointInfo endpointInfoBySP =
     fold (\<lambda>(svcPortName, endpointSet) endpointsMap.
       if length endpointSet > 0
       then AList.update svcPortName (sort_key Endpoint_String (map snd endpointSet)) endpointsMap
       else endpointsMap) endpointInfoBySP []"

definition getEndpointsMap ::
  "net_env \<Rightarrow> feature_gates \<Rightarrow> EndpointSliceCache \<Rightarrow> NamespacedName \<Rightarrow> endpointSliceDataByName \<Rightarrow> EndpointsMap result" where
  "getEndpointsMap env gates cache serviceNN sliceDataByName =
     res_bind (endpointInfoByServicePort env gates cache serviceNN sliceDataByName [])
       (\<lambda>m. Inr (endpointsMapFromEndpointInfo m))"

section \<open>The cache\<close>

text \<open>
  \<open>reflect.DeepEqual\<close> of the slices is equality of the records. Labels and annotations are lists of pairs there, and an informer reports
  the maps of one object in one order; two orders of one map would count as a change here, which only adds an update.
\<close>

definition esDataChanged :: "EndpointSliceCache \<Rightarrow> NamespacedName \<Rightarrow> string \<Rightarrow> endpointSliceData \<Rightarrow> bool" where
  "esDataChanged cache serviceKey sliceKey esData =
     (let absent = (if esd_remove esData then False else True)
      in case map_of (esc_trackerByServiceMap cache) serviceKey of
           None \<Rightarrow> absent
         | Some tracker \<Rightarrow>
             (case map_of (est_pending tracker) sliceKey of
                Some pendingData \<Rightarrow> esData \<noteq> pendingData
              | None \<Rightarrow>
                  (case map_of (est_applied tracker) sliceKey of
                     Some appliedData \<Rightarrow> esData \<noteq> appliedData
                   | None \<Rightarrow> absent)))"

definition updatePending :: "discovery_EndpointSlice \<Rightarrow> bool \<Rightarrow> EndpointSliceCache \<Rightarrow> bool \<times> EndpointSliceCache" where
  "updatePending endpointSlice remove cache = (case endpointSliceCacheKeys endpointSlice of
     Inl _ \<Rightarrow> (False, cache)
   | Inr (serviceKey, sliceKey) \<Rightarrow>
       (let esData = \<lparr>esd_endpointSlice = endpointSlice, esd_remove = remove\<rparr>;
            cache = (if map_of (esc_trackerByServiceMap cache) serviceKey = None
                     then cache\<lparr>esc_trackerByServiceMap :=
                            AList.update serviceKey newEndpointSliceTracker (esc_trackerByServiceMap cache)\<rparr>
                     else cache);
            changed = esDataChanged cache serviceKey sliceKey esData
        in if changed
           then (changed, cache\<lparr>esc_trackerByServiceMap :=
                   AList.map_entry serviceKey (\<lambda>tracker. tracker\<lparr>est_pending := AList.update sliceKey esData (est_pending tracker)\<rparr>)
                     (esc_trackerByServiceMap cache)\<rparr>)
           else (changed, cache)))"

record endpointsChange =
  ec_previous :: EndpointsMap
  ec_current :: EndpointsMap

definition applyPending :: "endpointSliceTracker \<Rightarrow> endpointSliceTracker" where
  "applyPending tracker =
     tracker\<lparr>est_applied := fold (\<lambda>(name, sliceData) applied.
                if esd_remove sliceData then AList.delete name applied else AList.update name sliceData applied)
              (est_pending tracker) (est_applied tracker),
             est_pending := []\<rparr>"

text \<open>The loop over the services, with the changes and the trackers it leaves.\<close>

fun checkoutTrackers where
  "checkoutTrackers env gates cache ord1 ord2 [] = Inr ([], [])"
| "checkoutTrackers env gates cache ord1 ord2 ((serviceNN, esTracker) # trackers) =
     (if est_pending esTracker = [] then
        res_bind (checkoutTrackers env gates cache ord1 ord2 trackers) (\<lambda>(changes, trackers').
          Inr (changes, (serviceNN, esTracker) # trackers'))
      else
        res_bind (getEndpointsMap env gates cache serviceNN (ord1 (est_applied esTracker))) (\<lambda>previous.
        let esTracker' = applyPending esTracker in
        res_bind (getEndpointsMap env gates cache serviceNN (ord2 (est_applied esTracker'))) (\<lambda>current.
        res_bind (checkoutTrackers env gates cache ord1 ord2 trackers) (\<lambda>(changes, trackers').
          Inr ((serviceNN, \<lparr>ec_previous = previous, ec_current = current\<rparr>) # changes, (serviceNN, esTracker') # trackers')))))"

definition esc_checkoutChanges where
  "esc_checkoutChanges env gates ord1 ord2 cache =
     res_bind (checkoutTrackers env gates cache ord1 ord2 (esc_trackerByServiceMap cache)) (\<lambda>(changes, trackers).
       Inr (changes, cache\<lparr>esc_trackerByServiceMap := trackers\<rparr>))"

section \<open>What the endpoints of a port are\<close>

text \<open>
  The entries that the slices have for a service port, in the order they are visited, before the same
  address in several slices is reduced to one.
\<close>

definition onePort where
  "onePort env gates cache serviceNN svcPortName endpoints port =
     (case (dep_Name port, dep_Port port, dep_Protocol port) of
       (Some name, Some portNum, Some protocol) \<Rightarrow>
         if portNum \<noteq> 0 \<and> svcPortName = \<lparr>spn_NamespacedName = serviceNN, spn_Port = name, spn_Protocol = protocol\<rparr>
         then map (endpointInfoOf env gates cache portNum) (filter (\<lambda>e. \<not> skipEndpoint env cache e) endpoints)
         else []
     | _ \<Rightarrow> [])"

definition portEntries where
  "portEntries env gates cache serviceNN svcPortName endpointSlice =
     concat (map (onePort env gates cache serviceNN svcPortName (des_Endpoints endpointSlice)) (des_Ports endpointSlice))"

definition entriesOf where
  "entriesOf env gates cache serviceNN svcPortName l =
     concat (map (\<lambda>(_, sliceData). portEntries env gates cache serviceNN svcPortName (esd_endpointSlice sliceData)) l)"

definition putEntry where
  "putEntry cache svcPortName info endpointSet =
     (if map_of endpointSet (bei_endpoint info) = None \<or> bei_isLocal info
      then AList.update (bei_endpoint info) (esc_makeEndpointInfo cache info svcPortName) endpointSet else endpointSet)"

lemma addEndpoints_eq:
  "addEndpoints env gates cache spn portNum m eps =
     fold (putEntry cache spn) (map (endpointInfoOf env gates cache portNum) (filter (\<lambda>e. \<not> skipEndpoint env cache e) eps)) m"
  unfolding addEndpoints_def
  by (induction eps arbitrary: m) (simp_all add: putEntry_def Let_def)

definition sp_ok :: "NamespacedName \<Rightarrow> (ServicePortName, (string, Endpoint) gomap) gomap \<Rightarrow> bool" where
  "sp_ok nn m \<longleftrightarrow> wf_map m \<and> (\<forall>(k, es)\<in>set m. spn_NamespacedName k = nn \<and> wf_map es)"

lemma sp_okD: "sp_ok nn m \<Longrightarrow> wf_map (get_or [] m k)"
  by (auto simp: sp_ok_def get_or_def dest: map_of_SomeD split: option.split)

lemma wf_putEntries: "wf_map m \<Longrightarrow> wf_map (fold (putEntry cache spn) infos m)"
  by (induction infos arbitrary: m) (auto simp: putEntry_def)

lemma addPorts_entries:
  assumes "addPorts env gates cache nn eps ports m = Inr m'" "sp_ok nn m"
  shows "sp_ok nn m' \<and>
    get_or [] m' spn = fold (putEntry cache spn) (concat (map (onePort env gates cache nn spn eps) ports)) (get_or [] m spn)"
  using assms
proof (induction ports arbitrary: m)
  case (Cons port ports)
  show ?case
  proof (cases "\<exists>name portNum. dep_Name port = Some name \<and> dep_Port port = Some portNum \<and> portNum \<noteq> 0")
    case True
    then obtain name portNum protocol where p: "dep_Name port = Some name" "dep_Port port = Some portNum" "portNum \<noteq> 0"
      "dep_Protocol port = Some protocol" using Cons.prems(1) by (auto split: option.splits)
    define k where "k = \<lparr>spn_NamespacedName = nn, spn_Port = name, spn_Protocol = protocol\<rparr>"
    define es where "es = addEndpoints env gates cache k portNum (get_or [] m k) eps"
    have "wf_map es"
      unfolding es_def addEndpoints_eq by (rule wf_putEntries) (rule sp_okD [OF Cons.prems(2)])
    moreover have "spn_NamespacedName k = nn" by (simp add: k_def)
    ultimately have "sp_ok nn (AList.update k es m)"
      using Cons.prems(2) Ball_update [of m "\<lambda>(k, es). spn_NamespacedName k = nn \<and> wf_map es" k es] by (simp add: sp_ok_def)
    moreover have "addPorts env gates cache nn eps ports (AList.update k es m) = Inr m'"
      using Cons.prems(1) p by (simp add: k_def es_def Let_def)
    ultimately have IH: "sp_ok nn m'" "get_or [] m' spn = fold (putEntry cache spn)
        (concat (map (onePort env gates cache nn spn eps) ports)) (get_or [] (AList.update k es m) spn)"
      using Cons.IH by blast+
    have "get_or [] (AList.update k es m) spn = fold (putEntry cache spn) (onePort env gates cache nn spn eps port) (get_or [] m spn)"
      using p by (simp add: onePort_def k_def [symmetric] es_def addEndpoints_eq)
    with IH show ?thesis by simp
  next
    case False
    then have "addPorts env gates cache nn eps (port # ports) m = addPorts env gates cache nn eps ports m"
      and "onePort env gates cache nn spn eps port = []"
      by (auto simp: onePort_def split: option.split)
    then show ?thesis using Cons by simp
  qed
qed simp

lemma endpointInfoByServicePort_entries:
  assumes "endpointInfoByServicePort env gates cache nn l m = Inr m'" "sp_ok nn m"
  shows "sp_ok nn m' \<and> get_or [] m' spn = fold (putEntry cache spn) (entriesOf env gates cache nn spn l) (get_or [] m spn)"
  using assms
proof (induction l arbitrary: m)
  case (Cons x l)
  obtain name d where x: "x = (name, d)" by (cases x)
  from Cons.prems(1) obtain m1 where m1: "addPorts env gates cache nn (des_Endpoints (esd_endpointSlice d)) (des_Ports (esd_endpointSlice d)) m = Inr m1"
    "endpointInfoByServicePort env gates cache nn l m1 = Inr m'" by (auto simp: x res_bind_Inr_iff)
  note a = addPorts_entries [OF m1(1) Cons.prems(2), of spn]
  show ?case using Cons.IH [OF m1(2)] a by (simp add: x entriesOf_def portEntries_def)
qed (simp add: entriesOf_def)

text \<open>The map that the entries leave: one entry for an address, a local one if there is one.\<close>

lemma putEntries_lookup:
  "map_of (fold (putEntry cache spn) infos m) k =
     (case (filter (\<lambda>i. bei_endpoint i = k \<and> bei_isLocal i) infos, map_of m k, filter (\<lambda>i. bei_endpoint i = k) infos) of
        (i # is, _, _) \<Rightarrow> Some (esc_makeEndpointInfo cache (last (i # is)) spn)
      | ([], Some v, _) \<Rightarrow> Some v
      | ([], None, []) \<Rightarrow> None
      | ([], None, i # _) \<Rightarrow> Some (esc_makeEndpointInfo cache i spn))"
proof (induction infos arbitrary: m)
  case (Cons i infos)
  have step: "map_of (putEntry cache spn i m) k =
      (if bei_endpoint i = k \<and> (map_of m k = None \<or> bei_isLocal i) then Some (esc_makeEndpointInfo cache i spn) else map_of m k)"
    by (simp add: putEntry_def)
  show ?case
    unfolding fold_Cons o_apply Cons.IH step by (auto split: list.split option.split)
qed (simp split: option.split)

lemma putEntries_keys:
  "map_of (fold (putEntry cache spn) infos m) k \<noteq> None \<longleftrightarrow> k \<in> bei_endpoint ` set infos \<or> map_of m k \<noteq> None"
proof (induction infos arbitrary: m)
  case (Cons i infos)
  have "map_of (putEntry cache spn i m) k \<noteq> None \<longleftrightarrow> bei_endpoint i = k \<or> map_of m k \<noteq> None"
    by (simp add: putEntry_def)
  then show ?case unfolding fold_Cons o_apply Cons.IH by auto
qed simp

lemma putEntries_choice:
  assumes "map_of (fold (putEntry cache spn) infos []) k = Some ep"
  shows "\<exists>info\<in>set infos. bei_endpoint info = k \<and> ep = esc_makeEndpointInfo cache info spn \<and>
    ((\<exists>i\<in>set infos. bei_endpoint i = k \<and> bei_isLocal i) \<longrightarrow> bei_isLocal info)"
proof (cases "filter (\<lambda>i. bei_endpoint i = k \<and> bei_isLocal i) infos")
  case Nil
  then have "\<not> (\<exists>i\<in>set infos. bei_endpoint i = k \<and> bei_isLocal i)" by (auto simp: filter_empty_conv)
  moreover obtain i js where i: "filter (\<lambda>i. bei_endpoint i = k) infos = i # js" "ep = esc_makeEndpointInfo cache i spn"
    using assms Nil by (auto simp: putEntries_lookup split: list.splits)
  moreover have "i \<in> set infos" "bei_endpoint i = k"
    using i(1) by (auto simp: filter_eq_Cons_iff)
  ultimately show ?thesis by blast
next
  case (Cons i js)
  then have "last (i # js) \<in> set (filter (\<lambda>i. bei_endpoint i = k \<and> bei_isLocal i) infos)" by (metis last_in_set list.distinct(1))
  then have "last (i # js) \<in> set infos" "bei_endpoint (last (i # js)) = k" "bei_isLocal (last (i # js))" by simp_all
  moreover have "ep = esc_makeEndpointInfo cache (last (i # js)) spn"
    using assms Cons by (simp add: putEntries_lookup del: last.simps)
  ultimately show ?thesis by blast
qed

lemma endpointsMapFromEndpointInfo_lookup:
  assumes "wf_map m"
  shows "map_of (endpointsMapFromEndpointInfo m) spn =
    (if get_or [] m spn = [] then None else Some (sort_key Endpoint_String (map snd (get_or [] m spn))))"
proof -
  have "map_of (fold (\<lambda>(k, es) acc. if length es > 0 then AList.update k (sort_key Endpoint_String (map snd es)) acc else acc) m acc) spn =
      (if get_or [] m spn = [] then map_of acc spn else Some (sort_key Endpoint_String (map snd (get_or [] m spn))))" for acc
    using assms
  proof (induction m arbitrary: acc)
    case (Cons x m)
    obtain k es where x: "x = (k, es)" by (cases x)
    have "map_of m k = None" using Cons.prems x by (simp add: map_of_eq_None_iff)
    then show ?case using Cons by (auto simp: x get_or_def)
  qed (simp add: get_or_def)
  then show ?thesis by (simp add: endpointsMapFromEndpointInfo_def)
qed

definition make_ok :: "EndpointSliceCache \<Rightarrow> bool" where
  "make_ok cache \<longleftrightarrow> (\<forall>info svcPortName. Endpoint_base (esc_makeEndpointInfo cache info svcPortName) = info)"

text \<open>
  The endpoints of a service port: they are sorted by address without repetitions, their addresses are
  exactly those that the slices of the service list for a port of that name and protocol, skipping
  entries without an address and of the other IP family, whatever the order of the slices; each
  comes from one of these entries, and from a local one if there is one for its address. A port that no
  slice lists an address for has no entry.
\<close>

theorem getEndpointsMap_exact:
  fixes env gates cache spn l
  defines "infos \<equiv> set (entriesOf env gates cache (spn_NamespacedName spn) spn l)"
  assumes "make_ok cache" "getEndpointsMap env gates cache (spn_NamespacedName spn) l = Inr m"
  shows "(infos = {} \<and> map_of m spn = None) \<or>
    (\<exists>eps. map_of m spn = Some eps \<and> sorted_wrt (<) (map Endpoint_String eps) \<and>
      Endpoint_String ` set eps = bei_endpoint ` infos \<and>
      Endpoint_base ` set eps \<subseteq> {info \<in> infos. (\<exists>i\<in>infos. bei_endpoint i = bei_endpoint info \<and> bei_isLocal i) \<longrightarrow> bei_isLocal info})"
proof -
  obtain m1 where m1: "endpointInfoByServicePort env gates cache (spn_NamespacedName spn) l [] = Inr m1"
    and m: "m = endpointsMapFromEndpointInfo m1" using assms(3) by (auto simp: getEndpointsMap_def res_bind_Inr_iff)
  define es where "es = fold (putEntry cache spn) (entriesOf env gates cache (spn_NamespacedName spn) spn l) []"
  have "sp_ok (spn_NamespacedName spn) []" by (simp add: sp_ok_def)
  note e = endpointInfoByServicePort_entries [OF m1 this, of spn]
  have get: "get_or [] m1 spn = es" using e by (simp add: es_def get_or_def)
  have wf: "wf_map es" unfolding es_def by (rule wf_putEntries) simp
  have look: "map_of m spn = (if es = [] then None else Some (sort_key Endpoint_String (map snd es)))"
    unfolding m using e by (subst endpointsMapFromEndpointInfo_lookup) (simp_all add: sp_ok_def get)
  have keys: "fst ` set es = bei_endpoint ` infos"
    unfolding infos_def by (rule set_eqI) (simp only: keys_map_of es_def putEntries_keys map_of.simps simp_thms)
  have str: "Endpoint_String ep = k \<and> Endpoint_base ep \<in> infos \<and> bei_endpoint (Endpoint_base ep) = k \<and>
      ((\<exists>i\<in>infos. bei_endpoint i = k \<and> bei_isLocal i) \<longrightarrow> bei_isLocal (Endpoint_base ep))" if "(k, ep) \<in> set es" for k ep
  proof -
    have "map_of es k = Some ep" using that wf by simp
    from putEntries_choice [OF this [unfolded es_def]] show ?thesis
      using assms(2) by (auto simp: infos_def make_ok_def Endpoint_String_def)
  qed
  show ?thesis
  proof (cases "es = []")
    case True
    then show ?thesis using keys look by auto
  next
    case False
    define eps where "eps = sort_key Endpoint_String (map snd es)"
    have same: "map Endpoint_String (map snd es) = map fst es" using str by auto
    have "distinct (map Endpoint_String (map snd es))" unfolding same by (rule wf)
    then have "distinct (map Endpoint_String eps)"
      by (metis distinct_map eps_def mset_eq_imp_distinct_iff mset_map mset_sort)
    moreover have "sorted (map Endpoint_String eps)" unfolding eps_def by (rule sorted_sort_key)
    ultimately have "sorted_wrt (<) (map Endpoint_String eps)" by (simp add: strict_sorted_iff)
    moreover have set: "set eps = snd ` set es" by (simp add: eps_def)
    moreover have "Endpoint_String ` set eps = bei_endpoint ` infos" unfolding set keys [symmetric] image_image using str by force
    moreover have "Endpoint_base ` set eps \<subseteq> {info \<in> infos. (\<exists>i\<in>infos. bei_endpoint i = bei_endpoint info \<and> bei_isLocal i) \<longrightarrow> bei_isLocal info}"
      unfolding set using str by fastforce
    moreover have "map_of m spn = Some eps" using look False by (simp add: eps_def)
    ultimately show ?thesis by blast
  qed
qed

definition example_slice :: "string \<Rightarrow> string list \<Rightarrow> string \<Rightarrow> discovery_EndpointSlice" where
  "example_slice name addrs node = \<lparr>des_Namespace = ''ns'', des_Name = name, des_Labels = [(LabelServiceName, ''dns'')],
     des_Annotations = [], des_AddressType = ''IPv4'',
     des_Ports = [\<lparr>dep_Name = Some ''p'', dep_Port = Some 53, dep_Protocol = Some ProtocolUDP\<rparr>],
     des_Endpoints = map (\<lambda>a. \<lparr>de_Addresses = [a], de_NodeName = Some node, de_Ready = None, de_Serving = None,
       de_Terminating = None, de_ForZones = None\<rparr>) addrs, des_other = []\<rparr>"

definition example_cache :: EndpointSliceCache where
  "example_cache = NewEndpointSliceCache ''n1'' IPv4Protocol None"

definition example_net_env :: net_env where
  "example_net_env = \<lparr>ne_ParseIPSloppy = Some, ne_IsIPv6String = (\<lambda>s. CHR '':'' \<in> set s), ne_IPFamilyOf = (\<lambda>_. IPv4Protocol),
     ne_ParseCIDR = (\<lambda>s. Inr (s, IPv4Protocol)), ne_LoadBalancerIPMode = True\<rparr>"

definition example_gates :: feature_gates where
  "example_gates = \<lparr>fg_TopologyAwareHints = True, fg_ServiceTrafficDistribution = False\<rparr>"

definition example_udp_port :: ServicePortName where
  "example_udp_port = \<lparr>spn_NamespacedName = \<lparr>nn_Namespace = ''ns'', nn_Name = ''dns''\<rparr>, spn_Port = ''p'', spn_Protocol = ProtocolUDP\<rparr>"

definition example_slices :: endpointSliceDataByName where
  "example_slices =
     [(''b'', \<lparr>esd_endpointSlice = example_slice ''b'' [''10.0.0.9'', ''10.0.0.2''] ''n2'', esd_remove = False\<rparr>),
      (''a'', \<lparr>esd_endpointSlice = example_slice ''a'' [''10.0.0.2''] ''n1'', esd_remove = False\<rparr>)]"

lemma example_make_ok: "make_ok example_cache"
  by (simp add: make_ok_def example_cache_def NewEndpointSliceCache_def standardEndpointInfo_def)

text \<open>The same address in two slices, once on this node.\<close>

theorem getEndpointsMap_exact_witness:
  "\<exists>m eps. getEndpointsMap example_net_env example_gates example_cache (spn_NamespacedName example_udp_port) example_slices = Inr m \<and>
     map_of m example_udp_port = Some eps \<and> sorted_wrt (<) (map Endpoint_String eps) \<and>
     Endpoint_String ` set eps = {''10.0.0.2:53'', ''10.0.0.9:53''}"
proof -
  let ?r = "getEndpointsMap example_net_env example_gates example_cache (spn_NamespacedName example_udp_port) example_slices"
  have "\<not> isl ?r" by code_simp
  then obtain m where m: "?r = Inr m" by (cases ?r) auto
  have e: "bei_endpoint ` set (entriesOf example_net_env example_gates example_cache (spn_NamespacedName example_udp_port) example_udp_port example_slices) =
      {''10.0.0.2:53'', ''10.0.0.9:53''}" by code_simp
  then have ne: "set (entriesOf example_net_env example_gates example_cache (spn_NamespacedName example_udp_port) example_udp_port example_slices) \<noteq> {}"
    by (metis image_is_empty insert_not_empty)
  from getEndpointsMap_exact [OF example_make_ok m] show ?thesis
  proof (elim disjE conjE exE)
    fix eps
    assume "map_of m example_udp_port = Some eps" "sorted_wrt (<) (map Endpoint_String eps)" and
      "Endpoint_String ` set eps = bei_endpoint ` set (entriesOf example_net_env example_gates example_cache
        (spn_NamespacedName example_udp_port) example_udp_port example_slices)"
    then show ?thesis unfolding e by (intro exI [of _ m] exI [of _ eps] conjI m)
  qed (rule notE [OF ne])
qed

end
