(* ===== verification/Endpoints_Tracker.thy ===== *)
theory Endpoints_Tracker
  imports Endpoint_Slices
begin

text \<open>
  The tracker of endpoint changes and the table of endpoints,
  \<open>wao-loadbalancer/pkg/proxy/endpointschangetracker.go\<close>. The main result is that after an update the
  table is the one that building it anew from the slices as they are would give. Times are
  nanoseconds; the zero time is \<open>None\<close>, which is also what parsing an invalid time gives, and parsing
  is a parameter. The calls that the callback \<open>processEndpointsMapChange\<close> would get are returned; the
  nftables proxier gives none.
\<close>

section \<open>The tracker\<close>

record EndpointsChangeTracker =
  ect_endpointSliceCache :: EndpointSliceCache
  ect_lastChangeTriggerTimes :: "(NamespacedName, int list) gomap"
  ect_trackerStartTime :: int
  ect_processEndpointsMapChange :: bool

definition supportedEndpointSliceAddressTypes :: "string list" where
  "supportedEndpointSliceAddressTypes = [''IPv4'', ''IPv6'']"

definition EndpointsLastChangeTriggerTime :: string where
  "EndpointsLastChangeTriggerTime = ''endpoints.kubernetes.io/last-change-trigger-time''"

definition NewEndpointsChangeTracker where
  "NewEndpointsChangeTracker hostname makeEndpointInfo ipFamily processEndpointsMapChange now =
     \<lparr>ect_endpointSliceCache = NewEndpointSliceCache hostname ipFamily makeEndpointInfo,
      ect_lastChangeTriggerTimes = [], ect_trackerStartTime = now,
      ect_processEndpointsMapChange = processEndpointsMapChange\<rparr>"

definition getLastChangeTriggerTime :: "(string \<Rightarrow> int option) \<Rightarrow> (string, string) gomap \<Rightarrow> int option" where
  "getLastChangeTriggerTime parseTime annotations =
     (case map_of annotations EndpointsLastChangeTriggerTime of None \<Rightarrow> None | Some s \<Rightarrow> parseTime s)"

definition EndpointSliceUpdate ::
  "(string \<Rightarrow> int option) \<Rightarrow> discovery_EndpointSlice option \<Rightarrow> bool \<Rightarrow> EndpointsChangeTracker \<Rightarrow>
   (bool \<times> EndpointsChangeTracker) result" where
  "EndpointSliceUpdate parseTime endpointSlice removeSlice ect =
     (case endpointSlice of
        None \<Rightarrow> Inl (Panic ''endpointSlice'')
      | Some endpointSlice \<Rightarrow>
          if des_AddressType endpointSlice \<notin> set supportedEndpointSliceAddressTypes then Inr (False, ect)
          else (case endpointSliceCacheKeys endpointSlice of
                  Inl _ \<Rightarrow> Inr (False, ect)
                | Inr (namespacedName, _) \<Rightarrow>
                    (let (changeNeeded, cache) = updatePending endpointSlice removeSlice (ect_endpointSliceCache ect);
                         ect = ect\<lparr>ect_endpointSliceCache := cache\<rparr>;
                         times = ect_lastChangeTriggerTimes ect
                     in if \<not> changeNeeded then Inr (False, ect)
                        else if removeSlice
                        then Inr (True, ect\<lparr>ect_lastChangeTriggerTimes := AList.delete namespacedName times\<rparr>)
                        else (case getLastChangeTriggerTime parseTime (des_Annotations endpointSlice) of
                                None \<Rightarrow> Inr (True, ect)
                              | Some t \<Rightarrow>
                                  if t > ect_trackerStartTime ect
                                  then Inr (True, ect\<lparr>ect_lastChangeTriggerTimes := append_at namespacedName t times\<rparr>)
                                  else Inr (True, ect)))))"

definition checkoutTriggerTimes ::
  "EndpointsChangeTracker \<Rightarrow> (NamespacedName, int list) gomap \<Rightarrow> (NamespacedName, int list) gomap \<times> EndpointsChangeTracker" where
  "checkoutTriggerTimes ect lastChangeTriggerTimes =
     (fold (\<lambda>(k, v) m. case map_of m k of None \<Rightarrow> AList.update k v m | Some prev \<Rightarrow> AList.update k (prev @ v) m)
        (ect_lastChangeTriggerTimes ect) lastChangeTriggerTimes,
      ect\<lparr>ect_lastChangeTriggerTimes := []\<rparr>)"

section \<open>The table\<close>

record UpdateEndpointsMapResult =
  uer_UpdatedServices :: "NamespacedName list"
  uer_DeletedUDPEndpoints :: "ServiceEndpoint list"
  uer_NewlyActiveUDPServices :: "ServicePortName list"
  uer_LastChangeTriggerTimes :: "(NamespacedName, int list) gomap"
  uer_processed :: "(EndpointsMap \<times> EndpointsMap) list"

definition em_merge :: "EndpointsMap \<Rightarrow> EndpointsMap \<Rightarrow> EndpointsMap" where
  "em_merge other em = fold (\<lambda>(svcPortName, eps). AList.update svcPortName eps) other em"

definition em_unmerge :: "EndpointsMap \<Rightarrow> EndpointsMap \<Rightarrow> EndpointsMap" where
  "em_unmerge other em = fold (\<lambda>(svcPortName, _). AList.delete svcPortName) other em"

definition deletedUDP :: "EndpointsMap \<Rightarrow> EndpointsMap \<Rightarrow> ServiceEndpoint list" where
  "deletedUDP oldEndpointsMap newEndpointsMap = concat (map (\<lambda>(svcPortName, epList).
     if spn_Protocol svcPortName \<noteq> ProtocolUDP then []
     else concat (map (\<lambda>ep.
       if \<not> IsServing ep then []
       else if list_ex (\<lambda>e. Endpoint_String e = Endpoint_String ep) (get_or [] newEndpointsMap svcPortName) then []
       else [\<lparr>se_Endpoint = Endpoint_String ep, se_ServicePortName = svcPortName\<rparr>]) epList)) oldEndpointsMap)"

definition newlyActiveUDP :: "EndpointsMap \<Rightarrow> EndpointsMap \<Rightarrow> ServicePortName list" where
  "newlyActiveUDP oldEndpointsMap newEndpointsMap = concat (map (\<lambda>(svcPortName, epList).
     if spn_Protocol svcPortName \<noteq> ProtocolUDP then []
     else (let epServing = length (filter IsServing epList);
               oldEpServing = length (filter IsServing (get_or [] oldEndpointsMap svcPortName))
           in if epServing > 0 \<and> oldEpServing = 0 then [svcPortName] else [])) newEndpointsMap)"

definition detectStaleConntrackEntries ::
  "EndpointsMap \<Rightarrow> EndpointsMap \<Rightarrow> ServiceEndpoint list \<Rightarrow> ServicePortName list \<Rightarrow> ServiceEndpoint list \<times> ServicePortName list" where
  "detectStaleConntrackEntries oldEndpointsMap newEndpointsMap deletedUDPEndpoints newlyActiveUDPServices =
     (deletedUDPEndpoints @ deletedUDP oldEndpointsMap newEndpointsMap,
      newlyActiveUDPServices @ newlyActiveUDP oldEndpointsMap newEndpointsMap)"

definition em_applyChange ::
  "NamespacedName \<times> endpointsChange \<Rightarrow> EndpointsMap \<times> UpdateEndpointsMapResult \<Rightarrow> EndpointsMap \<times> UpdateEndpointsMapResult" where
  "em_applyChange c st =
     (let (nn, change) = c; (em, result) = st;
          em = em_merge (ec_current change) (em_unmerge (ec_previous change) em);
          (deleted, newly) = detectStaleConntrackEntries (ec_previous change) (ec_current change)
             (uer_DeletedUDPEndpoints result) (uer_NewlyActiveUDPServices result)
      in (em, result\<lparr>uer_UpdatedServices := List.insert nn (uer_UpdatedServices result),
                     uer_DeletedUDPEndpoints := deleted, uer_NewlyActiveUDPServices := newly\<rparr>))"

definition em_Update where
  "em_Update env gates ord1 ord2 tracker em =
     (let result = \<lparr>uer_UpdatedServices = [], uer_DeletedUDPEndpoints = [], uer_NewlyActiveUDPServices = [],
                    uer_LastChangeTriggerTimes = [], uer_processed = []\<rparr>
      in case tracker of
           None \<Rightarrow> Inr (result, None, em)
         | Some ect \<Rightarrow>
             res_bind (esc_checkoutChanges env gates ord1 ord2 (ect_endpointSliceCache ect)) (\<lambda>(changes, cache).
               let ect = ect\<lparr>ect_endpointSliceCache := cache\<rparr>;
                   (em, result) = fold em_applyChange changes (em, result);
                   (times, ect) = checkoutTriggerTimes ect []
               in Inr (result\<lparr>uer_LastChangeTriggerTimes := times,
                              uer_processed := (if ect_processEndpointsMapChange ect
                                then map (\<lambda>(_, change). (ec_previous change, ec_current change)) changes else [])\<rparr>,
                       Some ect, em)))"

definition getLocalReadyEndpointIPs :: "EndpointsMap \<Rightarrow> (NamespacedName, string list) gomap" where
  "getLocalReadyEndpointIPs em =
     fold (\<lambda>(svcPortName, epList) localIPs.
       fold (\<lambda>ep localIPs.
         if \<not> IsReady ep then localIPs
         else if IsLocal ep then
           (let nsn = spn_NamespacedName svcPortName
            in AList.update nsn (List.insert (Endpoint_IP ep) (get_or [] localIPs nsn)) localIPs)
         else localIPs) epList localIPs) em []"

definition LocalReadyEndpoints :: "EndpointsMap \<Rightarrow> (NamespacedName, int) gomap" where
  "LocalReadyEndpoints em = map (\<lambda>(nsn, ips). (nsn, int (length ips))) (getLocalReadyEndpointIPs em)"

section \<open>Stale connections\<close>

lemma set_deletedUDP:
  "set (deletedUDP old new) = {\<lparr>se_Endpoint = Endpoint_String ep, se_ServicePortName = k\<rparr> | k eps ep.
     (k, eps) \<in> set old \<and> ep \<in> set eps \<and> spn_Protocol k = ProtocolUDP \<and> IsServing ep \<and>
     Endpoint_String ep \<notin> Endpoint_String ` set (get_or [] new k)}"
proof -
  have "x \<in> set (deletedUDP old new) \<longleftrightarrow> (\<exists>k eps ep. (k, eps) \<in> set old \<and> ep \<in> set eps \<and> spn_Protocol k = ProtocolUDP \<and>
      IsServing ep \<and> Endpoint_String ep \<notin> Endpoint_String ` set (get_or [] new k) \<and>
      x = \<lparr>se_Endpoint = Endpoint_String ep, se_ServicePortName = k\<rparr>)" for x
  proof -
    have *: "list_ex (\<lambda>e. Endpoint_String e = a) l \<longleftrightarrow> a \<in> Endpoint_String ` set l" for a l
      by (auto simp: list_ex_iff)
    have "x \<in> set (deletedUDP old new) \<longleftrightarrow> (\<exists>k eps. (k, eps) \<in> set old \<and> spn_Protocol k = ProtocolUDP \<and> (\<exists>ep\<in>set eps.
      IsServing ep \<and> Endpoint_String ep \<notin> Endpoint_String ` set (get_or [] new k) \<and>
      x = \<lparr>se_Endpoint = Endpoint_String ep, se_ServicePortName = k\<rparr>))"
      unfolding deletedUDP_def * by (simp add: Bex_def split_beta)
    then show ?thesis by blast
  qed
  then show ?thesis by blast
qed

text \<open>
  An endpoint that stops serving but stays listed is not reported, though the comment in the loop
  counts it as changed.
\<close>

lemma deletedUDP_not_serving:
  assumes "Endpoint_String ep' = Endpoint_String ep"
  shows "deletedUDP [(k, [ep])] [(k, [ep'])] = []"
  using assms by (simp add: deletedUDP_def get_or_def)

section \<open>The table is what the slices give\<close>

lemma isLocal_trackers [simp]: "isLocal (cache\<lparr>esc_trackerByServiceMap := T\<rparr>) = isLocal cache"
  by (simp add: isLocal_def fun_eq_iff)

lemma skipEndpoint_trackers [simp]: "skipEndpoint env (cache\<lparr>esc_trackerByServiceMap := T\<rparr>) e = skipEndpoint env cache e"
  by (simp add: skipEndpoint_def)

lemma endpointInfoOf_trackers [simp]:
  "endpointInfoOf env gates (cache\<lparr>esc_trackerByServiceMap := T\<rparr>) portNum e = endpointInfoOf env gates cache portNum e"
  by (cases "de_NodeName e") (simp_all add: endpointInfoOf_def)

lemma addEndpoints_trackers [simp]:
  "addEndpoints env gates (cache\<lparr>esc_trackerByServiceMap := T\<rparr>) spn portNum m eps = addEndpoints env gates cache spn portNum m eps"
  by (induction eps arbitrary: m) (simp_all add: addEndpoints_def Let_def)

lemma addPorts_trackers [simp]:
  "addPorts env gates (cache\<lparr>esc_trackerByServiceMap := T\<rparr>) nn eps ports m = addPorts env gates cache nn eps ports m"
  by (induction ports arbitrary: m) (simp_all split: option.split)

lemma getEndpointsMap_trackers [simp]:
  "getEndpointsMap env gates (cache\<lparr>esc_trackerByServiceMap := T\<rparr>) nn l = getEndpointsMap env gates cache nn l"
proof -
  have "endpointInfoByServicePort env gates (cache\<lparr>esc_trackerByServiceMap := T\<rparr>) nn l m =
      endpointInfoByServicePort env gates cache nn l m" for m
  proof (induction l arbitrary: m)
    case (Cons x l)
    obtain name d where x: "x = (name, d)" by (cases x)
    have f: "endpointInfoByServicePort env gates (cache\<lparr>esc_trackerByServiceMap := T\<rparr>) nn l =
        endpointInfoByServicePort env gates cache nn l" using Cons.IH by (rule ext)
    show ?case unfolding x endpointInfoByServicePort.simps addPorts_trackers f ..
  qed simp
  then show ?thesis by (simp only: getEndpointsMap_def)
qed

lemma wf_endpointsMapFromEndpointInfo: "wf_map (endpointsMapFromEndpointInfo m)"
proof -
  have "wf_map (fold (\<lambda>(k, es) acc. if length es > 0 then AList.update k (sort_key Endpoint_String (map snd es)) acc else acc) m acc)"
    if "wf_map acc" for acc
    using that
  proof (induction m arbitrary: acc)
    case (Cons x m)
    obtain k es where x: "x = (k, es)" by (cases x)
    show ?case unfolding x fold_Cons o_apply prod.case 
      by (rule Cons.IH) (cases "length es > 0"; simp only: if_True if_False wf_map_update Cons.prems)
  qed simp
  then show ?thesis by (simp add: endpointsMapFromEndpointInfo_def)
qed

lemma getEndpointsMap_keys:
  assumes "getEndpointsMap env gates cache nn l = Inr m"
  shows "wf_map m" "map_of m k = None \<longleftrightarrow> spn_NamespacedName k \<noteq> nn \<or> entriesOf env gates cache nn k l = []"
proof -
  obtain m1 where m1: "endpointInfoByServicePort env gates cache nn l [] = Inr m1"
    and m: "m = endpointsMapFromEndpointInfo m1" using assms by (auto simp: getEndpointsMap_def res_bind_Inr_iff)
  show "wf_map m" unfolding m by (rule wf_endpointsMapFromEndpointInfo)
  have "sp_ok nn []" by (simp add: sp_ok_def)
  note e = endpointInfoByServicePort_entries [OF m1 this, of k]
  have look: "map_of m k = None \<longleftrightarrow> get_or [] m1 k = []"
    unfolding m using e by (subst endpointsMapFromEndpointInfo_lookup) (simp_all add: sp_ok_def)
  have "get_or [] m1 k = [] \<longleftrightarrow> entriesOf env gates cache nn k l = []"
  proof -
    have "get_or [] m1 k = fold (putEntry cache k) (entriesOf env gates cache nn k l) []" using e by (simp add: get_or_def)
    moreover have "fold (putEntry cache k) infos [] = [] \<longleftrightarrow> infos = []" for infos
    proof (cases infos)
      case (Cons i js)
      have "map_of (fold (putEntry cache k) infos []) (bei_endpoint i) \<noteq> None"
        unfolding putEntries_keys using Cons by simp
      then show ?thesis using Cons by auto
    qed simp
    ultimately show ?thesis by simp
  qed
  moreover have "spn_NamespacedName k \<noteq> nn \<Longrightarrow> get_or [] m1 k = []"
    using conjunct1 [OF e] by (auto simp: sp_ok_def get_or_def dest: map_of_SomeD split: option.split)
  ultimately show "map_of m k = None \<longleftrightarrow> spn_NamespacedName k \<noteq> nn \<or> entriesOf env gates cache nn k l = []"
    using look by blast
qed

lemma entriesOf_set: "set l = set l' \<Longrightarrow> entriesOf env gates cache nn k l = [] \<longleftrightarrow> entriesOf env gates cache nn k l' = []"
  by (auto simp: entriesOf_def)

text \<open>The slice a tracker knows under a name, pending changes first.\<close>

definition latest :: "endpointSliceTracker \<Rightarrow> string \<Rightarrow> discovery_EndpointSlice option" where
  "latest t name = (case map_of (est_pending t) name of
     Some d \<Rightarrow> if esd_remove d then None else Some (esd_endpointSlice d)
   | None \<Rightarrow> map_option esd_endpointSlice (map_of (est_applied t) name))"

definition tracker_ok :: "endpointSliceTracker \<Rightarrow> bool" where
  "tracker_ok t \<longleftrightarrow> wf_map (est_pending t) \<and> wf_map (est_applied t) \<and> (\<forall>(_, d)\<in>set (est_applied t). \<not> esd_remove d)"

abbreviation tracker_of :: "(NamespacedName, endpointSliceTracker) gomap \<Rightarrow> NamespacedName \<Rightarrow> endpointSliceTracker" where
  "tracker_of T nn \<equiv> get_or newEndpointSliceTracker T nn"

definition trackers_ok :: "(NamespacedName, endpointSliceTracker) gomap \<Rightarrow> bool" where
  "trackers_ok T \<longleftrightarrow> wf_map T \<and> (\<forall>nn. tracker_ok (tracker_of T nn))"

lemma tracker_ok_new [simp]: "tracker_ok newEndpointSliceTracker"
  by (simp add: tracker_ok_def newEndpointSliceTracker_def)

lemma applyPending_lookup:
  assumes "wf_map (est_pending t)"
  shows "map_of (est_applied (applyPending t)) name =
    (case map_of (est_pending t) name of Some d \<Rightarrow> if esd_remove d then None else Some d | None \<Rightarrow> map_of (est_applied t) name)"
proof -
  have "map_of (fold (\<lambda>(name, d) a. if esd_remove d then AList.delete name a else AList.update name d a) p a) name =
      (case map_of p name of Some d \<Rightarrow> if esd_remove d then None else Some d | None \<Rightarrow> map_of a name)" if "wf_map p" for p a
    using that
  proof (induction p arbitrary: a)
    case (Cons x p)
    obtain k d where x: "x = (k, d)" by (cases x)
    have "map_of p k = None" using Cons.prems x by (simp add: map_of_eq_None_iff)
    then show ?case using Cons by (cases "name = k") (simp_all add: x split: option.split)
  qed simp
  from this [OF assms] show ?thesis by (simp add: applyPending_def)
qed

lemma est_pending_applyPending [simp]: "est_pending (applyPending t) = []"
  by (simp add: applyPending_def)

lemma tracker_ok_applyPending:
  assumes "tracker_ok t"
  shows "tracker_ok (applyPending t)"
proof -
  define P where "P = (\<lambda>x::string \<times> endpointSliceData. \<not> esd_remove (snd x))"
  define f where "f = (\<lambda>x::string \<times> endpointSliceData. if esd_remove (snd x) then AList.delete (fst x) else AList.update (fst x) (snd x))"
  have f: "wf_map (f x a) \<and> (\<forall>x\<in>set (f x a). P x)" if "wf_map a" "\<forall>x\<in>set a. P x" for x a
  proof (cases "esd_remove (snd x)")
    case True
    then have "f x a = AList.delete (fst x) a" by (simp add: f_def)
    then show ?thesis using wf_map_delete [OF that(1)] Ball_delete [OF that(2)] by (simp only:) blast
  next
    case False
    then have "f x a = AList.update (fst x) (snd x) a" "P (fst x, snd x)" by (simp_all add: f_def P_def)
    then show ?thesis using wf_map_update [OF that(1)] Ball_update [OF that(2)] by (simp only:) blast
  qed
  have "wf_map (fold f p a) \<and> (\<forall>x\<in>set (fold f p a). P x)" if "wf_map a" "\<forall>x\<in>set a. P x" for p a
    using that
  proof (induction p arbitrary: a)
    case (Cons x p)
    have "wf_map (f x a)" "\<forall>y\<in>set (f x a). P y" using f [OF Cons.prems] by blast+
    from Cons.IH [OF this] show ?case unfolding fold_Cons o_apply .
  qed simp
  moreover have "est_applied (applyPending t) = fold f (est_pending t) (est_applied t)"
    unfolding applyPending_def f_def by (auto intro!: fold_cong simp: fun_eq_iff)
  moreover have "wf_map (est_applied t)" "\<forall>x\<in>set (est_applied t). P x"
    using assms by (auto simp: tracker_ok_def P_def)
  ultimately have "wf_map (est_applied (applyPending t))" "\<forall>x\<in>set (est_applied (applyPending t)). P x" by metis+
  then show ?thesis by (auto simp: tracker_ok_def P_def)
qed

lemma latest_applyPending: "tracker_ok t \<Longrightarrow> latest (applyPending t) = latest t"
  by (simp add: latest_def fun_eq_iff applyPending_lookup tracker_ok_def split: option.split)

lemma applyPending_idle: "est_pending t = [] \<Longrightarrow> applyPending t = t"
  by (simp add: applyPending_def)

lemma tracker_of_map: "tracker_of (map (apsnd applyPending) T) nn = applyPending (tracker_of T nn)"
proof -
  have "applyPending newEndpointSliceTracker = newEndpointSliceTracker"
    by (rule applyPending_idle) (simp add: newEndpointSliceTracker_def)
  then show ?thesis by (induction T) (auto simp: get_or_def)
qed

lemma checkoutTrackers_correct:
  assumes "checkoutTrackers env gates cache o1 o2 T = Inr (changes, T')" "wf_map T"
  shows "T' = map (apsnd applyPending) T" "wf_map changes" "fst ` set changes \<subseteq> fst ` set T"
    "case map_of changes nn of
       None \<Rightarrow> est_pending (tracker_of T nn) = []
     | Some c \<Rightarrow> getEndpointsMap env gates cache nn (o1 (est_applied (tracker_of T nn))) = Inr (ec_previous c) \<and>
         getEndpointsMap env gates cache nn (o2 (est_applied (applyPending (tracker_of T nn)))) = Inr (ec_current c)"
proof -
  have "T' = map (apsnd applyPending) T \<and> wf_map changes \<and> fst ` set changes \<subseteq> fst ` set T \<and>
    (case map_of changes nn of
       None \<Rightarrow> est_pending (tracker_of T nn) = []
     | Some c \<Rightarrow> getEndpointsMap env gates cache nn (o1 (est_applied (tracker_of T nn))) = Inr (ec_previous c) \<and>
         getEndpointsMap env gates cache nn (o2 (est_applied (applyPending (tracker_of T nn)))) = Inr (ec_current c))"
    using assms
  proof (induction T arbitrary: changes T')
    case Nil
    then show ?case by (simp add: get_or_def newEndpointSliceTracker_def)
  next
    case (Cons x T)
    obtain n t where x: "x = (n, t)" by (cases x)
    have n: "n \<notin> fst ` set T" and wf: "wf_map T" using Cons.prems(2) x by simp_all
    have look: "tracker_of (x # T) nn = (if nn = n then t else tracker_of T nn)" by (simp add: x get_or_def)
    show ?case
    proof (cases "est_pending t = []")
      case True
      with Cons.prems(1) x obtain T1 where T1: "checkoutTrackers env gates cache o1 o2 T = Inr (changes, T1)" "T' = x # T1"
        by (auto simp: res_bind_Inr_iff)
      note IH = Cons.IH [OF T1(1) wf]
      have "map_of changes n = None" using IH n by (auto simp: map_of_eq_None_iff)
      then show ?thesis using IH True T1(2) unfolding look by (cases "nn = n") (auto simp: x applyPending_idle)
    next
      case False
      with Cons.prems(1) x obtain T1 ch1 p c where T1: "checkoutTrackers env gates cache o1 o2 T = Inr (ch1, T1)"
        "T' = (n, applyPending t) # T1" "changes = (n, \<lparr>ec_previous = p, ec_current = c\<rparr>) # ch1"
        "getEndpointsMap env gates cache n (o1 (est_applied t)) = Inr p"
        "getEndpointsMap env gates cache n (o2 (est_applied (applyPending t))) = Inr c"
        by (auto simp: res_bind_Inr_iff Let_def)
      note IH = Cons.IH [OF T1(1) wf]
      then show ?thesis using n T1 unfolding look by (cases "nn = n") (auto simp: x)
    qed
  qed
  then show "T' = map (apsnd applyPending) T" "wf_map changes" "fst ` set changes \<subseteq> fst ` set T"
    "case map_of changes nn of
       None \<Rightarrow> est_pending (tracker_of T nn) = []
     | Some c \<Rightarrow> getEndpointsMap env gates cache nn (o1 (est_applied (tracker_of T nn))) = Inr (ec_previous c) \<and>
         getEndpointsMap env gates cache nn (o2 (est_applied (applyPending (tracker_of T nn)))) = Inr (ec_current c)"
    by blast+
qed

lemma em_applyChanges_lookup:
  assumes "wf_map changes"
    and "\<And>nn c k. (nn, c) \<in> set changes \<Longrightarrow> wf_map (ec_current c) \<and>
      (map_of (ec_previous c) k \<noteq> None \<or> map_of (ec_current c) k \<noteq> None \<longrightarrow> spn_NamespacedName k = nn)"
  shows "map_of (fst (fold em_applyChange changes (em, r))) k = (case map_of changes (spn_NamespacedName k) of
      None \<Rightarrow> map_of em k
    | Some c \<Rightarrow> (case map_of (ec_current c) k of Some v \<Rightarrow> Some v
                 | None \<Rightarrow> if map_of (ec_previous c) k = None then map_of em k else None))"
  using assms
proof (induction changes arbitrary: em r)
  case (Cons x changes)
  obtain nn c where x: "x = (nn, c)" by (cases x)
  obtain em1 r1 where st: "em_applyChange x (em, r) = (em1, r1)" by (cases "em_applyChange x (em, r)")
  have c: "wf_map (ec_current c)" "map_of (ec_previous c) k \<noteq> None \<or> map_of (ec_current c) k \<noteq> None \<Longrightarrow> spn_NamespacedName k = nn"
    using Cons.prems(2) [of nn c k] unfolding x by (blast intro: list.set_intros)+
  have "em1 = em_merge (ec_current c) (em_unmerge (ec_previous c) em)"
    using st by (simp add: em_applyChange_def x split_beta Let_def)
  then have em1: "map_of em1 k = (case map_of (ec_current c) k of Some v \<Rightarrow> Some v
                 | None \<Rightarrow> if map_of (ec_previous c) k = None then map_of em k else None)"
    by (simp only: em_merge_def em_unmerge_def map_of_fold_update [OF c(1)] map_of_fold_delete)
  have "nn \<notin> fst ` set changes" using Cons.prems(1) x by simp
  then have nn: "map_of changes nn = None" by (simp add: map_of_eq_None_iff)
  have IH: "map_of (fst (fold em_applyChange changes (em1, r1))) k = (case map_of changes (spn_NamespacedName k) of
      None \<Rightarrow> map_of em1 k
    | Some c \<Rightarrow> (case map_of (ec_current c) k of Some v \<Rightarrow> Some v
                 | None \<Rightarrow> if map_of (ec_previous c) k = None then map_of em1 k else None))"
    by (rule Cons.IH) (use Cons.prems(1) in simp, use Cons.prems(2) in \<open>blast intro: list.set_intros\<close>)
  show ?case
  proof (cases "spn_NamespacedName k = nn")
    case True
    with IH nn em1 show ?thesis unfolding fold_Cons o_apply st by (simp add: x)
  next
    case False
    then have "map_of (ec_previous c) k = None" "map_of (ec_current c) k = None" using c(2) by blast+
    then have same: "map_of em1 k = map_of em k" using em1 by simp
    show ?thesis unfolding fold_Cons o_apply st IH same using False by (simp add: x)
  qed
qed simp

section \<open>Reachable states\<close>

text \<open>
  The slices that the API server has reported, by service and name: what the events say, the last
  one winning. Slices of an unsupported address type or without a service are ignored.
\<close>

definition report ::
  "discovery_EndpointSlice \<Rightarrow> bool \<Rightarrow> (NamespacedName \<times> string \<rightharpoonup> discovery_EndpointSlice) \<Rightarrow>
   (NamespacedName \<times> string \<rightharpoonup> discovery_EndpointSlice)" where
  "report endpointSlice removeSlice S =
     (if des_AddressType endpointSlice \<in> set supportedEndpointSliceAddressTypes
      then (case endpointSliceCacheKeys endpointSlice of
              Inl _ \<Rightarrow> S
            | Inr key \<Rightarrow> S(key := if removeSlice then None else Some endpointSlice))
      else S)"

definition perm_order :: "(endpointSliceDataByName \<Rightarrow> endpointSliceDataByName) \<Rightarrow> bool" where
  "perm_order ord \<longleftrightarrow> (\<forall>l. mset (ord l) = mset l)"

inductive ep_reach for env gates cache where
  Start: "ep_reach env gates cache Map.empty
    \<lparr>ect_endpointSliceCache = cache\<lparr>esc_trackerByServiceMap := []\<rparr>, ect_lastChangeTriggerTimes = [],
     ect_trackerStartTime = now, ect_processEndpointsMapChange = cb\<rparr> []"
| Event: "\<lbrakk>ep_reach env gates cache S ect em; EndpointSliceUpdate parseTime (Some s) removeSlice ect = Inr (changed, ect')\<rbrakk> \<Longrightarrow>
    ep_reach env gates cache (report s removeSlice S) ect' em"
| Sync: "\<lbrakk>ep_reach env gates cache S ect em; perm_order ord1; perm_order ord2;
    em_Update env gates ord1 ord2 (Some ect) em = Inr (result, Some ect', em')\<rbrakk> \<Longrightarrow>
    ep_reach env gates cache S ect' em'"

text \<open>A list of the slices of a service, in some order.\<close>

definition lists_slices :: "(NamespacedName \<times> string \<rightharpoonup> discovery_EndpointSlice) \<Rightarrow> NamespacedName \<Rightarrow> endpointSliceDataByName \<Rightarrow> bool" where
  "lists_slices S nn l \<longleftrightarrow> wf_map l \<and> (\<forall>name. map_option esd_endpointSlice (map_of l name) = S (nn, name))"

definition table_of where
  "table_of env gates cache nn a k v \<longleftrightarrow> (\<exists>l m. mset l = mset a \<and> getEndpointsMap env gates cache nn l = Inr m \<and> v = map_of m k)"

definition ep_inv where
  "ep_inv env gates cache S ect em \<longleftrightarrow>
     (\<exists>T. ect_endpointSliceCache ect = cache\<lparr>esc_trackerByServiceMap := T\<rparr> \<and> trackers_ok T \<and>
       (\<forall>nn name. latest (tracker_of T nn) name = S (nn, name)) \<and>
       (\<forall>k. table_of env gates cache (spn_NamespacedName k) (est_applied (tracker_of T (spn_NamespacedName k))) k (map_of em k)))"

lemma table_of_empty [simp]: "table_of env gates cache nn [] k None"
  unfolding table_of_def by (intro exI [of _ "[]"]) (simp add: getEndpointsMap_def endpointsMapFromEndpointInfo_def)

lemma updatePending_trackers:
  assumes "trackers_ok T" "\<forall>nn name. latest (tracker_of T nn) name = S (nn, name)"
    and "updatePending s removeSlice (cache\<lparr>esc_trackerByServiceMap := T\<rparr>) = (changed, c')"
    and "endpointSliceCacheKeys s = Inr (nn, name)"
  shows "\<exists>T'. c' = cache\<lparr>esc_trackerByServiceMap := T'\<rparr> \<and> trackers_ok T' \<and>
    (\<forall>nn' name'. latest (tracker_of T' nn') name' = (S((nn, name) := if removeSlice then None else Some s)) (nn', name')) \<and>
    (\<forall>nn'. est_applied (tracker_of T' nn') = est_applied (tracker_of T nn'))"
proof -
  define d where "d = \<lparr>esd_endpointSlice = s, esd_remove = removeSlice\<rparr>"
  define T1 where "T1 = (if map_of T nn = None then AList.update nn newEndpointSliceTracker T else T)"
  define c1 where "c1 = cache\<lparr>esc_trackerByServiceMap := T1\<rparr>"
  define T2 where "T2 = AList.map_entry nn (\<lambda>t. t\<lparr>est_pending := AList.update name d (est_pending t)\<rparr>) T1"
  have t1: "tracker_of T1 nn' = tracker_of T nn'" for nn' by (simp add: T1_def get_or_def)
  have wf1: "wf_map T1" using assms(1) by (simp add: T1_def trackers_ok_def)
  obtain t where t: "map_of T1 nn = Some t" by (cases "map_of T nn") (simp_all add: T1_def)
  then have tnn: "t = tracker_of T nn" using t1 [of nn] by (simp add: get_or_def)
  have tok: "tracker_ok t" unfolding tnn using assms(1) by (simp add: trackers_ok_def)
  have c': "(changed, c') = (if esDataChanged c1 nn name d then (True, c1\<lparr>esc_trackerByServiceMap := T2\<rparr>) else (False, c1))"
    using assms(3,4)
    by (cases "map_of T nn") (auto simp: updatePending_def Let_def c1_def T1_def T2_def d_def split: if_splits)
  show ?thesis
  proof (cases "esDataChanged c1 nn name d")
    case True
    define t2 where "t2 = t\<lparr>est_pending := AList.update name d (est_pending t)\<rparr>"
    have look: "tracker_of T2 nn' = (if nn' = nn then t2 else tracker_of T nn')" for nn'
      using t t1 [of nn'] by (simp add: T2_def t2_def get_or_def map_of_map_entry)
    have "tracker_ok t2" using tok by (simp add: t2_def tracker_ok_def)
    moreover have "wf_map T2" unfolding T2_def by (rule distinct_map_entry [OF wf1])
    ultimately have "trackers_ok T2" using assms(1) by (simp add: trackers_ok_def look)
    moreover have "latest t2 name' = (if name' = name then if removeSlice then None else Some s else latest t name')" for name'
      by (simp add: latest_def t2_def d_def split: option.split)
    then have "\<forall>nn' name'. latest (tracker_of T2 nn') name' = (S((nn, name) := if removeSlice then None else Some s)) (nn', name')"
      using assms(2) by (simp add: look tnn)
    moreover have "est_applied (tracker_of T2 nn') = est_applied (tracker_of T nn')" for nn'
      by (simp add: look t2_def tnn)
    ultimately show ?thesis using c' True by (auto simp: c1_def)
  next
    case False
    have "latest t name = (if removeSlice then None else Some s)"
    proof (cases "map_of (est_pending t) name")
      case (Some d')
      then have "d' = d" using False t by (simp add: esDataChanged_def c1_def Let_def)
      then show ?thesis using Some by (simp add: latest_def d_def)
    next
      case None
      show ?thesis
      proof (cases "map_of (est_applied t) name")
        case (Some d')
        then have "d' = d" using None False t by (simp add: esDataChanged_def c1_def Let_def)
        moreover have "\<not> esd_remove d'" using Some tok by (auto simp: tracker_ok_def dest: map_of_SomeD)
        ultimately show ?thesis using None Some by (simp add: latest_def d_def)
      qed (use None False t in \<open>simp add: esDataChanged_def c1_def Let_def latest_def d_def split: if_splits\<close>)
    qed
    then have "S (nn, name) = (if removeSlice then None else Some s)" using assms(2) tnn by simp
    then have "S((nn, name) := if removeSlice then None else Some s) = S" by (simp add: fun_upd_idem)
    moreover have "trackers_ok T1" using wf1 assms(1) by (simp add: trackers_ok_def t1)
    ultimately show ?thesis using c' False assms(2) by (auto simp: c1_def t1)
  qed
qed

lemma EndpointSliceUpdate_inv:
  assumes "ep_inv env gates cache S ect em" "EndpointSliceUpdate parseTime (Some s) removeSlice ect = Inr (changed, ect')"
  shows "ep_inv env gates cache (report s removeSlice S) ect' em"
proof (cases "des_AddressType s \<in> set supportedEndpointSliceAddressTypes \<and> \<not> isl (endpointSliceCacheKeys s)")
  case False
  then have "ect' = ect" "report s removeSlice S = S"
    using assms(2) by (auto simp: EndpointSliceUpdate_def report_def split: if_splits sum.splits)
  then show ?thesis using assms(1) by simp
next
  case True
  then obtain nn name where key: "endpointSliceCacheKeys s = Inr (nn, name)"
    by (cases "endpointSliceCacheKeys s") auto
  obtain T where T: "ect_endpointSliceCache ect = cache\<lparr>esc_trackerByServiceMap := T\<rparr>" "trackers_ok T"
    "\<forall>nn name. latest (tracker_of T nn) name = S (nn, name)"
    "\<forall>k. table_of env gates cache (spn_NamespacedName k) (est_applied (tracker_of T (spn_NamespacedName k))) k (map_of em k)"
    using assms(1) by (auto simp: ep_inv_def)
  obtain ch c' where u: "updatePending s removeSlice (ect_endpointSliceCache ect) = (ch, c')" by fastforce
  have "ect_endpointSliceCache ect' = c'"
    using assms(2) True key u by (auto simp: EndpointSliceUpdate_def Let_def split: if_splits option.splits)
  moreover obtain T' where "c' = cache\<lparr>esc_trackerByServiceMap := T'\<rparr>" "trackers_ok T'"
    "\<forall>nn' name'. latest (tracker_of T' nn') name' = (S((nn, name) := if removeSlice then None else Some s)) (nn', name')"
    "\<forall>nn'. est_applied (tracker_of T' nn') = est_applied (tracker_of T nn')"
    using updatePending_trackers [OF T(2,3) u [unfolded T(1)] key] by blast
  moreover have "report s removeSlice S = S((nn, name) := if removeSlice then None else Some s)"
    using True key by (simp add: report_def)
  ultimately show ?thesis using T(4) unfolding ep_inv_def by (intro exI [of _ T']) simp
qed

lemma em_Update_inv:
  assumes "ep_inv env gates cache S ect em" "perm_order o1" "perm_order o2"
    and "em_Update env gates o1 o2 (Some ect) em = Inr (result, Some ect', em')"
  shows "ep_inv env gates cache S ect' em' \<and> (\<forall>nn. est_pending (tracker_of (esc_trackerByServiceMap (ect_endpointSliceCache ect')) nn) = [])"
proof -
  obtain T where T: "ect_endpointSliceCache ect = cache\<lparr>esc_trackerByServiceMap := T\<rparr>" "trackers_ok T"
    "\<forall>nn name. latest (tracker_of T nn) name = S (nn, name)"
    "\<forall>k. table_of env gates cache (spn_NamespacedName k) (est_applied (tracker_of T (spn_NamespacedName k))) k (map_of em k)"
    using assms(1) by (auto simp: ep_inv_def)
  define c0 where "c0 = cache\<lparr>esc_trackerByServiceMap := T\<rparr>"
  have get: "getEndpointsMap env gates c0 = getEndpointsMap env gates cache" by (intro ext) (simp add: c0_def)
  obtain changes T' r where co: "checkoutTrackers env gates c0 o1 o2 T = Inr (changes, T')"
    and ect': "ect_endpointSliceCache ect' = cache\<lparr>esc_trackerByServiceMap := T'\<rparr>"
    and em': "em' = fst (fold em_applyChange changes (em, r))"
    using assms(4) by (auto simp: em_Update_def esc_checkoutChanges_def res_bind_Inr_iff Let_def T(1) c0_def
        checkoutTriggerTimes_def split_beta)
  have wfT: "wf_map T" using T(2) by (simp add: trackers_ok_def)
  note ct = checkoutTrackers_correct [OF co wfT, unfolded get]
  have look: "tracker_of T' nn = applyPending (tracker_of T nn)" for nn unfolding ct(1) by (rule tracker_of_map)
  have ok: "tracker_ok (tracker_of T nn)" for nn using T(2) by (simp add: trackers_ok_def)
  have "tracker_ok (tracker_of T' nn)" for nn unfolding look by (rule tracker_ok_applyPending [OF ok])
  then have "trackers_ok T'" using wfT by (simp add: trackers_ok_def ct(1) comp_def)
  moreover have "\<forall>nn name. latest (tracker_of T' nn) name = S (nn, name)"
    using T(3) ok by (simp add: look latest_applyPending)
  moreover have "table_of env gates cache (spn_NamespacedName k) (est_applied (tracker_of T' (spn_NamespacedName k))) k (map_of em' k)" for k
  proof -
    have em'_k: "map_of em' k = (case map_of changes (spn_NamespacedName k) of
      None \<Rightarrow> map_of em k
    | Some c \<Rightarrow> (case map_of (ec_current c) k of Some v \<Rightarrow> Some v
                 | None \<Rightarrow> if map_of (ec_previous c) k = None then map_of em k else None))"
      unfolding em'
    proof (rule em_applyChanges_lookup [OF ct(2)])
      fix nn c k
      assume "(nn, c) \<in> set changes"
      then have "map_of changes nn = Some c" using ct(2) by simp
      with ct(4) [of nn] have "getEndpointsMap env gates cache nn (o1 (est_applied (tracker_of T nn))) = Inr (ec_previous c)"
        "getEndpointsMap env gates cache nn (o2 (est_applied (applyPending (tracker_of T nn)))) = Inr (ec_current c)" by simp_all
      from getEndpointsMap_keys(2) [OF this(1), of k] getEndpointsMap_keys(2) [OF this(2), of k] getEndpointsMap_keys(1) [OF this(2)]
      show "wf_map (ec_current c) \<and> (map_of (ec_previous c) k \<noteq> None \<or> map_of (ec_current c) k \<noteq> None \<longrightarrow> spn_NamespacedName k = nn)"
        by (cases "spn_NamespacedName k = nn") simp_all
    qed
    define t where "t = tracker_of T (spn_NamespacedName k)"
    show ?thesis
    proof (cases "map_of changes (spn_NamespacedName k)")
      case None
      with ct(4) [of "spn_NamespacedName k"] have "applyPending t = t" by (simp add: t_def applyPending_idle)
      then show ?thesis using T(4) None em'_k by (simp add: look t_def)
    next
      case (Some c)
      with ct(4) [of "spn_NamespacedName k"]
      have p: "getEndpointsMap env gates cache (spn_NamespacedName k) (o1 (est_applied t)) = Inr (ec_previous c)"
        and c: "getEndpointsMap env gates cache (spn_NamespacedName k) (o2 (est_applied (applyPending t))) = Inr (ec_current c)"
        by (simp_all add: t_def)
      have "map_of em k = None" if "map_of (ec_previous c) k = None"
      proof -
        obtain l m where l: "mset l = mset (est_applied t)" "getEndpointsMap env gates cache (spn_NamespacedName k) l = Inr m" "map_of em k = map_of m k"
          using T(4) unfolding table_of_def t_def by metis
        have "mset (o1 (est_applied t)) = mset (est_applied t)" using assms(2) unfolding perm_order_def by blast
        then have "set (o1 (est_applied t)) = set l" using l(1) by (metis set_mset_mset)
        with getEndpointsMap_keys(2) [OF p, of k] getEndpointsMap_keys(2) [OF l(2), of k] that l(3) entriesOf_set
        show ?thesis by metis
      qed
      then have "map_of em' k = map_of (ec_current c) k" using em'_k Some by (simp split: option.split)
      moreover have "mset (o2 (est_applied (applyPending t))) = mset (est_applied (applyPending t))"
        using assms(3) unfolding perm_order_def by blast
      ultimately show ?thesis using c unfolding table_of_def look t_def [symmetric] by blast
    qed
  qed
  ultimately have "ep_inv env gates cache S ect' em'" unfolding ep_inv_def using ect' by (intro exI [of _ T']) simp
  then show ?thesis using ect' by (simp add: look)
qed

lemma ep_reach_inv: "ep_reach env gates cache S ect em \<Longrightarrow> ep_inv env gates cache S ect em"
proof (induction rule: ep_reach.induct)
  case (Start now cb)
  have "trackers_ok []" by (simp add: trackers_ok_def get_or_def)
  then show ?case unfolding ep_inv_def
    by (intro exI [of _ "[]"]) (simp add: get_or_def latest_def newEndpointSliceTracker_def)
next
  case (Event S ect em parseTime s removeSlice changed ect')
  show ?case by (rule EndpointSliceUpdate_inv [OF Event.IH Event.hyps(2)])
next
  case (Sync S ect em ord1 ord2 result ect' em')
  show ?case using em_Update_inv [OF Sync.IH Sync.hyps(2-4)] by (rule conjunct1)
qed

lemma em_Update_table:
  assumes "ep_reach env gates cache S ect em" "perm_order ord1" "perm_order ord2"
    and "em_Update env gates ord1 ord2 (Some ect) em = Inr (result, Some ect', em')"
  shows "(\<exists>l m. lists_slices S (spn_NamespacedName k) l \<and>
      getEndpointsMap env gates cache (spn_NamespacedName k) l = Inr m \<and> map_of em' k = map_of m k) \<and>
    est_pending (tracker_of (esc_trackerByServiceMap (ect_endpointSliceCache ect')) nn) = []"
proof -
  note i = em_Update_inv [OF ep_reach_inv [OF assms(1)] assms(2-4)]
  then obtain T where T: "ect_endpointSliceCache ect' = cache\<lparr>esc_trackerByServiceMap := T\<rparr>" "trackers_ok T"
    "\<forall>nn name. latest (tracker_of T nn) name = S (nn, name)"
    "\<forall>k. table_of env gates cache (spn_NamespacedName k) (est_applied (tracker_of T (spn_NamespacedName k))) k (map_of em' k)"
    by (auto simp: ep_inv_def)
  define t where "t = tracker_of T (spn_NamespacedName k)"
  have idle: "est_pending t = []" using conjunct2 [OF i] T(1) by (simp add: t_def)
  obtain l m where l: "mset l = mset (est_applied t)" "getEndpointsMap env gates cache (spn_NamespacedName k) l = Inr m"
    "map_of em' k = map_of m k" using T(4) unfolding table_of_def t_def by metis
  have wf: "wf_map (est_applied t)" using T(2) by (simp add: trackers_ok_def tracker_ok_def t_def)
  have "mset (map fst l) = mset (map fst (est_applied t))" using l(1) by simp
  then have wfl: "wf_map l" using wf by (metis mset_eq_imp_distinct_iff)
  have "set l = set (est_applied t)" using l(1) by (metis set_mset_mset)
  then have "map_of l = map_of (est_applied t)" using wf wfl by (metis map_of_eqI map_of_inject_set)
  then have "lists_slices S (spn_NamespacedName k) l"
    using wfl T(3) [THEN spec, of "spn_NamespacedName k"] idle by (simp add: lists_slices_def latest_def t_def)
  with l conjunct2 [OF i] show ?thesis by blast
qed

text \<open>
  C37. Whatever slice events came in and however often the table was updated before, right after an update the entry of
  every service port is the one that \<open>getEndpointsMap\<close> computes from the slices of its service as
  they were last reported, in some order: no endpoint of a deleted or changed slice is left and
  none is missed, and no change is left pending.
\<close>

theorem EndpointsMap_Update_exact:
  assumes "ep_reach env gates cache S ect em" "perm_order ord1" "perm_order ord2"
    and "em_Update env gates ord1 ord2 (Some ect) em = Inr (result, Some ect', em')"
  shows "(\<exists>l m. lists_slices S (spn_NamespacedName k) l \<and>
      getEndpointsMap env gates cache (spn_NamespacedName k) l = Inr m \<and> map_of em' k = map_of m k) \<and>
    est_pending (tracker_of (esc_trackerByServiceMap (ect_endpointSliceCache ect')) nn) = []"
  by (rule em_Update_table [OF assms])

text \<open>One slice, an update, a second slice and a change of the first, and the update that follows.\<close>

definition example_ect0 :: EndpointsChangeTracker where
  "example_ect0 = NewEndpointsChangeTracker ''n1'' None IPv4Protocol False 0"

definition example_report :: "discovery_EndpointSlice \<Rightarrow> EndpointsChangeTracker \<Rightarrow> EndpointsChangeTracker" where
  "example_report s ect = snd (projr (EndpointSliceUpdate (\<lambda>_. None) (Some s) False ect))"

definition example_update :: "EndpointsChangeTracker \<times> EndpointsMap \<Rightarrow> EndpointsChangeTracker \<times> EndpointsMap" where
  "example_update st = (case em_Update example_net_env example_gates rev id (Some (fst st)) (snd st) of
     Inr (_, Some ect, em) \<Rightarrow> (ect, em) | _ \<Rightarrow> st)"

definition example_b1 :: discovery_EndpointSlice where
  "example_b1 = example_slice ''b'' [''10.0.0.9'', ''10.0.0.2''] ''n2''"

definition example_st1 :: "EndpointsChangeTracker \<times> EndpointsMap" where
  "example_st1 = example_update (example_report example_b1 example_ect0, [])"

definition example_b2 :: discovery_EndpointSlice where
  "example_b2 = example_slice ''b'' [''10.0.0.7''] ''n2''"

definition example_a :: discovery_EndpointSlice where
  "example_a = example_slice ''a'' [''10.0.0.2''] ''n1''"

definition example_ect2 :: EndpointsChangeTracker where
  "example_ect2 = example_report example_b2 (example_report example_a (fst example_st1))"

lemma perm_order_examples: "perm_order rev" "perm_order id"
  by (simp_all add: perm_order_def)

lemma example_Event:
  assumes "ep_reach env gates cache S ect em"
  shows "ep_reach env gates cache (report s False S) (example_report s ect) em"
proof -
  have "\<not> isl (EndpointSliceUpdate (\<lambda>_. None) (Some s) False ect)"
    by (auto simp: EndpointSliceUpdate_def Let_def split: sum.split prod.split option.split)
  then obtain b ect' where e: "EndpointSliceUpdate (\<lambda>_. None) (Some s) False ect = Inr (b, ect')"
    by (cases "EndpointSliceUpdate (\<lambda>_. None) (Some s) False ect") auto
  from Event [OF assms e] show ?thesis by (simp add: example_report_def e)
qed

lemma example_Sync:
  assumes "ep_reach example_net_env example_gates cache S ect em"
  shows "ep_reach example_net_env example_gates cache S (fst (example_update (ect, em))) (snd (example_update (ect, em)))"
  using assms Sync [OF assms perm_order_examples] by (auto simp: example_update_def split: sum.split option.split prod.split)

lemma example_ep_reach: "ep_reach example_net_env example_gates example_cache
    (report example_b2 False (report example_a False (report example_b1 False Map.empty))) example_ect2 (snd example_st1)"
proof -
  have "ep_reach example_net_env example_gates example_cache Map.empty example_ect0 []"
    using Start [of example_net_env example_gates example_cache 0 False]
    by (simp add: example_ect0_def example_cache_def NewEndpointsChangeTracker_def NewEndpointSliceCache_def)
  from example_Sync [OF example_Event [OF this, of example_b1]]
  show ?thesis unfolding example_st1_def example_ect2_def by (intro example_Event)
qed

theorem EndpointsMap_Update_exact_witness:
  "\<exists>result ect' em' l m. em_Update example_net_env example_gates rev id (Some example_ect2) (snd example_st1) = Inr (result, Some ect', em') \<and>
     lists_slices (report example_b2 False (report example_a False (report example_b1 False Map.empty))) (spn_NamespacedName example_udp_port) l \<and>
     getEndpointsMap example_net_env example_gates example_cache (spn_NamespacedName example_udp_port) l = Inr m \<and>
     map_of em' example_udp_port = map_of m example_udp_port \<and>
     map Endpoint_String (get_or [] em' example_udp_port) = [''10.0.0.2:53'', ''10.0.0.7:53'']"
proof -
  let ?r = "em_Update example_net_env example_gates rev id (Some example_ect2) (snd example_st1)"
  have "case ?r of Inr (_, Some _, em') \<Rightarrow> map Endpoint_String (get_or [] em' example_udp_port) = [''10.0.0.2:53'', ''10.0.0.7:53''] | _ \<Rightarrow> False"
    by code_simp
  then obtain result ect' em' where r: "?r = Inr (result, Some ect', em')"
    and eps: "map Endpoint_String (get_or [] em' example_udp_port) = [''10.0.0.2:53'', ''10.0.0.7:53'']"
    by (auto split: sum.splits option.splits)
  obtain l m where "lists_slices (report example_b2 False (report example_a False (report example_b1 False Map.empty)))
      (spn_NamespacedName example_udp_port) l"
    "getEndpointsMap example_net_env example_gates example_cache (spn_NamespacedName example_udp_port) l = Inr m"
    "map_of em' example_udp_port = map_of m example_udp_port"
    using EndpointsMap_Update_exact [OF example_ep_reach perm_order_examples r, of example_udp_port] by blast
  then show ?thesis using r eps by (intro exI conjI)
qed

end
