(* ===== verification/Conntrack.thy ===== *)
theory Conntrack
  imports Proxy_Util Service_Tracker Endpoints_Tracker
begin

text \<open>
  Stale connections of UDP services, \<open>wao-loadbalancer/pkg/proxy/conntrack/\<close>: which entries of the
  connection table are cleared after an update (\<open>cleanup.go\<close>) and the calls of the tool \<open>conntrack\<close>
  that clear them (\<open>conntrack.go\<close>). The tool is a parameter: the path it is found under and what a
  call gives. \<open>UnsortedList\<close> of a set is the list that models the set.
\<close>

section \<open>The conntrack tool\<close>

datatype ct_call =
    ClearEntriesForIP string string
  | ClearEntriesForPort int bool string
  | ClearEntriesForNAT string string string
  | ClearEntriesForPortNAT string int string

record exec_env =
  xe_LookPath :: "string \<Rightarrow> string result"
  xe_CombinedOutput :: "string \<Rightarrow> string list \<Rightarrow> string \<times> string option"

definition noConnectionToDelete :: string where
  "noConnectionToDelete = ''0 flow entries have been deleted''"

definition parametersWithFamily :: "bool \<Rightarrow> string list \<Rightarrow> string list" where
  "parametersWithFamily isIPv6 parameters = (if isIPv6 then parameters @ [''-f'', ''ipv6''] else parameters)"

text \<open>The error of a call carries the output of the tool; \<open>Contains\<close> looks for a text in it.\<close>

fun Contains :: "string \<Rightarrow> string \<Rightarrow> bool" where
  "Contains [] sub \<longleftrightarrow> sub = []"
| "Contains (c # s) sub \<longleftrightarrow> take (length sub) (c # s) = sub \<or> Contains s sub"

fun Error_text :: "goerr \<Rightarrow> string" where
  "Error_text (Errorf m) = m"
| "Error_text (Wrap m e) = m @ '': '' @ Error_text e"
| "Error_text (External m) = m"
| "Error_text (Panic m) = m"

definition ct_exec :: "exec_env \<Rightarrow> string list \<Rightarrow> unit result" where
  "ct_exec xe parameters =
     (case xe_LookPath xe ''conntrack'' of
        Inl e \<Rightarrow> Inl (Wrap ''error looking for path of conntrack'' e)
      | Inr conntrackPath \<Rightarrow>
          (case xe_CombinedOutput xe conntrackPath parameters of
             (output, Some err) \<Rightarrow> Inl (Errorf (''conntrack command returned: '' @ output @ '', error message: '' @ err))
           | (output, None) \<Rightarrow> Inr ()))"

definition ct_delete :: "exec_env \<Rightarrow> string \<Rightarrow> string list \<Rightarrow> unit result" where
  "ct_delete xe what parameters =
     (case ct_exec xe parameters of
        Inl e \<Rightarrow> if Contains (Error_text e) noConnectionToDelete then Inr () else Inl (Wrap what e)
      | Inr u \<Rightarrow> Inr u)"

fun ct_run :: "exec_env \<Rightarrow> net_env \<Rightarrow> ct_call \<Rightarrow> unit result" where
  "ct_run xe env (ClearEntriesForIP ip protocol) =
     ct_delete xe ''error deleting connection tracking state for UDP service IP''
       (parametersWithFamily (ne_IsIPv6String env ip) [''-D'', ''--orig-dst'', ip, ''-p'', ToLower protocol])"
| "ct_run xe env (ClearEntriesForPort port isIPv6 protocol) =
     (if port \<le> 0 then Inl (Errorf ''wrong port number. The port number must be greater than zero'')
      else ct_delete xe ''error deleting conntrack entries for UDP port''
             (parametersWithFamily isIPv6 [''-D'', ''-p'', ToLower protocol, ''--dport'', Itoa port]))"
| "ct_run xe env (ClearEntriesForNAT origin dest protocol) =
     ct_delete xe ''error deleting conntrack entries for UDP peer''
       (parametersWithFamily (ne_IsIPv6String env origin) [''-D'', ''--orig-dst'', origin, ''--dst-nat'', dest, ''-p'', ToLower protocol])"
| "ct_run xe env (ClearEntriesForPortNAT dest port protocol) =
     (if port \<le> 0 then Inl (Errorf ''wrong port number. The port number must be greater than zero'')
      else ct_delete xe ''error deleting conntrack entries for UDP port''
             (parametersWithFamily (ne_IsIPv6String env dest)
               [''-D'', ''-p'', ToLower protocol, ''--dport'', Itoa port, ''--dst-nat'', dest]))"

section \<open>What is cleared\<close>

text \<open>The addresses and node ports to clear, and whether the last node port is one of IPv6.\<close>

definition newlyActive1 ::
  "util_env \<Rightarrow> ServicePortMap \<Rightarrow> ServicePortName \<Rightarrow> string list \<times> int list \<times> bool \<Rightarrow> string list \<times> int list \<times> bool" where
  "newlyActive1 env svcPortMap svcPortName st =
     (let (ips, nodePorts, isIPv6) = st
      in case map_of svcPortMap svcPortName of
           None \<Rightarrow> st
         | Some svcInfo \<Rightarrow>
             (let b = ServicePort_base svcInfo;
                  ips = List.insert (IP_String (bsp_clusterIP b)) ips;
                  ips = fold (\<lambda>extIP. List.insert (IP_String extIP)) (bsp_externalIPs b) ips;
                  ips = fold (\<lambda>lbIP. List.insert (IP_String lbIP)) (bsp_loadBalancerVIPs b) ips;
                  nodePort = bsp_nodePort b
              in if bsp_protocol b = ProtocolUDP \<and> nodePort \<noteq> 0
                 then (ips, List.insert nodePort nodePorts, ne_IPFamilyOf env (bsp_clusterIP b) = IPv6Protocol)
                 else (ips, nodePorts, isIPv6)))"

definition deleteStaleServiceConntrackEntries ::
  "util_env \<Rightarrow> ServicePortMap \<Rightarrow> UpdateServiceMapResult \<Rightarrow> UpdateEndpointsMapResult \<Rightarrow> ct_call list" where
  "deleteStaleServiceConntrackEntries env svcPortMap serviceUpdateResult endpointsUpdateResult =
     (let (ips, nodePorts, isIPv6) =
            fold (newlyActive1 env svcPortMap) (uer_NewlyActiveUDPServices endpointsUpdateResult)
              (usr_DeletedUDPClusterIPs serviceUpdateResult, [], False)
      in map (\<lambda>svcIP. ClearEntriesForIP svcIP ProtocolUDP) ips @
         map (\<lambda>nodePort. ClearEntriesForPort nodePort isIPv6 ProtocolUDP) nodePorts)"

definition deleteStaleEndpointConntrackEntries ::
  "util_env \<Rightarrow> ServicePortMap \<Rightarrow> UpdateEndpointsMapResult \<Rightarrow> ct_call list" where
  "deleteStaleEndpointConntrackEntries env svcPortMap endpointsUpdateResult =
     concat (map (\<lambda>epSvcPair.
       case map_of svcPortMap (se_ServicePortName epSvcPair) of
         None \<Rightarrow> []
       | Some svcInfo \<Rightarrow>
           (let b = ServicePort_base svcInfo; endpointIP = IPPart env (se_Endpoint epSvcPair); nodePort = bsp_nodePort b
            in (if nodePort \<noteq> 0 then [ClearEntriesForPortNAT endpointIP nodePort ProtocolUDP] else []) @
               [ClearEntriesForNAT (IP_String (bsp_clusterIP b)) endpointIP ProtocolUDP] @
               map (\<lambda>extIP. ClearEntriesForNAT (IP_String extIP) endpointIP ProtocolUDP) (bsp_externalIPs b) @
               map (\<lambda>lbIP. ClearEntriesForNAT (IP_String lbIP) endpointIP ProtocolUDP) (bsp_loadBalancerVIPs b)))
       (uer_DeletedUDPEndpoints endpointsUpdateResult))"

definition CleanStaleEntries where
  "CleanStaleEntries env svcPortMap serviceUpdateResult endpointsUpdateResult =
     deleteStaleServiceConntrackEntries env svcPortMap serviceUpdateResult endpointsUpdateResult @
     deleteStaleEndpointConntrackEntries env svcPortMap endpointsUpdateResult"

section \<open>Nothing stale is left\<close>

lemma applyChange_deleted:
  "set (uer_DeletedUDPEndpoints (snd (em_applyChange (nn, c) (em, r)))) =
     set (uer_DeletedUDPEndpoints r) \<union> set (deletedUDP (ec_previous c) (ec_current c))"
  by (simp add: em_applyChange_def detectStaleConntrackEntries_def Let_def)

lemma applyChanges_deleted:
  "set (uer_DeletedUDPEndpoints (snd (fold em_applyChange changes st))) =
     set (uer_DeletedUDPEndpoints (snd st)) \<union> (\<Union>(nn, c)\<in>set changes. set (deletedUDP (ec_previous c) (ec_current c)))"
proof (induction changes arbitrary: st)
  case (Cons x changes)
  obtain nn c where x: "x = (nn, c)" by (cases x)
  obtain em r where st: "st = (em, r)" by (cases st)
  show ?case unfolding fold_Cons o_apply Cons.IH by (auto simp: x st applyChange_deleted)
qed simp

text \<open>The texts under which a service is reached from inside and outside.\<close>

definition service_IPs :: "BaseServicePortInfo \<Rightarrow> string list" where
  "service_IPs b = map IP_String (bsp_clusterIP b # bsp_externalIPs b @ bsp_loadBalancerVIPs b)"

lemma endpoint_entries:
  assumes "\<lparr>se_Endpoint = e, se_ServicePortName = k\<rparr> \<in> set (uer_DeletedUDPEndpoints r)" "map_of svcPortMap k = Some svc"
  shows "(\<lambda>origin. ClearEntriesForNAT origin (IPPart env e) ProtocolUDP) ` set (service_IPs (ServicePort_base svc)) \<subseteq>
      set (deleteStaleEndpointConntrackEntries env svcPortMap r)"
    "bsp_nodePort (ServicePort_base svc) \<noteq> 0 \<Longrightarrow>
      ClearEntriesForPortNAT (IPPart env e) (bsp_nodePort (ServicePort_base svc)) ProtocolUDP \<in>
      set (deleteStaleEndpointConntrackEntries env svcPortMap r)"
  using assms by (force simp: deleteStaleEndpointConntrackEntries_def service_IPs_def Let_def)+

text \<open>
  C40. No stale connection to a UDP endpoint survives: when an update of the endpoints takes a serving
  endpoint off the list of a UDP port whose service is still there, the entries from the cluster IP, from every external and load
  balancer IP and from the node port to the address of that endpoint are cleared.
\<close>

theorem CleanStaleEntries_complete:
  assumes "fold em_applyChange changes (em, r0) = (em', r)" "(nn, c) \<in> set changes"
    and "(k, eps) \<in> set (ec_previous c)" "ep \<in> set eps" "spn_Protocol k = ProtocolUDP" "IsServing ep"
    and "Endpoint_String ep \<notin> Endpoint_String ` set (get_or [] (ec_current c) k)"
    and "map_of svcPortMap k = Some svc"
    and "Endpoint_String ep = JoinHostPort ip (Itoa port)" "host_ok ip"
    and "ne_ParseIPSloppy env (Endpoint_String ep) = None" "ne_ParseIPSloppy env ip = Some ip"
  shows "(\<lambda>origin. ClearEntriesForNAT origin ip ProtocolUDP) ` set (service_IPs (ServicePort_base svc)) \<subseteq>
      set (CleanStaleEntries env svcPortMap sr r) \<and>
    (bsp_nodePort (ServicePort_base svc) = 0 \<or>
      ClearEntriesForPortNAT ip (bsp_nodePort (ServicePort_base svc)) ProtocolUDP \<in> set (CleanStaleEntries env svcPortMap sr r))"
proof -
  have "\<lparr>se_Endpoint = Endpoint_String ep, se_ServicePortName = k\<rparr> \<in> set (deletedUDP (ec_previous c) (ec_current c))"
    unfolding set_deletedUDP using assms(3-7) by blast
  then have "\<lparr>se_Endpoint = Endpoint_String ep, se_ServicePortName = k\<rparr> \<in> set (uer_DeletedUDPEndpoints (snd (fold em_applyChange changes (em, r0))))"
    unfolding applyChanges_deleted using assms(2) by blast
  note e = endpoint_entries [OF this [unfolded assms(1) snd_conv] assms(8), of env]
  moreover have "IPPart env (Endpoint_String ep) = ip"
    unfolding assms(9) by (rule IPPart_endpoint) (use assms(9-12) in simp_all)
  ultimately show ?thesis unfolding CleanStaleEntries_def by auto
qed

definition example_util_env :: util_env where
  "example_util_env = \<lparr>ne_ParseIPSloppy = (\<lambda>s. if CHR '':'' \<in> set s then None else Some s), ne_IsIPv6String = (\<lambda>s. CHR '':'' \<in> set s),
     ne_IPFamilyOf = (\<lambda>_. IPv4Protocol), ne_ParseCIDR = (\<lambda>s. Inr (s, IPv4Protocol)), ne_LoadBalancerIPMode = True,
     ue_IsIPv4CIDRString = (\<lambda>_. True), ue_IsIPv6CIDRString = (\<lambda>_. False), ue_CIDR_IP = Some, ue_Contains = (\<lambda>c ip. Some c = ip),
     ue_IsLoopback = (\<lambda>ip. ip = Some ''127.0.0.1''), ue_To4 = (\<lambda>_. True)\<rparr>"

definition example_udp_ep :: Endpoint where
  "example_udp_ep = BaseEndpoint (newBaseEndpointInfo ''10.0.0.9'' 53 False True True False [])"

definition example_udp_svc :: ServicePort where
  "example_udp_svc = BaseServicePort (example_port\<lparr>bsp_clusterIP := Some ''10.96.0.10'', bsp_protocol := ProtocolUDP, bsp_nodePort := 30053\<rparr>)"

definition example_change :: endpointsChange where
  "example_change = \<lparr>ec_previous = [(example_udp_port, [example_udp_ep])], ec_current = []\<rparr>"

definition example_result0 :: UpdateEndpointsMapResult where
  "example_result0 = \<lparr>uer_UpdatedServices = [], uer_DeletedUDPEndpoints = [], uer_NewlyActiveUDPServices = [],
     uer_LastChangeTriggerTimes = [], uer_processed = []\<rparr>"

theorem CleanStaleEntries_complete_witness:
  "ClearEntriesForNAT ''10.96.0.10'' ''10.0.0.9'' ProtocolUDP \<in> set (CleanStaleEntries example_util_env [(example_udp_port, example_udp_svc)]
     \<lparr>usr_UpdatedServices = [], usr_DeletedUDPClusterIPs = [], usr_processed = []\<rparr>
     (snd (fold em_applyChange [(spn_NamespacedName example_udp_port, example_change)] ([(example_udp_port, [example_udp_ep])], example_result0))))"
    (is "_ \<in> set (CleanStaleEntries _ _ ?sr (snd ?st))")
proof -
  have st: "?st = (fst ?st, snd ?st)" by simp
  have "(\<lambda>origin. ClearEntriesForNAT origin ''10.0.0.9'' ProtocolUDP) ` set (service_IPs (ServicePort_base example_udp_svc)) \<subseteq>
      set (CleanStaleEntries example_util_env [(example_udp_port, example_udp_svc)] ?sr (snd ?st))"
  proof (rule CleanStaleEntries_complete [where ep = example_udp_ep and k = example_udp_port and port = 53, OF st, THEN conjunct1])
    show "(spn_NamespacedName example_udp_port, example_change) \<in> set [(spn_NamespacedName example_udp_port, example_change)]" by simp
    show "(example_udp_port, [example_udp_ep]) \<in> set (ec_previous example_change)" by (simp add: example_change_def)
    show "Endpoint_String example_udp_ep \<notin> Endpoint_String ` set (get_or [] (ec_current example_change) example_udp_port)"
      by (simp add: example_change_def get_or_def)
    show "map_of [(example_udp_port, example_udp_svc)] example_udp_port = Some example_udp_svc" by simp
    show "example_udp_ep \<in> set [example_udp_ep]" by simp
    show "spn_Protocol example_udp_port = ProtocolUDP" "IsServing example_udp_ep" "host_ok ''10.0.0.9''"
      "Endpoint_String example_udp_ep = JoinHostPort ''10.0.0.9'' (Itoa 53)"
      "ne_ParseIPSloppy example_util_env (Endpoint_String example_udp_ep) = None"
      "ne_ParseIPSloppy example_util_env ''10.0.0.9'' = Some ''10.0.0.9''" by code_simp+
  qed
  moreover have "''10.96.0.10'' \<in> set (service_IPs (ServicePort_base example_udp_svc))" by code_simp
  ultimately show ?thesis by blast
qed

end
