(* ===== verification/Nft_Setup.thy ===== *)
theory Nft_Setup
  imports Nft_Storage Proxy_Util Conntrack
begin

text \<open>
  The fixed part of the nftables rules and the state of the proxier,
  \<open>wao-loadbalancer/pkg/proxy/nftables/proxier.go\<close>: the base chains, the jumps from them, the sets
  and maps, \<open>setupNFTables\<close> and \<open>CleanupLeftovers\<close>. Comments on nftables objects are left out. The six
  element storages that the proxier has as fields are a function of the container they stand for.
\<close>

section \<open>Names\<close>

definition kubeProxyTable :: string where "kubeProxyTable = ''wao-loadbalancer''"
definition filterPreroutingChain :: string where "filterPreroutingChain = ''filter-prerouting''"
definition filterInputChain :: string where "filterInputChain = ''filter-input''"
definition filterForwardChain :: string where "filterForwardChain = ''filter-forward''"
definition filterOutputChain :: string where "filterOutputChain = ''filter-output''"
definition filterOutputPostDNATChain :: string where "filterOutputPostDNATChain = ''filter-output-post-dnat''"
definition natPreroutingChain :: string where "natPreroutingChain = ''nat-prerouting''"
definition natOutputChain :: string where "natOutputChain = ''nat-output''"
definition natPostroutingChain :: string where "natPostroutingChain = ''nat-postrouting''"
definition servicesChain :: string where "servicesChain = ''services''"
definition serviceIPsMap :: string where "serviceIPsMap = ''service-ips''"
definition serviceNodePortsMap :: string where "serviceNodePortsMap = ''service-nodeports''"
definition nodePortIPsSet :: string where "nodePortIPsSet = ''nodeport-ips''"
definition clusterIPsSet :: string where "clusterIPsSet = ''cluster-ips''"
definition serviceEndpointsCheckChain :: string where "serviceEndpointsCheckChain = ''service-endpoints-check''"
definition nodePortEndpointsCheckChain :: string where "nodePortEndpointsCheckChain = ''nodeport-endpoints-check''"
definition noEndpointServicesMap :: string where "noEndpointServicesMap = ''no-endpoint-services''"
definition noEndpointNodePortsMap :: string where "noEndpointNodePortsMap = ''no-endpoint-nodeports''"
definition rejectChain :: string where "rejectChain = ''reject-chain''"
definition clusterIPsCheckChain :: string where "clusterIPsCheckChain = ''cluster-ips-check''"
definition firewallIPsMap :: string where "firewallIPsMap = ''firewall-ips''"
definition firewallCheckChain :: string where "firewallCheckChain = ''firewall-check''"
definition markMasqChain :: string where "markMasqChain = ''mark-for-masquerade''"
definition masqueradingChain :: string where "masqueradingChain = ''masquerading''"

text \<open>Types, hooks and priorities are the constants of \<open>knftables\<close>.\<close>

definition nftablesBaseChains :: "base_chain list" where
  "nftablesBaseChains =
     [\<lparr>bc_name = filterPreroutingChain, bc_chainType = ''filter'', bc_hook = ''prerouting'', bc_priority = ''dstnat-10''\<rparr>,
      \<lparr>bc_name = filterInputChain, bc_chainType = ''filter'', bc_hook = ''input'', bc_priority = ''dstnat-10''\<rparr>,
      \<lparr>bc_name = filterForwardChain, bc_chainType = ''filter'', bc_hook = ''forward'', bc_priority = ''dstnat-10''\<rparr>,
      \<lparr>bc_name = filterOutputChain, bc_chainType = ''filter'', bc_hook = ''output'', bc_priority = ''dstnat-10''\<rparr>,
      \<lparr>bc_name = filterOutputPostDNATChain, bc_chainType = ''filter'', bc_hook = ''output'', bc_priority = ''dstnat+10''\<rparr>,
      \<lparr>bc_name = natPreroutingChain, bc_chainType = ''nat'', bc_hook = ''prerouting'', bc_priority = ''dstnat''\<rparr>,
      \<lparr>bc_name = natOutputChain, bc_chainType = ''nat'', bc_hook = ''output'', bc_priority = ''dstnat''\<rparr>,
      \<lparr>bc_name = natPostroutingChain, bc_chainType = ''nat'', bc_hook = ''postrouting'', bc_priority = ''srcnat''\<rparr>]"

record nftablesJumpChain =
  jc_dstChain :: string
  jc_srcChain :: string
  jc_extraArgs :: string

definition nftablesJumpChains :: "nftablesJumpChain list" where
  "nftablesJumpChains = map (\<lambda>(d, s, e). \<lparr>jc_dstChain = d, jc_srcChain = s, jc_extraArgs = e\<rparr>)
     [(nodePortEndpointsCheckChain, filterInputChain, ''ct state new''),
      (serviceEndpointsCheckChain, filterInputChain, ''ct state new''),
      (serviceEndpointsCheckChain, filterForwardChain, ''ct state new''),
      (serviceEndpointsCheckChain, filterOutputChain, ''ct state new''),
      (firewallCheckChain, filterPreroutingChain, ''ct state new''),
      (firewallCheckChain, filterOutputChain, ''ct state new''),
      (servicesChain, natOutputChain, []),
      (servicesChain, natPreroutingChain, []),
      (masqueradingChain, natPostroutingChain, []),
      (clusterIPsCheckChain, filterForwardChain, ''ct state new''),
      (clusterIPsCheckChain, filterOutputPostDNATChain, ''ct state new'')]"

section \<open>The proxier\<close>

datatype container = ClusterIPs | ServiceIPs | FirewallIPs | NoEndpointServices | NoEndpointNodePorts | ServiceNodePorts

definition containers :: "container list" where
  "containers = [ClusterIPs, ServiceIPs, FirewallIPs, NoEndpointServices, NoEndpointNodePorts, ServiceNodePorts]"

fun newStorage :: "container \<Rightarrow> nftElementStorage" where
  "newStorage ClusterIPs = newNFTElementStorage ''set'' clusterIPsSet"
| "newStorage ServiceIPs = newNFTElementStorage ''map'' serviceIPsMap"
| "newStorage FirewallIPs = newNFTElementStorage ''map'' firewallIPsMap"
| "newStorage NoEndpointServices = newNFTElementStorage ''map'' noEndpointServicesMap"
| "newStorage NoEndpointNodePorts = newNFTElementStorage ''map'' noEndpointNodePortsMap"
| "newStorage ServiceNodePorts = newNFTElementStorage ''map'' serviceNodePortsMap"

record 's Proxier =
  px_ipFamily :: string
  px_endpointsChanges :: EndpointsChangeTracker
  px_serviceChanges :: ServiceChangeTracker
  px_svcPortMap :: ServicePortMap
  px_endpointsMap :: EndpointsMap
  px_nodeLabels :: "(string, string) gomap option"
  px_endpointSlicesSynced :: bool
  px_servicesSynced :: bool
  px_needFullSync :: bool
  px_initialized :: bool
  px_syncPeriod :: int
  px_flushed :: bool
  px_masqueradeAll :: bool
  px_masqueradeMark :: string
  px_localDetector :: detectLocal
  px_hostname :: string
  px_nodeIP :: IP
  px_healthzServer :: bool
  px_nodePortAddresses :: NodePortAddresses
  px_staleChains :: "(string, int) gomap"
  px_serviceCIDRs :: string
  px_store :: "container \<Rightarrow> nftElementStorage"
  px_waoLB :: "Scores \<times> 's"

text \<open>
  The check of the host: whether \<open>knftables.New\<close> fails, the value of
  \<open>KUBE_PROXY_NFTABLES_SKIP_KERNEL_VERSION_CHECK\<close>, and whether the version of the kernel is too old.
\<close>

definition getNFTablesInterface :: "goerr option \<Rightarrow> string \<Rightarrow> bool result \<Rightarrow> unit result" where
  "getNFTablesInterface New skipVariable kernelTooOld =
     (case New of
        Some err \<Rightarrow> Inl err
      | None \<Rightarrow>
          if skipVariable \<noteq> [] then
            (case kernelTooOld of
               Inl err \<Rightarrow> Inl (Wrap ''could not check kernel version'' err)
             | Inr old \<Rightarrow> if old then Inl (Errorf ''kube-proxy in nftables mode requires kernel 5.13 or later'') else Inr ())
          else Inr ())"

text \<open>\<open>fmt.Sprintf("%#08x", 1 << uint(masqueradeBit))\<close> on 64 bits.\<close>

fun hexDigits :: "nat \<Rightarrow> nat \<Rightarrow> string" where
  "hexDigits 0 n = []"
| "hexDigits (Suc k) n =
     hexDigits k (n div 16) @ [if n mod 16 < 10 then char_of (48 + n mod 16) else char_of (87 + n mod 16)]"

fun hexLength :: "nat \<Rightarrow> nat" where
  "hexLength n = (if n < 16 then 1 else Suc (hexLength (n div 16)))"

definition masqueradeMarkOf :: "nat \<Rightarrow> string" where
  "masqueradeMarkOf masqueradeBit =
     (let v = wrap64 (2 ^ masqueradeBit)
      in (if v < 0 then ''-0x'' else ''0x'') @
         hexDigits (max (if v < 0 then 7 else 8) (hexLength (nat \<bar>v\<bar>))) (nat \<bar>v\<bar>))"

definition NewProxier where
  "NewProxier util_env nnString hash8 now nft initOnly NewWAOLB ipFamily syncPeriod masqueradeAll masqueradeBit localDetector hostname nodeIP
     healthzServer nodePortAddressStrings =
     res_bind nft (\<lambda>_.
       if initOnly then Inr None
       else res_bind NewWAOLB (\<lambda>waoLB. Inr (Some
         \<lparr>px_ipFamily = ipFamily,
          px_endpointsChanges = NewEndpointsChangeTracker hostname (Some (newEndpointInfo hash8)) ipFamily False now,
          px_serviceChanges = NewServiceChangeTracker (Some (newServiceInfo nnString hash8)) ipFamily False,
          px_svcPortMap = [], px_endpointsMap = [], px_nodeLabels = None,
          px_endpointSlicesSynced = False, px_servicesSynced = False, px_needFullSync = True, px_initialized = False,
          px_syncPeriod = syncPeriod, px_flushed = False, px_masqueradeAll = masqueradeAll,
          px_masqueradeMark = masqueradeMarkOf masqueradeBit,
          px_localDetector = localDetector, px_hostname = hostname, px_nodeIP = nodeIP, px_healthzServer = healthzServer,
          px_nodePortAddresses = NewNodePortAddresses util_env ipFamily nodePortAddressStrings,
          px_staleChains = [], px_serviceCIDRs = [], px_store = newStorage, px_waoLB = waoLB\<rparr>)))"

text \<open>
  The variable that is documented to skip the check of the kernel version enables it: an old kernel is
  rejected when it is set and accepted when it is not.
\<close>

lemma getNFTablesInterface_inverted:
  "skipVariable \<noteq> [] \<Longrightarrow> isl (getNFTablesInterface None skipVariable (Inr True))"
  "getNFTablesInterface None [] v = Inr ()"
  by (simp_all add: getNFTablesInterface_def)

section \<open>The fixed rules\<close>

definition resetOn :: "container \<Rightarrow> Transaction \<times> (container \<Rightarrow> nftElementStorage) \<Rightarrow> Transaction \<times> (container \<Rightarrow> nftElementStorage)" where
  "resetOn c st = (let (tx, store) = st; (tx, s) = nes_reset (tx, store c) in (tx, store(c := s)))"

text \<open>The base chains are deleted once, so that they are created with the properties of this version.\<close>

definition baseChainOps :: "bool \<Rightarrow> Transaction" where
  "baseChainOps flushed =
     (if \<not> flushed then concat (map (\<lambda>bc. [Add (NChain (bc_name bc) None), Delete (NChain (bc_name bc) None)]) nftablesBaseChains)
      else []) @
     concat (map (\<lambda>bc. [Add (NChain (bc_name bc) (Some bc)), Flush (NChain (bc_name bc) (Some bc))]) nftablesBaseChains)"

definition jumpChainOps :: "Transaction \<times> string list \<Rightarrow> Transaction \<times> string list" where
  "jumpChainOps st =
     fold (\<lambda>chain. ensureChain chain False) [servicesChain, clusterIPsCheckChain, masqueradingChain, markMasqChain]
       (fold (\<lambda>c st. let (tx, createdChains) = ensureChain (jc_dstChain c) False st
                     in (tx @ [Add (NRule (jc_srcChain c) [jc_extraArgs c, ''jump'', jc_dstChain c])], createdChains))
         nftablesJumpChains st)"

definition masqueradeOps :: "string \<Rightarrow> Transaction" where
  "masqueradeOps mark =
     [Add (NRule markMasqChain [''mark'', ''set'', ''mark'', ''or'', mark]),
      Add (NRule masqueradingChain [''mark'', ''and'', mark, ''=='', ''0'', ''return'']),
      Add (NRule masqueradingChain [''mark'', ''set'', ''mark'', ''xor'', mark]),
      Add (NRule masqueradingChain [''masquerade fully-random''])]"

definition nodePortIPOps :: "util_env \<Rightarrow> net_Addr list result \<Rightarrow> string \<Rightarrow> NodePortAddresses \<Rightarrow> Transaction result" where
  "nodePortIPOps env addrs ipvX_addr npa =
     (let set = NSet nodePortIPsSet ipvX_addr [] None; bare = NSet nodePortIPsSet [] [] None
      in if npa_matchAll npa then Inr [Add set, Delete bare]
         else (case GetNodeIPs env addrs npa of
                 Inl e \<Rightarrow> if is_panic e then Inl e else Inr [Add set, Flush bare]
               | Inr nodeIPs \<Rightarrow>
                   Inr ([Add set, Flush bare] @
                        map (\<lambda>ip. Add (NElement nodePortIPsSet [IP_String ip] [])) (filter (\<lambda>ip. \<not> ue_IsLoopback env ip) nodeIPs))))"

definition noEndpointOps :: "string \<Rightarrow> string \<Rightarrow> string \<Rightarrow> bool \<Rightarrow> Transaction" where
  "noEndpointOps ipX ipvX_addr noLocalhost matchAll =
     [Add (NMap noEndpointServicesMap (ipvX_addr @ '' . inet_proto . inet_service : verdict'')),
      Add (NMap noEndpointNodePortsMap ''inet_proto . inet_service : verdict''),
      Add (NChain rejectChain None), Flush (NChain rejectChain None),
      Add (NRule rejectChain [''reject'']),
      Add (NRule serviceEndpointsCheckChain
             [ipX, ''daddr'', ''.'', ''meta l4proto'', ''.'', ''th dport'', ''vmap'', ''@'', noEndpointServicesMap]),
      Add (NRule nodePortEndpointsCheckChain
             (if matchAll then [noLocalhost, ''meta l4proto . th dport'', ''vmap'', ''@'', noEndpointNodePortsMap]
              else [ipX, ''daddr'', ''@'', nodePortIPsSet, ''meta l4proto . th dport'', ''vmap'', ''@'', noEndpointNodePortsMap]))]"

definition dispatchOps :: "string \<Rightarrow> string \<Rightarrow> string \<Rightarrow> bool \<Rightarrow> Transaction" where
  "dispatchOps ipX ipvX_addr noLocalhost matchAll =
     [Add (NMap serviceIPsMap (ipvX_addr @ '' . inet_proto . inet_service : verdict'')),
      Add (NMap serviceNodePortsMap ''inet_proto . inet_service : verdict''),
      Add (NRule servicesChain [ipX, ''daddr'', ''.'', ''meta l4proto'', ''.'', ''th dport'', ''vmap'', ''@'', serviceIPsMap]),
      Add (NRule servicesChain
             (if matchAll then [''fib daddr type local'', noLocalhost, ''meta l4proto . th dport'', ''vmap'', ''@'', serviceNodePortsMap]
              else [ipX, ''daddr @nodeport-ips'', ''meta l4proto . th dport'', ''vmap'', ''@'', serviceNodePortsMap]))]"

definition setupOps :: "util_env \<Rightarrow> net_Addr list result \<Rightarrow> 's Proxier \<Rightarrow> Transaction \<Rightarrow> Transaction result" where
  "setupOps env addrs px tx =
     (let v6 = (px_ipFamily px = IPv6Protocol);
          ipX = (if v6 then ''ip6'' else ''ip'');
          ipvX_addr = (if v6 then ''ipv6_addr'' else ''ipv4_addr'');
          noLocalhost = (if v6 then ''ip6 daddr != ::1'' else ''ip daddr != 127.0.0.0/8'');
          matchAll = npa_matchAll (px_nodePortAddresses px);
          (tx, createdChains) = jumpChainOps (tx @ [Add NTable] @ baseChainOps (px_flushed px), []);
          tx = tx @ masqueradeOps (px_masqueradeMark px) @
               [Add (NSet clusterIPsSet ipvX_addr [] None),
                Add (NRule clusterIPsCheckChain [ipX, ''daddr'', ''@'', clusterIPsSet, ''reject''])] @
               (if length (px_serviceCIDRs px) > 0
                then [Add (NRule clusterIPsCheckChain [ipX, ''daddr'', ''{'', px_serviceCIDRs px, ''}'', ''drop''])] else [])
      in res_bind (nodePortIPOps env addrs ipvX_addr (px_nodePortAddresses px)) (\<lambda>ops.
           let tx = tx @ ops @ noEndpointOps ipX ipvX_addr noLocalhost matchAll @
                    [Add (NMap firewallIPsMap (ipvX_addr @ '' . inet_proto . inet_service : verdict''))];
               (tx, createdChains) = ensureChain firewallCheckChain False (tx, createdChains)
           in Inr (tx @ [Add (NRule firewallCheckChain
                                [ipX, ''daddr'', ''.'', ''meta l4proto'', ''.'', ''th dport'', ''vmap'', ''@'', firewallIPsMap])] @
                   dispatchOps ipX ipvX_addr noLocalhost matchAll)))"

text \<open>The whole of \<open>setupNFTables\<close>: the fixed rules, then all containers are emptied.\<close>

definition setupNFTables ::
  "util_env \<Rightarrow> net_Addr list result \<Rightarrow> Transaction \<Rightarrow> 's Proxier \<Rightarrow> (Transaction \<times> 's Proxier) result" where
  "setupNFTables env addrs tx px =
     res_bind (setupOps env addrs px tx) (\<lambda>tx.
       let (tx, store) = fold resetOn containers (tx, px_store px)
       in Inr (tx, px\<lparr>px_flushed := True, px_store := store\<rparr>))"

text \<open>The result of running the transaction that deletes the table, for each family; \<open>None\<close> is success.\<close>

definition CleanupLeftovers :: "(goerr \<Rightarrow> bool) \<Rightarrow> (string \<Rightarrow> goerr option) \<Rightarrow> (string \<Rightarrow> Transaction \<Rightarrow> goerr option) \<Rightarrow> bool" where
  "CleanupLeftovers IsNotFound New Run =
     fold (\<lambda>family encounteredError.
       let err = (case New family of None \<Rightarrow> Run family [Delete NTable] | Some e \<Rightarrow> Some e)
       in case err of Some e \<Rightarrow> (if \<not> IsNotFound e then True else encounteredError) | None \<Rightarrow> encounteredError)
     [''ip'', ''ip6''] False"

end
