(* ===== verification/Nft_Sync.thy ===== *)
theory Nft_Sync
  imports Nft_Setup
begin

text \<open>
  \<open>syncProxyRules\<close> and the event handlers of \<open>wao-loadbalancer/pkg/proxy/nftables/proxier.go\<close>. The
  loop over the services builds one transaction; its parts are in the order of the code. What the
  outside answers (times, the results of \<open>Run\<close> and \<open>List\<close>, the addresses of the interfaces) and the orders in which
  maps are visited are inputs; what the code asks for is returned as a list of effects.
\<close>

section \<open>Inputs and effects\<close>

record 's proxy_env =
  pe_svc :: svc_env
  pe_util :: util_env
  pe_gates :: feature_gates
  pe_nnString :: "NamespacedName \<Rightarrow> string"
  pe_lb :: "'s lb_env"
  pe_oob :: "f64 \<Rightarrow> int"
  pe_lbOptions :: WAOLBOptions

record sync_input =
  si_start :: int
  si_runStale :: bool
  si_chains :: "string list result"
  si_sets :: "string list result"
  si_run :: bool
  si_addrs :: "net_Addr list result"
  si_order :: "ServicePortMap \<Rightarrow> ServicePortMap"
  si_allOrder :: "(string, Endpoint) gomap \<Rightarrow> (string, Endpoint) gomap"
  si_ord1 :: "endpointSliceDataByName \<Rightarrow> endpointSliceDataByName"
  si_ord2 :: "endpointSliceDataByName \<Rightarrow> endpointSliceDataByName"
  si_scoreOrder :: "string list \<Rightarrow> string list"
  si_clash :: "string \<Rightarrow> bool"

datatype effect =
    RunStale Transaction
  | Run Transaction
  | RetryAfter int
  | HealthzQueued string
  | HealthzUpdated string
  | RunSyncRunner
  | SyncServices "(NamespacedName, int) gomap"
  | SyncEndpoints "(NamespacedName, int) gomap"
  | Conntrack ct_call

section \<open>The rules of a service\<close>

record sync_state =
  sy_tx :: Transaction
  sy_store :: "container \<Rightarrow> nftElementStorage"
  sy_activeChains :: "string list"
  sy_activeAffinitySets :: "string list"
  sy_noLocalInternal :: int
  sy_noLocalExternal :: int

definition ensureChainOn :: "string \<Rightarrow> bool \<Rightarrow> sync_state \<Rightarrow> sync_state" where
  "ensureChainOn chain skipCreation st =
     (let (tx, active) = ensureChain chain skipCreation (sy_tx st, sy_activeChains st)
      in st\<lparr>sy_tx := tx, sy_activeChains := active\<rparr>)"

definition ensureElemOn :: "container \<times> string list \<times> string list \<Rightarrow> sync_state \<Rightarrow> sync_state" where
  "ensureElemOn e st =
     (let (c, key, val) = e; (tx, s) = ensureElem key val (sy_tx st, sy_store st c)
      in st\<lparr>sy_tx := tx, sy_store := (sy_store st)(c := s)\<rparr>)"

text \<open>Which chains the service uses and where its traffic goes.\<close>

record svc_plan =
  sp_usesClusterPolicyChain :: bool
  sp_usesLocalPolicyChain :: bool
  sp_hasEndpoints :: bool
  sp_internalTrafficChain :: string
  sp_hasInternalEndpoints :: bool
  sp_externalPolicyChain :: string
  sp_hasExternalEndpoints :: bool
  sp_usesExternalTrafficChain :: bool
  sp_internalVerdict :: string
  sp_externalVerdict :: string
  sp_usesFWChain :: bool

definition svcPlan :: "servicePortInfo \<Rightarrow> categories \<Rightarrow> svc_plan" where
  "svcPlan svcInfo c =
     (let b = spi_BaseServicePortInfo svcInfo;
          hasEndpoints = cat_hasAny c;
          hasInternalEndpoints = (if bsp_internalPolicyLocal b \<and> length (cat_local c) = 0 then False else hasEndpoints);
          hasExternalEndpoints = (if bsp_externalPolicyLocal b \<and> length (cat_local c) = 0 then False else hasEndpoints)
      in \<lparr>sp_usesClusterPolicyChain = (length (cat_cluster c) > 0 \<and> UsesClusterEndpoints b),
          sp_usesLocalPolicyChain = (length (cat_local c) > 0 \<and> UsesLocalEndpoints b),
          sp_hasEndpoints = hasEndpoints,
          sp_internalTrafficChain =
            (if bsp_internalPolicyLocal b then spi_localPolicyChainName svcInfo else spi_clusterPolicyChainName svcInfo),
          sp_hasInternalEndpoints = hasInternalEndpoints,
          sp_externalPolicyChain =
            (if bsp_externalPolicyLocal b then spi_localPolicyChainName svcInfo else spi_clusterPolicyChainName svcInfo),
          sp_hasExternalEndpoints = hasExternalEndpoints,
          sp_usesExternalTrafficChain = (hasEndpoints \<and> ExternallyAccessible b),
          sp_internalVerdict = (if \<not> hasEndpoints then ''goto '' @ rejectChain else if \<not> hasInternalEndpoints then ''drop'' else []),
          sp_externalVerdict = (if \<not> hasEndpoints then ''goto '' @ rejectChain else if \<not> hasExternalEndpoints then ''drop'' else []),
          sp_usesFWChain = (length (bsp_loadBalancerVIPs b) > 0 \<and> length (bsp_loadBalancerSourceRanges b) > 0)\<rparr>)"

definition hasAffinity :: "servicePortInfo \<Rightarrow> bool" where
  "hasAffinity svcInfo \<longleftrightarrow> bsp_sessionAffinityType (spi_BaseServicePortInfo svcInfo) = ServiceAffinityClientIP"

definition noteChains :: "bool \<Rightarrow> servicePortInfo \<Rightarrow> svc_plan \<Rightarrow> Endpoint list \<Rightarrow> sync_state \<Rightarrow> sync_state" where
  "noteChains skip svcInfo p all st =
     (let st = fold (\<lambda>ep st. case ep of
                 BaseEndpoint _ \<Rightarrow> st
               | NftEndpoint epInfo \<Rightarrow>
                   (let st = ensureChainOn (epi_chainName epInfo) skip st
                    in if hasAffinity svcInfo
                       then st\<lparr>sy_activeAffinitySets := List.insert (epi_affinitySetName epInfo) (sy_activeAffinitySets st)\<rparr>
                       else st)) all st;
          st = (if sp_usesClusterPolicyChain p then ensureChainOn (spi_clusterPolicyChainName svcInfo) skip st else st);
          st = (if sp_usesLocalPolicyChain p then ensureChainOn (spi_localPolicyChainName svcInfo) skip st else st);
          st = (if sp_usesExternalTrafficChain p then ensureChainOn (spi_externalChainName svcInfo) skip st else st)
      in if sp_hasEndpoints p
         then st\<lparr>sy_noLocalInternal := sy_noLocalInternal st + (if sp_hasInternalEndpoints p then 0 else 1),
                 sy_noLocalExternal := sy_noLocalExternal st + (if sp_hasExternalEndpoints p then 0 else 1)\<rparr>
         else st)"

text \<open>The elements asked for, in order; first the cluster and external IPs, then the rest.\<close>

definition captureIPs :: "servicePortInfo \<Rightarrow> svc_plan \<Rightarrow> (container \<times> string list \<times> string list) list" where
  "captureIPs svcInfo p =
     (let b = spi_BaseServicePortInfo svcInfo; protocol = ToLower (bsp_protocol b);
          key = (\<lambda>ip. [IP_String ip, protocol, Itoa (bsp_port b)]);
          ext = ''goto '' @ spi_externalChainName svcInfo
      in (ClusterIPs, [IP_String (bsp_clusterIP b)], []) #
         (if sp_hasInternalEndpoints p
          then (ServiceIPs, key (bsp_clusterIP b), [''goto '' @ sp_internalTrafficChain p])
          else (NoEndpointServices, key (bsp_clusterIP b), [sp_internalVerdict p])) #
         concat (map (\<lambda>externalIP.
           (if sp_hasEndpoints p then [(ServiceIPs, key externalIP, [ext])] else []) @
           (if \<not> sp_hasExternalEndpoints p then [(NoEndpointServices, key externalIP, [sp_externalVerdict p])] else []))
           (bsp_externalIPs b)))"

definition captureRest :: "servicePortInfo \<Rightarrow> svc_plan \<Rightarrow> (container \<times> string list \<times> string list) list" where
  "captureRest svcInfo p =
     (let b = spi_BaseServicePortInfo svcInfo; protocol = ToLower (bsp_protocol b);
          key = (\<lambda>ip. [IP_String ip, protocol, Itoa (bsp_port b)]);
          ext = ''goto '' @ spi_externalChainName svcInfo
      in concat (map (\<lambda>lbip.
           (if sp_hasEndpoints p then [(ServiceIPs, key lbip, [ext])] else []) @
           (if sp_usesFWChain p then [(FirewallIPs, key lbip, [''goto '' @ spi_firewallChainName svcInfo])] else []))
           (bsp_loadBalancerVIPs b)) @
         (if \<not> sp_hasExternalEndpoints p
          then map (\<lambda>lbip. (NoEndpointServices, key lbip, [sp_externalVerdict p])) (bsp_loadBalancerVIPs b) else []) @
         (if bsp_nodePort b \<noteq> 0
          then (if sp_hasEndpoints p then [(ServiceNodePorts, [protocol, Itoa (bsp_nodePort b)], [ext])] else []) @
               (if \<not> sp_hasExternalEndpoints p
                then [(NoEndpointNodePorts, [protocol, Itoa (bsp_nodePort b)], [sp_externalVerdict p])] else [])
          else []))"

definition internalRules :: "'s Proxier \<Rightarrow> string \<Rightarrow> servicePortInfo \<Rightarrow> svc_plan \<Rightarrow> Transaction" where
  "internalRules px ipX svcInfo p =
     (let b = spi_BaseServicePortInfo svcInfo;
          match = [ipX, ''daddr'', IP_String (bsp_clusterIP b), ToLower (bsp_protocol b), ''dport'', Itoa (bsp_port b)]
      in if sp_hasInternalEndpoints p then
           (if px_masqueradeAll px
            then [Add (NRule (sp_internalTrafficChain p) (match @ [''jump'', markMasqChain]))]
            else if IsImplemented (px_localDetector px)
            then [Add (NRule (sp_internalTrafficChain p) (match @ dl_ifNotLocalNFT (px_localDetector px) @ [''jump'', markMasqChain]))]
            else [])
         else [])"

definition externalRules :: "'s Proxier \<Rightarrow> servicePortInfo \<Rightarrow> svc_plan \<Rightarrow> Transaction" where
  "externalRules px svcInfo p =
     (let chain = spi_externalChainName svcInfo; cluster = spi_clusterPolicyChainName svcInfo
      in if sp_usesExternalTrafficChain p then
           (if \<not> bsp_externalPolicyLocal (spi_BaseServicePortInfo svcInfo)
            then [Add (NRule chain [''jump'', markMasqChain])]
            else (if IsImplemented (px_localDetector px)
                  then [Add (NRule chain (dl_ifLocalNFT (px_localDetector px) @ [''goto'', cluster]))] else []) @
                 [Add (NRule chain [''fib'', ''saddr'', ''type'', ''local'', ''jump'', markMasqChain]),
                  Add (NRule chain [''fib'', ''saddr'', ''type'', ''local'', ''goto'', cluster])]) @
           (if sp_hasExternalEndpoints p then [Add (NRule chain [''goto'', sp_externalPolicyChain p])] else [])
         else [])"

definition firewallRules :: "util_env \<Rightarrow> IP \<Rightarrow> string \<Rightarrow> servicePortInfo \<Rightarrow> svc_plan \<Rightarrow> Transaction" where
  "firewallRules env nodeIP ipX svcInfo p =
     (if sp_usesFWChain p then
        (let b = spi_BaseServicePortInfo svcInfo;
             (sources, allowFromNode) = fold (\<lambda>cidr (sources, allow).
               ((if length sources > 0 then sources @ ['',''] else sources) @ [cidr],
                if ue_Contains env cidr nodeIP then True else allow)) (bsp_loadBalancerSourceRanges b) ([], False);
             sources = (if allowFromNode
                        then fold (\<lambda>lbip sources. sources @ ['','', IP_String lbip]) (bsp_loadBalancerVIPs b) sources else sources)
         in [Add (NRule (spi_firewallChainName svcInfo) ([ipX, ''saddr'', ''!='', ''{''] @ sources @ [''}'', ''drop'']))])
      else [])"

definition affinitySets :: "string \<Rightarrow> servicePortInfo \<Rightarrow> Endpoint list \<Rightarrow> Transaction" where
  "affinitySets ipvX_addr svcInfo all =
     (if hasAffinity svcInfo then concat (map (\<lambda>ep. case ep of
          BaseEndpoint _ \<Rightarrow> []
        | NftEndpoint epInfo \<Rightarrow>
            [Add (NSet (epi_affinitySetName epInfo) ipvX_addr [''dynamic'', ''timeout'']
               (Some (bsp_stickyMaxAgeSeconds (spi_BaseServicePortInfo svcInfo) * 10 ^ 9)))]) all)
      else [])"

definition endpointRules :: "string \<Rightarrow> servicePortInfo \<Rightarrow> Endpoint list \<Rightarrow> Transaction" where
  "endpointRules ipX svcInfo all = concat (map (\<lambda>ep. case ep of
       BaseEndpoint _ \<Rightarrow> []
     | NftEndpoint epInfo \<Rightarrow>
         [Add (NRule (epi_chainName epInfo) [ipX, ''saddr'', bei_ip (epi_BaseEndpointInfo epInfo), ''jump'', markMasqChain])] @
         (if hasAffinity svcInfo
          then [Add (NRule (epi_chainName epInfo) [''update'', ''@'', epi_affinitySetName epInfo, ''{'', ipX, ''saddr'', ''}''])] else []) @
         [Add (NRule (epi_chainName epInfo) [''meta l4proto'', ToLower (bsp_protocol (spi_BaseServicePortInfo svcInfo)), ''dnat to'',
            bei_endpoint (epi_BaseEndpointInfo epInfo)])]) all)"

definition svcCategories where
  "svcCategories env input px svcName svcInfo =
     CategorizeEndpoints (pe_gates env) (si_allOrder input) (get_or [] (px_endpointsMap px) svcName) (spi_BaseServicePortInfo svcInfo)
       (case px_nodeLabels px of None \<Rightarrow> [] | Some m \<Rightarrow> m)"

text \<open>The part that is done for every service: its chains are noted and its elements asked for.\<close>

definition noteService :: "bool \<Rightarrow> servicePortInfo \<Rightarrow> categories \<Rightarrow> sync_state \<Rightarrow> sync_state" where
  "noteService skip svcInfo c st =
     (let p = svcPlan svcInfo c;
          st = noteChains skip svcInfo p (cat_all c) st;
          st = fold ensureElemOn (captureIPs svcInfo p) st;
          st = (if sp_usesFWChain p then ensureChainOn (spi_firewallChainName svcInfo) skip st else st)
      in fold ensureElemOn (captureRest svcInfo p) st)"

text \<open>The part that is left out for a service without changes.\<close>

definition svcRules :: "util_env \<Rightarrow> 's Proxier \<Rightarrow> servicePortInfo \<Rightarrow> categories \<Rightarrow> Transaction" where
  "svcRules env px svcInfo c =
     (let p = svcPlan svcInfo c; v6 = (px_ipFamily px = IPv6Protocol);
          ipX = (if v6 then ''ip6'' else ''ip'');
          ipvX_addr = (if v6 then ''ipv6_addr'' else ''ipv4_addr'')
      in internalRules px ipX svcInfo p @ externalRules px svcInfo p @
         firewallRules env (px_nodeIP px) ipX svcInfo p @ affinitySets ipvX_addr svcInfo (cat_all c))"

definition writePolicyChain where
  "writePolicyChain px svcInfo uses chain endpoints tx =
     (if uses then writeServiceToEndpointRules (px_ipFamily px) (fst (px_waoLB px)) (spi_nameString svcInfo) svcInfo chain endpoints tx
      else Inr tx)"

definition writeService where
  "writeService env px svcInfo c st =
     (let p = svcPlan svcInfo c; ipX = (if px_ipFamily px = IPv6Protocol then ''ip6'' else ''ip'')
      in res_bind (writePolicyChain px svcInfo (sp_usesClusterPolicyChain p) (spi_clusterPolicyChainName svcInfo) (cat_cluster c)
                     (sy_tx st @ svcRules env px svcInfo c)) (\<lambda>tx.
         res_bind (writePolicyChain px svcInfo (sp_usesLocalPolicyChain p) (spi_localPolicyChainName svcInfo) (cat_local c) tx) (\<lambda>tx.
         Inr (st\<lparr>sy_tx := tx @ endpointRules ipX svcInfo (cat_all c)\<rparr>))))"

definition buildService where
  "buildService env input px tryPartialSync updated x st =
     (let (svcName, svc) = x
      in case svc of
           BaseServicePort _ \<Rightarrow> Inr st
         | NftServicePort svcInfo \<Rightarrow>
             (let c = svcCategories env input px svcName svcInfo;
                  skip = (tryPartialSync \<and> spn_NamespacedName svcName \<notin> set updated);
                  st = noteService skip svcInfo c st
              in if skip then Inr st else writeService (pe_util env) px svcInfo c st))"

fun buildServices where
  "buildServices env input px tryPartialSync updated [] st = Inr st"
| "buildServices env input px tryPartialSync updated (x # xs) st =
     res_bind (buildService env input px tryPartialSync updated x st)
       (buildServices env input px tryPartialSync updated xs)"

section \<open>Stale objects\<close>

text \<open>Chains that have been stale for more than a second are deleted first, in a transaction of their own.\<close>

definition deleteStaleChains :: "int \<Rightarrow> (string, int) gomap \<Rightarrow> effect list \<times> (string, int) gomap" where
  "deleteStaleChains start staleChains =
     (let old = (\<lambda>(_, modtime). modtime < start - 10 ^ 9);
          tx = map (\<lambda>(chain, _). Delete (NChain chain None)) (filter old staleChains)
      in (if tx = [] then [] else [RunStale tx], filter (\<lambda>x. \<not> old x) staleChains))"

definition noteStaleChains ::
  "int \<Rightarrow> string list result \<Rightarrow> string list \<Rightarrow> Transaction \<times> (string, int) gomap \<Rightarrow> Transaction \<times> (string, int) gomap" where
  "noteStaleChains start existingChains activeChains st =
     (case existingChains of
        Inl _ \<Rightarrow> st
      | Inr existing \<Rightarrow>
          fold (\<lambda>chain (tx, staleChains).
            if isServiceChainName chain
            then (if chain \<notin> set activeChains
                  then (tx @ [Flush (NChain chain None)], AList.update chain start staleChains)
                  else (tx, AList.delete chain staleChains))
            else (tx, staleChains)) existing st)"

definition deleteStaleSets :: "string list result \<Rightarrow> string list \<Rightarrow> Transaction" where
  "deleteStaleSets existingSets activeAffinitySets =
     (case existingSets of
        Inl _ \<Rightarrow> []
      | Inr sets \<Rightarrow> map (\<lambda>set. Delete (NSet set [] [] None))
                      (filter (\<lambda>s. isAffinitySetName s \<and> s \<notin> set activeAffinitySets) sets))"

definition cleanupOn :: "container \<Rightarrow> Transaction \<times> (container \<Rightarrow> nftElementStorage) \<Rightarrow> Transaction \<times> (container \<Rightarrow> nftElementStorage)" where
  "cleanupOn c st = (let (tx, store) = st; (tx, s) = cleanupLeftoverKeys (tx, store c) in (tx, store(c := s)))"

section \<open>One synchronisation\<close>

text \<open>The transaction of a synchronisation, with the storages and stale chains it leaves.\<close>

definition buildTransaction where
  "buildTransaction env input tryPartialSync updated px =
     res_bind (if \<not> tryPartialSync then setupNFTables (pe_util env) (si_addrs input) [] px else Inr ([], px)) (\<lambda>(tx, px).
     res_bind (buildServices env input px tryPartialSync updated (si_order input (px_svcPortMap px))
                 \<lparr>sy_tx = tx, sy_store = px_store px, sy_activeChains = [], sy_activeAffinitySets = [],
                  sy_noLocalInternal = 0, sy_noLocalExternal = 0\<rparr>) (\<lambda>st.
       let (tx, staleChains) = noteStaleChains (si_start input) (si_chains input) (sy_activeChains st) (sy_tx st, px_staleChains px);
           tx = tx @ deleteStaleSets (si_sets input) (sy_activeAffinitySets st);
           (tx, store) = fold cleanupOn containers (tx, sy_store st)
       in Inr (tx, st, px\<lparr>px_staleChains := staleChains, px_store := store\<rparr>)))"

text \<open>The end of the synchronisation, with the result of running the transaction.\<close>

definition finishSync where
  "finishSync env input serviceUpdateResult endpointUpdateResult tx px =
     (if \<not> si_run input
      then ([Run tx, RetryAfter (px_syncPeriod px)], px\<lparr>px_staleChains := [], px_needFullSync := True\<rparr>)
      else ([Run tx] @
            (if px_healthzServer px then [HealthzUpdated (px_ipFamily px)] else []) @
            [SyncServices (HealthCheckNodePorts (px_svcPortMap px)),
             SyncEndpoints (LocalReadyEndpoints (px_endpointsMap px))] @
            map Conntrack (CleanStaleEntries (pe_util env) (px_svcPortMap px) serviceUpdateResult endpointUpdateResult),
            px\<lparr>px_needFullSync := False\<rparr>))"

definition syncProxyRules where
  "syncProxyRules env input px =
     (if \<not> px_initialized px then Inr ([], px)
      else
        (let tryPartialSync = (\<not> px_needFullSync px);
             (serviceUpdateResult, serviceChanges, svcPortMap) = spm_Update (px_serviceChanges px) (px_svcPortMap px)
         in res_bind (em_Update (net_env.truncate (pe_svc env)) (pe_gates env) (si_ord1 input) (si_ord2 input)
                        (Some (px_endpointsChanges px)) (px_endpointsMap px)) (\<lambda>(endpointUpdateResult, endpointsChanges, endpointsMap).
            let px = px\<lparr>px_serviceChanges := serviceChanges, px_svcPortMap := svcPortMap, px_endpointsMap := endpointsMap,
                        px_endpointsChanges := (case endpointsChanges of Some ect \<Rightarrow> ect | None \<Rightarrow> px_endpointsChanges px)\<rparr>;
                (stale, staleChains) = deleteStaleChains (si_start input) (px_staleChains px);
                px = px\<lparr>px_staleChains := staleChains\<rparr>;
                svcPortNames = map (\<lambda>(svcPortName, _). ServicePortName_String (pe_nnString env) svcPortName) (px_svcPortMap px)
            in case Score (pe_lb env) (pe_oob env) (pe_lbOptions env) (si_clash input) (si_scoreOrder input svcPortNames) (px_waoLB px) of
                 (Inl e, _) \<Rightarrow> Inl e
               | (Inr _, wao) \<Rightarrow>
                   (let px = px\<lparr>px_waoLB := wao\<rparr>;
                        updated = usr_UpdatedServices serviceUpdateResult @ uer_UpdatedServices endpointUpdateResult
                    in res_bind (buildTransaction env input tryPartialSync updated px) (\<lambda>(tx, _, px).
                         let (effs, px) = finishSync env input serviceUpdateResult endpointUpdateResult tx px
                         in Inr (stale @ effs, px))))))"

section \<open>Handlers\<close>

definition Sync :: "'s Proxier \<Rightarrow> effect list" where
  "Sync px = (if px_healthzServer px then [HealthzQueued (px_ipFamily px)] else []) @ [RunSyncRunner]"

definition OnServiceUpdate where
  "OnServiceUpdate env oldService service px =
     res_bind (sct_Update (pe_svc env) oldService service (px_serviceChanges px)) (\<lambda>(changed, sct).
       let px = px\<lparr>px_serviceChanges := sct\<rparr>
       in Inr (if changed \<and> px_initialized px then Sync px else [], px))"

definition OnServiceAdd where
  "OnServiceAdd env service px = OnServiceUpdate env None (Some service) px"

definition OnServiceDelete where
  "OnServiceDelete env service px = OnServiceUpdate env (Some service) None px"

definition endpointSliceEvent where
  "endpointSliceEvent parseTime endpointSlice removeSlice px =
     res_bind (EndpointSliceUpdate parseTime endpointSlice removeSlice (px_endpointsChanges px)) (\<lambda>(changed, ect).
       let px = px\<lparr>px_endpointsChanges := ect\<rparr>
       in Inr (if changed \<and> px_initialized px then Sync px else [], px))"

definition OnEndpointSliceAdd where
  "OnEndpointSliceAdd parseTime endpointSlice px = endpointSliceEvent parseTime endpointSlice False px"

definition OnEndpointSliceUpdate where
  "OnEndpointSliceUpdate parseTime oldSlice endpointSlice px = endpointSliceEvent parseTime endpointSlice False px"

definition OnEndpointSliceDelete where
  "OnEndpointSliceDelete parseTime endpointSlice px = endpointSliceEvent parseTime endpointSlice True px"

definition OnServiceSynced where
  "OnServiceSynced env input px =
     syncProxyRules env input (px\<lparr>px_servicesSynced := True, px_initialized := px_endpointSlicesSynced px\<rparr>)"

definition OnEndpointSlicesSynced where
  "OnEndpointSlicesSynced env input px =
     syncProxyRules env input (px\<lparr>px_endpointSlicesSynced := True, px_initialized := px_servicesSynced px\<rparr>)"

definition OnNodeUpdate :: "string \<Rightarrow> (string, string) gomap option \<Rightarrow> 's Proxier \<Rightarrow> effect list \<times> 's Proxier" where
  "OnNodeUpdate nodeName nodeLabels px =
     (if nodeName \<noteq> px_hostname px then ([], px)
      else if DeepEqual_nilmap (px_nodeLabels px) nodeLabels then ([], px)
      else (let px = px\<lparr>px_nodeLabels := Some (fold (\<lambda>(k, v). AList.update k v) (elems nodeLabels) []), px_needFullSync := True\<rparr>
            in (Sync px, px)))"

definition OnNodeAdd :: "string \<Rightarrow> (string, string) gomap option \<Rightarrow> 's Proxier \<Rightarrow> effect list \<times> 's Proxier" where
  "OnNodeAdd nodeName nodeLabels px = OnNodeUpdate nodeName nodeLabels px"

definition OnNodeDelete :: "string \<Rightarrow> 's Proxier \<Rightarrow> effect list \<times> 's Proxier" where
  "OnNodeDelete nodeName px =
     (if nodeName \<noteq> px_hostname px then ([], px)
      else (let px = px\<lparr>px_nodeLabels := None, px_needFullSync := True\<rparr> in (Sync px, px)))"

fun joinComma :: "string list \<Rightarrow> string" where
  "joinComma [] = []"
| "joinComma [s] = s"
| "joinComma (s # s' # ss) = s @ '','' @ joinComma (s' # ss)"

definition OnServiceCIDRsChanged :: "util_env \<Rightarrow> string list \<Rightarrow> 's Proxier \<Rightarrow> 's Proxier" where
  "OnServiceCIDRsChanged env cidrs px =
     (let cidrsForProxier = concat (map (\<lambda>cidr.
            (if px_ipFamily px = IPv4Protocol \<and> ue_IsIPv4CIDRString env cidr then [cidr] else []) @
            (if px_ipFamily px = IPv6Protocol \<and> \<not> ue_IsIPv4CIDRString env cidr then [cidr] else [])) cidrs)
      in px\<lparr>px_serviceCIDRs := joinComma cidrsForProxier\<rparr>)"

end
