(* ===== verification/Nft_Exact.thy ===== *)
theory Nft_Exact
  imports Nft_Sync
begin

text \<open>
  What a synchronisation leaves in the kernel: the six sets and maps that dispatch traffic hold exactly
  what the current services ask for, whatever earlier synchronisations did or failed to do. The kernel
  is the one of \<open>Nft_Storage\<close>, one map of keys to values for each container.
\<close>

section \<open>Operations on one container\<close>

definition cname :: "container \<Rightarrow> string" where
  "cname c = nes_containerName (newStorage c)"

lemma cname_inj: "cname c = cname c' \<longleftrightarrow> c = c'"
  by (cases c; cases c'; simp add: cname_def newNFTElementStorage_def clusterIPsSet_def serviceIPsMap_def firewallIPsMap_def
      noEndpointServicesMap_def noEndpointNodePortsMap_def serviceNodePortsMap_def)

fun touches :: "string \<Rightarrow> nft_op \<Rightarrow> bool" where
  "touches n (Add (NElement c _ _)) \<longleftrightarrow> c = n"
| "touches n (Delete (NElement c _ _)) \<longleftrightarrow> c = n"
| "touches n (Flush (NSet c _ _ _)) \<longleftrightarrow> c = n"
| "touches n (Flush (NMap c _)) \<longleftrightarrow> c = n"
| "touches n _ \<longleftrightarrow> False"

definition foreign :: "string \<Rightarrow> Transaction \<Rightarrow> bool" where
  "foreign n ops \<longleftrightarrow> (\<forall>op\<in>set ops. \<not> touches n op)"

lemma foreign_simps [simp]:
  "foreign n []" "foreign n (op # ops) \<longleftrightarrow> \<not> touches n op \<and> foreign n ops"
  "foreign n (ops @ ops') \<longleftrightarrow> foreign n ops \<and> foreign n ops'"
  by (auto simp: foreign_def)

lemma foreign_concat: "foreign n (concat opss) \<longleftrightarrow> (\<forall>ops\<in>set opss. foreign n ops)"
  by (auto simp: foreign_def)

lemma apply_foreign: "\<not> touches n op \<Longrightarrow> nft_apply n op K = Some K"
  by (induction n op rule: touches.induct) auto

lemma run_foreign: "foreign n ops \<Longrightarrow> nft_run n ops K = Some K"
  by (induction ops) (simp_all add: apply_foreign)

section \<open>Following one container through a transaction\<close>

text \<open>
  \<open>follows c K0 st K L\<close>: what the transaction so far makes of the contents \<open>K0\<close> of \<open>c\<close> is \<open>K\<close>, the
  storage agrees with it, and the keys not asked for yet are \<open>L\<close>.
\<close>

definition follows where
  "follows c K0 tx store K L \<longleftrightarrow>
     (\<forall>c'. nes_containerName (store c') = cname c') \<and> nft_run (cname c) tx K0 = Some K \<and> synced K (store c) \<and>
     set (nes_leftoverKeys (store c)) = L \<and> L \<subseteq> dom K \<and> distinct (nes_leftoverKeys (store c))"

abbreviation follows_st where
  "follows_st c K0 st K L \<equiv> follows c K0 (sy_tx st) (sy_store st) K L"

lemma follows_foreign:
  "follows c K0 tx store K L \<Longrightarrow> foreign (cname c) ops \<Longrightarrow> follows c K0 (tx @ ops) store K L"
  by (simp add: follows_def nft_run_append run_foreign)

text \<open>The requests for one container among a list of requests.\<close>

definition elems_for :: "container \<Rightarrow> (container \<times> string list \<times> string list) list \<Rightarrow> (string list \<times> string list) list" where
  "elems_for c es = map snd (filter (\<lambda>e. fst e = c) es)"

lemma elems_for_simps [simp]:
  "elems_for c [] = []" "elems_for c (es @ es') = elems_for c es @ elems_for c es'"
  "elems_for c (e # es) = (if fst e = c then snd e # elems_for c es else elems_for c es)"
  by (simp_all add: elems_for_def)

lemma ensureElem_other:
  assumes "nes_containerName s \<noteq> n" "ensureElem key val (tx, s) = (tx', s')"
  shows "nes_containerName s' = nes_containerName s" "\<exists>ops. tx' = tx @ ops \<and> foreign n ops"
  using assms by (auto simp: ensureElem_def Let_def split: option.splits if_splits)

lemma follows_ensureElem:
  assumes "follows_st c K0 st K L" "key_ok key"
  shows "follows_st c K0 (ensureElemOn (c', key, val) st)
    (if c' = c then K(joinNFTSlice key \<mapsto> joinNFTSlice val) else K) (if c' = c then L - {joinNFTSlice key} else L)"
proof -
  obtain tx s' where s': "ensureElem key val (sy_tx st, sy_store st c') = (tx, s')" by fastforce
  have st: "sy_tx (ensureElemOn (c', key, val) st) = tx" "sy_store (ensureElemOn (c', key, val) st) = (sy_store st)(c' := s')"
    by (simp_all add: ensureElemOn_def s')
  have names: "nes_containerName (sy_store st c'') = cname c''" for c'' using assms(1) by (simp add: follows_def)
  show ?thesis
  proof (cases "c' = c")
    case True
    from assms(1) have a: "nft_run (cname c) (sy_tx st) K0 = Some K" "synced K (sy_store st c)" "set (nes_leftoverKeys (sy_store st c)) = L"
      "L \<subseteq> dom K" "distinct (nes_leftoverKeys (sy_store st c))" by (simp_all add: follows_def)
    from ensureElem_step [OF a(2) assms(2), of val "sy_tx st"] a(3-5) True s' names
    obtain ops where "tx = sy_tx st @ ops"
      "nft_run (cname c) ops K = Some (K(joinNFTSlice key \<mapsto> joinNFTSlice val))" "synced (K(joinNFTSlice key \<mapsto> joinNFTSlice val)) s'"
      "set (nes_leftoverKeys s') = L - {joinNFTSlice key}" "nes_containerName s' = cname c" "distinct (nes_leftoverKeys s')"
      by auto
    then show ?thesis using True a names unfolding st follows_def by (auto simp: nft_run_append)
  next
    case False
    then have "nes_containerName (sy_store st c') \<noteq> cname c" using names cname_inj by simp
    note o = ensureElem_other [OF this s']
    then obtain ops where "tx = sy_tx st @ ops" "foreign (cname c) ops" by blast
    then have "follows c K0 tx (sy_store st) K L" using follows_foreign [OF assms(1)] by simp
    then show ?thesis using False o(1) names unfolding st follows_def by simp
  qed
qed

lemma follows_ensureElems:
  assumes "follows_st c K0 st K L" "\<forall>(c', key, val)\<in>set es. key_ok key"
  shows "follows_st c K0 (fold ensureElemOn es st) (K ++ wanted (elems_for c es)) (L - dom (wanted (elems_for c es)))"
  using assms
proof (induction es arbitrary: st K L)
  case (Cons e es)
  obtain c' key val where e: "e = (c', key, val)" by (cases e)
  have "key_ok key" using Cons.prems(2) e by simp
  note f = follows_ensureElem [OF Cons.prems(1) this, of c' val]
  have "\<forall>(c', key, val)\<in>set es. key_ok key" using Cons.prems(2) by simp
  note IH = Cons.IH [OF f this]
  show ?case
  proof (cases "c' = c")
    case True
    have K: "K(joinNFTSlice key \<mapsto> joinNFTSlice val) ++ wanted (elems_for c es) = K ++ wanted (elems_for c (e # es))"
      by (auto simp: e True map_add_def fun_eq_iff split: option.split)
    have L: "L - {joinNFTSlice key} - dom (wanted (elems_for c es)) = L - dom (wanted (elems_for c (e # es)))"
      by (auto simp: e True)
    show ?thesis using IH unfolding if_P [OF True] K L by (simp only: e fold_Cons o_apply)
  next
    case False
    then show ?thesis using IH by (simp add: e)
  qed
qed simp

section \<open>The rules do not touch the containers\<close>

text \<open>\<open>extends n st st'\<close>: the storages stay and only operations on other objects are added.\<close>

definition extends :: "string \<Rightarrow> sync_state \<Rightarrow> sync_state \<Rightarrow> bool" where
  "extends n st st' \<longleftrightarrow> sy_store st' = sy_store st \<and> (\<exists>ops. sy_tx st' = sy_tx st @ ops \<and> foreign n ops)"

lemma extends_refl [simp]: "extends n st st"
  by (auto simp: extends_def intro: exI [of _ "[]"])

lemma extends_trans: "extends n st st' \<Longrightarrow> extends n st' st'' \<Longrightarrow> extends n st st''"
  by (auto simp: extends_def)

lemma follows_extends: "follows_st c K0 st K L \<Longrightarrow> extends (cname c) st st' \<Longrightarrow> follows_st c K0 st' K L"
  by (auto simp: extends_def follows_foreign)

lemma extends_ensureChainOn: "extends n st (ensureChainOn chain skip st)"
  by (auto simp: extends_def ensureChainOn_def ensureChain_def Let_def)

lemma extends_fold: "(\<And>x st. extends n st (f x st)) \<Longrightarrow> extends n st (fold f xs st)"
proof (induction xs arbitrary: st)
  case (Cons x xs)
  show ?case using extends_trans [OF Cons.prems Cons.IH [OF Cons.prems]] by simp
qed simp

lemma extends_noteChains: "extends n st (noteChains skip svcInfo p all st)"
proof -
  have one: "extends n st (case ep of
                 BaseEndpoint _ \<Rightarrow> st
               | NftEndpoint epInfo \<Rightarrow>
                   (let st = ensureChainOn (epi_chainName epInfo) skip st
                    in if hasAffinity svcInfo
                       then st\<lparr>sy_activeAffinitySets := List.insert (epi_affinitySetName epInfo) (sy_activeAffinitySets st)\<rparr>
                       else st))" for ep st
    using extends_ensureChainOn [of n st] by (auto simp: Let_def extends_def split: Endpoint.split)
  have opt: "extends n st (if b then ensureChainOn chain skip st else st)" for b chain st
    by (simp add: extends_ensureChainOn)
  have cnt: "extends n st (if b then st\<lparr>sy_noLocalInternal := i, sy_noLocalExternal := j\<rparr> else st)" for b i j st
    by (auto simp: extends_def)
  show ?thesis unfolding noteChains_def Let_def
    by (intro extends_trans [OF _ cnt] extends_trans [OF _ opt] extends_fold) (rule one [unfolded Let_def])
qed

lemma foreign_rules:
  "foreign n (internalRules px ipX svcInfo p)" "foreign n (externalRules px svcInfo p)"
  "foreign n (firewallRules env ip ipX svcInfo p)" "foreign n (affinitySets addr svcInfo all)" "foreign n (endpointRules ipX svcInfo all)"
  by (auto simp: internalRules_def externalRules_def firewallRules_def affinitySets_def endpointRules_def Let_def foreign_concat
      split: Endpoint.split prod.split)

lemma foreign_affinityRules: "foreign n (affinityRules ipX svcChain eps)"
proof -
  have "foreign n tx \<Longrightarrow> foreign n (fold (\<lambda>ep tx. case ep of
             BaseEndpoint _ \<Rightarrow> tx
           | NftEndpoint epInfo \<Rightarrow>
               tx @ [Add (NRule svcChain [ipX, ''saddr'', ''@'', epi_affinitySetName epInfo, ''goto'', epi_chainName epInfo])]) eps tx)" for tx
    by (induction eps arbitrary: tx) (auto split: Endpoint.split)
  then show ?thesis unfolding affinityRules_def by simp
qed

lemma write_extends:
  assumes "writeServiceToEndpointRules fam scores name svcInfo svcChain eps tx = Inr tx'"
  shows "\<exists>ops. tx' = tx @ ops \<and> foreign n ops"
  using assms by (auto simp: writeServiceToEndpointRules_def Let_def foreign_affinityRules split: option.splits if_splits prod.splits)

section \<open>The services\<close>

text \<open>What a service asks of the containers.\<close>

definition svcElems where
  "svcElems env input px x =
     (case snd x of
        BaseServicePort _ \<Rightarrow> []
      | NftServicePort svcInfo \<Rightarrow>
          (let p = svcPlan svcInfo (svcCategories env input px (fst x) svcInfo) in captureIPs svcInfo p @ captureRest svcInfo p))"

text \<open>The texts in the keys have no blanks; the API server accepts no others.\<close>

definition port_ok :: "BaseServicePortInfo \<Rightarrow> bool" where
  "port_ok b \<longleftrightarrow> list_all (\<lambda>ip. CHR '' '' \<notin> set (IP_String ip)) (bsp_clusterIP b # bsp_externalIPs b @ bsp_loadBalancerVIPs b) \<and>
     CHR '' '' \<notin> set (bsp_protocol b)"

lemma ToLower_blank: "CHR '' '' \<notin> set s \<Longrightarrow> CHR '' '' \<notin> set (ToLower s)"
proof -
  have "CHR '' '' \<noteq> char_of (of_char c + 32 :: nat)" if "65 \<le> (of_char c :: nat)" "of_char c \<le> (90 :: nat)" for c :: char
  proof
    assume "CHR '' '' = char_of (of_char c + 32 :: nat)"
    from arg_cong [OF this, of "of_char :: char \<Rightarrow> nat"] have "(of_char (char_of (of_char c + 32 :: nat) :: char) :: nat) = 32" by simp
    then show False using that by (simp add: of_char_of)
  qed
  then show "CHR '' '' \<notin> set s \<Longrightarrow> CHR '' '' \<notin> set (ToLower s)" by (auto simp: ToLower_def split: if_splits)
qed

lemma svcElems_keys:
  assumes "port_ok (ServicePort_base (snd x))" "(c, key, val) \<in> set (svcElems env input px x)"
  shows "key_ok key"
proof (cases "snd x")
  case (NftServicePort svcInfo)
  have "CHR '' '' \<notin> set (ToLower (bsp_protocol (spi_BaseServicePortInfo svcInfo)))"
    by (rule ToLower_blank) (use assms(1) NftServicePort in \<open>simp add: port_ok_def\<close>)
  then show ?thesis using assms NftServicePort
    by (auto simp: svcElems_def captureIPs_def captureRest_def Let_def port_ok_def key_ok_def list_all_iff split: if_splits)
qed (use assms(2) in \<open>simp add: svcElems_def\<close>)

lemma wanted_append: "wanted (es @ es') = wanted es ++ wanted es'"
  by (simp add: wanted_def)

lemma noteService_follows:
  assumes "follows_st c K0 st K L" "\<forall>(c', key, val)\<in>set (captureIPs svcInfo p @ captureRest svcInfo p). key_ok key"
    and p: "p = svcPlan svcInfo cat"
  shows "follows_st c K0 (noteService skip svcInfo cat st) (K ++ wanted (elems_for c (captureIPs svcInfo p @ captureRest svcInfo p)))
    (L - dom (wanted (elems_for c (captureIPs svcInfo p @ captureRest svcInfo p))))"
proof -
  define st1 where "st1 = noteChains skip svcInfo p (cat_all cat) st"
  define st2 where "st2 = fold ensureElemOn (captureIPs svcInfo p) st1"
  define st3 where "st3 = (if sp_usesFWChain p then ensureChainOn (spi_firewallChainName svcInfo) skip st2 else st2)"
  have keys: "\<forall>(c', key, val)\<in>set (captureIPs svcInfo p). key_ok key" "\<forall>(c', key, val)\<in>set (captureRest svcInfo p). key_ok key"
    using assms(2) by auto
  have "follows_st c K0 st1 K L" unfolding st1_def by (rule follows_extends [OF assms(1) extends_noteChains])
  note f2 = follows_ensureElems [OF this keys(1), folded st2_def]
  have "extends (cname c) st2 st3" by (simp add: st3_def extends_ensureChainOn)
  note f4 = follows_ensureElems [OF follows_extends [OF f2 this] keys(2)]
  have "noteService skip svcInfo cat st = fold ensureElemOn (captureRest svcInfo p) st3"
    by (simp add: noteService_def Let_def st3_def st2_def st1_def p)
  then show ?thesis using f4 by (simp add: wanted_append map_add_assoc Un_commute set_diff_eq)
qed

lemma writeService_extends:
  assumes "writeService env px svcInfo cat st = Inr st'"
  shows "extends n st st'"
proof -
  have w: "\<exists>ops. tx' = tx @ ops \<and> foreign n ops" if "writePolicyChain px svcInfo uses chain eps tx = Inr tx'" for uses chain eps tx tx'
    using that write_extends by (cases uses) (auto simp: writePolicyChain_def intro: exI [of _ "[]"])
  from assms obtain tx1 tx2 ipX uses1 uses2 chain1 chain2 where
    tx: "writePolicyChain px svcInfo uses1 chain1 (cat_cluster cat) (sy_tx st @ svcRules env px svcInfo cat) = Inr tx1"
      "writePolicyChain px svcInfo uses2 chain2 (cat_local cat) tx1 = Inr tx2"
    and st': "st' = st\<lparr>sy_tx := tx2 @ endpointRules ipX svcInfo (cat_all cat)\<rparr>"
    by (auto simp: writeService_def Let_def res_bind_Inr_iff)
  have "foreign n (svcRules env px svcInfo cat)" by (simp add: svcRules_def Let_def foreign_rules)
  then show ?thesis using w [OF tx(1)] w [OF tx(2)] by (auto simp: st' extends_def foreign_rules)
qed

lemma buildService_follows:
  assumes "follows_st c K0 st K L" "port_ok (ServicePort_base (snd x))"
    and "buildService env input px partial updated x st = Inr st'"
  shows "follows_st c K0 st' (K ++ wanted (elems_for c (svcElems env input px x))) (L - dom (wanted (elems_for c (svcElems env input px x))))"
proof (cases "snd x")
  case (BaseServicePort b)
  then show ?thesis using assms(1,3) by (cases x) (simp add: buildService_def svcElems_def)
next
  case (NftServicePort svcInfo)
  then obtain svcName where x: "x = (svcName, NftServicePort svcInfo)" by (metis prod.collapse)
  define cat where "cat = svcCategories env input px (fst x) svcInfo"
  define skip where "skip = (partial \<and> spn_NamespacedName (fst x) \<notin> set updated)"
  have "svcElems env input px x = captureIPs svcInfo (svcPlan svcInfo cat) @ captureRest svcInfo (svcPlan svcInfo cat)"
    by (simp add: svcElems_def NftServicePort Let_def cat_def)
  then have f: "follows_st c K0 (noteService skip svcInfo cat st) (K ++ wanted (elems_for c (svcElems env input px x)))
      (L - dom (wanted (elems_for c (svcElems env input px x))))"
    using noteService_follows [OF assms(1) _ refl, of svcInfo cat skip] svcElems_keys [OF assms(2), of _ _ _ env input px] by fastforce
  have "(if skip then Inr (noteService skip svcInfo cat st) else writeService (pe_util env) px svcInfo cat (noteService skip svcInfo cat st)) = Inr st'"
    using assms(3) unfolding x by (simp only: buildService_def Let_def prod.case ServicePort.case cat_def skip_def x fst_conv)
  then have "extends (cname c) (noteService skip svcInfo cat st) st'"
    using writeService_extends by (cases skip) auto
  then show ?thesis by (rule follows_extends [OF f])
qed

lemma buildServices_follows:
  assumes "follows_st c K0 st K L" "\<forall>x\<in>set xs. port_ok (ServicePort_base (snd x))"
    and "buildServices env input px partial updated xs st = Inr st'"
  shows "follows_st c K0 st' (K ++ wanted (elems_for c (concat (map (svcElems env input px) xs))))
    (L - dom (wanted (elems_for c (concat (map (svcElems env input px) xs)))))"
  using assms
proof (induction xs arbitrary: st K L)
  case (Cons x xs)
  from Cons.prems(3) obtain st1 where st1: "buildService env input px partial updated x st = Inr st1"
    "buildServices env input px partial updated xs st1 = Inr st'" by (auto simp: res_bind_Inr_iff)
  have "port_ok (ServicePort_base (snd x))" "\<forall>x\<in>set xs. port_ok (ServicePort_base (snd x))" using Cons.prems(2) by auto
  from Cons.IH [OF buildService_follows [OF Cons.prems(1) this(1) st1(1)] this(2) st1(2)]
  show ?case by (simp add: wanted_append map_add_assoc Un_commute set_diff_eq)
qed simp

section \<open>The fixed rules and the stale objects\<close>

text \<open>\<open>grows n st st'\<close>: the transaction in front of some other state grows by operations on other objects.\<close>

definition grows :: "string \<Rightarrow> Transaction \<times> 'a \<Rightarrow> Transaction \<times> 'a \<Rightarrow> bool" where
  "grows n st st' \<longleftrightarrow> (\<exists>ops. fst st' = fst st @ ops \<and> foreign n ops)"

lemma grows_refl [simp]: "grows n st st"
  by (auto simp: grows_def intro: exI [of _ "[]"])

lemma grows_trans: "grows n st st' \<Longrightarrow> grows n st' st'' \<Longrightarrow> grows n st st''"
  by (auto simp: grows_def)

lemma grows_fold: "(\<And>x st. x \<in> set xs \<Longrightarrow> grows n st (f x st)) \<Longrightarrow> grows n st (fold f xs st)"
proof (induction xs arbitrary: st)
  case (Cons x xs)
  have "grows n st (f x st)" "grows n (f x st) (fold f xs (f x st))" using Cons by auto
  then show ?case unfolding fold_Cons o_apply by (rule grows_trans)
qed simp

lemma grows_ensureChain: "grows n st (ensureChain chain skip st)"
  by (auto simp: grows_def ensureChain_def Let_def split: prod.split)

lemma grows_jumpChainOps: "grows n st (jumpChainOps st)"
proof -
  have "grows n st (let (tx, createdChains) = ensureChain (jc_dstChain c) False st
      in (tx @ [Add (NRule (jc_srcChain c) [jc_extraArgs c, ''jump'', jc_dstChain c])], createdChains))" for c st
    using grows_ensureChain [of n st "jc_dstChain c" False] by (auto simp: grows_def Let_def split: prod.split)
  then show ?thesis unfolding jumpChainOps_def
    by (intro grows_trans [OF _ grows_fold [OF grows_ensureChain]] grows_fold)
qed

lemma grows_noteStaleChains: "grows n st (noteStaleChains start existing active st)"
proof -
  have "grows n st (fold (\<lambda>chain (tx, staleChains).
            if isServiceChainName chain
            then (if chain \<notin> set active then (tx @ [Flush (NChain chain None)], AList.update chain start staleChains)
                  else (tx, AList.delete chain staleChains))
            else (tx, staleChains)) l st)" for l
    by (rule grows_fold) (auto simp: grows_def split: prod.split intro: exI [of _ "[]"])
  then show ?thesis by (simp add: noteStaleChains_def split: sum.split)
qed

lemma foreign_deleteStaleSets: "foreign n (deleteStaleSets existing active)"
  by (auto simp: deleteStaleSets_def foreign_def split: sum.split)

lemma foreign_map: "foreign n (map f xs) \<longleftrightarrow> (\<forall>x\<in>set xs. \<not> touches n (f x))"
  by (simp add: foreign_def)

lemma foreign_setup:
  "foreign n (baseChainOps flushed)" "foreign n (masqueradeOps mark)" "foreign n (noEndpointOps ipX ipv noLocal matchAll)"
  "foreign n (dispatchOps ipX ipv noLocal matchAll)"
  by (auto simp: baseChainOps_def masqueradeOps_def noEndpointOps_def dispatchOps_def foreign_concat)

lemma foreign_nodePortIPOps: "nodePortIPOps env addrs ipv npa = Inr ops \<Longrightarrow> foreign (cname c) ops"
proof -
  have "nodePortIPsSet \<noteq> cname c"
    by (cases c) (simp_all add: cname_def newNFTElementStorage_def nodePortIPsSet_def clusterIPsSet_def serviceIPsMap_def firewallIPsMap_def
        noEndpointServicesMap_def noEndpointNodePortsMap_def serviceNodePortsMap_def)
  then show "nodePortIPOps env addrs ipv npa = Inr ops \<Longrightarrow> foreign (cname c) ops"
    by (auto simp: nodePortIPOps_def Let_def foreign_map split: if_splits sum.splits)
qed

section \<open>Resetting and cleaning up all containers\<close>

lemma containers_split: "\<exists>pre post. containers = pre @ c # post \<and> c \<notin> set pre \<and> c \<notin> set post"
proof -
  have "c \<in> set containers" by (cases c) (simp_all add: containers_def)
  then obtain pre post where "containers = pre @ c # post" by (meson split_list)
  moreover have "distinct containers" by (simp add: containers_def)
  ultimately show ?thesis by (metis distinct.simps(2) distinct_append disjoint_iff list.set_intros(1))
qed

abbreviation names_ok :: "(container \<Rightarrow> nftElementStorage) \<Rightarrow> bool" where
  "names_ok store \<equiv> \<forall>c. nes_containerName (store c) = cname c"

text \<open>\<open>settled c K0 tx store K\<close>: the transaction so far leaves \<open>K\<close> in \<open>c\<close>, and the storage is ready for the next round.\<close>

definition settled where
  "settled c K0 tx store K \<longleftrightarrow> names_ok store \<and> nft_run (cname c) tx K0 = Some K \<and> synced K (store c) \<and> at_rest (store c)"

text \<open>
  An operation on one container: it only adds operations on that container and only changes its
  storage. What holds of another container, if it is stable under such steps, survives; so a loop over
  all containers does to each what the operation does to that one.
\<close>

definition stable :: "container \<Rightarrow> (Transaction \<Rightarrow> (container \<Rightarrow> nftElementStorage) \<Rightarrow> bool) \<Rightarrow> bool" where
  "stable c P \<longleftrightarrow> (\<forall>tx store. P tx store \<longrightarrow> names_ok store \<and>
     (\<forall>ops c' s'. c' \<noteq> c \<longrightarrow> foreign (cname c) ops \<longrightarrow> nes_containerName s' = cname c' \<longrightarrow> P (tx @ ops) (store(c' := s'))))"

locale container_op =
  fixes opOn :: "container \<Rightarrow> Transaction \<times> (container \<Rightarrow> nftElementStorage) \<Rightarrow> Transaction \<times> (container \<Rightarrow> nftElementStorage)"
  assumes op_other: "c' \<noteq> c \<Longrightarrow> names_ok store \<Longrightarrow>
    \<exists>ops s'. opOn c' (tx, store) = (tx @ ops, store(c' := s')) \<and> foreign (cname c) ops \<and> nes_containerName s' = cname c'"
begin

lemma op_others:
  assumes "stable c P" "P tx store" "c \<notin> set cs" "fold opOn cs (tx, store) = (tx', store')"
  shows "P tx' store'"
  using assms(2-4)
proof (induction cs arbitrary: tx store)
  case (Cons c' cs)
  have "c' \<noteq> c" "names_ok store" using Cons.prems(1,2) assms(1) by (auto simp: stable_def)
  from op_other [OF this, of tx] obtain ops s' where
    o: "opOn c' (tx, store) = (tx @ ops, store(c' := s'))" "foreign (cname c) ops" "nes_containerName s' = cname c'" by blast
  have "P (tx @ ops) (store(c' := s'))" using assms(1) Cons.prems(1) \<open>c' \<noteq> c\<close> o(2,3) unfolding stable_def by blast
  moreover have "c \<notin> set cs" "fold opOn cs (tx @ ops, store(c' := s')) = (tx', store')"
    using Cons.prems(2,3) unfolding fold_Cons o_apply o(1) by simp_all
  ultimately show ?case by (rule Cons.IH)
qed simp

lemma op_all:
  assumes "stable c P" "stable c Q" "P tx store" "fold opOn containers (tx, store) = (tx', store')"
    and "\<And>tx store tx' store'. P tx store \<Longrightarrow> opOn c (tx, store) = (tx', store') \<Longrightarrow> Q tx' store'"
  shows "Q tx' store'"
proof -
  obtain pre post where sp: "containers = pre @ c # post" "c \<notin> set pre" "c \<notin> set post" using containers_split by blast
  obtain tx1 store1 where 1: "fold opOn pre (tx, store) = (tx1, store1)" by fastforce
  obtain tx2 store2 where 2: "opOn c (tx1, store1) = (tx2, store2)" by fastforce
  have 3: "fold opOn post (tx2, store2) = (tx', store')" using assms(4) 1 2 by (simp add: sp(1))
  show ?thesis using op_others [OF assms(2) assms(5) [OF op_others [OF assms(1,3) sp(2) 1] 2] sp(3) 3] .
qed

end

lemma stable_follows: "stable c (\<lambda>tx store. follows c K0 tx store K L)"
  unfolding stable_def follows_def by (auto simp: nft_run_append run_foreign)

lemma stable_settled: "stable c (\<lambda>tx store. settled c K0 tx store K)"
  unfolding stable_def settled_def by (auto simp: nft_run_append run_foreign)

lemma stable_foreign: "stable c (\<lambda>tx store. names_ok store \<and> foreign (cname c) tx)"
  unfolding stable_def by auto

lemma cleanup_other:
  assumes "c' \<noteq> c" "names_ok store"
  shows "\<exists>ops s'. cleanupOn c' (tx, store) = (tx @ ops, store(c' := s')) \<and> foreign (cname c) ops \<and> nes_containerName s' = cname c'"
proof -
  have "\<exists>ops s'. fold (\<lambda>key (tx, s). (tx @ [Delete (NElement (nes_containerName s) (splitNFTSlice key) [])],
        s\<lparr>nes_elements := AList.delete key (nes_elements s)\<rparr>)) keys (tx, s) = (tx @ ops, s') \<and>
        nes_containerName s' = nes_containerName s \<and> (nes_containerName s \<noteq> cname c \<longrightarrow> foreign (cname c) ops)" for keys tx s
  proof (induction keys arbitrary: tx s)
    case (Cons key keys)
    let ?del = "[Delete (NElement (nes_containerName s) (splitNFTSlice key) [])]"
    let ?s = "s\<lparr>nes_elements := AList.delete key (nes_elements s)\<rparr>"
    from Cons.IH [of "tx @ ?del" ?s] obtain ops s' where
      "fold (\<lambda>key (tx, s). (tx @ [Delete (NElement (nes_containerName s) (splitNFTSlice key) [])],
        s\<lparr>nes_elements := AList.delete key (nes_elements s)\<rparr>)) keys (tx @ ?del, ?s) = ((tx @ ?del) @ ops, s')"
      "nes_containerName s' = nes_containerName s" "nes_containerName s \<noteq> cname c \<longrightarrow> foreign (cname c) ops" by auto
    then show ?case by (intro exI [of _ "?del @ ops"] exI [of _ s']) simp
  qed simp
  from this [of "nes_leftoverKeys (store c')" tx "store c'"] assms obtain ops s' where
    "fold (\<lambda>key (tx, s). (tx @ [Delete (NElement (nes_containerName s) (splitNFTSlice key) [])],
        s\<lparr>nes_elements := AList.delete key (nes_elements s)\<rparr>)) (nes_leftoverKeys (store c')) (tx, store c') = (tx @ ops, s')"
    "nes_containerName s' = cname c'" "foreign (cname c) ops" by (auto simp: cname_inj)
  then show ?thesis by (intro exI [of _ ops] exI [of _ "resetLeftoverKeys s'"]) (simp add: cleanupOn_def cleanupLeftoverKeys_def)
qed

interpretation cleanup: container_op cleanupOn
  by unfold_locales (rule cleanup_other)

lemma cleanup_this:
  assumes "follows c K0 tx store K L" "cleanupOn c (tx, store) = (tx', store')"
  shows "settled c K0 tx' store' (K |` (- L))"
proof -
  from assms(1) have a: "names_ok store" "nft_run (cname c) tx K0 = Some K" "synced K (store c)" "set (nes_leftoverKeys (store c)) = L"
    "L \<subseteq> dom K" "distinct (nes_leftoverKeys (store c))" by (auto simp: follows_def)
  from delete_loop [OF a(3,6), of tx] a(1,4,5) obtain ops s' where
    d: "fold (\<lambda>key (tx, s). (tx @ [Delete (NElement (nes_containerName s) (splitNFTSlice key) [])],
        s\<lparr>nes_elements := AList.delete key (nes_elements s)\<rparr>)) (nes_leftoverKeys (store c)) (tx, store c) = (tx @ ops, s')"
      "nft_run (cname c) ops K = Some (K |` (- L))" "synced (K |` (- L)) s'" by auto
  have nm: "nes_containerName s' = cname c"
  proof -
    have "nes_containerName (snd (fold (\<lambda>key (tx, s). (tx @ [Delete (NElement (nes_containerName s) (splitNFTSlice key) [])],
        s\<lparr>nes_elements := AList.delete key (nes_elements s)\<rparr>)) keys (tx, s))) = nes_containerName s" for keys tx s
      by (induction keys arbitrary: tx s) simp_all
    from this [of "nes_leftoverKeys (store c)" tx "store c"] show ?thesis using d(1) a(1) by simp
  qed
  have "tx' = tx @ ops" "store' = store(c := resetLeftoverKeys s')"
    using assms(2) by (simp_all add: cleanupOn_def cleanupLeftoverKeys_def d(1))
  then show ?thesis using a(1,2) d(2,3) nm at_rest_reset by (simp add: settled_def nft_run_append synced_def)
qed

lemma cleanup_all:
  assumes "follows c K0 tx store K L" "fold cleanupOn containers (tx, store) = (tx', store')"
  shows "settled c K0 tx' store' (K |` (- L))"
  by (rule cleanup.op_all [OF stable_follows stable_settled assms cleanup_this])

lemma reset_other:
  assumes "c' \<noteq> c" "names_ok store"
  shows "\<exists>ops s'. resetOn c' (tx, store) = (tx @ ops, store(c' := s')) \<and> foreign (cname c) ops \<and> nes_containerName s' = cname c'"
  using assms by (intro exI [of _ "[if nes_containerType (store c') = ''set'' then Flush (NSet (cname c') [] [] None) else Flush (NMap (cname c') [])]"]
     exI [of _ "resetLeftoverKeys ((store c')\<lparr>nes_elements := []\<rparr>)"])
    (auto simp: resetOn_def nes_reset_def Let_def cname_inj)

interpretation reset: container_op resetOn
  by unfold_locales (rule reset_other)

lemma reset_all:
  assumes "names_ok store" "foreign (cname c) tx" "fold resetOn containers (tx, store) = (tx', store')"
  shows "follows c K0 tx' store' Map.empty {}"
proof (rule reset.op_all [OF stable_foreign stable_follows _ assms(3)])
  show "names_ok store \<and> foreign (cname c) tx" using assms by simp
  show "follows c K0 tx2 store2 Map.empty {}"
    if "names_ok store1 \<and> foreign (cname c) tx1" "resetOn c (tx1, store1) = (tx2, store2)" for tx1 store1 tx2 store2
    using that by (auto simp: resetOn_def nes_reset_def Let_def follows_def nft_run_append run_foreign synced_def resetLeftoverKeys_def)
qed

lemma setupOps_foreign:
  assumes "setupOps env addrs px tx = Inr tx'" "foreign (cname c) tx"
  shows "foreign (cname c) tx'"
proof -
  have j: "foreign (cname c) (fst (jumpChainOps (tx, cr)))" if "foreign (cname c) tx" for tx cr
    using grows_jumpChainOps [of "cname c" "(tx, cr)"] that by (auto simp: grows_def)
  have e: "foreign (cname c) (fst (ensureChain chain False (tx, cr)))" if "foreign (cname c) tx" for tx cr chain
    using grows_ensureChain [of "cname c" "(tx, cr)" chain False] that by (auto simp: grows_def)
  show ?thesis using assms
    by (auto simp: setupOps_def Let_def split_beta res_bind_Inr_iff foreign_setup foreign_nodePortIPOps intro!: j e)
qed

lemma setupNFTables_follows:
  assumes "names_ok (px_store px)" "setupNFTables env addrs [] px = Inr (tx, px')"
  shows "follows c K0 tx (px_store px') Map.empty {}" "px' = px\<lparr>px_flushed := True, px_store := px_store px'\<rparr>"
proof -
  obtain tx1 where tx1: "setupOps env addrs px [] = Inr tx1" using assms(2) by (auto simp: setupNFTables_def res_bind_Inr_iff)
  obtain tx2 store where "fold resetOn containers (tx1, px_store px) = (tx2, store)" by fastforce
  then have 1: "setupOps env addrs px [] = Inr tx1" "fold resetOn containers (tx1, px_store px) = (tx, store)"
    "px' = px\<lparr>px_flushed := True, px_store := store\<rparr>"
    using assms(2) tx1 by (simp_all add: setupNFTables_def)
  have "foreign (cname c) tx1" by (rule setupOps_foreign [OF 1(1)]) simp
  then show "follows c K0 tx (px_store px') Map.empty {}" "px' = px\<lparr>px_flushed := True, px_store := px_store px'\<rparr>"
    using reset_all [OF assms(1) _ 1(2)] by (simp_all add: 1(3))
qed

section \<open>One synchronisation\<close>

text \<open>
  \<open>px_inv K px\<close>: unless a full synchronisation is due, every storage of the proxier agrees with the
  kernel \<open>K\<close> and is ready for the next round.
\<close>

definition px_inv :: "(string \<Rightarrow> contents) \<Rightarrow> 's Proxier \<Rightarrow> bool" where
  "px_inv K px \<longleftrightarrow> names_ok (px_store px) \<and>
     (px_needFullSync px \<or> (\<forall>c. synced (K (cname c)) (px_store px c) \<and> at_rest (px_store px c)))"

lemma buildTransaction_exact:
  assumes "names_ok (px_store px)"
    and "tryPartialSync \<Longrightarrow> synced K0 (px_store px c) \<and> at_rest (px_store px c)"
    and "\<forall>x\<in>set (si_order input (px_svcPortMap px)). port_ok (ServicePort_base (snd x))"
    and "buildTransaction env input tryPartialSync updated px = Inr (tx, st, px')"
  shows "settled c K0 tx (px_store px') (wanted (elems_for c (concat (map (svcElems env input px) (si_order input (px_svcPortMap px))))))"
    "\<exists>stale store flushed. px' = px\<lparr>px_staleChains := stale, px_store := store, px_flushed := flushed\<rparr>"
proof -
  define es where "es = concat (map (svcElems env input px) (si_order input (px_svcPortMap px)))"
  obtain tx1 px1 where 1: "(if \<not> tryPartialSync then setupNFTables (pe_util env) (si_addrs input) [] px else Inr ([], px)) = Inr (tx1, px1)"
    and 2: "buildServices env input px1 tryPartialSync updated (si_order input (px_svcPortMap px1))
                 \<lparr>sy_tx = tx1, sy_store = px_store px1, sy_activeChains = [], sy_activeAffinitySets = [],
                  sy_noLocalInternal = 0, sy_noLocalExternal = 0\<rparr> = Inr st"
    and 3: "(let (tx, staleChains) = noteStaleChains (si_start input) (si_chains input) (sy_activeChains st) (sy_tx st, px_staleChains px1);
           tx = tx @ deleteStaleSets (si_sets input) (sy_activeAffinitySets st);
           (tx, store) = fold cleanupOn containers (tx, sy_store st)
       in (tx, st, px1\<lparr>px_staleChains := staleChains, px_store := store\<rparr>)) = (tx, st, px')"
    using assms(4) by (auto simp: buildTransaction_def res_bind_Inr_iff Let_def split_beta)
  obtain K L flushed where f1: "follows c K0 tx1 (px_store px1) K L" "L = dom K"
    and px1: "px1 = px\<lparr>px_flushed := flushed, px_store := px_store px1\<rparr>"
  proof (cases tryPartialSync)
    case True
    then have "tx1 = []" "px1 = px" using 1 by simp_all
    moreover have "dom K0 = fst ` set (nes_elements (px_store px c))"
      using assms(2) [OF True] by (metis synced_def dom_map_of_conv_image_fst)
    then have "follows c K0 [] (px_store px) K0 (dom K0)"
      using assms(1) assms(2) [OF True] by (simp add: follows_def at_rest_def)
    ultimately show ?thesis using that [of K0 "dom K0" "px_flushed px"] by simp
  next
    case False
    then show ?thesis using 1 setupNFTables_follows [OF assms(1)] that [of Map.empty "{}" True] by fastforce
  qed
  have same: "px_svcPortMap px1 = px_svcPortMap px" "svcElems env input px1 = svcElems env input px" "px_staleChains px1 = px_staleChains px"
    by (subst px1, simp add: svcElems_def svcCategories_def fun_eq_iff cong: ServicePort.case_cong)+
  have "follows_st c K0 st (K ++ wanted (elems_for c es)) (L - dom (wanted (elems_for c es)))"
    using buildServices_follows [OF _ assms(3) 2 [unfolded same(1)], of c K0 K L] f1(1) unfolding same(2) es_def by simp
  moreover obtain tx2 stale where 4: "noteStaleChains (si_start input) (si_chains input) (sy_activeChains st) (sy_tx st, px_staleChains px1) = (tx2, stale)"
    by fastforce
  obtain ops where "tx2 = sy_tx st @ ops" "foreign (cname c) ops"
    using grows_noteStaleChains [of "cname c" "(sy_tx st, px_staleChains px1)" "si_start input" "si_chains input" "sy_activeChains st"]
    by (auto simp: 4 grows_def)
  ultimately have "follows c K0 (tx2 @ deleteStaleSets (si_sets input) (sy_activeAffinitySets st)) (sy_store st)
      (K ++ wanted (elems_for c es)) (L - dom (wanted (elems_for c es)))"
    by (intro follows_foreign) (simp_all add: follows_foreign foreign_deleteStaleSets)
  moreover obtain store where 5: "fold cleanupOn containers (tx2 @ deleteStaleSets (si_sets input) (sy_activeAffinitySets st), sy_store st) = (tx, store)"
    "px' = px1\<lparr>px_staleChains := stale, px_store := store\<rparr>"
    using 3 by (cases "fold cleanupOn containers (tx2 @ deleteStaleSets (si_sets input) (sy_activeAffinitySets st), sy_store st)") (simp add: 4)
  ultimately have "settled c K0 tx store ((K ++ wanted (elems_for c es)) |` (- (L - dom (wanted (elems_for c es)))))"
    by (intro cleanup_all)
  moreover have "(K ++ wanted (elems_for c es)) |` (- (L - dom (wanted (elems_for c es)))) = wanted (elems_for c es)"
    unfolding f1(2) by (auto simp: restrict_map_def map_add_def fun_eq_iff split: option.split)
  ultimately show "settled c K0 tx (px_store px') (wanted (elems_for c (concat (map (svcElems env input px) (si_order input (px_svcPortMap px))))))"
    by (simp add: es_def 5(2))
  show "\<exists>stale store flushed. px' = px\<lparr>px_staleChains := stale, px_store := store, px_flushed := flushed\<rparr>"
    by (rule exI [of _ stale], rule exI [of _ store], rule exI [of _ flushed], subst 5(2), subst px1) simp
qed

end
