(* ===== verification/Nft_Reach.thy ===== *)
theory Nft_Reach
  imports Nft_Exact
begin

text \<open>
  Runs of the nftables proxier: the events it handles and the synchronisations it makes, from its
  construction on, together with the services and slices reported so far and the contents of the
  kernel's sets and maps. The trackers, the tables and the copies of the kernel's contents agree with
  them after every step.
\<close>

section \<open>The kernel\<close>

text \<open>What running the transactions among the effects makes of the kernel; a failed run changes nothing.\<close>

definition runTx :: "Transaction \<Rightarrow> (string \<Rightarrow> contents) \<Rightarrow> string \<Rightarrow> contents" where
  "runTx tx K n = (case nft_run n tx (K n) of Some k \<Rightarrow> k | None \<Rightarrow> K n)"

definition kernel_after :: "sync_input \<Rightarrow> effect list \<Rightarrow> (string \<Rightarrow> contents) \<Rightarrow> (string \<Rightarrow> contents)" where
  "kernel_after input effs K = (if si_run input then fold (\<lambda>e K. case e of Run tx \<Rightarrow> runTx tx K | _ \<Rightarrow> K) effs K else K)"

lemma kernel_quiet: "(\<forall>tx. Run tx \<notin> set effs) \<Longrightarrow> fold (\<lambda>e K. case e of Run tx \<Rightarrow> runTx tx K | _ \<Rightarrow> K) effs K = K"
  by (induction effs arbitrary: K) (auto split: effect.split)

definition sync_ok :: "sync_input \<Rightarrow> 's Proxier \<Rightarrow> bool" where
  "sync_ok input px \<longleftrightarrow> (\<forall>m. set (si_order input m) = set m) \<and> perm_order (si_ord1 input) \<and> perm_order (si_ord2 input) \<and> (\<forall>x\<in>set (px_svcPortMap px). port_ok (ServicePort_base (snd x)))"

lemma buildTransaction_same:
  assumes "buildTransaction env input tryPartialSync updated px = Inr (tx, st, px')"
  shows "px_svcPortMap px' = px_svcPortMap px" "px_endpointsMap px' = px_endpointsMap px" "px_nodeLabels px' = px_nodeLabels px"
    "px_serviceChanges px' = px_serviceChanges px" "px_endpointsChanges px' = px_endpointsChanges px"
    "px_servicesSynced px' = px_servicesSynced px" "px_endpointSlicesSynced px' = px_endpointSlicesSynced px"
    "px_initialized px' = px_initialized px" "px_nodePortAddresses px' = px_nodePortAddresses px"
    "px_waoLB px' = px_waoLB px"
  using assms by (auto simp: buildTransaction_def setupNFTables_def res_bind_Inr_iff Let_def split_beta split: if_splits)

lemma em_Update_Some: "em_Update env gates ord1 ord2 (Some ect) em = Inr (er, ects, em') \<Longrightarrow> ects \<noteq> None"
  by (auto simp: em_Update_def res_bind_Inr_iff Let_def split_beta)

lemma syncProxyRules_cases:
  assumes "syncProxyRules env input px = Inr (effs, px')" "px_initialized px"
  obtains sr er px1 px2 tx st stale rest where
    "spm_Update (px_serviceChanges px) (px_svcPortMap px) = (sr, px_serviceChanges px1, px_svcPortMap px1)"
    "em_Update (net_env.truncate (pe_svc env)) (pe_gates env) (si_ord1 input) (si_ord2 input)
      (Some (px_endpointsChanges px)) (px_endpointsMap px) = Inr (er, Some (px_endpointsChanges px1), px_endpointsMap px1)"
    "px_store px1 = px_store px" "px_servicesSynced px1 = px_servicesSynced px" "px_endpointSlicesSynced px1 = px_endpointSlicesSynced px"
    "px_initialized px1" "px_nodeLabels px1 = px_nodeLabels px" "px_nodePortAddresses px1 = px_nodePortAddresses px"
    "px_waoLB px1 = snd (Score (pe_lb env) (pe_oob env) (pe_lbOptions env) (si_clash input)
      (si_scoreOrder input (map (\<lambda>(svcPortName, _). ServicePortName_String (pe_nnString env) svcPortName) (px_svcPortMap px1))) (px_waoLB px))"
    "deleteStaleChains (si_start input) (px_staleChains px) = (stale, px_staleChains px1)"
    "buildTransaction env input (\<not> px_needFullSync px) (usr_UpdatedServices sr @ uer_UpdatedServices er) px1 = Inr (tx, st, px2)"
    "effs = stale @ [Run tx] @ rest" "\<forall>tx. Run tx \<notin> set (stale @ rest)" "\<forall>tx. RunStale tx \<notin> set rest"
    "px' = (if si_run input then px2\<lparr>px_needFullSync := False\<rparr> else px2\<lparr>px_staleChains := [], px_needFullSync := True\<rparr>)"
proof -
  obtain sr sct svcPortMap where u: "spm_Update (px_serviceChanges px) (px_svcPortMap px) = (sr, sct, svcPortMap)"
    by (metis prod.exhaust)
  obtain er ects em where e: "em_Update (net_env.truncate (pe_svc env)) (pe_gates env) (si_ord1 input) (si_ord2 input)
      (Some (px_endpointsChanges px)) (px_endpointsMap px) = Inr (er, ects, em)"
    using assms by (auto simp: syncProxyRules_def u res_bind_Inr_iff)
  then obtain ect where ect: "ects = Some ect" using em_Update_Some by blast
  obtain stale staleChains where d: "deleteStaleChains (si_start input) (px_staleChains px) = (stale, staleChains)" by fastforce
  define names where "names = map (\<lambda>(svcPortName, _). ServicePortName_String (pe_nnString env) svcPortName) svcPortMap"
  obtain r wao where s: "Score (pe_lb env) (pe_oob env) (pe_lbOptions env) (si_clash input) (si_scoreOrder input names) (px_waoLB px) = (r, wao)"
    by (metis prod.exhaust)
  define px1 where "px1 = px\<lparr>px_serviceChanges := sct, px_svcPortMap := svcPortMap, px_endpointsMap := em, px_endpointsChanges := ect,
     px_staleChains := staleChains, px_waoLB := wao\<rparr>"
  have stale: "Run tx \<notin> set stale" for tx using d by (auto simp: deleteStaleChains_def Let_def split: if_splits)
  have main: "(case r of Inl e \<Rightarrow> Inl e | Inr _ \<Rightarrow>
       res_bind (buildTransaction env input (\<not> px_needFullSync px) (usr_UpdatedServices sr @ uer_UpdatedServices er) px1) (\<lambda>(tx, _, px).
       let (effs, px) = finishSync env input sr er tx px in Inr (stale @ effs, px))) = Inr (effs, px')"
    using assms d s by (cases r) (simp_all add: syncProxyRules_def u e ect px1_def names_def Let_def)
  then obtain tx st px2 where b: "buildTransaction env input (\<not> px_needFullSync px) (usr_UpdatedServices sr @ uer_UpdatedServices er) px1 = Inr (tx, st, px2)"
    and fin: "(let (effs, px) = finishSync env input sr er tx px2 in (stale @ effs, px)) = (effs, px')"
    by (cases r) (auto simp: res_bind_Inr_iff split_beta)
  have "\<exists>rest. effs = stale @ [Run tx] @ rest \<and> (\<forall>tx. Run tx \<notin> set (stale @ rest)) \<and> (\<forall>tx. RunStale tx \<notin> set rest)"
    and px': "px' = (if si_run input then px2\<lparr>px_needFullSync := False\<rparr> else px2\<lparr>px_staleChains := [], px_needFullSync := True\<rparr>)"
    using fin stale by (cases "si_run input"; fastforce simp: finishSync_def)+
  then obtain rest where "effs = stale @ [Run tx] @ rest" "\<forall>tx. Run tx \<notin> set (stale @ rest)" "\<forall>tx. RunStale tx \<notin> set rest" by blast
  from that [OF _ _ _ _ _ _ _ _ _ _ b this px'] show ?thesis using u e ect d assms(2) s by (simp add: px1_def names_def)
qed

section \<open>Synchronising keeps the kernel exact\<close>

definition wantedBy where
  "wantedBy env input px c = wanted (elems_for c (concat (map (svcElems env input px) (si_order input (px_svcPortMap px)))))"

lemma syncProxyRules_tables:
  assumes "syncProxyRules env input px = Inr (effs, px')" "px_initialized px"
  shows "\<exists>sr er. spm_Update (px_serviceChanges px) (px_svcPortMap px) = (sr, px_serviceChanges px', px_svcPortMap px') \<and>
    em_Update (net_env.truncate (pe_svc env)) (pe_gates env) (si_ord1 input) (si_ord2 input)
      (Some (px_endpointsChanges px)) (px_endpointsMap px) = Inr (er, Some (px_endpointsChanges px'), px_endpointsMap px')"
    "px_nodeLabels px' = px_nodeLabels px" "px_servicesSynced px' = px_servicesSynced px" "px_endpointSlicesSynced px' = px_endpointSlicesSynced px"
    "px_initialized px'" "px_nodePortAddresses px' = px_nodePortAddresses px" "px_needFullSync px' \<longleftrightarrow> \<not> si_run input"
proof -
  obtain sr er px1 px2 tx st upd where
    t: "spm_Update (px_serviceChanges px) (px_svcPortMap px) = (sr, px_serviceChanges px1, px_svcPortMap px1)"
      "em_Update (net_env.truncate (pe_svc env)) (pe_gates env) (si_ord1 input) (si_ord2 input)
      (Some (px_endpointsChanges px)) (px_endpointsMap px) = Inr (er, Some (px_endpointsChanges px1), px_endpointsMap px1)"
    and s: "px_servicesSynced px1 = px_servicesSynced px" "px_endpointSlicesSynced px1 = px_endpointSlicesSynced px" "px_initialized px1"
      "px_nodeLabels px1 = px_nodeLabels px" "px_nodePortAddresses px1 = px_nodePortAddresses px"
    and b: "buildTransaction env input (\<not> px_needFullSync px) upd px1 = Inr (tx, st, px2)"
    and px': "px' = (if si_run input then px2\<lparr>px_needFullSync := False\<rparr> else px2\<lparr>px_staleChains := [], px_needFullSync := True\<rparr>)"
    by (rule syncProxyRules_cases [OF assms]) (rule that; assumption)
  note same = buildTransaction_same [OF b]
  show "\<exists>sr er. spm_Update (px_serviceChanges px) (px_svcPortMap px) = (sr, px_serviceChanges px', px_svcPortMap px') \<and>
    em_Update (net_env.truncate (pe_svc env)) (pe_gates env) (si_ord1 input) (si_ord2 input)
      (Some (px_endpointsChanges px)) (px_endpointsMap px) = Inr (er, Some (px_endpointsChanges px'), px_endpointsMap px')"
    using t same by (simp add: px')
  show "px_nodeLabels px' = px_nodeLabels px" "px_servicesSynced px' = px_servicesSynced px" "px_endpointSlicesSynced px' = px_endpointSlicesSynced px"
    "px_initialized px'" "px_nodePortAddresses px' = px_nodePortAddresses px" "px_needFullSync px' \<longleftrightarrow> \<not> si_run input"
    using s same by (simp_all add: px')
qed

lemma svcElems_same:
  assumes "px_endpointsMap px' = px_endpointsMap px" "px_nodeLabels px' = px_nodeLabels px"
  shows "svcElems env input px' = svcElems env input px"
  using assms by (simp add: svcElems_def svcCategories_def fun_eq_iff cong: ServicePort.case_cong)

lemma sync_ok_order: "sync_ok input px \<Longrightarrow> \<forall>x\<in>set (si_order input (px_svcPortMap px)). port_ok (ServicePort_base (snd x))"
  by (simp add: sync_ok_def)

lemma kernel_after_Run:
  assumes "effs = stale @ [Run tx] @ rest" "\<forall>tx. Run tx \<notin> set (stale @ rest)"
  shows "kernel_after input effs K = (if si_run input then runTx tx K else K)"
proof -
  have "fold (\<lambda>e K. case e of Run tx \<Rightarrow> runTx tx K | _ \<Rightarrow> K) stale K' = K'"
    "fold (\<lambda>e K. case e of Run tx \<Rightarrow> runTx tx K | _ \<Rightarrow> K) rest K' = K'" for K'
    using assms(2) by (auto intro!: kernel_quiet)
  then show ?thesis by (simp add: kernel_after_def assms(1))
qed

lemma kernel_after_Nil [simp]: "kernel_after input [] K = K"
  by (simp add: kernel_after_def)

lemma syncProxyRules_exact:
  assumes "px_inv K px" "px_initialized px" "syncProxyRules env input px = Inr (effs, px')" "sync_ok input px'"
  shows "px_inv (kernel_after input effs K) px'"
    "\<exists>tx. [e \<leftarrow> effs. \<exists>tx. e = Run tx] = [Run tx] \<and> (\<forall>c. nft_run (cname c) tx (K (cname c)) = Some (wantedBy env input px' c))"
    "si_run input \<Longrightarrow> kernel_after input effs K (cname c) = wantedBy env input px' c"
proof -
  obtain updated px1 px2 tx st stale rest where same: "px_store px1 = px_store px"
    and b: "buildTransaction env input (\<not> px_needFullSync px) updated px1 = Inr (tx, st, px2)"
    and effs: "effs = stale @ [Run tx] @ rest" "\<forall>tx. Run tx \<notin> set (stale @ rest)"
    and px': "px' = (if si_run input then px2\<lparr>px_needFullSync := False\<rparr> else px2\<lparr>px_staleChains := [], px_needFullSync := True\<rparr>)"
    by (rule syncProxyRules_cases [OF assms(3,2)]) (rule that; assumption)
  have same': "px_svcPortMap px' = px_svcPortMap px1" "px_endpointsMap px' = px_endpointsMap px1"
    "px_nodeLabels px' = px_nodeLabels px1" "px_store px' = px_store px2" "px_needFullSync px' \<longleftrightarrow> \<not> si_run input"
    using buildTransaction_same [OF b] by (auto simp: px')
  have elems: "wantedBy env input px' c = wanted (elems_for c (concat (map (svcElems env input px1) (si_order input (px_svcPortMap px1)))))" for c
    unfolding wantedBy_def svcElems_same [OF same'(2,3)] same'(1) ..
  have settled: "settled c (K (cname c)) tx (px_store px') (wantedBy env input px' c)" for c
    unfolding elems same'(4)
    using assms(1) sync_ok_order [OF assms(4)] b
    by (intro buildTransaction_exact(1)) (simp_all add: px_inv_def same same'(1))
  have after: "si_run input \<Longrightarrow> kernel_after input effs K (cname c) = wantedBy env input px' c" for c
    using settled [of c] by (simp add: kernel_after_Run [OF effs] runTx_def settled_def)
  then show "si_run input \<Longrightarrow> kernel_after input effs K (cname c) = wantedBy env input px' c" .
  show "px_inv (kernel_after input effs K) px'"
    using settled after by (auto simp: px_inv_def same' settled_def)
  have "[e \<leftarrow> effs. \<exists>tx. e = Run tx] = [Run tx]"
  proof -
    have "[e \<leftarrow> stale. \<exists>tx. e = Run tx] = []" "[e \<leftarrow> rest. \<exists>tx. e = Run tx] = []"
      using effs(2) by (auto simp: filter_empty_conv)
    then show ?thesis by (simp add: effs(1))
  qed
  then show "\<exists>tx. [e \<leftarrow> effs. \<exists>tx. e = Run tx] = [Run tx] \<and> (\<forall>c. nft_run (cname c) tx (K (cname c)) = Some (wantedBy env input px' c))"
    using settled by (auto simp: settled_def)
qed

section \<open>Runs\<close>

text \<open>
  \<open>px_reach env px0 svcs S px K\<close>: from the new proxier \<open>px0\<close>, with whatever a predecessor left in the
  kernel, events and synchronisations lead to \<open>px\<close> and the contents \<open>K\<close> of the kernel's sets and maps;
  \<open>svcs\<close> and \<open>S\<close> are the services and slices reported last. The ports of a slice have a protocol: the
  API server fills in the default.
\<close>

definition slice_ok :: "discovery_EndpointSlice \<Rightarrow> bool" where
  "slice_ok s \<longleftrightarrow> list_all (\<lambda>port. dep_Protocol port \<noteq> None) (des_Ports s)"

inductive px_reach for env px0 where
  Start: "NewProxier util_env nnString hash8 now (nft :: unit result) initOnly NewWAOLB ipFamily syncPeriod masqueradeAll masqueradeBit localDetector
      hostname nodeIP healthzServer nodePortAddressStrings = Inr (Some px0) \<Longrightarrow>
    px_reach env px0 Map.empty Map.empty px0 K"
| Service: "\<lbrakk>px_reach env px0 svcs S px K; \<forall>s. new = Some s \<longrightarrow> svcNN s = nn; OnServiceUpdate env (svcs nn) new px = Inr (effs, px')\<rbrakk> \<Longrightarrow>
    px_reach env px0 (svcs(nn := new)) S px' K"
| Slice: "\<lbrakk>px_reach env px0 svcs S px K; slice_ok s; endpointSliceEvent parseTime (Some s) removeSlice px = Inr (effs, px')\<rbrakk> \<Longrightarrow>
    px_reach env px0 svcs (report s removeSlice S) px' K"
| Node: "\<lbrakk>px_reach env px0 svcs S px K; OnNodeUpdate nodeName labels px = (effs, px')\<rbrakk> \<Longrightarrow> px_reach env px0 svcs S px' K"
| NodeDelete: "\<lbrakk>px_reach env px0 svcs S px K; OnNodeDelete nodeName px = (effs, px')\<rbrakk> \<Longrightarrow> px_reach env px0 svcs S px' K"
| CIDRs: "px_reach env px0 svcs S px K \<Longrightarrow> px_reach env px0 svcs S (OnServiceCIDRsChanged uenv cidrs px) K"
| ServicesSynced: "\<lbrakk>px_reach env px0 svcs S px K; OnServiceSynced env input px = Inr (effs, px'); sync_ok input px'\<rbrakk> \<Longrightarrow>
    px_reach env px0 svcs S px' (kernel_after input effs K)"
| SlicesSynced: "\<lbrakk>px_reach env px0 svcs S px K; OnEndpointSlicesSynced env input px = Inr (effs, px'); sync_ok input px'\<rbrakk> \<Longrightarrow>
    px_reach env px0 svcs S px' (kernel_after input effs K)"
| Sync: "\<lbrakk>px_reach env px0 svcs S px K; syncProxyRules env input px = Inr (effs, px'); sync_ok input px'\<rbrakk> \<Longrightarrow>
    px_reach env px0 svcs S px' (kernel_after input effs K)"

text \<open>The whole state: the trackers and tables are reachable ones, and the storages agree with the kernel.\<close>

definition run_inv where
  "run_inv env px0 svcs S px K \<longleftrightarrow>
     svc_reach (pe_svc env) (px_serviceChanges px0) svcs (px_serviceChanges px) (px_svcPortMap px) \<and>
     ep_reach (net_env.truncate (pe_svc env)) (pe_gates env) (ect_endpointSliceCache (px_endpointsChanges px0)) S
       (px_endpointsChanges px) (px_endpointsMap px) \<and>
     px_inv K px \<and> (px_initialized px \<longleftrightarrow> px_servicesSynced px \<and> px_endpointSlicesSynced px)"

lemma run_inv_Start:
  assumes "NewProxier util_env nnString hash8 now nft initOnly NewWAOLB ipFamily syncPeriod masqueradeAll masqueradeBit localDetector
      hostname nodeIP healthzServer nodePortAddressStrings = Inr (Some px0)"
  shows "run_inv env px0 Map.empty Map.empty px0 K"
proof -
  have "names_ok newStorage" by (rule allI, case_tac c) (simp_all add: newNFTElementStorage_def cname_def)
  moreover have "ep_reach (net_env.truncate (pe_svc env)) (pe_gates env) (ect_endpointSliceCache ect) Map.empty ect []"
    if "ect = NewEndpointsChangeTracker hostname mk ipFamily cb now" for ect mk ipFamily cb
    using ep_reach.Start [of _ _ "ect_endpointSliceCache ect" "ect_trackerStartTime ect" "ect_processEndpointsMapChange ect"]
    by (simp add: that NewEndpointsChangeTracker_def NewEndpointSliceCache_def)
  ultimately show ?thesis using assms
    by (auto simp: run_inv_def px_inv_def NewProxier_def res_bind_Inr_iff NewServiceChangeTracker_def split: if_splits intro!: svc_reach.Start)
qed

lemma run_inv_Sync:
  assumes "run_inv env px0 svcs S px K" "syncProxyRules env input px = Inr (effs, px')" "sync_ok input px'"
  shows "run_inv env px0 svcs S px' (kernel_after input effs K)"
proof (cases "px_initialized px")
  case False
  then have "effs = []" "px' = px" using assms(2) by (simp_all add: syncProxyRules_def)
  then show ?thesis using assms(1) by (simp add: kernel_after_def)
next
  case True
  obtain sr er where
    u: "spm_Update (px_serviceChanges px) (px_svcPortMap px) = (sr, px_serviceChanges px', px_svcPortMap px')"
    and e: "em_Update (net_env.truncate (pe_svc env)) (pe_gates env) (si_ord1 input) (si_ord2 input)
      (Some (px_endpointsChanges px)) (px_endpointsMap px) = Inr (er, Some (px_endpointsChanges px'), px_endpointsMap px')"
    using syncProxyRules_tables(1) [OF assms(2) True] by blast
  have "px_inv (kernel_after input effs K) px'"
    using assms True by (intro syncProxyRules_exact(1)) (simp_all add: run_inv_def)
  moreover have "svc_reach (pe_svc env) (px_serviceChanges px0) svcs (px_serviceChanges px') (px_svcPortMap px')"
    using assms(1) by (intro svc_reach.Sync [OF _ u]) (simp add: run_inv_def)
  moreover have "ep_reach (net_env.truncate (pe_svc env)) (pe_gates env) (ect_endpointSliceCache (px_endpointsChanges px0)) S
       (px_endpointsChanges px') (px_endpointsMap px')"
    using assms(1,3) by (intro ep_reach.Sync [OF _ _ _ e]) (simp_all add: run_inv_def sync_ok_def)
  ultimately show ?thesis
    using assms(1) True syncProxyRules_tables(2-5) [OF assms(2) True] by (simp add: run_inv_def)
qed

lemma px_reach_inv: "px_reach env px0 svcs S px K \<Longrightarrow> run_inv env px0 svcs S px K"
proof (induction rule: px_reach.induct)
  case (Service svcs S px K new nn effs px')
  then obtain changed sct where up: "sct_Update (pe_svc env) (svcs nn) new (px_serviceChanges px) = Inr (changed, sct)"
    and px': "px' = px\<lparr>px_serviceChanges := sct\<rparr>"
    by (auto simp: OnServiceUpdate_def res_bind_Inr_iff Let_def)
  define svcs' where "svcs' = svcs(nn := new)"
  have "svc_reach (pe_svc env) (px_serviceChanges px0) svcs' sct (px_svcPortMap px)"
    unfolding svcs'_def using Service by (intro svc_reach.Event [where svcs = svcs, OF _ _ up]) (simp_all add: run_inv_def)
  with Service.IH show ?case unfolding svcs'_def [symmetric] px' by (simp add: run_inv_def px_inv_def)
next
  case (Slice svcs S px K s parseTime removeSlice effs px')
  then obtain changed ect where "EndpointSliceUpdate parseTime (Some s) removeSlice (px_endpointsChanges px) = Inr (changed, ect)"
    "px' = px\<lparr>px_endpointsChanges := ect\<rparr>"
    by (auto simp: endpointSliceEvent_def res_bind_Inr_iff Let_def)
  with Slice show ?case by (auto simp: run_inv_def px_inv_def intro: ep_reach.Event)
next
  case (ServicesSynced svcs S px K input effs px')
  then show ?case
    by (intro run_inv_Sync [where px = "px\<lparr>px_servicesSynced := True, px_initialized := px_endpointSlicesSynced px\<rparr>"])
      (simp_all add: OnServiceSynced_def run_inv_def px_inv_def)
next
  case (SlicesSynced svcs S px K input effs px')
  then show ?case
    by (intro run_inv_Sync [where px = "px\<lparr>px_endpointSlicesSynced := True, px_initialized := px_servicesSynced px\<rparr>"])
      (simp_all add: OnEndpointSlicesSynced_def run_inv_def px_inv_def)
next
  case (Node svcs S px K nodeName labels effs px')
  then show ?case by (auto simp: OnNodeUpdate_def run_inv_def px_inv_def Let_def split: if_splits)
next
  case (NodeDelete svcs S px K nodeName effs px')
  then show ?case by (auto simp: OnNodeDelete_def run_inv_def px_inv_def Let_def split: if_splits)
next
  case (CIDRs svcs S px K uenv cidrs)
  then show ?case by (simp add: OnServiceCIDRsChanged_def run_inv_def px_inv_def Let_def)
qed (simp_all only: run_inv_Start run_inv_Sync)

end
