(* ===== verification/Nft_Total.thy ===== *)
theory Nft_Total
  imports Nft_Reach
begin

text \<open>
  When a synchronisation of the nftables proxier comes to its end. The only place where building
  the transaction could panic is the weighted rule of a service, and it does not as long as all endpoints
  are those the proxier makes itself; so what is left is a panic while the services are scored, and the ways to that are
  those of \<open>score_fault\<close>.
\<close>

section \<open>The transaction\<close>

fun is_nft :: "Endpoint \<Rightarrow> bool" where
  "is_nft (NftEndpoint _) = True"
| "is_nft (BaseEndpoint _) = False"

definition all_nft :: "EndpointsMap \<Rightarrow> bool" where
  "all_nft em \<longleftrightarrow> (\<forall>k. list_all is_nft (get_or [] em k))"

lemma waoElements_grow: "elements \<noteq> [] \<Longrightarrow> snd (waoElements scores eps totalScore elements) \<noteq> []"
  by (induction scores eps totalScore elements rule: waoElements.induct) (auto split: option.splits)

lemma waoElements_some:
  assumes "list_all is_nft eps" "useWAO scores eps"
  shows "snd (waoElements scores eps totalScore elements) \<noteq> []"
  using assms
proof (induction scores eps totalScore elements rule: waoElements.induct)
  case (3 scores epInfo eps totalScore elements)
  then show ?case by (auto simp: useWAO_def get_or_def waoElements_grow split: option.splits)
qed (simp_all add: useWAO_def)

lemma endpoint_rules_total:
  assumes "list_all is_nft eps"
  shows "\<exists>tx'. writeServiceToEndpointRules ipFamily Scores name svcInfo chain eps tx = Inr tx'"
  using assms waoElements_some [of eps _ 0 "[]"]
  by (fastforce simp: writeServiceToEndpointRules_def Let_def split: option.splits prod.splits)

lemma categories_subset:
  "set (cat_cluster (CategorizeEndpoints gates order eps b labels)) \<subseteq> set eps"
  "set (cat_local (CategorizeEndpoints gates order eps b labels)) \<subseteq> set eps"
proof -
  show "set (cat_cluster (CategorizeEndpoints gates order eps b labels)) \<subseteq> set eps"
    by (cases "UsesClusterEndpoints b") (auto simp: cluster_eq cluster_unused Let_def)
  show "set (cat_local (CategorizeEndpoints gates order eps b labels)) \<subseteq> set eps"
    by (auto simp: local_eq Let_def split: if_splits)
qed

lemma writePolicyChain_total:
  assumes "list_all is_nft eps"
  shows "\<exists>tx'. writePolicyChain px svcInfo uses chain eps tx = Inr tx'"
  using assms by (simp add: writePolicyChain_def endpoint_rules_total)

lemma writeService_total:
  assumes "list_all is_nft (cat_cluster c)" "list_all is_nft (cat_local c)"
  shows "\<exists>st'. writeService env px svcInfo c st = Inr st'"
proof -
  let ?p = "svcPlan svcInfo c"
  obtain tx where 1: "writePolicyChain px svcInfo (sp_usesClusterPolicyChain ?p) (spi_clusterPolicyChainName svcInfo) (cat_cluster c)
      (sy_tx st @ svcRules env px svcInfo c) = Inr tx" using writePolicyChain_total [OF assms(1)] by blast
  obtain tx' where 2: "writePolicyChain px svcInfo (sp_usesLocalPolicyChain ?p) (spi_localPolicyChainName svcInfo) (cat_local c) tx = Inr tx'"
    using writePolicyChain_total [OF assms(2)] by blast
  show ?thesis unfolding writeService_def Let_def 1 res_bind_def by (simp add: 2)
qed

lemma buildService_total:
  assumes "all_nft (px_endpointsMap px)"
  shows "\<exists>st'. buildService env input px tryPartialSync updated x st = Inr st'"
proof -
  have "list_all is_nft (cat_cluster (svcCategories env input px svcName svcInfo))"
    "list_all is_nft (cat_local (svcCategories env input px svcName svcInfo))" for svcName svcInfo
    using assms categories_subset unfolding svcCategories_def all_nft_def list_all_iff by blast+
  then show ?thesis
    by (auto simp: buildService_def Let_def split: prod.split ServicePort.split intro!: writeService_total)
qed

lemma buildServices_total:
  assumes "all_nft (px_endpointsMap px)"
  shows "\<exists>st'. buildServices env input px tryPartialSync updated xs st = Inr st'"
proof (induction xs arbitrary: st)
  case (Cons x xs)
  obtain st1 where "buildService env input px tryPartialSync updated x st = Inr st1"
    using buildService_total [OF assms] by blast
  then show ?case using Cons.IH by (simp add: res_bind_def)
qed simp

text \<open>
  The CIDRs of \<open>--nodeport-addresses\<close> have been parsed; the validation of the configuration sees to it.
  Listing the addresses of the interfaces may fail.
\<close>

definition cidrs_ok :: "'s Proxier \<Rightarrow> bool" where
  "cidrs_ok px \<longleftrightarrow> None \<notin> set (npa_cidrs (px_nodePortAddresses px))"

lemma matchAddrs_total: "None \<notin> set cidrs \<Longrightarrow> \<exists>m'. matchAddrs env cidrs addrs m = Inr m'"
  by (induction env cidrs addrs m rule: matchAddrs.induct) (auto simp: Let_def split: option.splits)

lemma nodePortIPOps_total:
  assumes "None \<notin> set (npa_cidrs npa)"
  shows "\<exists>ops. nodePortIPOps env addrs ipvX_addr npa = Inr ops"
proof (cases addrs)
  case (Inr a)
  obtain m where "matchAddrs env (npa_cidrs npa) a [] = Inr m" using matchAddrs_total [OF assms] by blast
  then show ?thesis by (simp add: nodePortIPOps_def GetNodeIPs_def Inr res_bind_def Let_def)
qed (simp add: nodePortIPOps_def GetNodeIPs_def Let_def)

lemma setupNFTables_total:
  assumes "cidrs_ok px"
  shows "\<exists>tx' store'. setupNFTables env addrs tx px = Inr (tx', px\<lparr>px_flushed := True, px_store := store'\<rparr>)"
proof -
  obtain ops where "nodePortIPOps env addrs (if px_ipFamily px = IPv6Protocol then ''ipv6_addr'' else ''ipv4_addr'') (px_nodePortAddresses px) = Inr ops"
    using nodePortIPOps_total [OF assms [unfolded cidrs_ok_def]] by blast
  then have "\<exists>tx'. setupOps env addrs px tx = Inr tx'"
    by (simp add: setupOps_def Let_def res_bind_def split_beta del: if_split)
  then show ?thesis by (auto simp: setupNFTables_def res_bind_def Let_def split: prod.splits)
qed

lemma buildTransaction_total:
  assumes "all_nft (px_endpointsMap px)" "cidrs_ok px"
  shows "\<exists>tx st px'. buildTransaction env input tryPartialSync updated px = Inr (tx, st, px')"
proof -
  obtain tx1 px1 where 1: "(if \<not> tryPartialSync then setupNFTables (pe_util env) (si_addrs input) [] px else Inr ([], px)) = Inr (tx1, px1)"
    "px_endpointsMap px1 = px_endpointsMap px"
    using setupNFTables_total [OF assms(2), of _ _ "[]"] by (cases tryPartialSync) fastforce+
  then have "all_nft (px_endpointsMap px1)" using assms(1) by simp
  from buildServices_total [OF this] obtain st where
    "buildServices env input px1 tryPartialSync updated (si_order input (px_svcPortMap px1))
                 \<lparr>sy_tx = tx1, sy_store = px_store px1, sy_activeChains = [], sy_activeAffinitySets = [],
                  sy_noLocalInternal = 0, sy_noLocalExternal = 0\<rparr> = Inr st" by blast
  with 1(1) show ?thesis by (simp add: buildTransaction_def res_bind_def Let_def split: prod.split)
qed

lemma syncProxyRules_total:
  assumes "em_Update (net_env.truncate (pe_svc env)) (pe_gates env) (si_ord1 input) (si_ord2 input)
      (Some (px_endpointsChanges px)) (px_endpointsMap px) = Inr (er, Some ect, em)" "all_nft em"
    and "cidrs_ok px"
  shows "(\<exists>effs px'. syncProxyRules env input px = Inr (effs, px')) \<or>
    (\<exists>e order. syncProxyRules env input px = Inl e \<and> fst (Score (pe_lb env) (pe_oob env) (pe_lbOptions env) (si_clash input) order (px_waoLB px)) = Inl e)"
proof (cases "px_initialized px")
  case True
  obtain sr sct svcPortMap where u: "spm_Update (px_serviceChanges px) (px_svcPortMap px) = (sr, sct, svcPortMap)"
    by (metis prod.exhaust)
  obtain stale staleChains where d: "deleteStaleChains (si_start input) (px_staleChains px) = (stale, staleChains)" by fastforce
  define names where "names = map (\<lambda>(svcPortName, _). ServicePortName_String (pe_nnString env) svcPortName) svcPortMap"
  obtain r wao where s: "Score (pe_lb env) (pe_oob env) (pe_lbOptions env) (si_clash input) (si_scoreOrder input names) (px_waoLB px) = (r, wao)"
    by (metis prod.collapse)
  define px1 where "px1 = px\<lparr>px_serviceChanges := sct, px_svcPortMap := svcPortMap, px_endpointsMap := em, px_endpointsChanges := ect,
     px_staleChains := staleChains, px_waoLB := wao\<rparr>"
  have "all_nft (px_endpointsMap px1)" "cidrs_ok px1" using assms(2,3) by (simp_all add: px1_def cidrs_ok_def)
  from buildTransaction_total [OF this] obtain tx st px2 where
    "buildTransaction env input (\<not> px_needFullSync px) (usr_UpdatedServices sr @ uer_UpdatedServices er) px1 = Inr (tx, st, px2)" by blast
  then have "(\<exists>effs px'. syncProxyRules env input px = Inr (effs, px')) \<or> (\<exists>e. syncProxyRules env input px = Inl e \<and> r = Inl e)"
    using True s d
    by (cases r) (simp_all add: syncProxyRules_def u assms(1) px1_def names_def Let_def res_bind_def split: prod.split)
  with s show ?thesis by (metis fst_conv)
qed (simp add: syncProxyRules_def)

section \<open>The slices\<close>

lemma set_map_entry: "(k', v') \<in> set (AList.map_entry k f m) \<Longrightarrow> (k', v') \<in> set m \<or> (\<exists>v. (k', v) \<in> set m \<and> v' = f v)"
  by (induction m) (auto split: if_splits)

text \<open>All slices that are applied or pending are well formed.\<close>

definition datas_ok :: "endpointSliceDataByName \<Rightarrow> bool" where
  "datas_ok l \<longleftrightarrow> (\<forall>x\<in>set l. slice_ok (esd_endpointSlice (snd x)))"

lemma datas_ok_simps [simp]:
  "datas_ok []" "datas_ok (x # l) \<longleftrightarrow> slice_ok (esd_endpointSlice (snd x)) \<and> datas_ok l"
  by (simp_all add: datas_ok_def)

lemma datas_ok_update [simp]: "datas_ok l \<Longrightarrow> slice_ok (esd_endpointSlice d) \<Longrightarrow> datas_ok (AList.update name d l)"
  by (induction l) auto

lemma datas_ok_delete [simp]: "datas_ok l \<Longrightarrow> datas_ok (AList.delete name l)"
  by (induction l) auto

definition cache_ok :: "EndpointSliceCache \<Rightarrow> bool" where
  "cache_ok cache \<longleftrightarrow> (\<forall>x\<in>set (esc_trackerByServiceMap cache). datas_ok (est_applied (snd x)) \<and> datas_ok (est_pending (snd x)))"

lemma cache_ok_updatePending:
  assumes "cache_ok cache" "slice_ok s"
  shows "cache_ok (snd (updatePending s remove cache))"
proof (cases "endpointSliceCacheKeys s")
  case (Inr r)
  obtain nn name where r: "r = (nn, name)" by (cases r)
  define c1 where "c1 = (if map_of (esc_trackerByServiceMap cache) nn = None
     then cache\<lparr>esc_trackerByServiceMap := AList.update nn newEndpointSliceTracker (esc_trackerByServiceMap cache)\<rparr> else cache)"
  have "\<forall>x\<in>set (AList.update nn newEndpointSliceTracker m). datas_ok (est_applied (snd x)) \<and> datas_ok (est_pending (snd x))"
    if "\<forall>x\<in>set m. datas_ok (est_applied (snd x)) \<and> datas_ok (est_pending (snd x))" for m
    using that by (induction m) (auto simp: newEndpointSliceTracker_def)
  from this [of "esc_trackerByServiceMap cache"] have c1: "cache_ok c1" using assms(1) unfolding c1_def cache_ok_def by (cases "map_of (esc_trackerByServiceMap cache) nn") simp_all
  define f where "f = (\<lambda>tracker :: endpointSliceTracker. tracker\<lparr>est_pending :=
     AList.update name \<lparr>esd_endpointSlice = s, esd_remove = remove\<rparr> (est_pending tracker)\<rparr>)"
  have f: "datas_ok (est_applied (f t)) \<and> datas_ok (est_pending (f t))" if "datas_ok (est_applied t)" "datas_ok (est_pending t)" for t
    using that assms(2) by (simp add: f_def)
  have "cache_ok (c1\<lparr>esc_trackerByServiceMap := AList.map_entry nn f (esc_trackerByServiceMap c1)\<rparr>)"
    unfolding cache_ok_def
  proof
    fix x
    assume "x \<in> set (esc_trackerByServiceMap (c1\<lparr>esc_trackerByServiceMap := AList.map_entry nn f (esc_trackerByServiceMap c1)\<rparr>))"
    then consider "x \<in> set (esc_trackerByServiceMap c1)" | t where "(fst x, t) \<in> set (esc_trackerByServiceMap c1)" "snd x = f t"
      using set_map_entry [of "fst x" "snd x" nn f "esc_trackerByServiceMap c1"] by auto
    then show "datas_ok (est_applied (snd x)) \<and> datas_ok (est_pending (snd x))"
      using c1 f unfolding cache_ok_def by cases (blast, metis snd_conv)
  qed
  with c1 show ?thesis unfolding updatePending_def Inr r by (simp add: Let_def flip: c1_def f_def)
qed (use assms(1) in \<open>simp add: updatePending_def\<close>)

lemma cache_ok_EndpointSliceUpdate:
  assumes "cache_ok (ect_endpointSliceCache ect)" "slice_ok s" "EndpointSliceUpdate parseTime (Some s) removeSlice ect = Inr (changed, ect')"
  shows "cache_ok (ect_endpointSliceCache ect')"
  using assms cache_ok_updatePending [OF assms(1,2), of removeSlice]
  by (auto simp: EndpointSliceUpdate_def Let_def split_beta split: if_splits sum.splits option.splits)

lemma addPorts_total:
  assumes "list_all (\<lambda>port. dep_Protocol port \<noteq> None) ports"
  shows "\<exists>m'. addPorts env gates cache nn eps ports m = Inr m'"
  using assms by (induction env gates cache nn eps ports m rule: addPorts.induct) (auto simp: Let_def split: option.splits)

lemma getEndpointsMap_total:
  assumes "datas_ok l"
  shows "\<exists>m. getEndpointsMap env gates cache nn l = Inr m"
proof -
  have "\<exists>m'. endpointInfoByServicePort env gates cache nn l m = Inr m'" for m
    using assms
  proof (induction l arbitrary: m)
    case (Cons x l)
    obtain name d where x: "x = (name, d)" by (cases x)
    obtain m1 where "addPorts env gates cache nn (des_Endpoints (esd_endpointSlice d)) (des_Ports (esd_endpointSlice d)) m = Inr m1"
      using addPorts_total Cons.prems by (fastforce simp: x slice_ok_def)
    then show ?case using Cons by (simp add: x res_bind_def)
  qed simp
  then obtain m where "endpointInfoByServicePort env gates cache nn l [] = Inr m" by blast
  then show ?thesis by (simp add: getEndpointsMap_def res_bind_def)
qed

lemma applyPending_ok:
  assumes "datas_ok (est_applied t)" "datas_ok (est_pending t)"
  shows "datas_ok (est_applied (applyPending t))"
proof -
  have "datas_ok (fold (\<lambda>(name, sliceData) applied.
      if esd_remove sliceData then AList.delete name applied else AList.update name sliceData applied) p a)"
    if "datas_ok p" "datas_ok a" for p a
    using that by (induction p arbitrary: a) auto
  then show ?thesis using assms by (simp add: applyPending_def)
qed

lemma checkoutTrackers_total:
  assumes "\<forall>x\<in>set ts. datas_ok (est_applied (snd x)) \<and> datas_ok (est_pending (snd x))" "perm_order ord1" "perm_order ord2"
  shows "\<exists>changes ts'. checkoutTrackers env gates cache ord1 ord2 ts = Inr (changes, ts') \<and>
    (\<forall>x\<in>set ts'. datas_ok (est_applied (snd x)) \<and> datas_ok (est_pending (snd x)))"
  using assms(1)
proof (induction ts)
  case (Cons x ts)
  obtain nn t where x: "x = (nn, t)" by (cases x)
  obtain changes ts' where IH: "checkoutTrackers env gates cache ord1 ord2 ts = Inr (changes, ts')"
    "\<forall>x\<in>set ts'. datas_ok (est_applied (snd x)) \<and> datas_ok (est_pending (snd x))" using Cons by auto
  have t: "datas_ok (est_applied t)" "datas_ok (est_pending t)" "datas_ok (est_applied (applyPending t))"
    using Cons.prems applyPending_ok [of t] by (simp_all add: x)
  have ord: "set (ord1 l) = set l" "set (ord2 l) = set l" for l
    using assms(2,3) by (metis perm_order_def set_mset_mset)+
  have "datas_ok (ord1 (est_applied t))" "datas_ok (ord2 (est_applied (applyPending t)))"
    using t by (simp_all add: datas_ok_def ord)
  then obtain m1 m2 where m: "getEndpointsMap env gates cache nn (ord1 (est_applied t)) = Inr m1"
    "getEndpointsMap env gates cache nn (ord2 (est_applied (applyPending t))) = Inr m2"
    using getEndpointsMap_total by blast
  have "est_pending (applyPending t) = []" by (simp add: applyPending_def)
  with IH t m show ?case by (simp add: x res_bind_def)
qed simp

lemma em_Update_total:
  assumes "cache_ok (ect_endpointSliceCache ect)" "perm_order ord1" "perm_order ord2"
  shows "\<exists>er ect' em'. em_Update env gates ord1 ord2 (Some ect) em = Inr (er, Some ect', em') \<and> cache_ok (ect_endpointSliceCache ect')"
proof -
  obtain changes ts' where "checkoutTrackers env gates (ect_endpointSliceCache ect) ord1 ord2 (esc_trackerByServiceMap (ect_endpointSliceCache ect)) = Inr (changes, ts')"
    "\<forall>x\<in>set ts'. datas_ok (est_applied (snd x)) \<and> datas_ok (est_pending (snd x))"
    using checkoutTrackers_total [OF assms(1) [unfolded cache_ok_def] assms(2,3)] by blast
  then show ?thesis
    by (simp add: em_Update_def esc_checkoutChanges_def res_bind_def Let_def split_beta checkoutTriggerTimes_def cache_ok_def)
qed

section \<open>The endpoints\<close>

abbreviation makes_nft :: "EndpointSliceCache \<Rightarrow> bool" where
  "makes_nft cache \<equiv> \<forall>info k. is_nft (esc_makeEndpointInfo cache info k)"

lemma addEndpoints_nft:
  assumes "makes_nft cache" "list_all (\<lambda>x. is_nft (snd x)) es"
  shows "list_all (\<lambda>x. is_nft (snd x)) (addEndpoints env gates cache k port es eps)"
proof -
  have upd: "list_all (\<lambda>x. is_nft (snd x)) (AList.update e v es)" if "list_all (\<lambda>x. is_nft (snd x)) es" "is_nft v" for e v and es :: "(string, Endpoint) gomap"
    using that by (induction es) auto
  show ?thesis using assms(2) unfolding addEndpoints_def
    by (induction eps arbitrary: es) (simp_all add: Let_def upd assms(1))
qed

abbreviation infos_nft :: "(ServicePortName, (string, Endpoint) gomap) gomap \<Rightarrow> bool" where
  "infos_nft m \<equiv> list_all (\<lambda>x. list_all (\<lambda>y. is_nft (snd y)) (snd x)) m"

lemma infos_nft_update: "infos_nft m \<Longrightarrow> list_all (\<lambda>y. is_nft (snd y)) es \<Longrightarrow> infos_nft (AList.update k es m)"
  by (induction m) auto

lemma infos_nft_get: "infos_nft m \<Longrightarrow> list_all (\<lambda>y. is_nft (snd y)) (get_or [] m k)"
  by (induction m) (auto simp: get_or_def)

lemma addPorts_nft:
  assumes "makes_nft cache" "infos_nft m" "addPorts env gates cache nn eps ports m = Inr m'"
  shows "infos_nft m'"
  using assms
  by (induction env gates cache nn eps ports m rule: addPorts.induct)
    (auto simp: Let_def infos_nft_update infos_nft_get addEndpoints_nft split: option.splits if_splits)

lemma getEndpointsMap_nft:
  assumes "makes_nft cache" "getEndpointsMap env gates cache nn l = Inr m"
  shows "all_nft m"
proof -
  have "infos_nft m'" if "infos_nft m" "endpointInfoByServicePort env gates cache nn l m = Inr m'" for m m'
    using that assms(1) by (induction env gates cache nn l m rule: endpointInfoByServicePort.induct) (auto simp: res_bind_Inr_iff dest: addPorts_nft)
  from this [of "[]"] obtain i where i: "infos_nft i" "m = endpointsMapFromEndpointInfo i"
    using assms(2) by (auto simp: getEndpointsMap_def res_bind_Inr_iff)
  have "all_nft (fold (\<lambda>(k, es) em. if length es > 0 then AList.update k (sort_key Endpoint_String (map snd es)) em else em) i em)"
    if "all_nft em" for em
    using i(1) that
  proof (induction i arbitrary: em)
    case (Cons x i)
    have "all_nft (AList.update (fst x) (sort_key Endpoint_String (map snd (snd x))) em)"
      using Cons.prems by (auto simp: all_nft_def get_or_def list_all_iff)
    then show ?case using Cons by (cases x) simp
  qed simp
  moreover have "all_nft []" by (simp add: all_nft_def get_or_def)
  ultimately show ?thesis by (simp add: i(2) endpointsMapFromEndpointInfo_def)
qed

section \<open>The scores\<close>

text \<open>
  The ways in which the scoring can bring the process down: a client of the load balancer panics, the metrics client
  returns a nil pointer and no error (overlapping calls of the cached client can, see \<open>Cache_Race\<close>), or two workers write the
  table of scores at once.
\<close>

definition lb_fault :: "'s lb_env \<Rightarrow> goerr \<Rightarrow> bool" where
  "lb_fault env e \<longleftrightarrow>
     is_panic e \<and> ((\<exists>n. lb_GetNode env n = Inl e) \<or> (\<exists>n. lb_GetService env n = Inl e) \<or>
       (\<exists>ns n. lb_ListEndpointSlices env ns n = Inl e) \<or> lb_ListNodeConfigs env = Inl e) \<or>
     (\<exists>n. panics (lb_GetNodeMetrics env n) e) \<or> (\<exists>n m. panics (lb_GetCustomMetric env n m) e) \<or>
     (\<exists>ns t ty. panics (lb_GetPredictorEndpoint env ns t ty) e) \<or> (\<exists>ns t u i d. panics (lb_Predict env ns t u i d) e) \<or>
     e = Panic ''nodeMetrics'' \<and> (\<exists>n. returns (lb_GetNodeMetrics env n) None)"

definition score_fault :: "'s lb_env \<Rightarrow> (string \<Rightarrow> bool) \<Rightarrow> goerr \<Rightarrow> bool" where
  "score_fault env clash e \<longleftrightarrow> lb_fault env e \<or> e = concurrentMapWrites \<and> (\<exists>n. clash n)"

lemma lb_faults:
  "faults_only (lb_fault env) (\<lambda>p. p = None \<longrightarrow> lb_fault env (Panic ''nodeMetrics'')) (lb_GetNodeMetrics env n)"
  "faults_only (lb_fault env) (\<lambda>_. True) (lb_GetCustomMetric env n m)"
  "faults_only (lb_fault env) (\<lambda>_. True) (lb_GetPredictorEndpoint env ns t ty)"
  "faults_only (lb_fault env) (\<lambda>_. True) (lb_Predict env ns t u i d)"
  by (rule faults_only_panics; simp add: lb_fault_def; blast)+

lemma lb_reads:
  "lb_GetNode env n = Inl e \<Longrightarrow> is_panic e \<Longrightarrow> lb_fault env e" "lb_GetService env nn = Inl e \<Longrightarrow> is_panic e \<Longrightarrow> lb_fault env e"
  "lb_ListEndpointSlices env ns n = Inl e \<Longrightarrow> is_panic e \<Longrightarrow> lb_fault env e" "lb_ListNodeConfigs env = Inl e \<Longrightarrow> is_panic e \<Longrightarrow> lb_fault env e"
  unfolding lb_fault_def by blast+

lemma predictNode_faults: "faults_only (lb_fault env) (\<lambda>_. True) (predictNode env oob nc b a t d)"
  by (auto simp: predictNode_def Let_def split: option.split intro!: faults_only_then_do [OF lb_faults(3)] faults_only_then_do [OF lb_faults(4)])

lemma faults_only_deref: "(p = None \<Longrightarrow> F (Panic what)) \<Longrightarrow> (\<And>x. faults_only F P (k x)) \<Longrightarrow> faults_only F P (deref what p k)"
  by (auto simp: deref_def split: option.split)

lemma ScoreNode_faults: "faults_only (lb_fault env) (\<lambda>_. True) (ScoreNode env oob opts nodeName cpuUsage)"
proof (cases "lb_GetNode env nodeName")
  case (Inr node)
  have "faults_only (lb_fault env) (\<lambda>_. True) (if b then ret 0 else
      then_do (lb_GetCustomMetric env nodeName ValueInletTemperature) (\<lambda>inletTemp.
      then_do (lb_GetCustomMetric env nodeName ValueDeltaPressure) (\<lambda>deltaP.
      case (inletTemp, deltaP) of (Some inletTemp, Some deltaP) \<Rightarrow>
          (case lb_ListNodeConfigs env of Inl e \<Rightarrow> fail e | Inr ncs \<Rightarrow>
            (case find (\<lambda>e. ncs_NodeName (nc_Spec e) = nodeName) ncs of
               None \<Rightarrow> ret 0 | Some nc \<Rightarrow> predictNode env oob nc u v inletTemp deltaP))
      | _ \<Rightarrow> ret 0)))" for b u v
    by (auto simp: predictNode_faults lb_reads split: option.split sum.split intro!: faults_only_then_do [OF lb_faults(2)])
  then show ?thesis unfolding ScoreNode_def Inr
    by (auto simp: Let_def intro!: faults_only_then_do [OF lb_faults(1)] faults_only_deref)
qed (simp add: ScoreNode_def lb_reads)

lemma endpointWatts_faults: "faults_only (lb_fault env) (\<lambda>_. True) (endpointWatts env oob opts cpu eps watts)"
proof -
  have "case fst (endpointWatts env oob opts cpu eps watts s) of Inl e \<Rightarrow> is_panic e \<longrightarrow> lb_fault env e | Inr _ \<Rightarrow> True" for s
    by (induction env oob opts cpu eps watts s rule: endpointWatts.induct)
      (auto split: prod.splits sum.splits dest: faults_only_error [OF ScoreNode_faults])
  then show ?thesis by (simp add: faults_only_def)
qed

lemma ScoreService_faults: "faults_only (lb_fault env) (\<lambda>_. True) (ScoreService env oob opts svcName)"
  by (auto simp: ScoreService_def Let_def lb_reads split: sum.split option.split intro!: faults_only_then_do [OF endpointWatts_faults])

lemma Score_faults:
  assumes "fst (Score env oob opts clash order st) = Inl e"
  shows "score_fault env clash e"
proof -
  have "score_fault env clash e" if "fst (scorePieces env oob opts clash order (scores, s)) = Inl e" for scores s
    using that
  proof (induction order arbitrary: scores s)
    case (Cons n order)
    obtain r s1 where r: "ScoreService env oob opts (nameOf n) s = (r, s1)" by fastforce
    show ?case
    proof (cases r)
      case (Inl e')
      then show ?thesis using Cons r faults_only_error [OF ScoreService_faults, of env oob opts "nameOf n" s e' s1]
        by (auto simp: scorePieces_Cons score_fault_def simp del: scorePieces.simps split: if_splits)
    next
      case (Inr sc)
      then show ?thesis using Cons r by (auto simp: scorePieces_Cons score_fault_def simp del: scorePieces.simps split: if_splits)
    qed
  qed simp
  then show ?thesis using assms by (simp add: Score_def)
qed

section \<open>Every synchronisation ends\<close>

definition total_inv where
  "total_inv px0 px \<longleftrightarrow> cache_ok (ect_endpointSliceCache (px_endpointsChanges px)) \<and> px_nodePortAddresses px = px_nodePortAddresses px0 \<and>
     makes_nft (ect_endpointSliceCache (px_endpointsChanges px0))"

lemma total_inv_Sync:
  assumes "total_inv px0 px" "syncProxyRules env input px = Inr (effs, px')" "sync_ok input px'"
  shows "total_inv px0 px'"
proof (cases "px_initialized px")
  case True
  obtain er where e: "em_Update (net_env.truncate (pe_svc env)) (pe_gates env) (si_ord1 input) (si_ord2 input)
      (Some (px_endpointsChanges px)) (px_endpointsMap px) = Inr (er, Some (px_endpointsChanges px'), px_endpointsMap px')"
    using syncProxyRules_tables(1) [OF assms(2) True] by blast
  have "cache_ok (ect_endpointSliceCache (px_endpointsChanges px'))"
    using em_Update_total [of "px_endpointsChanges px" "si_ord1 input" "si_ord2 input" "net_env.truncate (pe_svc env)" "pe_gates env" "px_endpointsMap px"]
      assms e by (auto simp: total_inv_def sync_ok_def)
  then show ?thesis
    using assms(1) syncProxyRules_tables(6) [OF assms(2) True] by (simp add: total_inv_def)
next
  case False
  then show ?thesis using assms by (simp add: syncProxyRules_def)
qed

lemma px_reach_total: "px_reach env px0 svcs S px K \<Longrightarrow> total_inv px0 px"
proof (induction rule: px_reach.induct)
  case Start
  then show ?case
    by (auto simp: total_inv_def NewProxier_def res_bind_Inr_iff NewEndpointsChangeTracker_def NewEndpointSliceCache_def cache_ok_def
        newEndpointInfo_def Let_def split: if_splits)
next
  case (Service svcs S px K new nn effs px')
  then show ?case by (auto simp: OnServiceUpdate_def res_bind_Inr_iff Let_def total_inv_def)
next
  case (Slice svcs S px K s parseTime removeSlice effs px')
  then show ?case
    by (auto simp: endpointSliceEvent_def res_bind_Inr_iff Let_def total_inv_def intro: cache_ok_EndpointSliceUpdate)
next
  case (ServicesSynced svcs S px K input effs px')
  have "total_inv px0 (px\<lparr>px_servicesSynced := True, px_initialized := px_endpointSlicesSynced px\<rparr>)"
    using ServicesSynced.IH by (simp add: total_inv_def)
  then show ?case by (rule total_inv_Sync [OF _ ServicesSynced.hyps(2) [unfolded OnServiceSynced_def] ServicesSynced.hyps(3)])
next
  case (SlicesSynced svcs S px K input effs px')
  have "total_inv px0 (px\<lparr>px_endpointSlicesSynced := True, px_initialized := px_servicesSynced px\<rparr>)"
    using SlicesSynced.IH by (simp add: total_inv_def)
  then show ?case by (rule total_inv_Sync [OF _ SlicesSynced.hyps(2) [unfolded OnEndpointSlicesSynced_def] SlicesSynced.hyps(3)])
next
  case (Sync svcs S px K input effs px')
  show ?case by (rule total_inv_Sync [OF Sync.IH Sync.hyps(2,3)])
qed (auto simp: OnNodeUpdate_def OnNodeDelete_def OnServiceCIDRsChanged_def total_inv_def Let_def split: if_splits)

end
