(* ===== verification/Nft_Correct.thy ===== *)
theory Nft_Correct
  imports Nft_Total
begin

text \<open>
  What the nftables proxier guarantees over its runs: a synchronisation returns unless the scoring crashes, and one that the
  kernel accepts leaves in the sets and maps exactly the elements that the services and endpoints reported
  last ask for.
\<close>

section \<open>Synchronisations\<close>

text \<open>
  C1. Whatever services, slices, node and service CIDR events came in, in whatever order, however many
  synchronisations were made and however they ended, and whatever a previous process left in the
  kernel: the next synchronisation whose transaction is accepted leaves every set and map of the proxier
  with exactly the elements that its tables ask for, and the tables are exactly those of the services
  and slices reported last. So a partial synchronisation ends where a full one would.
\<close>

theorem syncProxyRules_kernel_exact:
  assumes "px_reach env px0 svcs S px K" "px_initialized px"
    and "syncProxyRules env input px = Inr (effs, px')" "sync_ok input px'" "si_run input"
  shows "kernel_after input effs K (cname c) = wantedBy env input px' c \<and>
    (\<exists>m. serviceToServiceMap (pe_svc env) (px_serviceChanges px0) (svcs (spn_NamespacedName k)) = Inr m \<and>
       map_of (px_svcPortMap px') k = map_of (elems m) k) \<and>
    (\<exists>l m. lists_slices S (spn_NamespacedName k) l \<and>
       getEndpointsMap (net_env.truncate (pe_svc env)) (pe_gates env) (ect_endpointSliceCache (px_endpointsChanges px0)) (spn_NamespacedName k) l = Inr m \<and>
       map_of (px_endpointsMap px') k = map_of m k)"
proof (intro conjI)
  note inv = px_reach_inv [OF assms(1)]
  obtain sr er where
    u: "spm_Update (px_serviceChanges px) (px_svcPortMap px) = (sr, px_serviceChanges px', px_svcPortMap px')"
    and e: "em_Update (net_env.truncate (pe_svc env)) (pe_gates env) (si_ord1 input) (si_ord2 input)
      (Some (px_endpointsChanges px)) (px_endpointsMap px) = Inr (er, Some (px_endpointsChanges px'), px_endpointsMap px')"
    using syncProxyRules_tables(1) [OF assms(3,2)] by blast
  show "kernel_after input effs K (cname c) = wantedBy env input px' c"
    using inv assms by (intro syncProxyRules_exact(3)) (simp_all add: run_inv_def)
  show "\<exists>m. serviceToServiceMap (pe_svc env) (px_serviceChanges px0) (svcs (spn_NamespacedName k)) = Inr m \<and>
       map_of (px_svcPortMap px') k = map_of (elems m) k"
    using inv by (intro svc_inv_Sync(2) [OF svc_reach_inv u]) (simp add: run_inv_def)
  show "\<exists>l m. lists_slices S (spn_NamespacedName k) l \<and>
       getEndpointsMap (net_env.truncate (pe_svc env)) (pe_gates env) (ect_endpointSliceCache (px_endpointsChanges px0)) (spn_NamespacedName k) l = Inr m \<and>
       map_of (px_endpointsMap px') k = map_of m k"
    using inv assms(4)
    by (intro conjunct1 [OF em_Update_table [OF _ _ _ e]]) (simp_all add: run_inv_def sync_ok_def)
qed

lemma sync_returns:
  assumes "run_inv env px0 svcs S px K" "total_inv px0 px" "cidrs_ok px0" "perm_order (si_ord1 input)" "perm_order (si_ord2 input)"
  shows "(\<exists>effs px'. syncProxyRules env input px = Inr (effs, px')) \<or>
    (\<exists>e. syncProxyRules env input px = Inl e \<and> score_fault (pe_lb env) (si_clash input) e)"
proof -
  note t = assms(2) [unfolded total_inv_def]
  obtain er ect em where e: "em_Update (net_env.truncate (pe_svc env)) (pe_gates env) (si_ord1 input) (si_ord2 input)
      (Some (px_endpointsChanges px)) (px_endpointsMap px) = Inr (er, Some ect, em)"
    using em_Update_total [OF conjunct1 [OF t] assms(4,5)] by blast
  have nft: "list_all is_nft (get_or [] em k)" for k
  proof -
    obtain l m where "getEndpointsMap (net_env.truncate (pe_svc env)) (pe_gates env) (ect_endpointSliceCache (px_endpointsChanges px0)) (spn_NamespacedName k) l = Inr m"
      "map_of em k = map_of m k"
      using em_Update_table [OF _ assms(4,5) e] assms(1) unfolding run_inv_def by blast
    then show ?thesis using getEndpointsMap_nft t unfolding all_nft_def by (metis get_or_def)
  qed
  have "all_nft em" "cidrs_ok px" using assms(3) t by (simp_all add: nft all_nft_def cidrs_ok_def)
  from syncProxyRules_total [OF e this] show ?thesis using Score_faults by blast
qed

text \<open>
  C2. A synchronisation crashes the process only while it scores the services: whatever events came before, if the CIDRs of the node
  ports were parsed, \<open>syncProxyRules\<close> returns, unless a client of the load balancer panics, the metrics client returns no metrics and no
  error, or two of the parallel workers write the table of scores at once, which the Go runtime answers with a fatal error. No panic comes
  from the rest: in particular the weighted rule of a service never cuts the last comma off an empty list. Iterations over maps are assumed to visit
  every entry once, in any order.
\<close>

theorem syncProxyRules_returns:
  assumes "px_reach env px0 svcs S px K" "cidrs_ok px0" "perm_order (si_ord1 input)" "perm_order (si_ord2 input)"
  shows "(\<exists>effs px'. syncProxyRules env input px = Inr (effs, px')) \<or>
    (\<exists>e. syncProxyRules env input px = Inl e \<and> score_fault (pe_lb env) (si_clash input) e)"
  by (rule sync_returns [OF px_reach_inv [OF assms(1)] px_reach_total [OF assms(1)] assms(2-4)])

section \<open>Updates without changes\<close>

lemma em_Update_idle:
  assumes "list_all (\<lambda>x. est_pending (snd x) = []) (esc_trackerByServiceMap (ect_endpointSliceCache ect))"
    and "em_Update env gates ord1 ord2 (Some ect) em = Inr (er, ects, em')"
  shows "em' = em" "uer_UpdatedServices er = []"
    "ects = Some ect' \<Longrightarrow> list_all (\<lambda>x. est_pending (snd x) = []) (esc_trackerByServiceMap (ect_endpointSliceCache ect'))"
proof -
  have "checkoutTrackers env gates cache ord1 ord2 ts = Inr ([], ts)" if "list_all (\<lambda>x. est_pending (snd x) = []) ts" for cache ts
    using that by (induction ts) (auto simp: res_bind_def)
  from this [OF assms(1)] show "em' = em" "uer_UpdatedServices er = []"
    "ects = Some ect' \<Longrightarrow> list_all (\<lambda>x. est_pending (snd x) = []) (esc_trackerByServiceMap (ect_endpointSliceCache ect'))"
    using assms by (auto simp: em_Update_def checkoutTriggerTimes_def esc_checkoutChanges_def res_bind_def Let_def split_beta)
qed

lemma spm_Update_idle:
  assumes "sct_items sct = []" "spm_Update sct sm = (res, sct', sm')"
  shows "sm' = sm" "usr_UpdatedServices res = []" "sct_items sct' = []"
  using assms by (auto simp: spm_Update_def)

section \<open>A run\<close>

text \<open>
  The DNS service and a slice with two endpoints are reported, then the caches are synced and the first,
  full synchronisation is made.
\<close>

definition example_proxy_env :: "unit proxy_env" where
  "example_proxy_env = \<lparr>pe_svc = example_svc_env, pe_util = example_util_env, pe_gates = example_gates,
     pe_nnString = (\<lambda>nn. nn_Namespace nn @ ''/'' @ nn_Name nn), pe_lb = example_lb_env, pe_oob = (\<lambda>_. 0), pe_lbOptions = example_opts\<rparr>"

definition example_at :: "int \<Rightarrow> string list \<Rightarrow> sync_input" where
  "example_at start existing = \<lparr>si_start = start, si_runStale = True, si_chains = Inr existing, si_sets = Inr [], si_run = True, si_addrs = Inr [],
     si_order = id, si_allOrder = id, si_ord1 = id, si_ord2 = id, si_scoreOrder = id, si_clash = (\<lambda>_. False)\<rparr>"

abbreviation example_input :: sync_input where
  "example_input \<equiv> example_at 0 []"

definition example_new :: "unit Proxier option result" where
  "example_new = NewProxier example_util_env (pe_nnString example_proxy_env) (\<lambda>_. ''ULMVA6XW'') 0 (Inr () :: unit result) False (Inr ([], ()))
     IPv4Protocol 30 False 0 NewNoOpLocalDetector ''n1'' (Some ''10.0.0.1'') False []"

definition example_px0 :: "unit Proxier" where
  "example_px0 = the (projr example_new)"

definition example_px1 :: "unit Proxier" where
  "example_px1 = example_px0\<lparr>px_endpointSlicesSynced := True, px_initialized := False\<rparr>"

definition example_sct1 :: ServiceChangeTracker where
  "example_sct1 = snd (projr (sct_Update example_svc_env None (Some example_service) (px_serviceChanges example_px0)))"

definition example_ect1 :: EndpointsChangeTracker where
  "example_ect1 = snd (projr (EndpointSliceUpdate (\<lambda>_. None) (Some example_b1) False (px_endpointsChanges example_px0)))"

definition example_px3 :: "unit Proxier" where
  "example_px3 = example_px1\<lparr>px_serviceChanges := example_sct1, px_endpointsChanges := example_ect1\<rparr>"

definition example_svcs :: "NamespacedName \<Rightarrow> v1_Service option" where
  "example_svcs = Map.empty(svcNN example_service := Some example_service)"

lemma example_new: "example_new = Inr (Some example_px0)"
  by (simp add: example_px0_def example_new_def NewProxier_def res_bind_def)

lemma example_px0_fields:
  "px_serviceChanges example_px0 = NewServiceChangeTracker (Some (newServiceInfo (pe_nnString example_proxy_env) (\<lambda>_. ''ULMVA6XW''))) IPv4Protocol False"
  "px_endpointsChanges example_px0 = NewEndpointsChangeTracker ''n1'' (Some (newEndpointInfo (\<lambda>_. ''ULMVA6XW''))) IPv4Protocol False 0"
  "px_svcPortMap example_px0 = []" "px_endpointsMap example_px0 = []" "px_nodeLabels example_px0 = None" "\<not> px_initialized example_px0"
  "\<not> px_servicesSynced example_px0" "px_nodePortAddresses example_px0 = NewNodePortAddresses example_util_env IPv4Protocol []"
  by (simp_all add: example_px0_def example_new_def NewProxier_def res_bind_def)

lemma example_events:
  "OnServiceUpdate example_proxy_env None (Some example_service) example_px1 = Inr ([], example_px1\<lparr>px_serviceChanges := example_sct1\<rparr>)"
  "endpointSliceEvent (\<lambda>_. None) (Some example_b1) False (example_px1\<lparr>px_serviceChanges := example_sct1\<rparr>) = Inr ([], example_px3)"
proof -
  have "sct_Update example_svc_env None (Some example_service) (px_serviceChanges example_px0) =
      Inr (fst (projr (sct_Update example_svc_env None (Some example_service) (px_serviceChanges example_px0))), example_sct1)"
    unfolding example_sct1_def by (rule not_isl_Inr, unfold example_px0_fields) code_simp
  then obtain b where "sct_Update example_svc_env None (Some example_service) (px_serviceChanges example_px0) = Inr (b, example_sct1)" ..
  moreover have "pe_svc example_proxy_env = example_svc_env" by (simp add: example_proxy_env_def)
  ultimately show "OnServiceUpdate example_proxy_env None (Some example_service) example_px1 = Inr ([], example_px1\<lparr>px_serviceChanges := example_sct1\<rparr>)"
    unfolding OnServiceUpdate_def res_bind_def by (simp add: example_px1_def Let_def)
  have "EndpointSliceUpdate (\<lambda>_. None) (Some example_b1) False (px_endpointsChanges example_px0) =
      Inr (fst (projr (EndpointSliceUpdate (\<lambda>_. None) (Some example_b1) False (px_endpointsChanges example_px0))), example_ect1)"
    unfolding example_ect1_def by (rule not_isl_Inr, unfold example_px0_fields) code_simp
  then obtain b where "EndpointSliceUpdate (\<lambda>_. None) (Some example_b1) False (px_endpointsChanges example_px0) = Inr (b, example_ect1)" ..
  then show "endpointSliceEvent (\<lambda>_. None) (Some example_b1) False (example_px1\<lparr>px_serviceChanges := example_sct1\<rparr>) = Inr ([], example_px3)"
    unfolding endpointSliceEvent_def res_bind_def by (simp add: example_px1_def example_px3_def Let_def)
qed

lemma example_input_ok: "sync_ok (example_at start existing) px \<longleftrightarrow> list_all (\<lambda>x. port_ok (ServicePort_base (snd x))) (px_svcPortMap px)"
  by (simp add: sync_ok_def example_at_def perm_order_def list_all_iff)

lemma example_px3_reach: "px_reach example_proxy_env example_px0 example_svcs (report example_b1 False Map.empty) example_px3 K"
proof -
  have s: "OnEndpointSlicesSynced example_proxy_env example_input example_px0 = Inr ([], example_px1)"
    by (simp add: OnEndpointSlicesSynced_def example_px0_fields syncProxyRules_def example_px1_def)
  have "sync_ok example_input example_px1" by (simp add: example_input_ok example_px1_def example_px0_fields)
  from px_reach.SlicesSynced [OF px_reach.Start [OF example_new [unfolded example_new_def]] s this, of K]
  have 1: "px_reach example_proxy_env example_px0 Map.empty Map.empty example_px1 K" unfolding kernel_after_Nil .
  have 2: "px_reach example_proxy_env example_px0 example_svcs Map.empty (example_px1\<lparr>px_serviceChanges := example_sct1\<rparr>) K"
    unfolding example_svcs_def by (rule px_reach.Service [where svcs = Map.empty and nn = "svcNN example_service" and new = "Some example_service", OF 1]) (simp_all add: example_events(1))
  have "slice_ok example_b1" by code_simp
  then show ?thesis by (rule px_reach.Slice [OF 2 _ example_events(2)])
qed

text \<open>The tables of the first synchronisation.\<close>

definition example_em :: "UpdateEndpointsMapResult \<times> EndpointsChangeTracker option \<times> EndpointsMap" where
  "example_em = projr (em_Update (net_env.truncate example_svc_env) example_gates id id (Some example_ect1) [])"

definition example_tables :: "unit Proxier" where
  "example_tables = example_px3\<lparr>px_svcPortMap := snd (snd (spm_Update example_sct1 [])),
     px_endpointsMap := snd (snd example_em), px_endpointsChanges := the (fst (snd example_em))\<rparr>"

lemma example_clients: "\<not> score_fault (pe_lb example_proxy_env) (si_clash (example_at start existing)) e" "cidrs_ok example_px0"
proof -
  show "\<not> score_fault (pe_lb example_proxy_env) (si_clash (example_at start existing)) e"
    by (auto simp: score_fault_def lb_fault_def panics_def returns_def example_proxy_env_def example_lb_env_def example_at_def)
  have "None \<notin> set (npa_cidrs (NewNodePortAddresses example_util_env IPv4Protocol []))" by code_simp
  then show "cidrs_ok example_px0" by (simp add: cidrs_ok_def example_px0_fields)
qed

lemma example_tables_ok:
  "list_all (\<lambda>x. port_ok (ServicePort_base (snd x))) (px_svcPortMap example_tables)"
  unfolding example_tables_def example_sct1_def example_px0_fields by code_simp

lemma example_wanted:
  "wantedBy example_proxy_env example_input example_tables ServiceIPs ''10.0.0.10 . udp . 53'' = Some ''goto service-ULMVA6XW-ns/dns/udp/p''"
  unfolding example_tables_def example_em_def example_sct1_def example_ect1_def example_px0_fields by code_simp

lemma example_idle:
  "list_all (\<lambda>x. est_pending (snd x) = []) (esc_trackerByServiceMap (ect_endpointSliceCache (px_endpointsChanges example_tables)))"
  unfolding example_tables_def example_em_def example_sct1_def example_ect1_def example_px0_fields by code_simp

text \<open>The states of the run after the first synchronisation, as long as nothing changes.\<close>

definition example_state :: "unit Proxier \<Rightarrow> (string \<Rightarrow> contents) \<Rightarrow> bool" where
  "example_state px K \<longleftrightarrow> px_reach example_proxy_env example_px0 example_svcs (report example_b1 False Map.empty) px K \<and> px_initialized px \<and>
     px_svcPortMap px = px_svcPortMap example_tables \<and> px_endpointsMap px = px_endpointsMap example_tables \<and>
     px_nodeLabels px = px_nodeLabels example_tables \<and> sct_items (px_serviceChanges px) = [] \<and>
     list_all (\<lambda>x. est_pending (snd x) = []) (esc_trackerByServiceMap (ect_endpointSliceCache (px_endpointsChanges px))) \<and> \<not> px_needFullSync px"

lemma example_orders: "perm_order (si_ord1 (example_at start existing))" "perm_order (si_ord2 (example_at start existing))"
  using perm_order_examples by (simp_all add: example_at_def)

lemma example_first: "\<exists>px K. example_state px K"
proof -
  define px3 where "px3 = example_px3\<lparr>px_servicesSynced := True, px_initialized := True\<rparr>"
  have inv: "run_inv example_proxy_env example_px0 example_svcs (report example_b1 False Map.empty) px3 (\<lambda>_. Map.empty)"
    "total_inv example_px0 px3"
    using px_reach_inv [OF example_px3_reach [of "\<lambda>_. Map.empty"]] px_reach_total [OF example_px3_reach]
    by (simp_all add: run_inv_def total_inv_def px3_def px_inv_def example_px3_def example_px1_def)
  obtain effs px where s: "syncProxyRules example_proxy_env example_input px3 = Inr (effs, px)"
    using sync_returns [OF inv example_clients(2) example_orders] example_clients(1) by blast
  have i: "px_initialized px3" by (simp add: px3_def)
  obtain sr er where u: "spm_Update example_sct1 [] = (sr, px_serviceChanges px, px_svcPortMap px)"
    and e: "em_Update (net_env.truncate example_svc_env) example_gates id id (Some example_ect1) [] = Inr (er, Some (px_endpointsChanges px), px_endpointsMap px)"
    using syncProxyRules_tables(1) [OF s i]
    by (auto simp: px3_def example_px3_def example_px1_def example_px0_fields example_proxy_env_def example_at_def)
  have t: "px_svcPortMap px = px_svcPortMap example_tables" "px_endpointsMap px = px_endpointsMap example_tables"
    "px_endpointsChanges px = px_endpointsChanges example_tables"
    by (simp_all add: example_tables_def example_em_def u e)
  have ok: "sync_ok example_input px" unfolding example_input_ok t by (rule example_tables_ok)
  have "OnServiceSynced example_proxy_env example_input example_px3 = Inr (effs, px)"
    using s by (simp add: OnServiceSynced_def px3_def example_px3_def example_px1_def)
  from px_reach.ServicesSynced [OF example_px3_reach [of "\<lambda>_. Map.empty"] this ok] have r: "\<exists>K. px_reach example_proxy_env example_px0 example_svcs (report example_b1 False Map.empty) px K" by blast
  have "px_serviceChanges px = example_sct1\<lparr>sct_items := []\<rparr>" using u by (simp add: spm_Update_def split: prod.splits)
  then have "sct_items (px_serviceChanges px) = []" by simp
  moreover have "px_nodeLabels px = px_nodeLabels example_tables"
    using syncProxyRules_tables(2) [OF s i] by (simp add: px3_def example_tables_def)
  moreover have "\<not> px_needFullSync px" using syncProxyRules_tables(7) [OF s i] by (simp add: example_at_def)
  ultimately show ?thesis
    using r t example_idle syncProxyRules_tables(5) [OF s i] unfolding example_state_def by (intro exI [of _ px]) simp
qed

lemma example_next:
  assumes "example_state px K"
  shows "\<exists>effs px'. syncProxyRules example_proxy_env (example_at start existing) px = Inr (effs, px') \<and>
    example_state px' (kernel_after (example_at start existing) effs K)"
proof -
  note st = assms [unfolded example_state_def]
  have r: "px_reach example_proxy_env example_px0 example_svcs (report example_b1 False Map.empty) px K" "px_initialized px" using st by blast+
  obtain effs px' where s: "syncProxyRules example_proxy_env (example_at start existing) px = Inr (effs, px')"
    using sync_returns [OF px_reach_inv [OF r(1)] px_reach_total [OF r(1)] example_clients(2) example_orders, of start existing] example_clients(1)
    by blast
  obtain sr er where u: "spm_Update (px_serviceChanges px) (px_svcPortMap px) = (sr, px_serviceChanges px', px_svcPortMap px')"
    and e: "em_Update (net_env.truncate (pe_svc example_proxy_env)) (pe_gates example_proxy_env) (si_ord1 (example_at start existing))
      (si_ord2 (example_at start existing)) (Some (px_endpointsChanges px)) (px_endpointsMap px) = Inr (er, Some (px_endpointsChanges px'), px_endpointsMap px')"
    using syncProxyRules_tables(1) [OF s r(2)] by blast
  have t: "px_svcPortMap px' = px_svcPortMap example_tables" "px_endpointsMap px' = px_endpointsMap example_tables"
    using st spm_Update_idle(1) [OF _ u] em_Update_idle(1) [OF _ e] by simp_all
  have ok: "sync_ok (example_at start existing) px'" unfolding example_input_ok t by (rule example_tables_ok)
  have "example_state px' (kernel_after (example_at start existing) effs K)"
    unfolding example_state_def using px_reach.Sync [OF r(1) s ok] t st spm_Update_idle(3) [OF _ u] em_Update_idle(3) [OF _ e]
      syncProxyRules_tables(2,5,7) [OF s r(2)] by (simp add: example_at_def)
  with s show ?thesis by blast
qed

text \<open>A second synchronisation, a partial one, returns and leaves the kernel's map with the cluster IP of the service.\<close>

theorem syncProxyRules_returns_witness:
  "\<exists>px K effs px'. example_state px K \<and> syncProxyRules example_proxy_env example_input px = Inr (effs, px')"
proof -
  obtain px K where st: "example_state px K" using example_first by blast
  have "\<exists>effs px'. syncProxyRules example_proxy_env example_input px = Inr (effs, px')"
    using syncProxyRules_returns [OF _ example_clients(2) example_orders] st example_clients(1) unfolding example_state_def by blast
  with st show ?thesis by blast
qed

theorem syncProxyRules_kernel_exact_witness:
  "\<exists>px K effs px'. example_state px K \<and> syncProxyRules example_proxy_env example_input px = Inr (effs, px') \<and>
     kernel_after example_input effs K serviceIPsMap ''10.0.0.10 . udp . 53'' = Some ''goto service-ULMVA6XW-ns/dns/udp/p''"
proof -
  obtain px K where st: "example_state px K" using example_first by blast
  obtain effs px' where s: "syncProxyRules example_proxy_env example_input px = Inr (effs, px')" and
    t: "px_svcPortMap px' = px_svcPortMap example_tables" "px_endpointsMap px' = px_endpointsMap example_tables" "px_nodeLabels px' = px_nodeLabels example_tables"
    using example_next [OF st] unfolding example_state_def by blast
  have ok: "sync_ok example_input px'" unfolding example_input_ok t(1) by (rule example_tables_ok)
  have "kernel_after example_input effs K (cname ServiceIPs) = wantedBy example_proxy_env example_input px' ServiceIPs"
    by (rule syncProxyRules_kernel_exact [where svcs = example_svcs and S = "report example_b1 False Map.empty" and ?px0.0 = example_px0,
          THEN conjunct1, OF _ _ s ok]) (use st in \<open>simp_all add: example_state_def example_at_def\<close>)
  also have "\<dots> = wantedBy example_proxy_env example_input example_tables ServiceIPs"
    unfolding wantedBy_def svcElems_same [OF t(2,3)] t(1) ..
  finally have "kernel_after example_input effs K serviceIPsMap ''10.0.0.10 . udp . 53'' = Some ''goto service-ULMVA6XW-ns/dns/udp/p''"
    by (simp add: cname_def example_wanted newNFTElementStorage_def)
  with st s show ?thesis by blast
qed

end
