(* ===== verification/Nft_Chains.thy ===== *)
theory Nft_Chains
  imports Nft_Correct
begin

text \<open>
  The chains of the nftables proxier: the active ones are exactly those of the current services, every
  rule and every verdict points to an active chain, stale chains are emptied at once and deleted by the
  first synchronisation that starts more than a second after the one before.
\<close>

section \<open>Active chains\<close>

definition endpointChains :: "Endpoint list \<Rightarrow> string set" where
  "endpointChains eps = {epi_chainName e |e. NftEndpoint e \<in> set eps}"

definition usedChains :: "servicePortInfo \<Rightarrow> categories \<Rightarrow> string set" where
  "usedChains svcInfo c =
     (let p = svcPlan svcInfo c
      in endpointChains (cat_all c) \<union>
         (if sp_usesClusterPolicyChain p then {spi_clusterPolicyChainName svcInfo} else {}) \<union>
         (if sp_usesLocalPolicyChain p then {spi_localPolicyChainName svcInfo} else {}) \<union>
         (if sp_usesExternalTrafficChain p then {spi_externalChainName svcInfo} else {}) \<union>
         (if sp_usesFWChain p then {spi_firewallChainName svcInfo} else {}))"

lemma ensureChainOn_active [simp]: "set (sy_activeChains (ensureChainOn chain skip st)) = insert chain (set (sy_activeChains st))"
  by (auto simp: ensureChainOn_def ensureChain_def Let_def)

lemma ensureElemOn_active [simp]: "sy_activeChains (ensureElemOn e st) = sy_activeChains st"
  by (simp add: ensureElemOn_def Let_def split: prod.split)

lemma fold_ensureElemOn_active [simp]: "sy_activeChains (fold ensureElemOn es st) = sy_activeChains st"
  by (induction es arbitrary: st) simp_all

lemma noteService_active: "set (sy_activeChains (noteService skip svcInfo c st)) = set (sy_activeChains st) \<union> usedChains svcInfo c"
proof -
  have eps: "set (sy_activeChains (fold (\<lambda>ep st. case ep of
                 BaseEndpoint _ \<Rightarrow> st
               | NftEndpoint epInfo \<Rightarrow>
                   (let st = ensureChainOn (epi_chainName epInfo) skip st
                    in if hasAffinity svcInfo
                       then st\<lparr>sy_activeAffinitySets := List.insert (epi_affinitySetName epInfo) (sy_activeAffinitySets st)\<rparr>
                       else st)) eps st)) = set (sy_activeChains st) \<union> endpointChains eps" for eps st
  proof (induction eps arbitrary: st)
    case (Cons ep eps)
    then show ?case by (cases ep) (auto simp: Let_def endpointChains_def)
  qed (simp add: endpointChains_def)
  show ?thesis by (simp add: noteService_def noteChains_def usedChains_def Let_def eps)
qed

definition svcChains where
  "svcChains env input px x =
     (case snd x of BaseServicePort _ \<Rightarrow> {} | NftServicePort svcInfo \<Rightarrow> usedChains svcInfo (svcCategories env input px (fst x) svcInfo))"

lemma buildService_active:
  assumes "buildService env input px tryPartialSync updated x st = Inr st'"
  shows "set (sy_activeChains st') = set (sy_activeChains st) \<union> svcChains env input px x"
proof (cases "snd x")
  case (NftServicePort svcInfo)
  define c where "c = svcCategories env input px (fst x) svcInfo"
  have "sy_activeChains st' = sy_activeChains (noteService (tryPartialSync \<and> spn_NamespacedName (fst x) \<notin> set updated) svcInfo c st)"
    using assms NftServicePort
    by (auto simp: buildService_def split_beta Let_def c_def writeService_def res_bind_Inr_iff split: if_splits)
  then show ?thesis by (simp add: noteService_active svcChains_def NftServicePort c_def)
qed (use assms in \<open>auto simp: buildService_def svcChains_def split_beta\<close>)

lemma buildServices_active:
  assumes "buildServices env input px tryPartialSync updated xs st = Inr st'"
  shows "set (sy_activeChains st') = set (sy_activeChains st) \<union> (\<Union>x\<in>set xs. svcChains env input px x)"
  using assms
proof (induction xs arbitrary: st)
  case (Cons x xs)
  then obtain st1 where st1: "buildService env input px tryPartialSync updated x st = Inr st1"
    "buildServices env input px tryPartialSync updated xs st1 = Inr st'" by (auto simp: res_bind_Inr_iff)
  show ?case unfolding Cons.IH [OF st1(2)] buildService_active [OF st1(1)] by auto
qed simp

lemma svcChains_same:
  assumes "px_endpointsMap px' = px_endpointsMap px" "px_nodeLabels px' = px_nodeLabels px"
  shows "svcChains env input px' = svcChains env input px"
  using assms by (simp add: svcChains_def svcCategories_def fun_eq_iff cong: ServicePort.case_cong)

lemma buildTransaction_cases:
  fixes px :: "'s Proxier"
  assumes "buildTransaction env input tryPartialSync updated px = Inr (tx, st, px')"
  obtains tx1 and px1 :: "'s Proxier" where "px_svcPortMap px1 = px_svcPortMap px" "px_staleChains px1 = px_staleChains px" "svcChains env input px1 = svcChains env input px"
    "buildServices env input px1 tryPartialSync updated (si_order input (px_svcPortMap px))
       \<lparr>sy_tx = tx1, sy_store = px_store px1, sy_activeChains = [], sy_activeAffinitySets = [], sy_noLocalInternal = 0, sy_noLocalExternal = 0\<rparr> = Inr st"
    "px_staleChains px' = snd (noteStaleChains (si_start input) (si_chains input) (sy_activeChains st) (sy_tx st, px_staleChains px))"
proof -
  obtain tx1 px1 where 1: "(if \<not> tryPartialSync then setupNFTables (pe_util env) (si_addrs input) [] px else Inr ([], px)) = Inr (tx1, px1)"
    and 2: "buildServices env input px1 tryPartialSync updated (si_order input (px_svcPortMap px1))
       \<lparr>sy_tx = tx1, sy_store = px_store px1, sy_activeChains = [], sy_activeAffinitySets = [], sy_noLocalInternal = 0, sy_noLocalExternal = 0\<rparr> = Inr st"
    and 3: "px_staleChains px' = snd (noteStaleChains (si_start input) (si_chains input) (sy_activeChains st) (sy_tx st, px_staleChains px1))"
    using assms by (auto simp: buildTransaction_def res_bind_Inr_iff Let_def split_beta)
  have s: "px_svcPortMap px1 = px_svcPortMap px" "px_staleChains px1 = px_staleChains px"
    "px_endpointsMap px1 = px_endpointsMap px" "px_nodeLabels px1 = px_nodeLabels px"
    using 1 by (auto simp: setupNFTables_def res_bind_Inr_iff Let_def split_beta split: if_splits)
  have "svcChains env input px1 = svcChains env input px" by (rule svcChains_same [OF s(3,4)])
  from that [OF s(1,2) this] 2 3 show ?thesis unfolding s by blast
qed

lemma buildTransaction_active:
  assumes "buildTransaction env input tryPartialSync updated px = Inr (tx, st, px')"
  shows "set (sy_activeChains st) = (\<Union>x\<in>set (si_order input (px_svcPortMap px)). svcChains env input px x)"
proof (rule buildTransaction_cases [OF assms])
  fix tx1 px1
  assume s: "svcChains env input px1 = svcChains env input px" and
    b: "buildServices env input px1 tryPartialSync updated (si_order input (px_svcPortMap px))
       \<lparr>sy_tx = tx1, sy_store = px_store px1, sy_activeChains = [], sy_activeAffinitySets = [], sy_noLocalInternal = 0, sy_noLocalExternal = 0\<rparr> = Inr st"
  show ?thesis using buildServices_active [OF b] by (simp add: s)
qed

section \<open>Where rules and verdicts go\<close>

lemma plan_facts:
  fixes env input px svcName svcInfo
  defines "c \<equiv> svcCategories env input px svcName svcInfo"
  defines "b \<equiv> spi_BaseServicePortInfo svcInfo"
  shows "UsesClusterEndpoints b \<Longrightarrow> cat_hasAny c \<Longrightarrow> sp_usesClusterPolicyChain (svcPlan svcInfo c)"
    "sp_hasInternalEndpoints (svcPlan svcInfo c) \<Longrightarrow> sp_internalTrafficChain (svcPlan svcInfo c) \<in> usedChains svcInfo c"
    "sp_hasExternalEndpoints (svcPlan svcInfo c) \<Longrightarrow> ExternallyAccessible b \<Longrightarrow> sp_externalPolicyChain (svcPlan svcInfo c) \<in> usedChains svcInfo c"
    "sp_hasEndpoints (svcPlan svcInfo c) \<Longrightarrow> ExternallyAccessible b \<Longrightarrow> spi_externalChainName svcInfo \<in> usedChains svcInfo c"
    "sp_hasEndpoints (svcPlan svcInfo c) \<Longrightarrow> ExternallyAccessible b \<Longrightarrow> spi_clusterPolicyChainName svcInfo \<in> usedChains svcInfo c"
    "sp_usesFWChain (svcPlan svcInfo c) \<Longrightarrow> spi_firewallChainName svcInfo \<in> usedChains svcInfo c"
proof -
  have ne: "cat_cluster c \<noteq> []" if "UsesClusterEndpoints b" "cat_hasAny c"
    using that unfolding c_def svcCategories_def hasAny_eq b_def by (simp add: cluster_nonempty)
  show cl: "UsesClusterEndpoints b \<Longrightarrow> cat_hasAny c \<Longrightarrow> sp_usesClusterPolicyChain (svcPlan svcInfo c)"
    using ne by (simp add: svcPlan_def Let_def b_def)
  show "sp_hasInternalEndpoints (svcPlan svcInfo c) \<Longrightarrow> sp_internalTrafficChain (svcPlan svcInfo c) \<in> usedChains svcInfo c"
    using ne by (auto simp: usedChains_def svcPlan_def Let_def b_def UsesClusterEndpoints_def UsesLocalEndpoints_def split: if_splits)
  show "sp_hasExternalEndpoints (svcPlan svcInfo c) \<Longrightarrow> ExternallyAccessible b \<Longrightarrow> sp_externalPolicyChain (svcPlan svcInfo c) \<in> usedChains svcInfo c"
    using ne by (auto simp: usedChains_def svcPlan_def Let_def b_def UsesClusterEndpoints_def UsesLocalEndpoints_def split: if_splits)
  show "sp_hasEndpoints (svcPlan svcInfo c) \<Longrightarrow> ExternallyAccessible b \<Longrightarrow> spi_externalChainName svcInfo \<in> usedChains svcInfo c"
    by (auto simp: usedChains_def svcPlan_def Let_def b_def)
  show "sp_hasEndpoints (svcPlan svcInfo c) \<Longrightarrow> ExternallyAccessible b \<Longrightarrow> spi_clusterPolicyChainName svcInfo \<in> usedChains svcInfo c"
    using ne by (auto simp: usedChains_def svcPlan_def Let_def b_def UsesClusterEndpoints_def)
  show "sp_usesFWChain (svcPlan svcInfo c) \<Longrightarrow> spi_firewallChainName svcInfo \<in> usedChains svcInfo c"
    by (auto simp: usedChains_def Let_def)
qed

definition goto_target :: "string list \<Rightarrow> string option" where
  "goto_target rule = (case rev rule of t # g # _ \<Rightarrow> if g = ''goto'' then Some t else None | _ \<Rightarrow> None)"

lemma element_targets:
  fixes env input px svcName svcInfo
  defines "c \<equiv> svcCategories env input px svcName svcInfo"
  assumes "(cont, key, [''goto '' @ chain]) \<in> set (captureIPs svcInfo (svcPlan svcInfo c) @ captureRest svcInfo (svcPlan svcInfo c))"
  shows "chain \<in> insert rejectChain (usedChains svcInfo c)"
proof -
  note f = plan_facts [of svcInfo env input px svcName, folded c_def]
  have verdicts: "sp_internalVerdict (svcPlan svcInfo c) = ''goto '' @ chain \<Longrightarrow> chain = rejectChain"
    "sp_externalVerdict (svcPlan svcInfo c) = ''goto '' @ chain \<Longrightarrow> chain = rejectChain"
    by (auto simp: svcPlan_def Let_def split: if_splits)
  have acc: "ip \<in> set (bsp_externalIPs b) \<Longrightarrow> ExternallyAccessible b" "ip \<in> set (bsp_loadBalancerVIPs b) \<Longrightarrow> ExternallyAccessible b"
    "bsp_nodePort b \<noteq> 0 \<Longrightarrow> ExternallyAccessible b" for ip b by (auto simp: ExternallyAccessible_def)
  have "(cont, key, [''goto '' @ chain]) \<in> set (captureIPs svcInfo (svcPlan svcInfo c)) \<Longrightarrow> ?thesis"
    using f(2,4) verdicts acc by (auto simp: captureIPs_def Let_def split: if_splits)
  moreover have "(cont, key, [''goto '' @ chain]) \<in> set (captureRest svcInfo (svcPlan svcInfo c)) \<Longrightarrow> ?thesis"
    using f(4,6) verdicts acc by (auto simp: captureRest_def Let_def split: if_splits)
  ultimately show ?thesis using assms(2) by auto
qed

lemma rule_chains:
  fixes env input px svcName svcInfo
  defines "c \<equiv> svcCategories env input px svcName svcInfo"
  assumes "Add (NRule chain rule) \<in> set (svcRules uenv px svcInfo c)"
  shows "chain \<in> usedChains svcInfo c" "goto_target rule = Some target \<Longrightarrow> target \<in> usedChains svcInfo c"
proof -
  note f = plan_facts [of svcInfo env input px svcName, folded c_def]
  let ?p = "svcPlan svcInfo c"
  have uses: "sp_usesExternalTrafficChain ?p \<Longrightarrow> sp_hasEndpoints ?p \<and> ExternallyAccessible (spi_BaseServicePortInfo svcInfo)"
    by (simp add: svcPlan_def Let_def)
  consider (int) ipX where "Add (NRule chain rule) \<in> set (internalRules px ipX svcInfo ?p)"
    | (ext) "Add (NRule chain rule) \<in> set (externalRules px svcInfo ?p)"
    | (fw) ipX where "Add (NRule chain rule) \<in> set (firewallRules uenv (px_nodeIP px) ipX svcInfo ?p)"
    using assms(2) by (auto simp: svcRules_def affinitySets_def Let_def split: if_splits Endpoint.splits)
  then have "chain \<in> usedChains svcInfo c \<and> (goto_target rule = Some target \<longrightarrow> target \<in> usedChains svcInfo c)"
  proof cases
    case int
    then show ?thesis using f(2) by (auto simp: internalRules_def Let_def goto_target_def split: if_splits)
  next
    case ext
    then show ?thesis using f(3-5) uses
      by (auto simp: externalRules_def Let_def goto_target_def split: if_splits)
  next
    case fw
    then show ?thesis using f(6) by (auto simp: firewallRules_def Let_def goto_target_def split: if_splits prod.splits)
  qed
  then show "chain \<in> usedChains svcInfo c" "goto_target rule = Some target \<Longrightarrow> target \<in> usedChains svcInfo c" by simp_all
qed

lemma endpoint_chains:
  fixes env input px svcName svcInfo
  defines "c \<equiv> svcCategories env input px svcName svcInfo"
  assumes "inj_on Endpoint_String (set (get_or [] (px_endpointsMap px) svcName))" "\<And>m. set (si_allOrder input m) = set m"
  shows "endpointChains (cat_cluster c) \<subseteq> usedChains svcInfo c" "endpointChains (cat_local c) \<subseteq> usedChains svcInfo c"
    "Add (NRule chain rule) \<in> set (endpointRules ipX svcInfo (cat_all c)) \<Longrightarrow> chain \<in> usedChains svcInfo c"
proof -
  have "set (cat_all c) = set (cat_cluster c) \<union> set (cat_local c)"
    unfolding c_def svcCategories_def by (rule all_eq [OF assms(2,3)])
  then show "endpointChains (cat_cluster c) \<subseteq> usedChains svcInfo c" "endpointChains (cat_local c) \<subseteq> usedChains svcInfo c"
    by (auto simp: usedChains_def endpointChains_def Let_def)
  show "Add (NRule chain rule) \<in> set (endpointRules ipX svcInfo (cat_all c)) \<Longrightarrow> chain \<in> usedChains svcInfo c"
    by (auto simp: endpointRules_def usedChains_def endpointChains_def Let_def split: Endpoint.splits if_splits)
qed

text \<open>
  C3. No rule and no verdict dangles: when the transaction is built, every chain to which an element of a
  service's maps sends traffic is the fixed reject chain or one of the active chains, every rule of a service is
  put into an active chain, a rule that ends in a goto goes to an active chain, and so do the load balancing rules, since the
  chains of all endpoints they choose from are active. The active chains are exactly those of the
  current services, in a partial synchronisation too.
\<close>

theorem chain_targets_active:
  assumes "buildTransaction env input tryPartialSync updated px = Inr (tx, st, px')"
    and "(svcName, NftServicePort svcInfo) \<in> set (si_order input (px_svcPortMap px))"
    and "inj_on Endpoint_String (set (get_or [] (px_endpointsMap px) svcName))" "\<And>m. set (si_allOrder input m) = set m"
    and c: "c = svcCategories env input px svcName svcInfo"
  shows "((cont, key, [''goto '' @ chain]) \<in> set (captureIPs svcInfo (svcPlan svcInfo c) @ captureRest svcInfo (svcPlan svcInfo c)) \<longrightarrow>
      chain \<in> insert rejectChain (set (sy_activeChains st))) \<and>
    (Add (NRule chain rule) \<in> set (svcRules (pe_util env) px svcInfo c @ endpointRules ipX svcInfo (cat_all c)) \<longrightarrow>
      chain \<in> set (sy_activeChains st)) \<and>
    (Add (NRule chain rule) \<in> set (svcRules (pe_util env) px svcInfo c) \<and> goto_target rule = Some target \<longrightarrow>
      target \<in> set (sy_activeChains st)) \<and>
    endpointChains (cat_cluster c) \<union> endpointChains (cat_local c) \<subseteq> set (sy_activeChains st) \<and>
    set (sy_activeChains st) = (\<Union>x\<in>set (si_order input (px_svcPortMap px)). svcChains env input px x)"
proof -
  have active: "set (sy_activeChains st) = (\<Union>x\<in>set (si_order input (px_svcPortMap px)). svcChains env input px x)"
    by (rule buildTransaction_active [OF assms(1)])
  have "svcChains env input px (svcName, NftServicePort svcInfo) = usedChains svcInfo c" by (simp add: svcChains_def c)
  then have sub: "usedChains svcInfo c \<subseteq> set (sy_activeChains st)" unfolding active using assms(2) by fastforce
  note r = rule_chains [of chain rule "pe_util env" px svcInfo env input svcName, folded c]
  note e = endpoint_chains [where env = env and svcInfo = svcInfo, OF assms(3,4), folded c]
  note t = element_targets [of cont key chain svcInfo env input px svcName, folded c]
  show ?thesis
  proof (intro conjI impI)
    show "endpointChains (cat_cluster c) \<union> endpointChains (cat_local c) \<subseteq> set (sy_activeChains st)" using e(1,2) sub by blast
    assume "Add (NRule chain rule) \<in> set (svcRules (pe_util env) px svcInfo c @ endpointRules ipX svcInfo (cat_all c))"
    then show "chain \<in> set (sy_activeChains st)" using r(1) e(3) [of chain rule ipX] sub by auto
  next
    assume "Add (NRule chain rule) \<in> set (svcRules (pe_util env) px svcInfo c) \<and> goto_target rule = Some target"
    then show "target \<in> set (sy_activeChains st)" using r(2) sub by blast
  next
    assume "(cont, key, [''goto '' @ chain]) \<in> set (captureIPs svcInfo (svcPlan svcInfo c) @ captureRest svcInfo (svcPlan svcInfo c))"
    from t [OF this] show "chain \<in> insert rejectChain (set (sy_activeChains st))" using sub by blast
  qed (rule active)
qed

section \<open>Stale chains\<close>

lemma noteStaleChains_exact:
  assumes "noteStaleChains start (Inr existing) active (tx, stale) = (tx', stale')"
  shows "map_of stale' chain = (if chain \<in> set existing \<and> isServiceChainName chain
      then (if chain \<in> set active then None else Some start) else map_of stale chain)"
    "tx' = tx @ map (\<lambda>chain. Flush (NChain chain None)) (filter (\<lambda>chain. isServiceChainName chain \<and> chain \<notin> set active) existing)"
    "wf_map stale \<Longrightarrow> wf_map stale'"
proof -
  let ?f = "\<lambda>chain (tx, staleChains). if isServiceChainName chain
            then (if chain \<notin> set active
                  then (tx @ [Flush (NChain chain None)], AList.update chain start staleChains)
                  else (tx, AList.delete chain staleChains))
            else (tx, staleChains)"
  have "(map_of stale' chain = (if chain \<in> set existing \<and> isServiceChainName chain
      then (if chain \<in> set active then None else Some start) else map_of stale chain)) \<and>
    tx' = tx @ map (\<lambda>chain. Flush (NChain chain None)) (filter (\<lambda>chain. isServiceChainName chain \<and> chain \<notin> set active) existing) \<and>
    (wf_map stale \<longrightarrow> wf_map stale')" if "fold ?f existing (tx, stale) = (tx', stale')"
    using that
  proof (induction existing arbitrary: tx stale)
    case (Cons x existing)
    show ?case
    proof (cases "isServiceChainName x")
      case True
      note s = this
      show ?thesis
      proof (cases "x \<in> set active")
        case True
        then have "fold ?f existing (tx, AList.delete x stale) = (tx', stale')" using Cons.prems s by simp
        from Cons.IH [OF this] show ?thesis using True s by auto
      next
        case False
        then have "fold ?f existing (tx @ [Flush (NChain x None)], AList.update x start stale) = (tx', stale')" using Cons.prems s by simp
        from Cons.IH [OF this] show ?thesis using False s by auto
      qed
    next
      case False
      then have "fold ?f existing (tx, stale) = (tx', stale')" using Cons.prems by simp
      from Cons.IH [OF this] show ?thesis using False by auto
    qed
  qed auto
  from this [OF assms [unfolded noteStaleChains_def sum.case]]
  show "map_of stale' chain = (if chain \<in> set existing \<and> isServiceChainName chain
      then (if chain \<in> set active then None else Some start) else map_of stale chain)"
    "tx' = tx @ map (\<lambda>chain. Flush (NChain chain None)) (filter (\<lambda>chain. isServiceChainName chain \<and> chain \<notin> set active) existing)"
    "wf_map stale \<Longrightarrow> wf_map stale'" by simp_all
qed

lemma deleteStaleChains_exact:
  assumes "deleteStaleChains start stale = (effs, stale')" "wf_map stale"
  shows "(\<exists>tx. RunStale tx \<in> set effs \<and> Delete (NChain chain None) \<in> set tx) \<longleftrightarrow>
      (\<exists>modtime. map_of stale chain = Some modtime \<and> modtime + 10 ^ 9 < start)"
    "wf_map stale'"
proof -
  let ?tx = "map (\<lambda>(chain, _). Delete (NChain chain None)) (filter (\<lambda>(_, modtime). modtime < start - 10 ^ 9) stale)"
  have e: "effs = (if ?tx = [] then [] else [RunStale ?tx])" "stale' = filter (\<lambda>x. \<not> (case x of (_, modtime) \<Rightarrow> modtime < start - 10 ^ 9)) stale"
    using assms(1) by (auto simp: deleteStaleChains_def Let_def)
  have "(\<exists>tx. RunStale tx \<in> set effs \<and> Delete (NChain chain None) \<in> set tx) \<longleftrightarrow> Delete (NChain chain None) \<in> set ?tx"
    unfolding e by (cases "?tx = []") (simp_all only: if_True if_False, auto)
  also have "\<dots> \<longleftrightarrow> (\<exists>modtime. (chain, modtime) \<in> set stale \<and> modtime + 10 ^ 9 < start)"
    by (auto simp: image_iff algebra_simps)
  finally show "(\<exists>tx. RunStale tx \<in> set effs \<and> Delete (NChain chain None) \<in> set tx) \<longleftrightarrow>
      (\<exists>modtime. map_of stale chain = Some modtime \<and> modtime + 10 ^ 9 < start)"
    using assms(2) by simp
  show "wf_map stale'" unfolding e using assms(2) by (simp add: distinct_map_filter)
qed

lemma noteStaleChains_wf: "wf_map stale \<Longrightarrow> wf_map (snd (noteStaleChains start existing active (tx, stale)))"
  using noteStaleChains_exact(3) by (cases existing) (simp add: noteStaleChains_def, metis prod.collapse)

lemma sync_stale_wf:
  assumes "wf_map (px_staleChains px)" "syncProxyRules env input px = Inr (effs, px')"
  shows "wf_map (px_staleChains px')"
proof (cases "px_initialized px")
  case True
  obtain upd px1 px2 tx st stale where d: "deleteStaleChains (si_start input) (px_staleChains px) = (stale, px_staleChains px1)"
    and b: "buildTransaction env input (\<not> px_needFullSync px) upd px1 = Inr (tx, st, px2)"
    and px': "px' = (if si_run input then px2\<lparr>px_needFullSync := False\<rparr> else px2\<lparr>px_staleChains := [], px_needFullSync := True\<rparr>)"
    by (rule syncProxyRules_cases [OF assms(2) True]) (rule that; assumption)
  have "wf_map (px_staleChains px2)"
    by (rule buildTransaction_cases [OF b]) (simp add: noteStaleChains_wf deleteStaleChains_exact(2) [OF d assms(1)])
  then show ?thesis by (simp add: px')
qed (use assms in \<open>simp add: syncProxyRules_def\<close>)

lemma px_reach_stale: "px_reach env px0 svcs S px K \<Longrightarrow> wf_map (px_staleChains px)"
proof (induction rule: px_reach.induct)
  case Start
  then show ?case by (auto simp: NewProxier_def res_bind_Inr_iff split: if_splits)
next
  case (ServicesSynced svcs S px K input effs px')
  show ?case by (rule sync_stale_wf [OF _ ServicesSynced.hyps(2) [unfolded OnServiceSynced_def]]) (use ServicesSynced.IH in simp)
next
  case (SlicesSynced svcs S px K input effs px')
  show ?case by (rule sync_stale_wf [OF _ SlicesSynced.hyps(2) [unfolded OnEndpointSlicesSynced_def]]) (use SlicesSynced.IH in simp)
next
  case (Sync svcs S px K input effs px')
  show ?case by (rule sync_stale_wf [OF Sync.IH Sync.hyps(2)])
qed (auto simp: OnServiceUpdate_def endpointSliceEvent_def res_bind_Inr_iff OnNodeUpdate_def OnNodeDelete_def OnServiceCIDRsChanged_def Let_def
    split: if_splits)

lemma sync_stale_exact:
  assumes "wf_map (px_staleChains px)" "px_initialized px" "syncProxyRules env input px = Inr (effs, px')"
  shows "(\<exists>tx. RunStale tx \<in> set effs \<and> Delete (NChain chain None) \<in> set tx) \<longleftrightarrow>
      (\<exists>modtime. map_of (px_staleChains px) chain = Some modtime \<and> modtime + 10 ^ 9 < si_start input)"
    "si_run input \<Longrightarrow> si_chains input = Inr existing \<Longrightarrow> chain \<in> set existing \<Longrightarrow> isServiceChainName chain \<Longrightarrow>
      map_of (px_staleChains px') chain =
        (if \<exists>x\<in>set (si_order input (px_svcPortMap px')). chain \<in> svcChains env input px' x then None else Some (si_start input))"
    "\<not> si_run input \<Longrightarrow> px_staleChains px' = []"
proof -
  obtain upd px1 px2 tx st stale rest where d: "deleteStaleChains (si_start input) (px_staleChains px) = (stale, px_staleChains px1)"
    and b: "buildTransaction env input (\<not> px_needFullSync px) upd px1 = Inr (tx, st, px2)"
    and effs: "effs = stale @ [Run tx] @ rest"
    and rest: "\<forall>tx. RunStale tx \<notin> set rest"
    and px': "px' = (if si_run input then px2\<lparr>px_needFullSync := False\<rparr> else px2\<lparr>px_staleChains := [], px_needFullSync := True\<rparr>)"
    by (rule syncProxyRules_cases [OF assms(3,2)]) (rule that; assumption)
  show "(\<exists>tx. RunStale tx \<in> set effs \<and> Delete (NChain chain None) \<in> set tx) \<longleftrightarrow>
      (\<exists>modtime. map_of (px_staleChains px) chain = Some modtime \<and> modtime + 10 ^ 9 < si_start input)"
    using deleteStaleChains_exact(1) [OF d assms(1), of chain] rest by (simp add: effs)
  show "px_staleChains px' = []" if "\<not> si_run input" using that by (simp add: px')
  assume run: "si_run input" and l: "si_chains input = Inr existing" "chain \<in> set existing" "isServiceChainName chain"
  have same: "svcChains env input px' = svcChains env input px1" "px_svcPortMap px' = px_svcPortMap px1"
  proof -
    note f = buildTransaction_same(1-3) [OF b]
    show "px_svcPortMap px' = px_svcPortMap px1" using f(1) by (simp add: px')
    have "px_endpointsMap px' = px_endpointsMap px1" "px_nodeLabels px' = px_nodeLabels px1" using f(2,3) by (simp_all add: px')
    then show "svcChains env input px' = svcChains env input px1" by (rule svcChains_same)
  qed
  have p2: "px_staleChains px2 = snd (noteStaleChains (si_start input) (Inr existing) (sy_activeChains st) (sy_tx st, px_staleChains px1))"
    by (rule buildTransaction_cases [OF b]) (simp add: l(1))
  obtain tx' stale' where n: "noteStaleChains (si_start input) (Inr existing) (sy_activeChains st) (sy_tx st, px_staleChains px1) = (tx', stale')"
    by fastforce
  have "map_of (px_staleChains px2) chain = (if chain \<in> set (sy_activeChains st) then None else Some (si_start input))"
    unfolding p2 n snd_conv noteStaleChains_exact(1) [OF n] using l(2,3) by simp
  then show "map_of (px_staleChains px') chain =
        (if \<exists>x\<in>set (si_order input (px_svcPortMap px')). chain \<in> svcChains env input px' x then None else Some (si_start input))"
    unfolding same buildTransaction_active [OF b] using run by (simp add: px')
qed

text \<open>The handlers of events other than synchronisations, any number of them one after the other, leave the stale chains alone.\<close>

inductive events_between for env where
  Same: "events_between env px px"
| Service: "events_between env px px1 \<Longrightarrow> OnServiceUpdate env old new px1 = Inr (effs, px2) \<Longrightarrow> events_between env px px2"
| Slice: "events_between env px px1 \<Longrightarrow> endpointSliceEvent parseTime s removeSlice px1 = Inr (effs, px2) \<Longrightarrow> events_between env px px2"
| Node: "events_between env px px1 \<Longrightarrow> OnNodeUpdate nodeName labels px1 = (effs, px2) \<Longrightarrow> events_between env px px2"
| NodeDelete: "events_between env px px1 \<Longrightarrow> OnNodeDelete nodeName px1 = (effs, px2) \<Longrightarrow> events_between env px px2"
| CIDRs: "events_between env px px1 \<Longrightarrow> events_between env px (OnServiceCIDRsChanged uenv cidrs px1)"

lemma events_between_keep:
  "events_between env px px1 \<Longrightarrow> px_staleChains px1 = px_staleChains px \<and> px_initialized px1 = px_initialized px"
  by (induction rule: events_between.induct)
    (auto simp: OnServiceUpdate_def endpointSliceEvent_def res_bind_Inr_iff OnNodeUpdate_def OnNodeDelete_def OnServiceCIDRsChanged_def Let_def
      split: if_splits)

text \<open>
  C39. When the chain of a service is deleted: if the list of chains that a synchronisation reads has a chain, the next synchronisation,
  with any number of events of services, slices and nodes in between, asks the kernel to delete it if and only if the transaction of the
  first one succeeded, none of the services of the first one used the chain, and more than a second lies between the
  starts of the two. So a stale chain goes away as soon as there is a pause of a second after a successful
  synchronisation; with synchronisations at a shorter distance its time is set anew each time, not kept from when it became
  stale as the comment in the code says, and it is never deleted; and a failed transaction starts the wait again.
  Nothing is said of a synchronisation that could not list the chains.
\<close>

theorem stale_chain_deleted:
  assumes "px_reach env px0 svcs S px K" "px_initialized px" "syncProxyRules env input px = Inr (effs, px')"
    and "si_chains input = Inr existing" "chain \<in> set existing" "isServiceChainName chain"
    and "events_between env px' px1" "syncProxyRules env input' px1 = Inr (effs', px'')"
  shows "(\<exists>tx. RunStale tx \<in> set effs' \<and> Delete (NChain chain None) \<in> set tx) \<longleftrightarrow>
    si_run input \<and> \<not> (\<exists>x\<in>set (si_order input (px_svcPortMap px')). chain \<in> svcChains env input px' x) \<and>
    si_start input + 10 ^ 9 < si_start input'"
proof -
  note wf = px_reach_stale [OF assms(1)] and keep = events_between_keep [OF assms(7)]
  have "wf_map (px_staleChains px1)" "px_initialized px1"
    using sync_stale_wf [OF wf assms(3)] syncProxyRules_tables(5) [OF assms(3,2)] keep by simp_all
  note next_sync = sync_stale_exact(1) [OF this assms(8), of chain] and first = sync_stale_exact(2,3) [OF wf assms(2,3)]
  show ?thesis
    unfolding next_sync using keep first(1) [OF _ assms(4-6)] first(2) by (cases "si_run input") auto
qed

section \<open>Rules without changes\<close>

definition no_rules :: "Transaction \<Rightarrow> bool" where
  "no_rules tx \<longleftrightarrow> (\<forall>chain rule. Add (NRule chain rule) \<notin> set tx)"

lemma no_rules_simps [simp]:
  "no_rules []" "no_rules (tx @ tx') \<longleftrightarrow> no_rules tx \<and> no_rules tx'"
  "no_rules (Flush ob # tx) \<longleftrightarrow> no_rules tx" "no_rules (Delete ob # tx) \<longleftrightarrow> no_rules tx"
  "no_rules (Add (NElement n k v) # tx) \<longleftrightarrow> no_rules tx"
  by (auto simp: no_rules_def)

lemma no_rules_ensureElemOn: "no_rules (sy_tx st) \<Longrightarrow> no_rules (sy_tx (ensureElemOn e st))"
  by (auto simp: ensureElemOn_def ensureElem_def Let_def split: prod.splits option.splits if_splits)

lemma no_rules_ensureElems: "no_rules (sy_tx st) \<Longrightarrow> no_rules (sy_tx (fold ensureElemOn es st))"
  by (induction es arbitrary: st) (simp_all add: no_rules_ensureElemOn)

lemma ensureChainOn_skip: "sy_tx (ensureChainOn chain True st) = sy_tx st"
  by (simp add: ensureChainOn_def ensureChain_def Let_def)

lemma no_rules_noteService: "no_rules (sy_tx st) \<Longrightarrow> no_rules (sy_tx (noteService True svcInfo c st))"
proof -
  have eps: "sy_tx (fold (\<lambda>ep st. case ep of
                 BaseEndpoint _ \<Rightarrow> st
               | NftEndpoint epInfo \<Rightarrow>
                   (let st = ensureChainOn (epi_chainName epInfo) True st
                    in if hasAffinity svcInfo
                       then st\<lparr>sy_activeAffinitySets := List.insert (epi_affinitySetName epInfo) (sy_activeAffinitySets st)\<rparr>
                       else st)) eps st) = sy_tx st" for eps st
    by (induction eps arbitrary: st) (simp_all add: Let_def ensureChainOn_skip split: Endpoint.split)
  assume "no_rules (sy_tx st)"
  then show "no_rules (sy_tx (noteService True svcInfo c st))"
    by (auto simp: noteService_def noteChains_def Let_def eps ensureChainOn_skip intro!: no_rules_ensureElems)
qed

lemma no_rules_buildServices:
  assumes "no_rules (sy_tx st)" "buildServices env input px True [] xs st = Inr st'"
  shows "no_rules (sy_tx st')"
  using assms
proof (induction xs arbitrary: st)
  case (Cons x xs)
  then obtain st1 where st1: "buildService env input px True [] x st = Inr st1" "buildServices env input px True [] xs st1 = Inr st'"
    by (auto simp: res_bind_Inr_iff)
  have "no_rules (sy_tx st1)"
    using st1(1) Cons.prems(1) no_rules_noteService by (auto simp: buildService_def split_beta split: ServicePort.splits)
  from Cons.IH [OF this st1(2)] show ?case .
qed simp

lemma no_rules_cleanup: "no_rules tx \<Longrightarrow> no_rules (fst (fold cleanupOn cs (tx, store)))"
proof (induction cs arbitrary: tx store)
  case (Cons c cs)
  have "no_rules (fst (fold (\<lambda>key (tx, s). (tx @ [Delete (NElement (nes_containerName s) (splitNFTSlice key) [])],
      s\<lparr>nes_elements := AList.delete key (nes_elements s)\<rparr>)) ks (tx, s)))" if "no_rules tx" for ks tx s
    using that by (induction ks arbitrary: tx s) simp_all
  then have "no_rules (fst (cleanupOn c (tx, store)))"
    using Cons.prems by (simp add: cleanupOn_def cleanupLeftoverKeys_def split_beta Let_def)
  then show ?case using Cons.IH by (metis fold_simps(2) prod.collapse)
qed simp

lemma no_rules_buildTransaction:
  assumes "buildTransaction env input True [] px = Inr (tx, st, px')"
  shows "no_rules tx"
proof -
  have st: "buildServices env input px True [] (si_order input (px_svcPortMap px))
       \<lparr>sy_tx = [], sy_store = px_store px, sy_activeChains = [], sy_activeAffinitySets = [], sy_noLocalInternal = 0, sy_noLocalExternal = 0\<rparr> = Inr st"
    and tx: "tx = fst (fold cleanupOn containers (fst (noteStaleChains (si_start input) (si_chains input) (sy_activeChains st) (sy_tx st, px_staleChains px)) @
      deleteStaleSets (si_sets input) (sy_activeAffinitySets st), sy_store st))"
    using assms by (auto simp: buildTransaction_def res_bind_Inr_iff Let_def split_beta)
  have "no_rules (sy_tx st)" by (rule no_rules_buildServices [OF _ st]) simp
  moreover have "no_rules (fst (noteStaleChains start existing active (tx, stale)))" if "no_rules tx" for start existing active tx stale
  proof (cases existing)
    case (Inr l)
    obtain tx' stale' where n: "noteStaleChains start (Inr l) active (tx, stale) = (tx', stale')" by fastforce
    then show ?thesis using noteStaleChains_exact(2) [OF n] that by (auto simp: Inr no_rules_def)
  qed (simp add: noteStaleChains_def that)
  moreover have "no_rules (deleteStaleSets existing active)" for existing active
    by (auto simp: deleteStaleSets_def no_rules_def split: sum.split)
  ultimately show ?thesis unfolding tx by (intro no_rules_cleanup) simp
qed

text \<open>
  New scores do not reach the rules by themselves: a synchronisation with no change of services or
  endpoints since the last full one, such as the periodic one, computes new scores for all services but
  writes no rule at all, so every load balancing rule keeps the weights of the time when its service last changed.
\<close>

theorem partial_sync_keeps_weights:
  assumes "px_initialized px" "\<not> px_needFullSync px" "syncProxyRules env input px = Inr (effs, px')"
    and "sct_items (px_serviceChanges px) = []"
    and "list_all (\<lambda>x. est_pending (snd x) = []) (esc_trackerByServiceMap (ect_endpointSliceCache (px_endpointsChanges px)))"
    and "Run tx \<in> set effs"
  shows "Add (NRule chain rule) \<notin> set tx \<and>
    px_waoLB px' = snd (Score (pe_lb env) (pe_oob env) (pe_lbOptions env) (si_clash input)
      (si_scoreOrder input (map (\<lambda>(svcPortName, _). ServicePortName_String (pe_nnString env) svcPortName) (px_svcPortMap px'))) (px_waoLB px))"
proof -
  obtain sr er px1 px2 tx1 st stale rest where
    u: "spm_Update (px_serviceChanges px) (px_svcPortMap px) = (sr, px_serviceChanges px1, px_svcPortMap px1)"
    and e: "em_Update (net_env.truncate (pe_svc env)) (pe_gates env) (si_ord1 input) (si_ord2 input)
      (Some (px_endpointsChanges px)) (px_endpointsMap px) = Inr (er, Some (px_endpointsChanges px1), px_endpointsMap px1)"
    and w: "px_waoLB px1 = snd (Score (pe_lb env) (pe_oob env) (pe_lbOptions env) (si_clash input)
      (si_scoreOrder input (map (\<lambda>(svcPortName, _). ServicePortName_String (pe_nnString env) svcPortName) (px_svcPortMap px1))) (px_waoLB px))"
    and b: "buildTransaction env input (\<not> px_needFullSync px) (usr_UpdatedServices sr @ uer_UpdatedServices er) px1 = Inr (tx1, st, px2)"
    and effs: "effs = stale @ [Run tx1] @ rest" "\<forall>tx. Run tx \<notin> set (stale @ rest)"
    and px': "px' = (if si_run input then px2\<lparr>px_needFullSync := False\<rparr> else px2\<lparr>px_staleChains := [], px_needFullSync := True\<rparr>)"
    by (rule syncProxyRules_cases [OF assms(3,1)]) (rule that; assumption)
  have "usr_UpdatedServices sr @ uer_UpdatedServices er = []"
    using spm_Update_idle(2) [OF assms(4) u] em_Update_idle(2) [OF assms(5) e] by simp
  then have "no_rules tx1" using no_rules_buildTransaction b assms(2) by simp
  moreover have "tx = tx1" using assms(6) effs by auto
  ultimately show ?thesis
    using w buildTransaction_same [OF b] by (simp add: no_rules_def px')
qed

section \<open>In the example run\<close>

lemma example_tables_fields:
  "px_svcPortMap example_tables = snd (snd (spm_Update example_sct1 []))" "px_endpointsMap example_tables = snd (snd example_em)"
  "px_nodeLabels example_tables = None"
  by (simp_all add: example_tables_def example_px3_def example_px1_def example_px0_fields)

definition example_info :: servicePortInfo where
  "example_info = (case newServiceInfo (pe_nnString example_proxy_env) (\<lambda>_. ''ULMVA6XW'') (hd (vs_Ports example_service)) example_service
     (projr (newBaseServiceInfo example_svc_env example_service IPv4Protocol (hd (vs_Ports example_service)))) of NftServicePort i \<Rightarrow> i)"

lemma example_svc_eq: "px_svcPortMap example_tables = [(example_spn, NftServicePort example_info)]"
  unfolding example_tables_fields example_sct1_def example_px0_fields by code_simp

lemma example_eps:
  "list_ex usable (get_or [] (px_endpointsMap example_tables) example_spn) \<and>
   distinct (map Endpoint_String (get_or [] (px_endpointsMap example_tables) example_spn)) \<and>
   list_all (\<lambda>x. list_all is_nft (snd x)) (px_endpointsMap example_tables)"
  unfolding example_tables_fields example_em_def example_ect1_def example_px0_fields by code_simp

lemma example_info_facts: "sp_internalTrafficChain (svcPlan example_info c) = ''service-ULMVA6XW-ns/dns/udp/p''"
  "\<not> bsp_internalPolicyLocal (spi_BaseServicePortInfo example_info)"
  "IP_String (bsp_clusterIP (spi_BaseServicePortInfo example_info)) = ''10.0.0.10''"
  "ToLower (bsp_protocol (spi_BaseServicePortInfo example_info)) = ''udp''" "Itoa (bsp_port (spi_BaseServicePortInfo example_info)) = ''53''"
proof -
  have l: "\<not> bsp_internalPolicyLocal (spi_BaseServicePortInfo example_info)" by code_simp
  have "spi_clusterPolicyChainName example_info = ''service-ULMVA6XW-ns/dns/udp/p''" by code_simp
  with l show "sp_internalTrafficChain (svcPlan example_info c) = ''service-ULMVA6XW-ns/dns/udp/p''" by (simp add: svcPlan_def Let_def)
  show "IP_String (bsp_clusterIP (spi_BaseServicePortInfo example_info)) = ''10.0.0.10''"
    "ToLower (bsp_protocol (spi_BaseServicePortInfo example_info)) = ''udp''" "Itoa (bsp_port (spi_BaseServicePortInfo example_info)) = ''53''"
    by code_simp+
qed (code_simp)

definition example_cat :: categories where
  "example_cat = svcCategories example_proxy_env example_input example_tables example_spn example_info"

lemma example_goto:
  "(ServiceIPs, [''10.0.0.10'', ''udp'', ''53''], [''goto '' @ ''service-ULMVA6XW-ns/dns/udp/p'']) \<in>
     set (captureIPs example_info (svcPlan example_info example_cat) @ captureRest example_info (svcPlan example_info example_cat))"
proof -
  have "cat_hasAny example_cat" using example_eps by (simp add: example_cat_def svcCategories_def hasAny_eq list_ex_iff)
  then have "sp_hasInternalEndpoints (svcPlan example_info example_cat)" by (simp add: svcPlan_def Let_def example_info_facts)
  then show ?thesis unfolding captureIPs_def Let_def example_info_facts by simp
qed

lemma example_stale: "''service-OLD/dns'' \<notin> svcChains example_proxy_env (example_at 0 existing) example_tables (example_spn, NftServicePort example_info)"
proof -
  have "list_all (\<lambda>ep. case ep of NftEndpoint e \<Rightarrow> epi_chainName e \<noteq> ''service-OLD/dns'' | BaseEndpoint _ \<Rightarrow> True) (get_or [] (px_endpointsMap example_tables) example_spn)"
    unfolding example_tables_fields example_em_def example_ect1_def example_px0_fields by code_simp
  then have "''service-OLD/dns'' \<notin> endpointChains (get_or [] (px_endpointsMap example_tables) example_spn)"
    by (auto simp: endpointChains_def list_all_iff)
  moreover have "set (cat_all c) \<subseteq> set (get_or [] (px_endpointsMap example_tables) example_spn)"
    if "c = svcCategories example_proxy_env (example_at 0 existing) example_tables example_spn example_info" for c
    using all_eq [of "get_or [] (px_endpointsMap example_tables) example_spn" "si_allOrder (example_at 0 existing)"] example_eps categories_subset
    by (simp add: that svcCategories_def distinct_map example_at_def)
  ultimately have "''service-OLD/dns'' \<notin> endpointChains (cat_all (svcCategories example_proxy_env (example_at 0 existing) example_tables example_spn example_info))"
    by (auto simp: endpointChains_def)
  moreover have "''service-OLD/dns'' \<notin> {spi_clusterPolicyChainName example_info, spi_localPolicyChainName example_info,
      spi_externalChainName example_info, spi_firewallChainName example_info}" by code_simp
  ultimately show ?thesis by (auto simp: svcChains_def usedChains_def Let_def)
qed

text \<open>The chain of the cluster IP is active.\<close>

theorem chain_targets_active_witness:
  "\<exists>tx st px'. buildTransaction example_proxy_env example_input False [] example_tables = Inr (tx, st, px') \<and>
     ''service-ULMVA6XW-ns/dns/udp/p'' \<in> set (sy_activeChains st)"
proof -
  have "all_nft (px_endpointsMap example_tables)"
  proof -
    have "list_all is_nft eps" if "map_of (px_endpointsMap example_tables) k = Some eps" for k eps
      using map_of_SomeD [OF that] example_eps unfolding list_all_iff by fastforce
    then show ?thesis unfolding all_nft_def get_or_def by (simp split: option.split)
  qed
  moreover have "cidrs_ok example_tables" using example_clients(2) by (simp add: cidrs_ok_def example_tables_def example_px3_def example_px1_def)
  ultimately obtain tx st px' where b: "buildTransaction example_proxy_env example_input False [] example_tables = Inr (tx, st, px')"
    using buildTransaction_total by blast
  have mem: "(example_spn, NftServicePort example_info) \<in> set (si_order example_input (px_svcPortMap example_tables))"
    by (simp add: example_svc_eq example_at_def)
  have inj: "inj_on Endpoint_String (set (get_or [] (px_endpointsMap example_tables) example_spn))"
    using example_eps by (simp add: distinct_map)
  have "set (si_allOrder example_input m) = set m" for m by (simp add: example_at_def)
  from chain_targets_active [OF b mem inj this refl, THEN conjunct1, rule_format, folded example_cat_def, OF example_goto]
  have "''service-ULMVA6XW-ns/dns/udp/p'' \<in> insert rejectChain (set (sy_activeChains st))" .
  moreover have "''service-ULMVA6XW-ns/dns/udp/p'' \<noteq> rejectChain" by code_simp
  ultimately show ?thesis using b by blast
qed

text \<open>A leftover chain is deleted by a synchronisation two seconds later.\<close>

theorem stale_chain_deleted_witness:
  "\<exists>px K effs px' effs' px'' tx. example_state px K \<and>
     syncProxyRules example_proxy_env (example_at 0 [''service-OLD/dns'']) px = Inr (effs, px') \<and>
     syncProxyRules example_proxy_env (example_at (2 * 10 ^ 9) []) px' = Inr (effs', px'') \<and>
     RunStale tx \<in> set effs' \<and> Delete (NChain ''service-OLD/dns'' None) \<in> set tx"
proof -
  obtain px K where st: "example_state px K" using example_first by blast
  obtain effs px' where s: "syncProxyRules example_proxy_env (example_at 0 [''service-OLD/dns'']) px = Inr (effs, px')"
    and st': "example_state px' (kernel_after (example_at 0 [''service-OLD/dns'']) effs K)" using example_next [OF st] by blast
  obtain effs' px'' where s': "syncProxyRules example_proxy_env (example_at (2 * 10 ^ 9) []) px' = Inr (effs', px'')"
    using example_next [OF st'] by blast
  have r: "px_reach example_proxy_env example_px0 example_svcs (report example_b1 False Map.empty) px K" "px_initialized px"
    using st unfolding example_state_def by blast+
  have t: "px_svcPortMap px' = px_svcPortMap example_tables" "px_endpointsMap px' = px_endpointsMap example_tables" "px_nodeLabels px' = px_nodeLabels example_tables"
    using st' unfolding example_state_def by blast+
  have "\<not> (\<exists>x\<in>set (si_order (example_at 0 [''service-OLD/dns'']) (px_svcPortMap px')).
      ''service-OLD/dns'' \<in> svcChains example_proxy_env (example_at 0 [''service-OLD/dns'']) px' x)"
    unfolding svcChains_same [OF t(2,3)] t(1) example_svc_eq using example_stale by (simp add: example_at_def)
  moreover have "isServiceChainName ''service-OLD/dns''" by code_simp
  ultimately have "\<exists>tx. RunStale tx \<in> set effs' \<and> Delete (NChain ''service-OLD/dns'' None) \<in> set tx"
    using stale_chain_deleted [OF r s _ _ _ events_between.Same s', of "[''service-OLD/dns'']" "''service-OLD/dns''"] by (simp add: example_at_def)
  with st s s' show ?thesis by blast
qed

text \<open>The second synchronisation of the run writes no rule.\<close>

theorem partial_sync_keeps_weights_witness:
  "\<exists>px K effs px' tx. example_state px K \<and> syncProxyRules example_proxy_env example_input px = Inr (effs, px') \<and> Run tx \<in> set effs \<and>
     (\<forall>chain rule. Add (NRule chain rule) \<notin> set tx)"
proof -
  obtain px K where st: "example_state px K" using example_first by blast
  obtain effs px' where s: "syncProxyRules example_proxy_env example_input px = Inr (effs, px')" using example_next [OF st] by blast
  have "px_initialized px" using st unfolding example_state_def by blast
  then obtain tx where run: "Run tx \<in> set effs" by (rule syncProxyRules_cases [OF s]) auto
  have "Add (NRule chain rule) \<notin> set tx" for chain rule
    by (rule partial_sync_keeps_weights [THEN conjunct1, OF _ _ s _ _ run]) (use st in \<open>unfold example_state_def, blast\<close>)+
  with st s run show ?thesis by blast
qed

end
