(* ===== verification/Health_Check.thy ===== *)
theory Health_Check
  imports Nft_Correct "HOL-Library.Multiset"
begin

text \<open>
  The health servers of \<open>wao-loadbalancer/pkg/proxy/healthcheck\<close> and the node handlers of \<open>node.go\<close>: the sockets
  opened for services with a health check node port, the answers they give, and the health of the
  proxiers by the time of their oldest update that is not yet processed. What \<open>Listen\<close> answers may depend on
  all calls made before; the orders in which maps are visited are parameters.
\<close>

section \<open>Sockets of services\<close>

datatype hc_call = Listened string | Closed string

record hcInstance =
  hci_nsn :: NamespacedName
  hci_port :: int
  hci_httpServers :: "string list"
  hci_endpoints :: int

record server =
  hcs_hostname :: string
  hcs_nodeIPs :: "IP list"
  hcs_services :: "(NamespacedName, hcInstance) gomap"

definition newServiceHealthServer :: "util_env \<Rightarrow> net_Addr list result \<Rightarrow> string \<Rightarrow> NodePortAddresses \<Rightarrow> server result" where
  "newServiceHealthServer env addrs hostname npa =
     (let mk = (\<lambda>ips. \<lparr>hcs_hostname = hostname, hcs_nodeIPs = ips, hcs_services = []\<rparr>); all = [Some ''0.0.0.0'']
      in if \<not> npa_matchAll npa
         then (case GetNodeIPs env addrs npa of
                 Inr ips \<Rightarrow> Inr (mk ips)
               | Inl e \<Rightarrow> if is_panic e then Inl e else Inr (mk all))
         else Inr (mk all))"

definition closeAll :: "hcInstance \<Rightarrow> hc_call list" where
  "closeAll hcI = map Closed (hci_httpServers hcI)"

definition hcAddr :: "int \<Rightarrow> IP \<Rightarrow> string" where
  "hcAddr port ip = JoinHostPort (IP_String ip) (Itoa port)"

fun listenLoop ::
  "(hc_call list \<Rightarrow> string \<Rightarrow> goerr option) \<Rightarrow> IP list \<Rightarrow> hcInstance \<Rightarrow> hc_call list \<Rightarrow> hc_call list \<times> hcInstance result" where
  "listenLoop Listen [] hcI calls = (calls, Inr hcI)"
| "listenLoop Listen (ip # ips) hcI calls =
     (let addr = hcAddr (hci_port hcI) ip
      in case Listen calls addr of
           Some err \<Rightarrow> (calls @ closeAll hcI, Inl err)
         | None \<Rightarrow> listenLoop Listen ips (hcI\<lparr>hci_httpServers := hci_httpServers hcI @ [addr]\<rparr>) (calls @ [Listened addr]))"

definition listenAndServeAll where
  "listenAndServeAll Listen nodeIPs hcI calls = listenLoop Listen nodeIPs (hcI\<lparr>hci_httpServers := []\<rparr>) calls"

definition closeStale ::
  "(NamespacedName, int) gomap \<Rightarrow> NamespacedName \<times> hcInstance \<Rightarrow> hc_call list \<times> (NamespacedName, hcInstance) gomap \<Rightarrow>
   hc_call list \<times> (NamespacedName, hcInstance) gomap" where
  "closeStale newServices x st =
     (let (nsn, svc) = x; (calls, services) = st
      in if map_of newServices nsn \<noteq> Some (hci_port svc) then (calls @ closeAll svc, AList.delete nsn services) else st)"

definition openNew ::
  "(hc_call list \<Rightarrow> string \<Rightarrow> goerr option) \<Rightarrow> IP list \<Rightarrow> NamespacedName \<times> int \<Rightarrow> hc_call list \<times> (NamespacedName, hcInstance) gomap \<Rightarrow>
   hc_call list \<times> (NamespacedName, hcInstance) gomap" where
  "openNew Listen nodeIPs x st =
     (let (nsn, port) = x; (calls, services) = st
      in if map_of services nsn \<noteq> None then st
         else (case listenAndServeAll Listen nodeIPs \<lparr>hci_nsn = nsn, hci_port = port, hci_httpServers = [], hci_endpoints = 0\<rparr> calls of
                 (calls, Inl err) \<Rightarrow> (calls, services)
               | (calls, Inr svc) \<Rightarrow> (calls, AList.update nsn svc services)))"

definition hc_SyncServices where
  "hc_SyncServices Listen ord1 ord2 newServices hcs =
     (let st = fold (closeStale newServices) (ord1 (hcs_services hcs)) ([], hcs_services hcs);
          (calls, services) = fold (openNew Listen (hcs_nodeIPs hcs)) (ord2 newServices) st
      in (calls, hcs\<lparr>hcs_services := services\<rparr>))"

definition hc_SyncEndpoints :: "(NamespacedName, int) gomap \<Rightarrow> server \<Rightarrow> server" where
  "hc_SyncEndpoints newEndpoints hcs =
     (let services = fold (\<lambda>(nsn, count) services.
            if map_of services nsn = None then services
            else AList.map_entry nsn (\<lambda>hci. hci\<lparr>hci_endpoints := count\<rparr>) services) newEndpoints (hcs_services hcs)
      in hcs\<lparr>hcs_services := map (\<lambda>(nsn, hci).
            (nsn, if map_of newEndpoints nsn = None then hci\<lparr>hci_endpoints := 0\<rparr> else hci)) services\<rparr>)"

text \<open>
  The answer: status, the weight header and the values printed in the body. Without any write the status is
  200. The health server is a pointer that is nil when \<open>healthzBindAddress\<close> is empty; reading its lock panics.
\<close>

record hc_response =
  hr_status :: int
  hr_weight :: "string option"
  hr_body :: "(NamespacedName \<times> int \<times> bool) option"

definition hc_ServeHTTP :: "bool option \<Rightarrow> NamespacedName \<Rightarrow> server \<Rightarrow> hc_response result" where
  "hc_ServeHTTP healthzServer name hcs =
     (case map_of (hcs_services hcs) name of
        None \<Rightarrow> Inr \<lparr>hr_status = 200, hr_weight = None, hr_body = None\<rparr>
      | Some svc \<Rightarrow>
          (let count = hci_endpoints svc
           in case healthzServer of
                None \<Rightarrow> Inl (Panic ''nil healthzServer'')
              | Some kubeProxyHealthy \<Rightarrow>
                  Inr \<lparr>hr_status = (if count \<noteq> 0 \<and> kubeProxyHealthy then 200 else 503), hr_weight = Some (Itoa count),
                       hr_body = Some (name, count, kubeProxyHealthy)\<rparr>))"

text \<open>
  A request for a health check that was just closed is answered 200, and one that finds its instance panics
  when there is no health server.
\<close>

lemma hc_ServeHTTP_closed:
  "map_of (hcs_services hcs) name = None \<Longrightarrow> hc_ServeHTTP h name hcs = Inr \<lparr>hr_status = 200, hr_weight = None, hr_body = None\<rparr>"
  by (simp add: hc_ServeHTTP_def)

lemma hc_ServeHTTP_nil: "map_of (hcs_services hcs) name = Some svc \<Longrightarrow> \<exists>m. hc_ServeHTTP None name hcs = Inl (Panic m)"
  by (simp add: hc_ServeHTTP_def Let_def)

section \<open>Health of the proxiers\<close>

record ProxierHealthServer =
  phs_healthTimeout :: int
  phs_lastUpdatedMap :: "(string, int) gomap"
  phs_oldestPendingQueuedMap :: "(string, int) gomap"
  phs_nodeEligible :: bool

definition newProxierHealthServer :: "int \<Rightarrow> ProxierHealthServer" where
  "newProxierHealthServer healthTimeout =
     \<lparr>phs_healthTimeout = healthTimeout, phs_lastUpdatedMap = [], phs_oldestPendingQueuedMap = [], phs_nodeEligible = True\<rparr>"

definition Updated :: "int \<Rightarrow> string \<Rightarrow> ProxierHealthServer \<Rightarrow> ProxierHealthServer" where
  "Updated now ipFamily hs =
     hs\<lparr>phs_oldestPendingQueuedMap := AList.delete ipFamily (phs_oldestPendingQueuedMap hs),
        phs_lastUpdatedMap := AList.update ipFamily now (phs_lastUpdatedMap hs)\<rparr>"

definition QueuedUpdate :: "int \<Rightarrow> string \<Rightarrow> ProxierHealthServer \<Rightarrow> ProxierHealthServer" where
  "QueuedUpdate now ipFamily hs =
     (if map_of (phs_oldestPendingQueuedMap hs) ipFamily = None
      then hs\<lparr>phs_oldestPendingQueuedMap := AList.update ipFamily now (phs_oldestPendingQueuedMap hs)\<rparr> else hs)"

text \<open>The loop of \<open>isHealthy\<close>; the time \<open>None\<close> is the zero value of \<open>time.Time\<close>.\<close>

fun healthLoop :: "int \<Rightarrow> int \<Rightarrow> (string, int) gomap \<Rightarrow> (string, int) gomap \<Rightarrow> int option \<Rightarrow> bool \<times> int option" where
  "healthLoop now healthTimeout pending [] lastUpdated = (True, lastUpdated)"
| "healthLoop now healthTimeout pending ((ipFamily, proxierLastUpdated) # rest) lastUpdated =
     (let lastUpdated = (case lastUpdated of None \<Rightarrow> Some proxierLastUpdated
                         | Some t \<Rightarrow> if proxierLastUpdated > t then Some proxierLastUpdated else Some t)
      in case map_of pending ipFamily of
           None \<Rightarrow> healthLoop now healthTimeout pending rest lastUpdated
         | Some queued \<Rightarrow>
             if now - queued < healthTimeout then healthLoop now healthTimeout pending rest lastUpdated
             else (False, Some proxierLastUpdated))"

definition isHealthy where
  "isHealthy now order hs =
     healthLoop now (phs_healthTimeout hs) (phs_oldestPendingQueuedMap hs) (order (phs_lastUpdatedMap hs)) None"

definition IsHealthy where
  "IsHealthy now order hs = fst (isHealthy now order hs)"

definition ToBeDeletedTaint :: string where
  "ToBeDeletedTaint = ''ToBeDeletedByClusterAutoscaler''"

record v1_Node =
  vn_Deleted :: bool
  vn_TaintKeys :: "string list"
  vn_PodCIDRs :: "string list option"

definition SyncNode :: "v1_Node \<Rightarrow> ProxierHealthServer \<Rightarrow> ProxierHealthServer" where
  "SyncNode node hs =
     (if vn_Deleted node then hs\<lparr>phs_nodeEligible := False\<rparr>
      else if list_ex (\<lambda>key. key = ToBeDeletedTaint) (vn_TaintKeys node) then hs\<lparr>phs_nodeEligible := False\<rparr>
      else hs\<lparr>phs_nodeEligible := True\<rparr>)"

text \<open>Status and reported time of the two handlers.\<close>

definition healthz_ServeHTTP where
  "healthz_ServeHTTP now order hs =
     (let nodeEligible = phs_nodeEligible hs; (healthy, lastUpdated) = isHealthy now order hs;
          healthy = (healthy \<and> nodeEligible)
      in if \<not> healthy then (503 :: int, lastUpdated, nodeEligible) else (200, Some now, nodeEligible))"

definition livez_ServeHTTP where
  "livez_ServeHTTP now order hs =
     (let (healthy, lastUpdated) = isHealthy now order hs
      in if \<not> healthy then (503 :: int, lastUpdated) else (200, Some now))"

section \<open>Node handlers\<close>

text \<open>
  A slice is \<open>None\<close> when it is nil, which \<open>reflect.DeepEqual\<close> tells from an empty one. The handlers return
  \<open>None\<close> when the process exits.
\<close>

abbreviation go_len :: "'a list option \<Rightarrow> nat" where
  "go_len s \<equiv> (case s of None \<Rightarrow> 0 | Some xs \<Rightarrow> length xs)"

definition PodCIDR_OnNodeAdd :: "v1_Node \<Rightarrow> string list option \<Rightarrow> string list option option" where
  "PodCIDR_OnNodeAdd node n_podCIDRs =
     (let podCIDRs = vn_PodCIDRs node
      in if go_len n_podCIDRs = 0 \<and> go_len podCIDRs > 0 then Some podCIDRs
         else if n_podCIDRs \<noteq> podCIDRs then None else Some n_podCIDRs)"

definition PodCIDR_OnNodeUpdate :: "v1_Node \<Rightarrow> string list option \<Rightarrow> string list option option" where
  "PodCIDR_OnNodeUpdate node n_podCIDRs =
     (let podCIDRs = vn_PodCIDRs node
      in if go_len n_podCIDRs = 0 \<and> go_len podCIDRs > 0 then Some podCIDRs
         else if n_podCIDRs \<noteq> podCIDRs then None else Some n_podCIDRs)"

definition Eligible_OnNode :: "v1_Node \<Rightarrow> ProxierHealthServer \<Rightarrow> ProxierHealthServer" where
  "Eligible_OnNode node hs = SyncNode node hs"

section \<open>Sockets are neither leaked nor closed twice\<close>

text \<open>The open sockets, by the calls made.\<close>

definition open_after :: "hc_call list \<Rightarrow> string multiset \<Rightarrow> string multiset" where
  "open_after calls M = fold (\<lambda>c M. case c of Listened a \<Rightarrow> add_mset a M | Closed a \<Rightarrow> M - {#a#}) calls M"

definition sockets :: "(NamespacedName, hcInstance) gomap \<Rightarrow> string multiset" where
  "sockets services = mset (concat (map (\<lambda>(_, svc). hci_httpServers svc) services))"

lemma open_after_append [simp]: "open_after (c @ d) M = open_after d (open_after c M)"
  by (simp add: open_after_def)

lemma open_after_Listened [simp]: "open_after [Listened a] M = add_mset a M"
  by (simp add: open_after_def)

lemma open_after_closeAll: "open_after (closeAll hcI) M = M - mset (hci_httpServers hcI)"
proof -
  have "open_after (map Closed as) M = M - mset as" for as
    by (induction as arbitrary: M) (simp_all add: open_after_def)
  then show ?thesis by (simp add: closeAll_def)
qed

lemma listenLoop_cases:
  assumes "listenLoop Listen ips hcI calls = (calls', r)"
  shows "(r = Inr (hcI\<lparr>hci_httpServers := hci_httpServers hcI @ map (hcAddr (hci_port hcI)) ips\<rparr>) \<and>
      open_after calls' M = open_after calls M + mset (map (hcAddr (hci_port hcI)) ips)) \<or>
    (isErr r \<and> open_after calls' M = open_after calls M - mset (hci_httpServers hcI) \<and>
     (\<exists>c ip. ip \<in> set ips \<and> Listen c (hcAddr (hci_port hcI) ip) \<noteq> None))"
  using assms
proof (induction Listen ips hcI calls rule: listenLoop.induct)
  case (2 Listen ip ips hcI calls)
  define addr where "addr = hcAddr (hci_port hcI) ip"
  show ?case
  proof (cases "Listen calls addr")
    case None
    define hcI' where "hcI' = hcI\<lparr>hci_httpServers := hci_httpServers hcI @ [addr]\<rparr>"
    have "(r = Inr (hcI'\<lparr>hci_httpServers := hci_httpServers hcI' @ map (hcAddr (hci_port hcI')) ips\<rparr>) \<and>
      open_after calls' M = open_after (calls @ [Listened addr]) M + mset (map (hcAddr (hci_port hcI')) ips)) \<or>
      (isErr r \<and> open_after calls' M = open_after (calls @ [Listened addr]) M - mset (hci_httpServers hcI') \<and>
      (\<exists>c ip. ip \<in> set ips \<and> Listen c (hcAddr (hci_port hcI') ip) \<noteq> None))"
      unfolding hcI'_def using "2.IH" [OF addr_def] "2.prems" None by (simp add: addr_def Let_def)
    then show ?thesis by (auto simp: hcI'_def addr_def)
  next
    case (Some err)
    with 2 have "calls' = calls @ closeAll hcI" "r = Inl err" by (simp_all add: addr_def)
    moreover have "\<exists>c i. i \<in> set (ip # ips) \<and> Listen c (hcAddr (hci_port hcI) i) \<noteq> None"
      using Some addr_def by (metis list.set_intros(1) option.distinct(1))
    ultimately show ?thesis by (simp add: open_after_closeAll)
  qed
qed simp

lemma sockets_delete:
  assumes "wf_map S" "map_of S n = Some svc"
  shows "sockets (AList.delete n S) = sockets S - mset (hci_httpServers svc)"
proof -
  have "sockets S = sockets (AList.delete n S) + mset (hci_httpServers svc)"
    using assms by (induction S) (auto simp: sockets_def map_of_eq_None_iff delete_idem)
  then show ?thesis by simp
qed

lemma sockets_update: "map_of S n = None \<Longrightarrow> sockets (AList.update n svc S) = sockets S + mset (hci_httpServers svc)"
  by (induction S) (auto simp: sockets_def split: if_splits)

text \<open>What every step keeps: the keys are distinct and the open sockets are those of the instances.\<close>

definition hc_inv :: "string multiset \<Rightarrow> hc_call list \<times> (NamespacedName, hcInstance) gomap \<Rightarrow> bool" where
  "hc_inv M st \<longleftrightarrow> wf_map (snd st) \<and> open_after (fst st) M = sockets (snd st)"

lemma closeStale_inv:
  assumes "hc_inv M st" "map_of (snd st) n = Some svc"
  shows "hc_inv M (closeStale new (n, svc) st)"
    "map_of (snd (closeStale new (n, svc) st)) m =
      (if m = n \<and> map_of new n \<noteq> Some (hci_port svc) then None else map_of (snd st) m)"
  using assms by (cases st; simp add: hc_inv_def closeStale_def open_after_closeAll sockets_delete)+

lemma fold_closeStale:
  assumes "hc_inv M st" "wf_map L" "\<forall>(n, svc)\<in>set L. map_of (snd st) n = Some svc"
  shows "hc_inv M (fold (closeStale new) L st) \<and>
    map_of (snd (fold (closeStale new) L st)) m =
      (case map_of L m of Some svc \<Rightarrow> if map_of new m \<noteq> Some (hci_port svc) then None else Some svc | None \<Rightarrow> map_of (snd st) m)"
  using assms
proof (induction L arbitrary: st)
  case (Cons x L)
  obtain n svc where x: "x = (n, svc)" by (cases x)
  note step = closeStale_inv [of M st n svc new]
  have "map_of L n = None" using Cons.prems(2) by (simp add: x map_of_eq_None_iff)
  moreover have "\<forall>(k, v)\<in>set L. map_of (snd (closeStale new x st)) k = Some v"
    using Cons.prems step(2) by (force simp: x)
  ultimately show ?case
    using Cons.IH [of "closeStale new x st"] Cons.prems step by (auto simp: x split: option.split)
qed simp

definition hc_new :: "NamespacedName \<Rightarrow> int \<Rightarrow> IP list \<Rightarrow> hcInstance" where
  "hc_new nsn port ips = \<lparr>hci_nsn = nsn, hci_port = port, hci_httpServers = map (hcAddr port) ips, hci_endpoints = 0\<rparr>"

definition listen_fails :: "(hc_call list \<Rightarrow> string \<Rightarrow> goerr option) \<Rightarrow> int \<Rightarrow> IP list \<Rightarrow> bool" where
  "listen_fails Listen port ips \<longleftrightarrow> (\<exists>c ip. ip \<in> set ips \<and> Listen c (hcAddr port ip) \<noteq> None)"

text \<open>What becomes of the instance of a service, with the port requested for it.\<close>

definition opened where
  "opened Listen ips n req old new \<longleftrightarrow>
     (case (old, req) of
        (Some svc, _) \<Rightarrow> new = Some svc
      | (None, None) \<Rightarrow> new = None
      | (None, Some port) \<Rightarrow> new = Some (hc_new n port ips) \<or> new = None \<and> listen_fails Listen port ips)"

lemma openNew_inv:
  assumes "hc_inv M st"
  shows "hc_inv M (openNew Listen ips (n, port) st) \<and>
    opened Listen ips m (if m = n then Some port else None) (map_of (snd st) m) (map_of (snd (openNew Listen ips (n, port) st)) m)"
proof -
  obtain calls S where st: "st = (calls, S)" by (cases st)
  show ?thesis
  proof (cases "map_of S n")
    case (Some svc)
    with assms show ?thesis by (auto simp: st openNew_def opened_def split: option.split)
  next
    case None
    define svc0 where "svc0 = \<lparr>hci_nsn = n, hci_port = port, hci_httpServers = [], hci_endpoints = 0\<rparr>"
    obtain calls' r where l: "listenAndServeAll Listen ips svc0 calls = (calls', r)" by (metis prod.exhaust)
    have "r = Inr (hc_new n port ips) \<and> open_after calls' M = open_after calls M + mset (map (hcAddr port) ips) \<or>
        isErr r \<and> open_after calls' M = open_after calls M \<and> listen_fails Listen port ips"
      using listenLoop_cases [of Listen ips "svc0" calls calls' r M] l
      by (simp add: listenAndServeAll_def svc0_def hc_new_def listen_fails_def)
    then consider "r = Inr (hc_new n port ips)" "open_after calls' M = open_after calls M + mset (map (hcAddr port) ips)"
      | e where "r = Inl e" "open_after calls' M = open_after calls M" "listen_fails Listen port ips"
      by (cases r) auto
    then show ?thesis
    proof cases
      case 1
      then have "openNew Listen ips (n, port) st = (calls', AList.update n (hc_new n port ips) S)"
        using l None by (simp add: st openNew_def svc0_def)
      then show ?thesis
        using assms 1 None by (auto simp: st hc_inv_def sockets_update hc_new_def opened_def split: option.split)
    next
      case 2
      then have "openNew Listen ips (n, port) st = (calls', S)" using l None by (simp add: st openNew_def svc0_def)
      then show ?thesis using assms 2 None by (auto simp: st hc_inv_def opened_def split: option.split)
    qed
  qed
qed

lemma fold_openNew:
  assumes "hc_inv M st" "wf_map L"
  shows "hc_inv M (fold (openNew Listen ips) L st) \<and>
    opened Listen ips m (map_of L m) (map_of (snd st) m) (map_of (snd (fold (openNew Listen ips) L st)) m)"
  using assms
proof (induction L arbitrary: st)
  case Nil
  then show ?case by (auto simp: opened_def split: option.split)
next
  case (Cons x L)
  obtain n port where x: "x = (n, port)" by (cases x)
  note step = openNew_inv [OF Cons.prems(1), of Listen ips n port m]
  have "map_of L n = None" using Cons.prems(2) by (simp add: x map_of_eq_None_iff)
  moreover have "hc_inv M (fold (openNew Listen ips) L (openNew Listen ips x st)) \<and>
    opened Listen ips m (map_of L m) (map_of (snd (openNew Listen ips x st)) m)
      (map_of (snd (fold (openNew Listen ips) L (openNew Listen ips x st))) m)"
    using Cons.prems step by (intro Cons.IH) (simp_all add: x)
  ultimately show ?case
    using step by (cases "m = n") (auto simp: x opened_def split: option.splits)
qed

text \<open>A map visited in any order is the same map.\<close>

lemma wf_map_mset:
  assumes "mset l = mset m" "wf_map m"
  shows "wf_map l" "map_of l = map_of m"
proof -
  have "mset (map fst l) = mset (map fst m)" using assms(1) by (metis mset_map)
  then show d: "wf_map l" using assms(2) by (metis mset_eq_imp_distinct_iff)
  show "map_of l = map_of m" by (rule map_of_inject_set [THEN iffD2, OF d assms(2)]) (metis assms(1) set_mset_mset)
qed

text \<open>The instance that stays: one that is open on the requested port.\<close>

definition kept :: "int option \<Rightarrow> hcInstance option \<Rightarrow> hcInstance option" where
  "kept req old = (case old of Some svc \<Rightarrow> if req = Some (hci_port svc) then Some svc else None | None \<Rightarrow> None)"

lemma SyncServices_opened:
  assumes "wf_map (hcs_services hcs)" "wf_map newServices"
    "mset (ord1 (hcs_services hcs)) = mset (hcs_services hcs)" "mset (ord2 newServices) = mset newServices"
    "hc_SyncServices Listen ord1 ord2 newServices hcs = (calls, hcs')"
  shows "wf_map (hcs_services hcs') \<and> open_after calls (sockets (hcs_services hcs)) = sockets (hcs_services hcs') \<and>
    opened Listen (hcs_nodeIPs hcs) n (map_of newServices n) (kept (map_of newServices n) (map_of (hcs_services hcs) n))
      (map_of (hcs_services hcs') n)"
proof -
  define M where "M = sockets (hcs_services hcs)"
  define st where "st = fold (closeStale newServices) (ord1 (hcs_services hcs)) ([], hcs_services hcs)"
  have 1: "wf_map (ord1 (hcs_services hcs))" "map_of (ord1 (hcs_services hcs)) = map_of (hcs_services hcs)"
    "set (ord1 (hcs_services hcs)) = set (hcs_services hcs)"
    using wf_map_mset [OF assms(3,1)] assms(3) mset_eq_setD by auto
  have 2: "wf_map (ord2 newServices)" "map_of (ord2 newServices) = map_of newServices"
    using wf_map_mset [OF assms(4,2)] by simp_all
  have "hc_inv M ([], hcs_services hcs)" using assms(1) by (simp add: hc_inv_def M_def open_after_def)
  then have st: "hc_inv M st" "map_of (snd st) n = kept (map_of newServices n) (map_of (hcs_services hcs) n)"
    using fold_closeStale [of M "([], hcs_services hcs)" "ord1 (hcs_services hcs)" newServices n] 1 assms(1)
    by (auto simp: st_def kept_def split: option.splits)
  have "(calls, hcs_services hcs') = fold (openNew Listen (hcs_nodeIPs hcs)) (ord2 newServices) st"
    using assms(5) by (auto simp: hc_SyncServices_def st_def [symmetric] split_beta Let_def)
  with fold_openNew [OF st(1) 2(1), of Listen "hcs_nodeIPs hcs" n] show ?thesis
    by (simp add: 2 st(2) hc_inv_def M_def) (metis fst_conv snd_conv)
qed

text \<open>
  C13. \<open>SyncServices\<close> makes the requested services the open ones: whatever the visiting orders, a service
  that is not requested has no instance afterwards, one open on the requested port is left alone with
  its sockets and its count, any other requested service gets a new instance with one socket per node
  address and no endpoints yet, unless listening on one of its addresses fails. And the sockets the calls
  leave open are exactly those of the instances: a failed service leaves none behind, so no socket is leaked.
\<close>

theorem hc_SyncServices_exact:
  assumes "wf_map (hcs_services hcs)" "wf_map newServices"
    "mset (ord1 (hcs_services hcs)) = mset (hcs_services hcs)" "mset (ord2 newServices) = mset newServices"
    "hc_SyncServices Listen ord1 ord2 newServices hcs = (calls, hcs')"
  shows "wf_map (hcs_services hcs') \<and> open_after calls (sockets (hcs_services hcs)) = sockets (hcs_services hcs') \<and>
    opened Listen (hcs_nodeIPs hcs) n (map_of newServices n) (kept (map_of newServices n) (map_of (hcs_services hcs) n))
      (map_of (hcs_services hcs') n)"
  using SyncServices_opened [OF assms] .

definition example_nsn :: "string \<Rightarrow> NamespacedName" where
  "example_nsn name = \<lparr>nn_Namespace = ''ns'', nn_Name = name\<rparr>"

definition example_server :: server where
  "example_server = \<lparr>hcs_hostname = ''n1'', hcs_nodeIPs = [Some ''10.0.0.1'', Some ''10.0.0.2''],
     hcs_services = [(example_nsn ''a'', (hc_new (example_nsn ''a'') 81 [Some ''10.0.0.1'', Some ''10.0.0.2''])\<lparr>hci_endpoints := 3\<rparr>),
       (example_nsn ''b'', hc_new (example_nsn ''b'') 82 [Some ''10.0.0.1'', Some ''10.0.0.2''])]\<rparr>"

text \<open>Listening on port 84 works on the first address only.\<close>

definition example_listen :: "hc_call list \<Rightarrow> string \<Rightarrow> goerr option" where
  "example_listen calls addr = (if addr = ''10.0.0.2:84'' then Some (External ''in use'') else None)"

definition example_synced where
  "example_synced = hc_SyncServices example_listen rev rev
     [(example_nsn ''a'', 81), (example_nsn ''b'', 83), (example_nsn ''c'', 84)] example_server"

text \<open>\<open>a\<close> stays with its count, \<open>b\<close> moves to its new port, and \<open>c\<close> fails and leaves no socket.\<close>

theorem hc_SyncServices_exact_witness:
  "open_after (fst example_synced) (sockets (hcs_services example_server)) = sockets (hcs_services (snd example_synced)) \<and>
   map (\<lambda>(n, svc). (nn_Name n, hci_port svc, hci_endpoints svc)) (hcs_services (snd example_synced)) = [(''a'', 81, 3), (''b'', 83, 0)] \<and>
   fst example_synced = [Closed ''10.0.0.1:82'', Closed ''10.0.0.2:82'', Listened ''10.0.0.1:84'', Closed ''10.0.0.1:84'',
     Listened ''10.0.0.1:83'', Listened ''10.0.0.2:83'']"
proof (intro conjI)
  have wf: "wf_map (hcs_services example_server)" "wf_map [(example_nsn ''a'', 81 :: int), (example_nsn ''b'', 83), (example_nsn ''c'', 84)]"
    by code_simp+
  show "open_after (fst example_synced) (sockets (hcs_services example_server)) = sockets (hcs_services (snd example_synced))"
    by (rule hc_SyncServices_exact [THEN conjunct2, THEN conjunct1, OF wf, of rev rev example_listen]) (simp_all add: example_synced_def)
  show "map (\<lambda>(n, svc). (nn_Name n, hci_port svc, hci_endpoints svc)) (hcs_services (snd example_synced)) = [(''a'', 81, 3), (''b'', 83, 0)]"
    by code_simp
  show "fst example_synced = [Closed ''10.0.0.1:82'', Closed ''10.0.0.2:82'', Listened ''10.0.0.1:84'', Closed ''10.0.0.1:84'',
     Listened ''10.0.0.1:83'', Listened ''10.0.0.2:83'']" by code_simp
qed

section \<open>What a load balancer is told\<close>

lemma map_of_map_key: "map_of (map (\<lambda>(k, v). (k, g k v)) m) n = map_option (g n) (map_of m n)"
  by (induction m) auto

lemma get_or_Ball: "\<forall>x\<in>set m. P (snd x) \<Longrightarrow> P z \<Longrightarrow> P (get_or z m k)"
  by (cases "map_of m k") (fastforce simp: get_or_def dest: map_of_SomeD)+

text \<open>The instance of a service after a synchronisation of the endpoints.\<close>

lemma map_of_SyncEndpoints:
  assumes "wf_map newEndpoints"
  shows "map_of (hcs_services (hc_SyncEndpoints newEndpoints hcs)) n =
    map_option (\<lambda>svc. svc\<lparr>hci_endpoints := get_or 0 newEndpoints n\<rparr>) (map_of (hcs_services hcs) n)"
proof -
  let ?step = "\<lambda>(nsn, count) services. if map_of services nsn = None then services
            else AList.map_entry nsn (\<lambda>hci. hci\<lparr>hci_endpoints := count\<rparr>) services"
  have "map_of (fold ?step L S) n = (case map_of L n of None \<Rightarrow> map_of S n
      | Some c \<Rightarrow> map_option (\<lambda>svc. svc\<lparr>hci_endpoints := c\<rparr>) (map_of S n))"
    if "wf_map L" for L :: "(NamespacedName, int) gomap" and S :: "(NamespacedName, hcInstance) gomap"
    using that
  proof (induction L arbitrary: S)
    case (Cons x L)
    obtain k c where x: "x = (k, c)" by (cases x)
    have "map_of L k = None" using Cons.prems by (simp add: x map_of_eq_None_iff)
    moreover have "map_of (?step x S) n = (if n = k then map_option (\<lambda>svc. svc\<lparr>hci_endpoints := c\<rparr>) (map_of S k) else map_of S n)"
      by (auto simp: x map_of_map_entry split: option.split)
    ultimately show ?case using Cons by (auto simp: x split: option.split)
  qed (simp split: option.split)
  from this [OF assms, of "hcs_services hcs"] show ?thesis
    by (cases "map_of newEndpoints n")
      (simp_all add: hc_SyncEndpoints_def Let_def get_or_def map_of_map_key option.map_comp comp_def option.map_ident del: map_of_eq_None_iff)
qed

text \<open>The addresses of the ready endpoints of a service on this node.\<close>

definition localReady :: "EndpointsMap \<Rightarrow> NamespacedName \<Rightarrow> string set" where
  "localReady em nn = {Endpoint_IP ep | k eps ep. (k, eps) \<in> set em \<and> spn_NamespacedName k = nn \<and> ep \<in> set eps \<and> IsReady ep \<and> IsLocal ep}"

lemma finite_localReady: "finite (localReady em nn)"
proof -
  have "localReady em nn \<subseteq> Endpoint_IP ` (\<Union>x\<in>set em. set (snd x))" by (force simp: localReady_def)
  then show ?thesis by (rule finite_subset) simp
qed

definition localStep where
  "localStep k ep localIPs =
     (if \<not> IsReady ep then localIPs
      else if IsLocal ep then
        (let nsn = spn_NamespacedName k
         in AList.update nsn (List.insert (Endpoint_IP ep) (get_or [] localIPs nsn)) localIPs)
      else localIPs)"

lemma localStep_fold:
  assumes "wf_map L" "\<forall>x\<in>set L. distinct (snd x)"
  shows "wf_map (fold (localStep k) eps L) \<and> (\<forall>x\<in>set (fold (localStep k) eps L). distinct (snd x)) \<and>
    set (get_or [] (fold (localStep k) eps L) nn) = set (get_or [] L nn) \<union> localReady [(k, eps)] nn"
  using assms
proof (induction eps arbitrary: L)
  case (Cons ep eps)
  have "distinct (get_or [] L n)" for n
    using Cons.prems(2) by (simp add: get_or_Ball)
  then have "wf_map (localStep k ep L) \<and> (\<forall>x\<in>set (localStep k ep L). distinct (snd x))"
    using Cons.prems(1,2) Ball_update [OF Cons.prems(2), of _ "List.insert (Endpoint_IP ep) (get_or [] L (spn_NamespacedName k))"]
    by (simp add: localStep_def Let_def)
  then have "wf_map (fold (localStep k) (ep # eps) L) \<and> (\<forall>x\<in>set (fold (localStep k) (ep # eps) L). distinct (snd x)) \<and>
    set (get_or [] (fold (localStep k) (ep # eps) L) nn) = set (get_or [] (localStep k ep L) nn) \<union> localReady [(k, eps)] nn"
    using Cons.IH [of "localStep k ep L"] by simp
  moreover have "set (get_or [] (localStep k ep L) nn) \<union> localReady [(k, eps)] nn = set (get_or [] L nn) \<union> localReady [(k, ep # eps)] nn"
    by (auto simp: localStep_def localReady_def Let_def)
  ultimately show ?case by simp
qed (simp add: localReady_def)

lemma LocalReadyEndpoints_card:
  "wf_map (LocalReadyEndpoints em)" "get_or 0 (LocalReadyEndpoints em) nn = int (card (localReady em nn))"
proof -
  have g: "getLocalReadyEndpointIPs em = fold (\<lambda>(k, eps). fold (localStep k) eps) em []"
    by (simp add: getLocalReadyEndpointIPs_def localStep_def [abs_def])
  have *: "wf_map (fold (\<lambda>(k, eps). fold (localStep k) eps) em L) \<and> (\<forall>x\<in>set (fold (\<lambda>(k, eps). fold (localStep k) eps) em L). distinct (snd x)) \<and>
      set (get_or [] (fold (\<lambda>(k, eps). fold (localStep k) eps) em L) nn) = set (get_or [] L nn) \<union> localReady em nn"
    if "wf_map L" "\<forall>x\<in>set L. distinct (snd x)" for L
    using that
  proof (induction em arbitrary: L)
    case (Cons x em)
    obtain k eps where x: "x = (k, eps)" by (cases x)
    have "localReady (x # em) nn = localReady [x] nn \<union> localReady em nn" by (auto simp: localReady_def)
    with Cons.IH [of "fold (localStep k) eps L"] localStep_fold [OF Cons.prems, of k eps nn] show ?case
      by (simp add: x Un_assoc)
  qed (simp add: localReady_def)
  let ?L = "getLocalReadyEndpointIPs em"
  have L: "wf_map ?L" "\<forall>x\<in>set ?L. distinct (snd x)" "set (get_or [] ?L nn) = localReady em nn"
    using * [of "[]"] by (simp_all add: g get_or_def [of _ "[]"])
  then show "wf_map (LocalReadyEndpoints em)"
    by (simp add: LocalReadyEndpoints_def comp_def split_beta)
  have "get_or 0 (LocalReadyEndpoints em) nn = int (length (get_or [] ?L nn))"
    by (simp add: LocalReadyEndpoints_def get_or_def map_of_map split: option.split)
  moreover have "distinct (get_or [] ?L nn)"
    using L(2) by (simp add: get_or_Ball)
  ultimately show "get_or 0 (LocalReadyEndpoints em) nn = int (card (localReady em nn))"
    using L(3) by (metis distinct_card)
qed

lemma wf_HealthCheckNodePorts: "wf_map (HealthCheckNodePorts sm)"
  unfolding HealthCheckNodePorts_def
  by (rule fold_invariant [where Q = "\<lambda>_. True"]) (auto split: prod.split)

section \<open>The servers under the nftables proxier\<close>

text \<open>What the effects of the proxier do to the two health servers.\<close>

definition health_effect where
  "health_effect Listen ord1 ord2 now e st =
     (let (hcs, hs) = st
      in case e of
           HealthzQueued ipFamily \<Rightarrow> (hcs, QueuedUpdate now ipFamily hs)
         | HealthzUpdated ipFamily \<Rightarrow> (hcs, Updated now ipFamily hs)
         | SyncServices newServices \<Rightarrow> (snd (hc_SyncServices Listen ord1 ord2 newServices hcs), hs)
         | SyncEndpoints newEndpoints \<Rightarrow> (hc_SyncEndpoints newEndpoints hcs, hs)
         | _ \<Rightarrow> (hcs, hs))"

definition health_after where
  "health_after Listen ord1 ord2 now effs st = fold (health_effect Listen ord1 ord2 now) effs st"

lemma health_quiet:
  "\<forall>e\<in>set effs. (\<exists>tx. e = RunStale tx \<or> e = Run tx) \<or> (\<exists>c. e = Conntrack c) \<Longrightarrow> health_after Listen ord1 ord2 now effs st = st"
  by (induction effs arbitrary: st) (auto simp: health_after_def health_effect_def)

lemma health_after_simps:
  "health_after Listen ord1 ord2 now [] st = st"
  "health_after Listen ord1 ord2 now (e # effs) st = health_after Listen ord1 ord2 now effs (health_effect Listen ord1 ord2 now e st)"
  "health_after Listen ord1 ord2 now (a @ b) st = health_after Listen ord1 ord2 now b (health_after Listen ord1 ord2 now a st)"
  by (simp_all add: health_after_def)

lemma syncProxyRules_health_effects:
  assumes "syncProxyRules env input px = Inr (effs, px')" "px_initialized px" "si_run input"
  obtains stale tx calls where "effs = stale @ [Run tx] @ (if px_healthzServer px' then [HealthzUpdated (px_ipFamily px')] else []) @
      [SyncServices (HealthCheckNodePorts (px_svcPortMap px')), SyncEndpoints (LocalReadyEndpoints (px_endpointsMap px'))] @ map Conntrack calls"
    "\<forall>e\<in>set stale. \<exists>tx. e = RunStale tx"
proof -
  obtain stale sr er tx px2 rest where e: "effs = stale @ rest" "finishSync env input sr er tx px2 = (rest, px')"
    "stale = fst (deleteStaleChains (si_start input) (px_staleChains px))"
    using assms(1,2)
    by (auto simp: syncProxyRules_def res_bind_Inr_iff Let_def split_beta prod_eq_iff split: sum.splits) (metis sum.exhaust old.unit.exhaust)
  have "\<forall>e\<in>set stale. \<exists>tx. e = RunStale tx" by (auto simp: e(3) deleteStaleChains_def Let_def)
  moreover have "effs = stale @ [Run tx] @ (if px_healthzServer px' then [HealthzUpdated (px_ipFamily px')] else []) @
      [SyncServices (HealthCheckNodePorts (px_svcPortMap px')), SyncEndpoints (LocalReadyEndpoints (px_endpointsMap px'))] @
      map Conntrack (CleanStaleEntries (pe_util env) (px_svcPortMap px') sr er)"
    using e(1,2) assms(3) by (auto simp: finishSync_def)
  ultimately show ?thesis using that by blast
qed

lemma sync_health_state:
  assumes "syncProxyRules env input px = Inr (effs, px')" "px_initialized px" "si_run input"
    "health_after Listen ord1 ord2 now effs (hcs, hs) = (hcs', hs')"
  shows "hcs' = hc_SyncEndpoints (LocalReadyEndpoints (px_endpointsMap px'))
      (snd (hc_SyncServices Listen ord1 ord2 (HealthCheckNodePorts (px_svcPortMap px')) hcs))"
    "hs' = (if px_healthzServer px' then Updated now (px_ipFamily px') hs else hs)"
proof -
  obtain stale tx calls where effs: "effs = stale @ [Run tx] @ (if px_healthzServer px' then [HealthzUpdated (px_ipFamily px')] else []) @
      [SyncServices (HealthCheckNodePorts (px_svcPortMap px')), SyncEndpoints (LocalReadyEndpoints (px_endpointsMap px'))] @ map Conntrack calls"
    and stale: "\<forall>e\<in>set stale. \<exists>tx. e = RunStale tx"
    by (rule syncProxyRules_health_effects [OF assms(1-3)]) (rule that; assumption)
  have "health_after Listen ord1 ord2 now stale (hcs, hs) = (hcs, hs)"
    "health_after Listen ord1 ord2 now (map Conntrack calls) st = st" for st
    using stale by (auto intro!: health_quiet)
  then show "hcs' = hc_SyncEndpoints (LocalReadyEndpoints (px_endpointsMap px'))
      (snd (hc_SyncServices Listen ord1 ord2 (HealthCheckNodePorts (px_svcPortMap px')) hcs))"
    "hs' = (if px_healthzServer px' then Updated now (px_ipFamily px') hs else hs)"
    using assms(4) unfolding effs by (auto simp: health_after_simps health_effect_def split: if_splits)
qed

text \<open>
  C12. What a load balancer is told after a successful synchronisation: whatever the health servers held
  before, a service with an instance has a health check node port, its instance listens on that port,
  the weight it reports is the number of distinct addresses of the ready endpoints of the service on this node in the
  proxier's table. On a node with a health server it answers 200 exactly when there is such an endpoint and the proxiers are
  healthy, and 503 otherwise (also with endpoints, which the comment on the interface does not say); on a node without
  one, where \<open>healthzBindAddress\<close> is empty, the handler of every such request panics on the nil health server.
\<close>

theorem sync_health_answers:
  assumes "syncProxyRules env input px = Inr (effs, px')" "px_initialized px" "si_run input"
    "wf_map (hcs_services hcs)" "\<forall>m. mset (ord1 m) = mset m" "\<forall>m. mset (ord2 m) = mset m"
    "health_after Listen ord1 ord2 now effs (hcs, hs) = (hcs', hs')" "map_of (hcs_services hcs') nn = Some svc"
  shows "map_of (HealthCheckNodePorts (px_svcPortMap px')) nn = Some (hci_port svc) \<and>
    hc_ServeHTTP (if px_healthzServer px then Some (IsHealthy later order hs') else None) nn hcs' =
      (if \<not> px_healthzServer px then Inl (Panic ''nil healthzServer'')
       else Inr \<lparr>hr_status = (if localReady (px_endpointsMap px') nn \<noteq> {} \<and> IsHealthy later order hs' then 200 else 503),
           hr_weight = Some (Itoa (int (card (localReady (px_endpointsMap px') nn)))),
           hr_body = Some (nn, int (card (localReady (px_endpointsMap px') nn)), IsHealthy later order hs')\<rparr>)"
proof -
  define req where "req = HealthCheckNodePorts (px_svcPortMap px')"
  define eps where "eps = LocalReadyEndpoints (px_endpointsMap px')"
  obtain cs hcs1 where h: "hc_SyncServices Listen ord1 ord2 req hcs = (cs, hcs1)" by (metis prod.exhaust)
  have "hcs' = hc_SyncEndpoints eps hcs1"
    using sync_health_state(1) [OF assms(1-3,7)] by (simp add: eps_def req_def [symmetric] h)
  moreover have wf: "wf_map eps" "get_or 0 eps nn = int (card (localReady (px_endpointsMap px') nn))"
    by (simp_all add: eps_def LocalReadyEndpoints_card)
  ultimately obtain svc1 where svc1: "map_of (hcs_services hcs1) nn = Some svc1"
    "svc = svc1\<lparr>hci_endpoints := int (card (localReady (px_endpointsMap px') nn))\<rparr>"
    using assms(8) by (auto simp: map_of_SyncEndpoints)
  have "opened Listen (hcs_nodeIPs hcs) nn (map_of req nn) (kept (map_of req nn) (map_of (hcs_services hcs) nn)) (map_of (hcs_services hcs1) nn)"
    using SyncServices_opened [OF assms(4) _ _ _ h, of nn] assms(5,6) by (simp add: req_def wf_HealthCheckNodePorts)
  then have "map_of req nn = Some (hci_port svc)"
    by (auto simp: svc1 opened_def kept_def hc_new_def split: option.splits if_splits)
  moreover have "finite (localReady (px_endpointsMap px') nn)" by (rule finite_localReady)
  ultimately show ?thesis using assms(8) by (auto simp: hc_ServeHTTP_def req_def svc1(2) Let_def)
qed

text \<open>A proxier with a load balancer service whose one ready endpoint is on this node.\<close>

definition example_health_px :: "unit Proxier" where
  "example_health_px = example_px0\<lparr>px_initialized := True, px_needFullSync := False, px_healthzServer := True,
     px_svcPortMap := [(example_spn, NftServicePort (example_svcInfo\<lparr>spi_BaseServicePortInfo :=
       (spi_BaseServicePortInfo example_svcInfo)\<lparr>bsp_healthCheckNodePort := 81, bsp_externalPolicyLocal := True\<rparr>\<rparr>))],
     px_endpointsMap := [(example_spn, [newEndpointInfo (\<lambda>_. ''ULMVA6XW'') (newBaseEndpointInfo ''10.0.0.9'' 53 True True True False []) example_spn])]\<rparr>"

lemma example_health_tables:
  "px_svcPortMap example_health_px = [(example_spn, NftServicePort (example_svcInfo\<lparr>spi_BaseServicePortInfo :=
       (spi_BaseServicePortInfo example_svcInfo)\<lparr>bsp_healthCheckNodePort := 81, bsp_externalPolicyLocal := True\<rparr>\<rparr>))]"
  "px_endpointsMap example_health_px =
     [(example_spn, [newEndpointInfo (\<lambda>_. ''ULMVA6XW'') (newBaseEndpointInfo ''10.0.0.9'' 53 True True True False []) example_spn])]"
  by (simp_all add: example_health_px_def)

definition example_hcs :: server where
  "example_hcs = \<lparr>hcs_hostname = ''n1'', hcs_nodeIPs = [Some ''0.0.0.0''], hcs_services = []\<rparr>"

lemma example_health_sync:
  "\<exists>effs px'. syncProxyRules example_proxy_env example_input example_health_px = Inr (effs, px') \<and>
     px_svcPortMap px' = px_svcPortMap example_health_px \<and> px_endpointsMap px' = px_endpointsMap example_health_px"
proof -
  have idle: "sct_items (px_serviceChanges example_health_px) = []"
    "list_all (\<lambda>x. est_pending (snd x) = []) (esc_trackerByServiceMap (ect_endpointSliceCache (px_endpointsChanges example_health_px)))"
    by (simp_all add: example_health_px_def example_px0_fields NewServiceChangeTracker_def NewEndpointsChangeTracker_def NewEndpointSliceCache_def)
  have c: "cache_ok (ect_endpointSliceCache (px_endpointsChanges example_health_px))"
    by (simp add: cache_ok_def example_health_px_def example_px0_fields NewEndpointsChangeTracker_def NewEndpointSliceCache_def)
  obtain er ect em where e: "em_Update (net_env.truncate (pe_svc example_proxy_env)) (pe_gates example_proxy_env) (si_ord1 example_input) (si_ord2 example_input)
      (Some (px_endpointsChanges example_health_px)) (px_endpointsMap example_health_px) = Inr (er, Some ect, em)"
    using em_Update_total [OF c example_orders] by blast
  note em = em_Update_idle(1) [OF idle(2) e]
  have "all_nft em" unfolding em example_health_px_def by (simp add: all_nft_def newEndpointInfo_def get_or_def Let_def)
  moreover have "cidrs_ok example_health_px" using example_clients(2) by (simp add: cidrs_ok_def example_health_px_def)
  ultimately obtain effs px' where s: "syncProxyRules example_proxy_env example_input example_health_px = Inr (effs, px')"
    using syncProxyRules_total [OF e] Score_faults example_clients(1) by blast
  have i: "px_initialized example_health_px" by (simp add: example_health_px_def)
  then show ?thesis
    using s syncProxyRules_tables(1) [OF s i] spm_Update_idle(1) [OF idle(1)] em_Update_idle(1) [OF idle(2)] by blast
qed

theorem sync_health_answers_witness:
  "\<exists>effs px' hcs' hs' r. syncProxyRules example_proxy_env example_input example_health_px = Inr (effs, px') \<and>
     health_after (\<lambda>_ _. None) rev rev 7 effs (example_hcs, newProxierHealthServer 60) = (hcs', hs') \<and>
     hc_ServeHTTP (if px_healthzServer example_health_px then Some (IsHealthy 8 id hs') else None) (spn_NamespacedName example_spn) hcs' = Inr r \<and> hr_status r = 200 \<and> hr_weight r = Some ''1''"
proof -
  obtain effs px' where s: "syncProxyRules example_proxy_env example_input example_health_px = Inr (effs, px')"
    and t: "px_svcPortMap px' = px_svcPortMap example_health_px" "px_endpointsMap px' = px_endpointsMap example_health_px"
    using example_health_sync by blast
  obtain hcs' hs' where h: "health_after (\<lambda>_ _. None) rev rev 7 effs (example_hcs, newProxierHealthServer 60) = (hcs', hs')"
    by (metis prod.exhaust)
  have i: "px_initialized example_health_px" "si_run example_input" by (simp_all add: example_health_px_def example_at_def)
  note st = sync_health_state [OF s i h, unfolded t]
  have "map_option hci_port (map_of (hcs_services hcs') (spn_NamespacedName example_spn)) = Some 81"
    unfolding st(1) example_health_tables by code_simp
  then obtain svc where svc: "map_of (hcs_services hcs') (spn_NamespacedName example_spn) = Some svc" by blast
  have "wf_map (hcs_services example_hcs)" by (simp add: example_hcs_def)
  note answer = sync_health_answers [OF s i this _ _ h svc, of 8 id]
  have "IsHealthy 8 id hs'" unfolding st(2) by (simp add: IsHealthy_def isHealthy_def Updated_def newProxierHealthServer_def)
  moreover have "localReady (px_endpointsMap px') (spn_NamespacedName example_spn) = {''10.0.0.9''}"
    unfolding t by (simp add: localReady_def example_health_tables newEndpointInfo_def newBaseEndpointInfo_def Endpoint_IP_def IsReady_def IsLocal_def Let_def)
  moreover have "Itoa 1 = ''1''" by code_simp
  moreover have "px_healthzServer example_health_px" by (simp add: example_health_px_def)
  ultimately show ?thesis using s h answer by simp
qed

section \<open>The history of updates\<close>

datatype hs_event = EvQueued int string | EvUpdated int string | EvNode v1_Node

fun hs_step :: "hs_event \<Rightarrow> ProxierHealthServer \<Rightarrow> ProxierHealthServer" where
  "hs_step (EvQueued t ipFamily) hs = QueuedUpdate t ipFamily hs"
| "hs_step (EvUpdated t ipFamily) hs = Updated t ipFamily hs"
| "hs_step (EvNode node) hs = SyncNode node hs"

definition hs_run :: "int \<Rightarrow> hs_event list \<Rightarrow> ProxierHealthServer" where
  "hs_run healthTimeout evs = fold hs_step evs (newProxierHealthServer healthTimeout)"

text \<open>
  The times of the updates queued for a family since its last successful one, oldest first, and the
  eligibility by the last node event.
\<close>

definition waiting :: "string \<Rightarrow> hs_event list \<Rightarrow> int list" where
  "waiting f evs = [t. EvQueued t g \<leftarrow> rev (takeWhile (\<lambda>e. \<forall>t. e \<noteq> EvUpdated t f) (rev evs)), g = f]"

definition eligible :: "v1_Node \<Rightarrow> bool" where
  "eligible node \<longleftrightarrow> \<not> vn_Deleted node \<and> ToBeDeletedTaint \<notin> set (vn_TaintKeys node)"

definition lastEligible :: "hs_event list \<Rightarrow> bool" where
  "lastEligible evs = fold (\<lambda>e b. case e of EvNode node \<Rightarrow> eligible node | _ \<Rightarrow> b) evs True"

lemma waiting_snoc:
  "waiting f (evs @ [e]) = (case e of EvUpdated t g \<Rightarrow> if g = f then [] else waiting f evs
     | EvQueued t g \<Rightarrow> if g = f then waiting f evs @ [t] else waiting f evs | EvNode _ \<Rightarrow> waiting f evs)"
  by (auto simp: waiting_def split: hs_event.split)

lemma hs_run_state:
  "phs_healthTimeout (hs_run to evs) = to"
  "map_of (phs_oldestPendingQueuedMap (hs_run to evs)) f = (case waiting f evs of [] \<Rightarrow> None | t # _ \<Rightarrow> Some t)"
  "fst ` set (phs_lastUpdatedMap (hs_run to evs)) = {f. \<exists>t. EvUpdated t f \<in> set evs}"
  "phs_nodeEligible (hs_run to evs) = lastEligible evs"
proof (induction evs rule: rev_induct)
  case Nil
  show "phs_healthTimeout (hs_run to []) = to"
    "map_of (phs_oldestPendingQueuedMap (hs_run to [])) f = (case waiting f [] of [] \<Rightarrow> None | t # _ \<Rightarrow> Some t)"
    "fst ` set (phs_lastUpdatedMap (hs_run to [])) = {f. \<exists>t. EvUpdated t f \<in> set []}"
    "phs_nodeEligible (hs_run to []) = lastEligible []"
    by (simp_all add: hs_run_def newProxierHealthServer_def waiting_def lastEligible_def)
next
  case (snoc e evs)
  have run: "hs_run to (evs @ [e]) = hs_step e (hs_run to evs)" by (simp add: hs_run_def)
  show "phs_healthTimeout (hs_run to (evs @ [e])) = to"
    using snoc(1) unfolding run by (cases e) (simp_all add: QueuedUpdate_def Updated_def SyncNode_def)
  show "map_of (phs_oldestPendingQueuedMap (hs_run to (evs @ [e]))) f = (case waiting f (evs @ [e]) of [] \<Rightarrow> None | t # _ \<Rightarrow> Some t)"
    using snoc(2) unfolding run by (cases e) (auto simp: QueuedUpdate_def Updated_def SyncNode_def waiting_snoc split: list.splits)
  show "fst ` set (phs_lastUpdatedMap (hs_run to (evs @ [e]))) = {f. \<exists>t. EvUpdated t f \<in> set (evs @ [e])}"
    using snoc(3) unfolding run by (cases e) (auto simp: QueuedUpdate_def Updated_def SyncNode_def keys_update)
  show "phs_nodeEligible (hs_run to (evs @ [e])) = lastEligible (evs @ [e])"
    using snoc(4) unfolding run by (cases e) (auto simp: QueuedUpdate_def Updated_def SyncNode_def lastEligible_def eligible_def list_ex_iff)
qed

lemma healthLoop_iff:
  "fst (healthLoop now to pending L lastUpdated) \<longleftrightarrow>
     (\<forall>f\<in>fst ` set L. case map_of pending f of None \<Rightarrow> True | Some queued \<Rightarrow> now - queued < to)"
proof (induction L arbitrary: lastUpdated)
  case (Cons x L)
  obtain f t where x: "x = (f, t)" by (cases x)
  show ?case by (cases "map_of pending f") (simp_all add: x Let_def Cons.IH)
qed simp

text \<open>
  C14. For every history of queued updates, successful updates and node events, and whatever order the
  map is visited in: the proxiers are healthy exactly when for each family that was updated at least once the
  oldest update queued since its last successful one is younger than the timeout. \<open>/livez\<close> answers 200
  exactly then, and \<open>/healthz\<close> when in addition the last node event showed a node neither being deleted nor
  tainted by the autoscaler.
\<close>

theorem health_by_history:
  assumes "\<forall>m. set (order m) = set m"
  shows "(IsHealthy now order (hs_run to evs) \<longleftrightarrow>
      (\<forall>f t q qs. EvUpdated t f \<in> set evs \<longrightarrow> waiting f evs = q # qs \<longrightarrow> now - q < to)) \<and>
    (fst (livez_ServeHTTP now order (hs_run to evs)) = 200 \<longleftrightarrow> IsHealthy now order (hs_run to evs)) \<and>
    (fst (healthz_ServeHTTP now order (hs_run to evs)) = 200 \<longleftrightarrow> IsHealthy now order (hs_run to evs) \<and> lastEligible evs)"
proof -
  have keys: "fst ` set (order (phs_lastUpdatedMap (hs_run to evs))) = {f. \<exists>t. EvUpdated t f \<in> set evs}"
    using assms by (metis hs_run_state(3))
  have "IsHealthy now order (hs_run to evs) \<longleftrightarrow>
      (\<forall>f t q qs. EvUpdated t f \<in> set evs \<longrightarrow> waiting f evs = q # qs \<longrightarrow> now - q < to)"
    unfolding IsHealthy_def isHealthy_def healthLoop_iff keys hs_run_state(1,2)
    by (auto split: list.splits)
  moreover have "fst (livez_ServeHTTP now order hs) = 200 \<longleftrightarrow> IsHealthy now order hs"
    "fst (healthz_ServeHTTP now order hs) = 200 \<longleftrightarrow> IsHealthy now order hs \<and> phs_nodeEligible hs" for hs
    by (simp_all add: livez_ServeHTTP_def healthz_ServeHTTP_def IsHealthy_def Let_def split_beta)
  ultimately show ?thesis by (metis hs_run_state(4))
qed

theorem health_by_history_witness:
  "fst (healthz_ServeHTTP 25 rev (hs_run 10 [EvUpdated 5 ''IPv4'', EvQueued 16 ''IPv4'', EvQueued 24 ''IPv4''])) = 200 \<and>
   fst (healthz_ServeHTTP 26 rev (hs_run 10 [EvUpdated 5 ''IPv4'', EvQueued 16 ''IPv4'', EvQueued 24 ''IPv4''])) \<noteq> 200"
  using health_by_history [of rev 25 10 "[EvUpdated 5 ''IPv4'', EvQueued 16 ''IPv4'', EvQueued 24 ''IPv4'']"]
    health_by_history [of rev 26 10 "[EvUpdated 5 ''IPv4'', EvQueued 16 ''IPv4'', EvQueued 24 ''IPv4'']"]
  by (auto simp: waiting_def lastEligible_def)

section \<open>The node's address ranges\<close>

fun PodCIDR_run :: "v1_Node list \<Rightarrow> string list option \<Rightarrow> string list option option" where
  "PodCIDR_run [] n_podCIDRs = Some n_podCIDRs"
| "PodCIDR_run (node # nodes) n_podCIDRs =
     (case PodCIDR_OnNodeUpdate node n_podCIDRs of None \<Rightarrow> None | Some cidrs \<Rightarrow> PodCIDR_run nodes cidrs)"

lemma PodCIDR_Add_Update: "PodCIDR_OnNodeAdd = PodCIDR_OnNodeUpdate"
  by (simp add: fun_eq_iff PodCIDR_OnNodeAdd_def PodCIDR_OnNodeUpdate_def)

text \<open>Once ranges are known, the process goes on exactly as long as every event reports the same ones.\<close>

lemma PodCIDR_run_settled:
  "go_len cidrs > 0 \<Longrightarrow> PodCIDR_run nodes cidrs = (if \<forall>node\<in>set nodes. vn_PodCIDRs node = cidrs then Some cidrs else None)"
  by (induction nodes) (auto simp: PodCIDR_OnNodeUpdate_def Let_def)

end
