(* ===== verification/Meta_Proxier.thy ===== *)
theory Meta_Proxier
  imports Nft_Correct
begin

text \<open>
  The interface \<open>proxy.Provider\<close> of \<open>wao-loadbalancer/pkg/proxy/types.go\<close>, as the events it is handed and the
  promise to handle each of them, or to end with a fault that is named: the nftables proxier keeps it, and so does the dual-stack proxier of
  \<open>metaproxier/meta_proxier.go\<close> over any two providers. Events come from an informer: a service is updated
  or deleted as it was reported last, and objects satisfy what the API server enforces.
\<close>

section \<open>Events\<close>

text \<open>
  \<open>'i\<close> is what a synchronisation that a handler makes at once reads from outside, \<open>'r\<close> what one made by the
  provider's own loop reads.
\<close>

datatype ('i, 'r) proxy_event =
    EvServiceAdd v1_Service | EvServiceUpdate v1_Service v1_Service | EvServiceDelete v1_Service | EvServiceSynced 'i
  | EvSliceAdd discovery_EndpointSlice | EvSliceUpdate discovery_EndpointSlice discovery_EndpointSlice
  | EvSliceDelete discovery_EndpointSlice | EvSlicesSynced 'i
  | EvNodeAdd string "(string, string) gomap option" | EvNodeUpdate string "(string, string) gomap option"
  | EvNodeDelete string | EvNodeSynced
  | EvCIDRsChanged "string list" | EvSync | EvRun 'r

text \<open>
  The promise: from a state that agrees with the world outside, every event that the world can produce is
  handled, and the state agrees with the world after the event and the effects; or the process ends there, with
  one of the faults that what the event reads from outside allows.
\<close>

locale provider =
  fixes handle :: "('i, 'r) proxy_event \<Rightarrow> 'st \<Rightarrow> ('e list \<times> 'st) result"
    and possible :: "'w \<Rightarrow> ('i, 'r) proxy_event \<Rightarrow> bool"
    and after :: "('i, 'r) proxy_event \<Rightarrow> 'e list \<Rightarrow> 'w \<Rightarrow> 'w"
    and agrees :: "'w \<Rightarrow> 'st \<Rightarrow> bool"
    and fails :: "('i, 'r) proxy_event \<Rightarrow> goerr \<Rightarrow> bool"
  assumes handles: "agrees w st \<Longrightarrow> possible w ev \<Longrightarrow>
    (\<exists>effs st'. handle ev st = Inr (effs, st') \<and> agrees (after ev effs w) st') \<or> (\<exists>e. handle ev st = Inl e \<and> fails ev e)"

text \<open>The events of a list one after the other; those that the world cannot produce do not happen.\<close>

fun run_events where
  "run_events handle possible after [] w st = Inr (w, st)"
| "run_events handle possible after (ev # evs) w st =
     (if possible w ev
      then res_bind (handle ev st) (\<lambda>(effs, st'). run_events handle possible after evs (after ev effs w) st')
      else run_events handle possible after evs w st)"

context provider
begin

lemma run_agrees:
  "agrees w st \<Longrightarrow> (\<exists>w' st'. run_events handle possible after evs w st = Inr (w', st') \<and> agrees w' st') \<or>
    (\<exists>ev\<in>set evs. \<exists>e. run_events handle possible after evs w st = Inl e \<and> fails ev e)"
proof (induction evs arbitrary: w st)
  case (Cons ev evs)
  show ?case
  proof (cases "possible w ev")
    case True
    from handles [OF Cons.prems True] show ?thesis
    proof (elim disjE exE conjE)
      fix effs st' assume "handle ev st = Inr (effs, st')" "agrees (after ev effs w) st'"
      with Cons.IH [of "after ev effs w" st'] True show ?thesis by auto
    qed (use True in auto)
  qed (use Cons.IH [OF Cons.prems] in auto)
qed simp

end

section \<open>Two providers\<close>

text \<open>
  \<open>call4\<close> and \<open>call6\<close> pass an event on to one of the providers. Synchronisations at once are made by
  both; the loops of the two run independently, so a run is one of the one or of the other.
\<close>

definition AddressTypeIPv4 :: string where
  "AddressTypeIPv4 = ''IPv4''"

definition AddressTypeIPv6 :: string where
  "AddressTypeIPv6 = ''IPv6''"

definition call4 where
  "call4 handle4 ev st = res_bind (handle4 ev (fst st)) (\<lambda>(effs, st4). Inr (map Inl effs, (st4, snd st)))"

definition call6 where
  "call6 handle6 ev st = res_bind (handle6 ev (snd st)) (\<lambda>(effs, st6). Inr (map Inr effs, (fst st, st6)))"

definition callBoth where
  "callBoth handle4 handle6 ev4 ev6 st =
     res_bind (call4 handle4 ev4 st) (\<lambda>(effs4, st).
     res_bind (call6 handle6 ev6 st) (\<lambda>(effs6, st). Inr (effs4 @ effs6, st)))"

definition callByType where
  "callByType handle4 handle6 addressType ev4 ev6 st =
     (if addressType = AddressTypeIPv4 then call4 handle4 ev4 st
      else if addressType = AddressTypeIPv6 then call6 handle6 ev6 st
      else Inr ([], st))"

fun meta_handle where
  "meta_handle handle4 handle6 (EvServiceAdd service) = callBoth handle4 handle6 (EvServiceAdd service) (EvServiceAdd service)"
| "meta_handle handle4 handle6 (EvServiceUpdate old new) = callBoth handle4 handle6 (EvServiceUpdate old new) (EvServiceUpdate old new)"
| "meta_handle handle4 handle6 (EvServiceDelete service) = callBoth handle4 handle6 (EvServiceDelete service) (EvServiceDelete service)"
| "meta_handle handle4 handle6 (EvServiceSynced i) = callBoth handle4 handle6 (EvServiceSynced (fst i)) (EvServiceSynced (snd i))"
| "meta_handle handle4 handle6 (EvSliceAdd s) = callByType handle4 handle6 (des_AddressType s) (EvSliceAdd s) (EvSliceAdd s)"
| "meta_handle handle4 handle6 (EvSliceUpdate old new) =
     callByType handle4 handle6 (des_AddressType new) (EvSliceUpdate old new) (EvSliceUpdate old new)"
| "meta_handle handle4 handle6 (EvSliceDelete s) = callByType handle4 handle6 (des_AddressType s) (EvSliceDelete s) (EvSliceDelete s)"
| "meta_handle handle4 handle6 (EvSlicesSynced i) = callBoth handle4 handle6 (EvSlicesSynced (fst i)) (EvSlicesSynced (snd i))"
| "meta_handle handle4 handle6 (EvNodeAdd n labels) = callBoth handle4 handle6 (EvNodeAdd n labels) (EvNodeAdd n labels)"
| "meta_handle handle4 handle6 (EvNodeUpdate n labels) = callBoth handle4 handle6 (EvNodeUpdate n labels) (EvNodeUpdate n labels)"
| "meta_handle handle4 handle6 (EvNodeDelete n) = callBoth handle4 handle6 (EvNodeDelete n) (EvNodeDelete n)"
| "meta_handle handle4 handle6 EvNodeSynced = callBoth handle4 handle6 EvNodeSynced EvNodeSynced"
| "meta_handle handle4 handle6 (EvCIDRsChanged cidrs) = callBoth handle4 handle6 (EvCIDRsChanged cidrs) (EvCIDRsChanged cidrs)"
| "meta_handle handle4 handle6 EvSync = callBoth handle4 handle6 EvSync EvSync"
| "meta_handle handle4 handle6 (EvRun r) = (case r of Inl r4 \<Rightarrow> call4 handle4 (EvRun r4) | Inr r6 \<Rightarrow> call6 handle6 (EvRun r6))"

text \<open>The event that each provider gets out of one, if any.\<close>

definition only_for :: "string \<Rightarrow> string \<Rightarrow> 'a \<Rightarrow> 'a option" where
  "only_for addressType t ev = (if t = addressType then Some ev else None)"

fun part4 :: "('i \<times> 'j, 'r + 's) proxy_event \<Rightarrow> ('i, 'r) proxy_event option" where
  "part4 (EvServiceAdd service) = Some (EvServiceAdd service)"
| "part4 (EvServiceUpdate old new) = Some (EvServiceUpdate old new)"
| "part4 (EvServiceDelete service) = Some (EvServiceDelete service)"
| "part4 (EvServiceSynced i) = Some (EvServiceSynced (fst i))"
| "part4 (EvSliceAdd s) = only_for AddressTypeIPv4 (des_AddressType s) (EvSliceAdd s)"
| "part4 (EvSliceUpdate old new) = only_for AddressTypeIPv4 (des_AddressType new) (EvSliceUpdate old new)"
| "part4 (EvSliceDelete s) = only_for AddressTypeIPv4 (des_AddressType s) (EvSliceDelete s)"
| "part4 (EvSlicesSynced i) = Some (EvSlicesSynced (fst i))"
| "part4 (EvNodeAdd n labels) = Some (EvNodeAdd n labels)"
| "part4 (EvNodeUpdate n labels) = Some (EvNodeUpdate n labels)"
| "part4 (EvNodeDelete n) = Some (EvNodeDelete n)"
| "part4 EvNodeSynced = Some EvNodeSynced"
| "part4 (EvCIDRsChanged cidrs) = Some (EvCIDRsChanged cidrs)"
| "part4 EvSync = Some EvSync"
| "part4 (EvRun r) = (case r of Inl r4 \<Rightarrow> Some (EvRun r4) | Inr _ \<Rightarrow> None)"

fun part6 :: "('i \<times> 'j, 'r + 's) proxy_event \<Rightarrow> ('j, 's) proxy_event option" where
  "part6 (EvServiceAdd service) = Some (EvServiceAdd service)"
| "part6 (EvServiceUpdate old new) = Some (EvServiceUpdate old new)"
| "part6 (EvServiceDelete service) = Some (EvServiceDelete service)"
| "part6 (EvServiceSynced i) = Some (EvServiceSynced (snd i))"
| "part6 (EvSliceAdd s) = only_for AddressTypeIPv6 (des_AddressType s) (EvSliceAdd s)"
| "part6 (EvSliceUpdate old new) = only_for AddressTypeIPv6 (des_AddressType new) (EvSliceUpdate old new)"
| "part6 (EvSliceDelete s) = only_for AddressTypeIPv6 (des_AddressType s) (EvSliceDelete s)"
| "part6 (EvSlicesSynced i) = Some (EvSlicesSynced (snd i))"
| "part6 (EvNodeAdd n labels) = Some (EvNodeAdd n labels)"
| "part6 (EvNodeUpdate n labels) = Some (EvNodeUpdate n labels)"
| "part6 (EvNodeDelete n) = Some (EvNodeDelete n)"
| "part6 EvNodeSynced = Some EvNodeSynced"
| "part6 (EvCIDRsChanged cidrs) = Some (EvCIDRsChanged cidrs)"
| "part6 EvSync = Some EvSync"
| "part6 (EvRun r) = (case r of Inl _ \<Rightarrow> None | Inr r6 \<Rightarrow> Some (EvRun r6))"

definition meta_possible where
  "meta_possible possible4 possible6 w ev \<longleftrightarrow>
     (case part4 ev of None \<Rightarrow> True | Some ev4 \<Rightarrow> possible4 (fst w) ev4) \<and>
     (case part6 ev of None \<Rightarrow> True | Some ev6 \<Rightarrow> possible6 (snd w) ev6)"

definition meta_after where
  "meta_after after4 after6 ev effs w =
     ((case part4 ev of None \<Rightarrow> fst w | Some ev4 \<Rightarrow> after4 ev4 [e. Inl e \<leftarrow> effs] (fst w)),
      (case part6 ev of None \<Rightarrow> snd w | Some ev6 \<Rightarrow> after6 ev6 [e. Inr e \<leftarrow> effs] (snd w)))"

definition meta_agrees where
  "meta_agrees agrees4 agrees6 w st \<longleftrightarrow> agrees4 (fst w) (fst st) \<and> agrees6 (snd w) (snd st)"

lemma effs_of: "[e. Inl e \<leftarrow> map Inl xs @ map Inr ys] = xs" "[e. Inr e \<leftarrow> map Inl xs @ map Inr ys] = ys"
proof -
  have "concat (map (\<lambda>_. []) zs) = []" for zs :: "'z list" by (induction zs) simp_all
  then show "[e. Inl e \<leftarrow> map Inl xs @ map Inr ys] = xs" "[e. Inr e \<leftarrow> map Inl xs @ map Inr ys] = ys"
    by (simp_all add: comp_def)
qed

lemma res_bind_Inr: "res_bind r Inr = r"
  by (cases r) simp_all

text \<open>Passing an event on is passing each provider its part.\<close>

definition call_parts where
  "call_parts handle4 handle6 ev4 ev6 st =
     res_bind (case ev4 of None \<Rightarrow> Inr ([], st) | Some ev4 \<Rightarrow> call4 handle4 ev4 st) (\<lambda>(effs4, st).
     res_bind (case ev6 of None \<Rightarrow> Inr ([], st) | Some ev6 \<Rightarrow> call6 handle6 ev6 st) (\<lambda>(effs6, st). Inr (effs4 @ effs6, st)))"

lemma meta_handle_parts: "meta_handle handle4 handle6 ev st = call_parts handle4 handle6 (part4 ev) (part6 ev) st"
proof -
  have "AddressTypeIPv4 \<noteq> AddressTypeIPv6" by (simp add: AddressTypeIPv4_def AddressTypeIPv6_def)
  then show ?thesis
    by (cases ev) (auto simp: call_parts_def callBoth_def callByType_def only_for_def res_bind_Inr split: sum.split)
qed

text \<open>A fault of the pair is a fault of one of the two on its part.\<close>

definition meta_fails where
  "meta_fails fails4 fails6 ev e \<longleftrightarrow> (\<exists>ev4. part4 ev = Some ev4 \<and> fails4 ev4 e) \<or> (\<exists>ev6. part6 ev = Some ev6 \<and> fails6 ev6 e)"

locale dual_provider = v4: provider handle4 possible4 after4 agrees4 fails4 + v6: provider handle6 possible6 after6 agrees6 fails6
  for handle4 :: "('i, 'r) proxy_event \<Rightarrow> 'st \<Rightarrow> ('e list \<times> 'st) result" and possible4 :: "'w \<Rightarrow> ('i, 'r) proxy_event \<Rightarrow> bool"
    and after4 agrees4 fails4
    and handle6 :: "('j, 's) proxy_event \<Rightarrow> 'tt \<Rightarrow> ('f list \<times> 'tt) result" and possible6 :: "'v \<Rightarrow> ('j, 's) proxy_event \<Rightarrow> bool"
    and after6 agrees6 fails6

sublocale dual_provider \<subseteq> provider "meta_handle handle4 handle6" "meta_possible possible4 possible6" "meta_after after4 after6"
  "meta_agrees agrees4 agrees6" "meta_fails fails4 fails6"
proof
  fix w st and ev :: "('i \<times> 'j, 'r + 's) proxy_event"
  assume a: "meta_agrees agrees4 agrees6 w st" "meta_possible possible4 possible6 w ev"
  let ?goal = "(\<exists>effs st'. meta_handle handle4 handle6 ev st = Inr (effs, st') \<and> meta_agrees agrees4 agrees6 (meta_after after4 after6 ev effs w) st') \<or>
    (\<exists>e. meta_handle handle4 handle6 ev st = Inl e \<and> meta_fails fails4 fails6 ev e)"
  consider (crash4) e where "(case part4 ev of None \<Rightarrow> Inr ([] :: ('e + 'f) list, st) | Some ev4 \<Rightarrow> call4 handle4 ev4 st) = Inl e" "meta_fails fails4 fails6 ev e"
    | (done4) effs4 st4 where "(case part4 ev of None \<Rightarrow> Inr ([], st) | Some ev4 \<Rightarrow> call4 handle4 ev4 st) = Inr (map Inl effs4 :: ('e + 'f) list, (st4, snd st))"
      "agrees4 (case part4 ev of None \<Rightarrow> fst w | Some ev4 \<Rightarrow> after4 ev4 effs4 (fst w)) st4"
  proof (cases "part4 ev")
    case None
    with a that(2) [of "[]" "fst st"] show thesis by (simp add: meta_agrees_def)
  next
    case (Some e)
    with a v4.handles [of "fst w" "fst st" e] that show thesis
      by (fastforce simp: meta_agrees_def meta_possible_def meta_fails_def call4_def)
  qed
  then show ?goal
  proof cases
    case crash4
    then show ?thesis unfolding meta_handle_parts call_parts_def by simp
  next
    case done4
    consider (crash6) e where "(case part6 ev of None \<Rightarrow> Inr ([] :: ('e + 'f) list, (st4, snd st)) | Some ev6 \<Rightarrow> call6 handle6 ev6 (st4, snd st)) = Inl e"
        "meta_fails fails4 fails6 ev e"
      | (done6) effs6 st6 where "(case part6 ev of None \<Rightarrow> Inr ([], (st4, snd st)) | Some ev6 \<Rightarrow> call6 handle6 ev6 (st4, snd st)) =
          Inr (map Inr effs6 :: ('e + 'f) list, (st4, st6))"
        "agrees6 (case part6 ev of None \<Rightarrow> snd w | Some ev6 \<Rightarrow> after6 ev6 effs6 (snd w)) st6"
    proof (cases "part6 ev")
      case None
      with a that(2) [of "[]" "snd st"] show thesis by (simp add: meta_agrees_def)
    next
      case (Some e)
      with a v6.handles [of "snd w" "snd st" e] that show thesis
        by (fastforce simp: meta_agrees_def meta_possible_def meta_fails_def call6_def)
    qed
    then show ?thesis
    proof cases
      case crash6
      with done4 show ?thesis unfolding meta_handle_parts call_parts_def by simp
    next
      case done6
      have "meta_handle handle4 handle6 ev st = Inr (map Inl effs4 @ map Inr effs6, (st4, st6))"
        unfolding meta_handle_parts call_parts_def using done4(1) done6(1) by simp
      moreover have "meta_agrees agrees4 agrees6 (meta_after after4 after6 ev (map Inl effs4 @ map Inr effs6) w) (st4, st6)"
        using done4(2) done6(2) unfolding meta_agrees_def meta_after_def effs_of by simp
      ultimately show ?thesis by blast
    qed
  qed
qed

section \<open>The nftables proxier is a provider\<close>

fun nft_handle ::
  "'s proxy_env \<Rightarrow> (string \<Rightarrow> int option) \<Rightarrow> (sync_input, sync_input) proxy_event \<Rightarrow> 's Proxier \<Rightarrow> (effect list \<times> 's Proxier) result" where
  "nft_handle env parseTime (EvServiceAdd service) px = OnServiceAdd env service px"
| "nft_handle env parseTime (EvServiceUpdate old new) px = OnServiceUpdate env (Some old) (Some new) px"
| "nft_handle env parseTime (EvServiceDelete service) px = OnServiceDelete env service px"
| "nft_handle env parseTime (EvServiceSynced input) px = OnServiceSynced env input px"
| "nft_handle env parseTime (EvSliceAdd s) px = OnEndpointSliceAdd parseTime (Some s) px"
| "nft_handle env parseTime (EvSliceUpdate old new) px = OnEndpointSliceUpdate parseTime (Some old) (Some new) px"
| "nft_handle env parseTime (EvSliceDelete s) px = OnEndpointSliceDelete parseTime (Some s) px"
| "nft_handle env parseTime (EvSlicesSynced input) px = OnEndpointSlicesSynced env input px"
| "nft_handle env parseTime (EvNodeAdd n labels) px = Inr (OnNodeAdd n labels px)"
| "nft_handle env parseTime (EvNodeUpdate n labels) px = Inr (OnNodeUpdate n labels px)"
| "nft_handle env parseTime (EvNodeDelete n) px = Inr (OnNodeDelete n px)"
| "nft_handle env parseTime EvNodeSynced px = Inr ([], px)"
| "nft_handle env parseTime (EvCIDRsChanged cidrs) px = Inr ([], OnServiceCIDRsChanged (pe_util env) cidrs px)"
| "nft_handle env parseTime EvSync px = Inr (Sync px, px)"
| "nft_handle env parseTime (EvRun input) px = syncProxyRules env input px"

text \<open>
  The world of a proxier: the services and slices as reported last and the contents of the kernel. A service
  with client IP affinity has a timeout and the names of protocols have no blank, as the API server
  ensures; so do the texts of addresses that the parser returns.
\<close>

record proxy_world =
  pw_services :: "NamespacedName \<Rightarrow> v1_Service option"
  pw_slices :: "NamespacedName \<times> string \<rightharpoonup> discovery_EndpointSlice"
  pw_kernel :: "string \<Rightarrow> contents"

definition service_ok :: "v1_Service \<Rightarrow> bool" where
  "service_ok s \<longleftrightarrow> (vs_SessionAffinity s = ServiceAffinityClientIP \<longrightarrow> vs_TimeoutSeconds s \<noteq> None) \<and>
     list_all (\<lambda>port. CHR '' '' \<notin> set (vsp_Protocol port)) (vs_Ports s)"

definition input_ok :: "sync_input \<Rightarrow> bool" where
  "input_ok input \<longleftrightarrow> (\<forall>m. set (si_order input m) = set m) \<and> perm_order (si_ord1 input) \<and> perm_order (si_ord2 input)"

fun nft_possible :: "proxy_world \<Rightarrow> (sync_input, sync_input) proxy_event \<Rightarrow> bool" where
  "nft_possible w (EvServiceAdd s) \<longleftrightarrow> service_ok s \<and> pw_services w (svcNN s) = None"
| "nft_possible w (EvServiceUpdate old s) \<longleftrightarrow> service_ok s \<and> svcNN s = svcNN old \<and> pw_services w (svcNN old) = Some old"
| "nft_possible w (EvServiceDelete old) \<longleftrightarrow> pw_services w (svcNN old) = Some old"
| "nft_possible w (EvServiceSynced input) \<longleftrightarrow> input_ok input"
| "nft_possible w (EvSliceAdd s) \<longleftrightarrow> slice_ok s"
| "nft_possible w (EvSliceUpdate old s) \<longleftrightarrow> slice_ok s"
| "nft_possible w (EvSliceDelete s) \<longleftrightarrow> slice_ok s"
| "nft_possible w (EvSlicesSynced input) \<longleftrightarrow> input_ok input"
| "nft_possible w (EvRun input) \<longleftrightarrow> input_ok input"
| "nft_possible w _ \<longleftrightarrow> True"

definition on_services where
  "on_services nn new w = w\<lparr>pw_services := (pw_services w)(nn := new)\<rparr>"

definition on_slices where
  "on_slices s removeSlice w = w\<lparr>pw_slices := report s removeSlice (pw_slices w)\<rparr>"

definition on_kernel where
  "on_kernel input effs w = w\<lparr>pw_kernel := kernel_after input effs (pw_kernel w)\<rparr>"

fun nft_after :: "(sync_input, sync_input) proxy_event \<Rightarrow> effect list \<Rightarrow> proxy_world \<Rightarrow> proxy_world" where
  "nft_after (EvServiceAdd s) effs w = on_services (svcNN s) (Some s) w"
| "nft_after (EvServiceUpdate old s) effs w = on_services (svcNN old) (Some s) w"
| "nft_after (EvServiceDelete s) effs w = on_services (svcNN s) None w"
| "nft_after (EvServiceSynced input) effs w = on_kernel input effs w"
| "nft_after (EvSliceAdd s) effs w = on_slices s False w"
| "nft_after (EvSliceUpdate old s) effs w = on_slices s False w"
| "nft_after (EvSliceDelete s) effs w = on_slices s True w"
| "nft_after (EvSlicesSynced input) effs w = on_kernel input effs w"
| "nft_after (EvRun input) effs w = on_kernel input effs w"
| "nft_after _ effs w = w"

text \<open>What the code relies on of its surroundings: node port ranges were parsed, addresses have no blank.\<close>

definition env_ok where
  "env_ok env px0 \<longleftrightarrow> cidrs_ok px0 \<and> (\<forall>s. CHR '' '' \<notin> set (IP_String (ne_ParseIPSloppy (pe_svc env) s)))"

text \<open>The faults of a synchronisation: those that the load balancer runs into.\<close>

fun nft_fails :: "'s proxy_env \<Rightarrow> (sync_input, sync_input) proxy_event \<Rightarrow> goerr \<Rightarrow> bool" where
  "nft_fails env (EvServiceSynced input) e \<longleftrightarrow> score_fault (pe_lb env) (si_clash input) e"
| "nft_fails env (EvSlicesSynced input) e \<longleftrightarrow> score_fault (pe_lb env) (si_clash input) e"
| "nft_fails env (EvRun input) e \<longleftrightarrow> score_fault (pe_lb env) (si_clash input) e"
| "nft_fails env _ e \<longleftrightarrow> False"

definition ports_ok :: "ServicePortMap \<Rightarrow> bool" where
  "ports_ok sm \<longleftrightarrow> wf_map sm \<and> (\<forall>x\<in>set sm. port_ok (ServicePort_base (snd x)))"

definition nft_agrees where
  "nft_agrees env px0 w px \<longleftrightarrow> env_ok env px0 \<and> px_reach env px0 (pw_services w) (pw_slices w) px (pw_kernel w) \<and>
     (\<forall>nn s. pw_services w nn = Some s \<longrightarrow> service_ok s) \<and> ports_ok (px_svcPortMap px)"

text \<open>The ports of services the API server accepts.\<close>

lemma newBaseServiceInfo_total: "service_ok s \<Longrightarrow> \<exists>b. newBaseServiceInfo env s fam port = Inr b"
  by (auto simp: service_ok_def newBaseServiceInfo_def split: option.split)

lemma newBaseServiceInfo_port_ok:
  assumes "newBaseServiceInfo env s fam port = Inr b" "\<forall>t. CHR '' '' \<notin> set (IP_String (ne_ParseIPSloppy env t))"
    "CHR '' '' \<notin> set (vsp_Protocol port)"
  shows "port_ok b"
proof -
  have "list_all (\<lambda>ip. CHR '' '' \<notin> set (IP_String ip)) (ingressVIPs env fam ings)" for ings
    unfolding ingressVIPs_def using assms(2)
    by (intro fold_invariant [where Q = "\<lambda>_. True" and P = "list_all (\<lambda>ip. CHR '' '' \<notin> set (IP_String ip))"]) (auto simp: Let_def)
  moreover have "ne_ParseIPSloppy (net_env.truncate env) = ne_ParseIPSloppy env" by (simp add: net_env.truncate_def)
  ultimately show ?thesis
    using assms by (auto simp: newBaseServiceInfo_def port_ok_def MapIPsByIPFamily_get list_all_iff split: sum.splits)
qed

definition keeps_base :: "ServiceChangeTracker \<Rightarrow> bool" where
  "keeps_base sct \<longleftrightarrow> (\<forall>f port s b. sct_makeServiceInfo sct = Some f \<longrightarrow> ServicePort_base (f port s b) = b)"

lemma portsToMap_total: "service_ok s \<Longrightarrow> \<exists>m'. portsToMap env sct s ports m = Inr m'"
proof (induction ports arbitrary: m)
  case (Cons port ports)
  then obtain b where "newBaseServiceInfo env s (sct_ipFamily sct) port = Inr b" using newBaseServiceInfo_total by blast
  with Cons show ?case by simp
qed simp

lemma portsToMap_ok:
  assumes "portsToMap env sct s ports m = Inr m'" "keeps_base sct" "\<forall>t. CHR '' '' \<notin> set (IP_String (ne_ParseIPSloppy env t))"
    "\<forall>port\<in>set ports. CHR '' '' \<notin> set (vsp_Protocol port)" "\<forall>x\<in>set m. port_ok (ServicePort_base (snd x))"
  shows "\<forall>x\<in>set m'. port_ok (ServicePort_base (snd x))"
  using assms
proof (induction ports arbitrary: m)
  case (Cons port ports)
  then obtain b where b: "newBaseServiceInfo env s (sct_ipFamily sct) port = Inr b" by (auto simp: res_bind_Inr_iff)
  define v where "v = (case sct_makeServiceInfo sct of Some f \<Rightarrow> f port s b | None \<Rightarrow> BaseServicePort b)"
  have "ServicePort_base v = b" using Cons.prems(2) by (simp add: v_def keeps_base_def split: option.split)
  then have "\<forall>x\<in>set (AList.update (portNameOf s port) v m). port_ok (ServicePort_base (snd x))"
    using newBaseServiceInfo_port_ok [OF b] Cons.prems(3-5) by (intro Ball_update) simp_all
  with Cons b show ?case by (simp add: v_def)
qed simp

lemma sct_Update_total:
  assumes "\<forall>s. old = Some s \<longrightarrow> service_ok s" "\<forall>s. new = Some s \<longrightarrow> service_ok s"
  shows "\<exists>r. sct_Update env old new sct = Inr r"
proof -
  have "\<exists>m. serviceToServiceMap env sct svc = Inr m" if "\<forall>s. svc = Some s \<longrightarrow> service_ok s" for svc
  proof (cases svc)
    case (Some s)
    with that obtain m where "portsToMap env sct s (vs_Ports s) [] = Inr m" using portsToMap_total by blast
    with Some show ?thesis by (simp add: serviceToServiceMap_def)
  qed (simp add: serviceToServiceMap_def)
  with assms obtain a b where "serviceToServiceMap env sct old = Inr a" "serviceToServiceMap env sct new = Inr b" by blast
  then show ?thesis by (auto simp: sct_Update_def Let_def split: option.split)
qed

lemma wf_spm_Update:
  assumes "spm_Update sct sm = (res, sct', sm')" "wf_map sm"
  shows "wf_map sm'"
proof -
  have unmerge: "wf_map (fst (spm_unmerge other st))" if "wf_map (fst st)" for other st
    unfolding spm_unmerge_def using that
    by (intro fold_invariant [where Q = "\<lambda>_. True" and P = "\<lambda>st. wf_map (fst st)"]) (auto split: option.split)
  have "wf_map (fst (applyChange c st))" if "wf_map (fst st)" for c st
    using that by (auto simp: applyChange_def spm_merge_def Let_def split_beta intro!: unmerge wf_map_fold_update)
  then have "wf_map (fst (fold applyChange cs st))" if "wf_map (fst st)" for cs st
    using that by (intro fold_invariant [where Q = "\<lambda>_. True" and P = "\<lambda>st. wf_map (fst st)"]) auto
  moreover have "sm' = fst (fold applyChange (sct_items sct) (sm, []))"
    using assms(1) by (auto simp: spm_Update_def split: prod.splits)
  ultimately show ?thesis using assms(2) by simp
qed

lemma px_reach_keeps_base: "px_reach env px0 svcs S px K \<Longrightarrow> keeps_base (px_serviceChanges px0)"
  by (induction rule: px_reach.induct)
    (auto simp: NewProxier_def NewServiceChangeTracker_def keeps_base_def newServiceInfo_def Let_def res_bind_Inr_iff split: if_splits)

lemma ports_ok_Sync:
  assumes "nft_agrees env px0 w px" "px1 = px\<lparr>px_servicesSynced := a, px_endpointSlicesSynced := b, px_initialized := c\<rparr>"
    "syncProxyRules env input px1 = Inr (effs, px')"
  shows "ports_ok (px_svcPortMap px')"
proof (cases c)
  case False
  with assms show ?thesis by (auto simp: syncProxyRules_def nft_agrees_def)
next
  case True
  then have i: "px_initialized px1" by (simp add: assms(2))
  note ag = assms(1) [unfolded nft_agrees_def env_ok_def]
  obtain sr where u: "spm_Update (px_serviceChanges px) (px_svcPortMap px) = (sr, px_serviceChanges px', px_svcPortMap px')"
    using syncProxyRules_tables(1) [OF assms(3) i] by (auto simp: assms(2))
  have r: "px_reach env px0 (pw_services w) (pw_slices w) px (pw_kernel w)" using ag by blast
  have inv: "svc_inv (pe_svc env) (px_serviceChanges px0) (pw_services w) (px_serviceChanges px) (px_svcPortMap px)"
    using px_reach_inv [OF r] by (simp add: run_inv_def svc_reach_inv)
  have wf: "wf_map (px_svcPortMap px')" using wf_spm_Update [OF u] ag by (simp add: ports_ok_def)
  have "port_ok (ServicePort_base v)" if v: "(k, v) \<in> set (px_svcPortMap px')" for k v
  proof -
    obtain m where m: "serviceToServiceMap (pe_svc env) (px_serviceChanges px0) (pw_services w (spn_NamespacedName k)) = Inr m"
      "map_of (elems m) k = Some v"
      using svc_inv_Sync(2) [OF inv u, of k] v wf by auto
    then obtain s m' where s: "pw_services w (spn_NamespacedName k) = Some s" "m = Some m'"
      "portsToMap (pe_svc env) (px_serviceChanges px0) s (vs_Ports s) [] = Inr m'"
      by (auto simp: serviceToServiceMap_def res_bind_Inr_iff split: option.splits if_splits)
    have ips: "\<forall>t. CHR '' '' \<notin> set (IP_String (ne_ParseIPSloppy (pe_svc env) t))" using ag by blast
    have "service_ok s" using ag s(1) by blast
    then have "\<forall>port\<in>set (vs_Ports s). CHR '' '' \<notin> set (vsp_Protocol port)" unfolding service_ok_def list_all_iff by blast
    from portsToMap_ok [OF s(3) px_reach_keeps_base [OF r] ips this] have "\<forall>x\<in>set m'. port_ok (ServicePort_base (snd x))" by simp
    moreover have "(k, v) \<in> set m'" using m(2) s(2) by (simp add: map_of_SomeD)
    ultimately show ?thesis by force
  qed
  then show ?thesis using wf by (auto simp: ports_ok_def)
qed

lemma EndpointSliceUpdate_total: "\<exists>r. EndpointSliceUpdate parseTime (Some s) removeSlice ect = Inr r"
  by (auto simp: EndpointSliceUpdate_def Let_def split_beta split: option.split sum.split)

lemma nft_service_event:
  assumes "nft_agrees env px0 w px" "\<forall>s. new = Some s \<longrightarrow> svcNN s = nn \<and> service_ok s"
  shows "\<exists>effs px'. OnServiceUpdate env (pw_services w nn) new px = Inr (effs, px') \<and> nft_agrees env px0 (on_services nn new w) px'"
proof -
  note ag = assms(1) [unfolded nft_agrees_def]
  obtain changed sct where "sct_Update (pe_svc env) (pw_services w nn) new (px_serviceChanges px) = Inr (changed, sct)"
    using sct_Update_total [of "pw_services w nn" new] ag assms(2) by (metis surj_pair)
  then obtain effs px' where u: "OnServiceUpdate env (pw_services w nn) new px = Inr (effs, px')" and sm: "px_svcPortMap px' = px_svcPortMap px"
    by (simp add: OnServiceUpdate_def Let_def)
  have "px_reach env px0 ((pw_services w)(nn := new)) (pw_slices w) px' (pw_kernel w)"
    using ag assms(2) by (intro px_reach.Service [where svcs = "pw_services w" and nn = nn, OF _ _ u]) auto
  then show ?thesis using u ag assms(2) sm by (auto simp: nft_agrees_def on_services_def)
qed

lemma nft_slice_event:
  assumes "nft_agrees env px0 w px" "slice_ok s"
  shows "\<exists>effs px'. endpointSliceEvent parseTime (Some s) removeSlice px = Inr (effs, px') \<and> nft_agrees env px0 (on_slices s removeSlice w) px'"
proof -
  note ag = assms(1) [unfolded nft_agrees_def]
  obtain changed ect where "EndpointSliceUpdate parseTime (Some s) removeSlice (px_endpointsChanges px) = Inr (changed, ect)"
    using EndpointSliceUpdate_total by (metis surj_pair)
  then obtain effs px' where u: "endpointSliceEvent parseTime (Some s) removeSlice px = Inr (effs, px')" and sm: "px_svcPortMap px' = px_svcPortMap px"
    by (simp add: endpointSliceEvent_def Let_def)
  have "px_reach env px0 (pw_services w) (report s removeSlice (pw_slices w)) px' (pw_kernel w)"
    using ag assms(2) by (intro px_reach.Slice [OF _ _ u]) auto
  then show ?thesis using u ag sm by (auto simp: nft_agrees_def on_slices_def)
qed

lemma nft_sync_event:
  assumes "nft_agrees env px0 w px" "input_ok input" "px1 = px\<lparr>px_servicesSynced := a, px_endpointSlicesSynced := b, px_initialized := c\<rparr>"
    "\<And>effs px'. syncProxyRules env input px1 = Inr (effs, px') \<Longrightarrow> sync_ok input px' \<Longrightarrow>
      px_reach env px0 (pw_services w) (pw_slices w) px' (kernel_after input effs (pw_kernel w))"
    "c \<longleftrightarrow> a \<and> b"
  shows "(\<exists>effs px'. syncProxyRules env input px1 = Inr (effs, px') \<and> nft_agrees env px0 (on_kernel input effs w) px') \<or>
    (\<exists>e. syncProxyRules env input px1 = Inl e \<and> score_fault (pe_lb env) (si_clash input) e)"
proof -
  note ag = assms(1) [unfolded nft_agrees_def env_ok_def]
  have r: "px_reach env px0 (pw_services w) (pw_slices w) px (pw_kernel w)" using ag by blast
  have inv: "run_inv env px0 (pw_services w) (pw_slices w) px1 (pw_kernel w)" "total_inv px0 px1"
    using px_reach_inv [OF r] px_reach_total [OF r] assms(5) by (simp_all add: assms(3) run_inv_def total_inv_def px_inv_def)
  consider (crash) e where "syncProxyRules env input px1 = Inl e" "score_fault (pe_lb env) (si_clash input) e"
    | (returned) effs px' where "syncProxyRules env input px1 = Inr (effs, px')"
    using sync_returns [OF inv] ag assms(2) unfolding input_ok_def by blast
  then show ?thesis
  proof cases
    case s: returned
    have p: "ports_ok (px_svcPortMap px')" by (rule ports_ok_Sync [OF assms(1,3) s])
    then have "sync_ok input px'" using assms(2) by (simp add: sync_ok_def input_ok_def ports_ok_def)
    from assms(4) [OF s this] show ?thesis using s p assms(1) by (auto simp: nft_agrees_def on_kernel_def)
  qed blast
qed

lemma nft_agrees_sync:
  assumes "nft_agrees env px0 w px" "input_ok input"
  shows "(\<exists>effs px'. syncProxyRules env input px = Inr (effs, px') \<and> nft_agrees env px0 (on_kernel input effs w) px') \<or>
    (\<exists>e. syncProxyRules env input px = Inl e \<and> score_fault (pe_lb env) (si_clash input) e)"
    "(\<exists>effs px'. OnServiceSynced env input px = Inr (effs, px') \<and> nft_agrees env px0 (on_kernel input effs w) px') \<or>
    (\<exists>e. OnServiceSynced env input px = Inl e \<and> score_fault (pe_lb env) (si_clash input) e)"
    "(\<exists>effs px'. OnEndpointSlicesSynced env input px = Inr (effs, px') \<and> nft_agrees env px0 (on_kernel input effs w) px') \<or>
    (\<exists>e. OnEndpointSlicesSynced env input px = Inl e \<and> score_fault (pe_lb env) (si_clash input) e)"
proof -
  have r: "px_reach env px0 (pw_services w) (pw_slices w) px (pw_kernel w)" using assms(1) by (simp add: nft_agrees_def)
  have i: "px_initialized px \<longleftrightarrow> px_servicesSynced px \<and> px_endpointSlicesSynced px" using px_reach_inv [OF r] by (simp add: run_inv_def)
  show "(\<exists>effs px'. syncProxyRules env input px = Inr (effs, px') \<and> nft_agrees env px0 (on_kernel input effs w) px') \<or>
    (\<exists>e. syncProxyRules env input px = Inl e \<and> score_fault (pe_lb env) (si_clash input) e)"
  proof (rule nft_sync_event [OF assms])
    show "px = px\<lparr>px_servicesSynced := px_servicesSynced px, px_endpointSlicesSynced := px_endpointSlicesSynced px,
      px_initialized := px_initialized px\<rparr>" by simp
  qed (use i px_reach.Sync [OF r] in simp_all)
  show "(\<exists>effs px'. OnServiceSynced env input px = Inr (effs, px') \<and> nft_agrees env px0 (on_kernel input effs w) px') \<or>
    (\<exists>e. OnServiceSynced env input px = Inl e \<and> score_fault (pe_lb env) (si_clash input) e)"
    unfolding OnServiceSynced_def
    by (rule nft_sync_event [where a = True and b = "px_endpointSlicesSynced px" and c = "px_endpointSlicesSynced px", OF assms])
      (simp_all add: px_reach.ServicesSynced [OF r] OnServiceSynced_def)
  show "(\<exists>effs px'. OnEndpointSlicesSynced env input px = Inr (effs, px') \<and> nft_agrees env px0 (on_kernel input effs w) px') \<or>
    (\<exists>e. OnEndpointSlicesSynced env input px = Inl e \<and> score_fault (pe_lb env) (si_clash input) e)"
    unfolding OnEndpointSlicesSynced_def
    by (rule nft_sync_event [where a = "px_servicesSynced px" and b = True and c = "px_servicesSynced px", OF assms])
      (simp_all add: px_reach.SlicesSynced [OF r] OnEndpointSlicesSynced_def)
qed

lemma nft_agrees_other:
  assumes "nft_agrees env px0 w px"
  shows "nft_agrees env px0 w (snd (OnNodeUpdate n labels px))" "nft_agrees env px0 w (snd (OnNodeDelete n px))"
    "nft_agrees env px0 w (OnServiceCIDRsChanged uenv cidrs px)"
proof -
  note ag = assms [unfolded nft_agrees_def]
  have r: "px_reach env px0 (pw_services w) (pw_slices w) px (pw_kernel w)" using ag by blast
  have "px_svcPortMap (snd (OnNodeUpdate n labels px)) = px_svcPortMap px" "px_svcPortMap (snd (OnNodeDelete n px)) = px_svcPortMap px"
    "px_svcPortMap (OnServiceCIDRsChanged uenv cidrs px) = px_svcPortMap px"
    by (simp_all add: OnNodeUpdate_def OnNodeDelete_def OnServiceCIDRsChanged_def Let_def)
  with ag px_reach.Node [OF r prod.collapse [symmetric]] px_reach.NodeDelete [OF r prod.collapse [symmetric]] px_reach.CIDRs [OF r]
  show "nft_agrees env px0 w (snd (OnNodeUpdate n labels px))" "nft_agrees env px0 w (snd (OnNodeDelete n px))"
    "nft_agrees env px0 w (OnServiceCIDRsChanged uenv cidrs px)"
    unfolding nft_agrees_def by simp_all
qed

interpretation nft: provider "nft_handle env parseTime" nft_possible nft_after "nft_agrees env px0" "nft_fails env" for env parseTime px0
proof
  fix w px and ev :: "(sync_input, sync_input) proxy_event"
  assume a: "nft_agrees env px0 w px" "nft_possible w ev"
  note svc = nft_service_event [OF a(1)]
  show "(\<exists>effs px'. nft_handle env parseTime ev px = Inr (effs, px') \<and> nft_agrees env px0 (nft_after ev effs w) px') \<or>
    (\<exists>e. nft_handle env parseTime ev px = Inl e \<and> nft_fails env ev e)"
  proof (cases ev)
    case (EvServiceAdd s)
    with a svc [of "Some s" "svcNN s"] show ?thesis by (simp add: OnServiceAdd_def)
  next
    case (EvServiceUpdate old s)
    with a svc [of "Some s" "svcNN old"] show ?thesis by simp
  next
    case (EvServiceDelete s)
    with a svc [of None "svcNN s"] show ?thesis by (simp add: OnServiceDelete_def)
  next
    case (EvNodeAdd n labels)
    with nft_agrees_other(1) [OF a(1), of n labels] show ?thesis by (cases "OnNodeUpdate n labels px") (simp add: OnNodeAdd_def)
  next
    case (EvNodeUpdate n labels)
    with nft_agrees_other(1) [OF a(1), of n labels] show ?thesis by (cases "OnNodeUpdate n labels px") simp
  next
    case (EvNodeDelete n)
    with nft_agrees_other(2) [OF a(1), of n] show ?thesis by (cases "OnNodeDelete n px") simp
  next
    case (EvCIDRsChanged cidrs)
    with nft_agrees_other(3) [OF a(1)] show ?thesis by simp
  next
    case (EvSliceAdd s)
    with a nft_slice_event [OF a(1), of s parseTime False] show ?thesis by (simp add: OnEndpointSliceAdd_def)
  next
    case (EvSliceUpdate old s)
    with a nft_slice_event [OF a(1), of s parseTime False] show ?thesis by (simp add: OnEndpointSliceUpdate_def)
  next
    case (EvSliceDelete s)
    with a nft_slice_event [OF a(1), of s parseTime True] show ?thesis by (simp add: OnEndpointSliceDelete_def)
  qed (use a nft_agrees_sync [OF a(1)] in simp_all)
qed

interpretation dual: dual_provider "nft_handle env4 parse4" nft_possible nft_after "nft_agrees env4 px4" "nft_fails env4"
  "nft_handle env6 parse6" nft_possible nft_after "nft_agrees env6 px6" "nft_fails env6"
  for env4 parse4 px4 env6 parse6 px6
  by unfold_locales

section \<open>Dual stack\<close>

definition new_world :: "(string \<Rightarrow> contents) \<Rightarrow> proxy_world" where
  "new_world K = \<lparr>pw_services = Map.empty, pw_slices = Map.empty, pw_kernel = K\<rparr>"

definition is_new :: "'s Proxier \<Rightarrow> bool" where
  "is_new px \<longleftrightarrow> (\<exists>uenv nnString hash8 now initOnly wao ipFamily syncPeriod masqueradeAll masqueradeBit localDetector hostname nodeIP
     healthzServer nodePortAddressStrings. NewProxier uenv nnString hash8 now (Inr () :: unit result) initOnly wao ipFamily syncPeriod masqueradeAll
       masqueradeBit localDetector hostname nodeIP healthzServer nodePortAddressStrings = Inr (Some px))"

lemma nft_agrees_new:
  assumes "is_new px0" "env_ok env px0"
  shows "nft_agrees env px0 (new_world K) px0"
proof -
  have "px_reach env px0 Map.empty Map.empty px0 K" using assms(1) px_reach.Start unfolding is_new_def by blast
  moreover have "px_svcPortMap px0 = []"
    using assms(1) by (auto simp: is_new_def NewProxier_def res_bind_Inr_iff split: if_splits)
  ultimately show ?thesis using assms(2) by (simp add: nft_agrees_def new_world_def ports_ok_def)
qed

lemma nft_agrees_run:
  assumes "nft_agrees env px0 w px" "input_ok input"
  shows "(\<exists>effs px'. syncProxyRules env input px = Inr (effs, px') \<and>
      (px_initialized px \<and> si_run input \<longrightarrow> kernel_after input effs (pw_kernel w) (cname c) = wantedBy env input px' c)) \<or>
    (\<exists>e. syncProxyRules env input px = Inl e \<and> score_fault (pe_lb env) (si_clash input) e)"
proof -
  have "kernel_after input effs (pw_kernel w) (cname c) = wantedBy env input px' c"
    if s: "syncProxyRules env input px = Inr (effs, px')" "nft_agrees env px0 (on_kernel input effs w) px'" and i: "px_initialized px" "si_run input"
    for effs px'
  proof -
    have "px_inv (pw_kernel w) px" using assms(1) px_reach_inv by (fastforce simp: nft_agrees_def run_inv_def)
    moreover have "sync_ok input px'" using s(2) assms(2) by (simp add: nft_agrees_def sync_ok_def input_ok_def ports_ok_def)
    ultimately show ?thesis using i syncProxyRules_exact(3) [OF _ _ s(1)] by blast
  qed
  with nft_agrees_sync(1) [OF assms] show ?thesis by blast
qed

text \<open>
  C4. A dual-stack node: two new nftables proxiers under the dual-stack proxier take any sequence of
  events, whatever the two tables of the kernel held before, events of both kinds of slices and runs of the two
  loops interleaved in any order. Either all the events are handled, or the process ends in one of the
  synchronisations of the sequence, with a fault of the load balancer of that family: a panic of one of its
  clients, the nil metrics of a node, or the concurrent writes to its table of scores; nothing else can end it.
  When the events are handled, the loop of either proxier can run: it returns, or ends in such a fault of its own
  load balancer; when it returns it has left the other proxier alone, and if its caches are synced and
  the kernel accepts the transaction, its sets and maps hold exactly what its own services and endpoints ask for.
  Assumed are that the ranges of node port addresses were parsed when the proxiers were made, that the texts of
  parsed addresses have no blank, and that a run visits each entry of the tables it iterates over once.
\<close>

theorem dual_stack_exact:
  assumes "is_new px4" "is_new px6" "env_ok env4 px4" "env_ok env6 px6" "input_ok input"
  shows "(\<exists>w px. run_events (meta_handle (nft_handle env4 parse4) (nft_handle env6 parse6)) (meta_possible nft_possible nft_possible)
      (meta_after nft_after nft_after) evs (new_world K4, new_world K6) (px4, px6) = Inr (w, px) \<and>
    ((\<exists>effs px'. meta_handle (nft_handle env4 parse4) (nft_handle env6 parse6) (EvRun (Inl input)) px = Inr (map Inl effs, (px', snd px)) \<and>
        (px_initialized (fst px) \<and> si_run input \<longrightarrow>
          kernel_after input effs (pw_kernel (fst w)) (cname c) = wantedBy env4 input px' c)) \<or>
      (\<exists>e. meta_handle (nft_handle env4 parse4) (nft_handle env6 parse6) (EvRun (Inl input)) px = Inl e \<and>
        score_fault (pe_lb env4) (si_clash input) e)) \<and>
    ((\<exists>effs px'. meta_handle (nft_handle env4 parse4) (nft_handle env6 parse6) (EvRun (Inr input)) px = Inr (map Inr effs, (fst px, px')) \<and>
        (px_initialized (snd px) \<and> si_run input \<longrightarrow>
          kernel_after input effs (pw_kernel (snd w)) (cname c) = wantedBy env6 input px' c)) \<or>
      (\<exists>e. meta_handle (nft_handle env4 parse4) (nft_handle env6 parse6) (EvRun (Inr input)) px = Inl e \<and>
        score_fault (pe_lb env6) (si_clash input) e))) \<or>
   (\<exists>ev\<in>set evs. \<exists>e. run_events (meta_handle (nft_handle env4 parse4) (nft_handle env6 parse6)) (meta_possible nft_possible nft_possible)
      (meta_after nft_after nft_after) evs (new_world K4, new_world K6) (px4, px6) = Inl e \<and>
      meta_fails (nft_fails env4) (nft_fails env6) ev e)"
proof -
  have run: "(\<exists>effs px'. meta_handle (nft_handle env4 parse4) (nft_handle env6 parse6) (EvRun (Inl input)) px = Inr (map Inl effs, (px', snd px)) \<and>
        (px_initialized (fst px) \<and> si_run input \<longrightarrow>
          kernel_after input effs (pw_kernel (fst w)) (cname c) = wantedBy env4 input px' c)) \<or>
      (\<exists>e. meta_handle (nft_handle env4 parse4) (nft_handle env6 parse6) (EvRun (Inl input)) px = Inl e \<and>
        score_fault (pe_lb env4) (si_clash input) e)"
    "(\<exists>effs px'. meta_handle (nft_handle env4 parse4) (nft_handle env6 parse6) (EvRun (Inr input)) px = Inr (map Inr effs, (fst px, px')) \<and>
        (px_initialized (snd px) \<and> si_run input \<longrightarrow>
          kernel_after input effs (pw_kernel (snd w)) (cname c) = wantedBy env6 input px' c)) \<or>
      (\<exists>e. meta_handle (nft_handle env4 parse4) (nft_handle env6 parse6) (EvRun (Inr input)) px = Inl e \<and>
        score_fault (pe_lb env6) (si_clash input) e)"
    if "meta_agrees (nft_agrees env4 px4) (nft_agrees env6 px6) w px" for w px
    using that nft_agrees_run [of env4 px4 "fst w" "fst px" input c] nft_agrees_run [of env6 px6 "snd w" "snd px" input c] assms(5)
    by (auto simp: meta_agrees_def call4_def call6_def)
  have "meta_agrees (nft_agrees env4 px4) (nft_agrees env6 px6) (new_world K4, new_world K6) (px4, px6)"
    using nft_agrees_new [OF assms(1,3)] nft_agrees_new [OF assms(2,4)] by (simp add: meta_agrees_def)
  from dual.run_agrees [OF this, of parse4 parse6 evs] run show ?thesis by blast
qed

definition example_dual_env :: "unit proxy_env" where
  "example_dual_env = example_proxy_env\<lparr>pe_svc := example_svc_env\<lparr>ne_ParseIPSloppy := (\<lambda>s. if CHR '' '' \<in> set s then None else Some s)\<rparr>\<rparr>"

definition example_px6 :: "unit Proxier" where
  "example_px6 = the (projr (NewProxier example_util_env (pe_nnString example_proxy_env) (\<lambda>_. ''ULMVA6XW'') 0 (Inr () :: unit result) False (Inr ([], ()))
     IPv6Protocol 30 False 0 NewNoOpLocalDetector ''n1'' (Some ''fd00::1'') False []))"

definition example_events :: "(sync_input \<times> sync_input, sync_input + sync_input) proxy_event list" where
  "example_events = [EvServiceSynced (example_input, example_input), EvSlicesSynced (example_input, example_input)]"

lemma example_dual_ok:
  "is_new example_px0" "is_new example_px6" "env_ok example_dual_env example_px0" "env_ok example_dual_env example_px6" "input_ok example_input"
proof -
  show "is_new example_px0" using example_new unfolding is_new_def example_new_def by blast
  have "NewProxier example_util_env (pe_nnString example_proxy_env) (\<lambda>_. ''ULMVA6XW'') 0 (Inr () :: unit result) False (Inr ([], ()))
     IPv6Protocol 30 False 0 NewNoOpLocalDetector ''n1'' (Some ''fd00::1'') False [] = Inr (Some example_px6)"
    by (simp add: example_px6_def NewProxier_def res_bind_def)
  then show "is_new example_px6" unfolding is_new_def by blast
  have "cidrs_ok example_px6"
  proof -
    have "px_nodePortAddresses example_px6 = NewNodePortAddresses example_util_env IPv6Protocol []"
      by (simp add: example_px6_def NewProxier_def res_bind_def)
    moreover have "None \<notin> set (npa_cidrs (NewNodePortAddresses example_util_env IPv6Protocol []))" by code_simp
    ultimately show ?thesis by (simp add: cidrs_ok_def)
  qed
  moreover have "CHR '' '' \<notin> set (IP_String (ne_ParseIPSloppy (pe_svc example_dual_env) s))" for s
    by (simp add: example_dual_env_def IP_String_def)
  ultimately show "env_ok example_dual_env example_px0" "env_ok example_dual_env example_px6"
    using example_clients(2) by (simp_all add: env_ok_def)
  show "input_ok example_input" using example_orders by (simp add: input_ok_def example_at_def)
qed

lemma example_no_fault:
  "\<not> score_fault (pe_lb example_dual_env) (si_clash example_input) e"
  "ev \<in> set example_events \<Longrightarrow> \<not> meta_fails (nft_fails example_dual_env) (nft_fails example_dual_env) ev e"
proof -
  show *: "\<not> score_fault (pe_lb example_dual_env) (si_clash example_input) e" for e
    using example_clients(1) by (simp add: example_dual_env_def)
  show "ev \<in> set example_events \<Longrightarrow> \<not> meta_fails (nft_fails example_dual_env) (nft_fails example_dual_env) ev e"
    using * by (auto simp: example_events_def meta_fails_def)
qed

text \<open>The caches are reported as synced one after the other: the proxiers are initialised, and the next run leaves the kernel as wanted.\<close>

theorem dual_stack_exact_witness:
  "\<exists>w px effs px'. run_events (meta_handle (nft_handle example_dual_env Map.empty) (nft_handle example_dual_env Map.empty))
      (meta_possible nft_possible nft_possible) (meta_after nft_after nft_after) example_events
      (new_world (\<lambda>_. [''stale'' \<mapsto> ''drop'']), new_world (\<lambda>_. Map.empty)) (example_px0, example_px6) = Inr (w, px) \<and>
     px_initialized (fst px) \<and>
     meta_handle (nft_handle example_dual_env Map.empty) (nft_handle example_dual_env Map.empty) (EvRun (Inl example_input)) px = Inr (map Inl effs, (px', snd px)) \<and>
     kernel_after example_input effs (pw_kernel (fst w)) (cname ServiceIPs) = wantedBy example_dual_env example_input px' ServiceIPs"
proof -
  obtain w px effs px' where
    r: "run_events (meta_handle (nft_handle example_dual_env Map.empty) (nft_handle example_dual_env Map.empty))
      (meta_possible nft_possible nft_possible) (meta_after nft_after nft_after) example_events
      (new_world (\<lambda>_. [''stale'' \<mapsto> ''drop'']), new_world (\<lambda>_. Map.empty)) (example_px0, example_px6) = Inr (w, px)"
    and h: "meta_handle (nft_handle example_dual_env Map.empty) (nft_handle example_dual_env Map.empty) (EvRun (Inl example_input)) px = Inr (map Inl effs, (px', snd px))"
    and k: "px_initialized (fst px) \<and> si_run example_input \<longrightarrow>
      kernel_after example_input effs (pw_kernel (fst w)) (cname ServiceIPs) = wantedBy example_dual_env example_input px' ServiceIPs"
    using dual_stack_exact [OF example_dual_ok, of Map.empty Map.empty example_events "\<lambda>_. [''stale'' \<mapsto> ''drop'']" "\<lambda>_. Map.empty" ServiceIPs]
      example_no_fault by blast
  have "meta_possible nft_possible nft_possible v (EvServiceSynced (example_input, example_input))"
    "meta_possible nft_possible nft_possible v (EvSlicesSynced (example_input, example_input))" for v
    using example_dual_ok(5) by (simp_all add: meta_possible_def)
  moreover have "OnServiceSynced env example_input px0 = Inr ([], px0\<lparr>px_servicesSynced := True, px_initialized := False\<rparr>)"
    if "px0 = example_px0 \<or> px0 = example_px6" for px0 and env :: "unit proxy_env"
    using that by (auto simp: OnServiceSynced_def syncProxyRules_def example_px0_def example_new_def example_px6_def NewProxier_def res_bind_def)
  ultimately have "\<exists>effs. OnEndpointSlicesSynced example_dual_env example_input (example_px0\<lparr>px_servicesSynced := True, px_initialized := False\<rparr>) = Inr (effs, fst px)"
    using r by (auto simp: example_events_def res_bind_Inr_iff callBoth_def call4_def call6_def)
  then have "px_initialized (fst px)"
    using syncProxyRules_tables(5) unfolding OnEndpointSlicesSynced_def by fastforce
  moreover have "si_run example_input" by (simp add: example_at_def)
  ultimately have "kernel_after example_input effs (pw_kernel (fst w)) (cname ServiceIPs) = wantedBy example_dual_env example_input px' ServiceIPs"
    using k by blast
  then show ?thesis using r h \<open>px_initialized (fst px)\<close>
    by (intro exI [of _ w] exI [of _ px] exI [of _ effs] exI [of _ px'] conjI)
qed

end
