(* ===== verification/Event_Dispatch.thy ===== *)
theory Event_Dispatch
  imports Meta_Proxier
begin

text \<open>
  The distribution of the informers' callbacks to the handlers, \<open>wao-loadbalancer/pkg/proxy/config/config.go\<close>. An object
  that an informer hands over is of the expected type, a tombstone (with or without such an object) or anything else; what a
  callback does is the list of calls it makes, each a handler with the event of \<open>Meta_Proxier\<close> it is given. The order
  of a set of CIDRs is a parameter.
\<close>

section \<open>Services, slices and nodes\<close>

datatype 'o informer_obj = Obj 'o | DeletedFinalStateUnknown "'o option" | OtherObj

type_synonym v1_NodeObj = "string \<times> (string, string) gomap option"

definition callAll :: "'h list \<Rightarrow> 'e \<Rightarrow> ('h \<times> 'e) list" where
  "callAll eventHandlers ev = map (\<lambda>h. (h, ev)) eventHandlers"

text \<open>The object of a deletion, from the tombstone if need be.\<close>

definition deletedObj :: "'o informer_obj \<Rightarrow> 'o option" where
  "deletedObj obj = (case obj of Obj x \<Rightarrow> Some x | DeletedFinalStateUnknown tombstone \<Rightarrow> tombstone | OtherObj \<Rightarrow> None)"

definition handleAddEndpointSlice :: "'h list \<Rightarrow> discovery_EndpointSlice informer_obj \<Rightarrow> ('h \<times> ('i, 'r) proxy_event) list" where
  "handleAddEndpointSlice hs obj = (case obj of Obj endpointSlice \<Rightarrow> callAll hs (EvSliceAdd endpointSlice) | _ \<Rightarrow> [])"

definition handleUpdateEndpointSlice ::
  "'h list \<Rightarrow> discovery_EndpointSlice informer_obj \<Rightarrow> discovery_EndpointSlice informer_obj \<Rightarrow> ('h \<times> ('i, 'r) proxy_event) list" where
  "handleUpdateEndpointSlice hs oldObj newObj =
     (case (oldObj, newObj) of (Obj old, Obj new) \<Rightarrow> callAll hs (EvSliceUpdate old new) | _ \<Rightarrow> [])"

definition handleDeleteEndpointSlice :: "'h list \<Rightarrow> discovery_EndpointSlice informer_obj \<Rightarrow> ('h \<times> ('i, 'r) proxy_event) list" where
  "handleDeleteEndpointSlice hs obj = (case deletedObj obj of Some endpointSlice \<Rightarrow> callAll hs (EvSliceDelete endpointSlice) | None \<Rightarrow> [])"

definition handleAddService :: "'h list \<Rightarrow> v1_Service informer_obj \<Rightarrow> ('h \<times> ('i, 'r) proxy_event) list" where
  "handleAddService hs obj = (case obj of Obj service \<Rightarrow> callAll hs (EvServiceAdd service) | _ \<Rightarrow> [])"

definition handleUpdateService ::
  "'h list \<Rightarrow> v1_Service informer_obj \<Rightarrow> v1_Service informer_obj \<Rightarrow> ('h \<times> ('i, 'r) proxy_event) list" where
  "handleUpdateService hs oldObj newObj =
     (case (oldObj, newObj) of (Obj old, Obj new) \<Rightarrow> callAll hs (EvServiceUpdate old new) | _ \<Rightarrow> [])"

definition handleDeleteService :: "'h list \<Rightarrow> v1_Service informer_obj \<Rightarrow> ('h \<times> ('i, 'r) proxy_event) list" where
  "handleDeleteService hs obj = (case deletedObj obj of Some service \<Rightarrow> callAll hs (EvServiceDelete service) | None \<Rightarrow> [])"

definition handleAddNode :: "'h list \<Rightarrow> v1_NodeObj informer_obj \<Rightarrow> ('h \<times> ('i, 'r) proxy_event) list" where
  "handleAddNode hs obj = (case obj of Obj (name, labels) \<Rightarrow> callAll hs (EvNodeAdd name labels) | _ \<Rightarrow> [])"

definition handleUpdateNode :: "'h list \<Rightarrow> v1_NodeObj informer_obj \<Rightarrow> v1_NodeObj informer_obj \<Rightarrow> ('h \<times> ('i, 'r) proxy_event) list" where
  "handleUpdateNode hs oldObj newObj =
     (case (oldObj, newObj) of (Obj _, Obj (name, labels)) \<Rightarrow> callAll hs (EvNodeUpdate name labels) | _ \<Rightarrow> [])"

definition handleDeleteNode :: "'h list \<Rightarrow> v1_NodeObj informer_obj \<Rightarrow> ('h \<times> ('i, 'r) proxy_event) list" where
  "handleDeleteNode hs obj = (case deletedObj obj of Some (name, _) \<Rightarrow> callAll hs (EvNodeDelete name) | None \<Rightarrow> [])"

text \<open>\<open>Run\<close> of a config: the handlers are told once, after the cache has synced; \<open>input\<close> is what they read then.\<close>

definition ServiceConfig_Run :: "'h list \<Rightarrow> bool \<Rightarrow> 'i \<Rightarrow> ('h \<times> ('i, 'r) proxy_event) list" where
  "ServiceConfig_Run hs cacheSynced input = (if \<not> cacheSynced then [] else callAll hs (EvServiceSynced input))"

definition EndpointSliceConfig_Run :: "'h list \<Rightarrow> bool \<Rightarrow> 'i \<Rightarrow> ('h \<times> ('i, 'r) proxy_event) list" where
  "EndpointSliceConfig_Run hs cacheSynced input = (if \<not> cacheSynced then [] else callAll hs (EvSlicesSynced input))"

definition NodeConfig_Run :: "'h list \<Rightarrow> bool \<Rightarrow> ('h \<times> ('i, 'r) proxy_event) list" where
  "NodeConfig_Run hs cacheSynced = (if \<not> cacheSynced then [] else callAll hs EvNodeSynced)"

section \<open>Service CIDRs\<close>

record ServiceCIDRObj =
  sc_Name :: string
  sc_CIDRs :: "string list"

text \<open>A set of texts without duplicates.\<close>

definition set_Delete :: "string list \<Rightarrow> string list \<Rightarrow> string list" where
  "set_Delete items s = filter (\<lambda>x. x \<notin> set items) s"

definition set_Insert :: "string list \<Rightarrow> string list \<Rightarrow> string list" where
  "set_Insert items s = fold List.insert items s"

text \<open>The outer option is a nil object.\<close>

definition handleServiceCIDREvent ::
  "(string list \<Rightarrow> string list) \<Rightarrow> 'h list \<Rightarrow> ServiceCIDRObj informer_obj option \<Rightarrow> ServiceCIDRObj informer_obj option \<Rightarrow> string list \<Rightarrow>
     ('h \<times> ('i, 'r) proxy_event) list \<times> string list" where
  "handleServiceCIDREvent UnsortedList hs oldObj newObj cidrs =
     (let bad = (\<lambda>obj. case obj of None \<Rightarrow> False | Some (Obj _) \<Rightarrow> False | Some _ \<Rightarrow> True)
      in if bad oldObj \<or> bad newObj then ([], cidrs)
         else (let cidrs = (case oldObj of Some (Obj old) \<Rightarrow> set_Delete (sc_CIDRs old) cidrs | _ \<Rightarrow> cidrs);
                   cidrs = (case newObj of Some (Obj new) \<Rightarrow> set_Insert (sc_CIDRs new) cidrs | _ \<Rightarrow> cidrs)
               in (callAll hs (EvCIDRsChanged (UnsortedList cidrs)), cidrs)))"

definition ServiceCIDRConfig_Run ::
  "(string list \<Rightarrow> string list) \<Rightarrow> 'h list \<Rightarrow> bool \<Rightarrow> string list \<Rightarrow> ('h \<times> ('i, 'r) proxy_event) list \<times> string list" where
  "ServiceCIDRConfig_Run UnsortedList hs cacheSynced cidrs =
     (if \<not> cacheSynced then ([], cidrs) else handleServiceCIDREvent UnsortedList hs None None cidrs)"

section \<open>The informer of the services\<close>

datatype 'o callback = OnAdd "'o informer_obj" | OnUpdate "'o informer_obj" "'o informer_obj" | OnDelete "'o informer_obj"

definition serviceCalls :: "'h list \<Rightarrow> v1_Service callback \<Rightarrow> ('h \<times> ('i, 'r) proxy_event) list" where
  "serviceCalls hs cb =
     (case cb of OnAdd obj \<Rightarrow> handleAddService hs obj | OnUpdate oldObj newObj \<Rightarrow> handleUpdateService hs oldObj newObj
      | OnDelete obj \<Rightarrow> handleDeleteService hs obj)"

text \<open>
  What reaches a proxier: the callbacks of the informer of the services, and any other event, with the syncs and
  runs among them. The informer's store goes from one state to another: an object is added, updated from its stored
  state, or deleted, the deletion perhaps only noticed in a later list and then with the stored state in a tombstone; a
  callback with an object of another type may come in between.
\<close>

datatype delivery = ServiceCallback "v1_Service callback" | OtherEvent "(sync_input, sync_input) proxy_event"

fun delivered :: "delivery \<Rightarrow> (sync_input, sync_input) proxy_event list" where
  "delivered (ServiceCallback cb) = map snd (serviceCalls [()] cb)"
| "delivered (OtherEvent ev) = [ev]"

fun service_event :: "('i, 'r) proxy_event \<Rightarrow> bool" where
  "service_event (EvServiceAdd _) \<longleftrightarrow> True"
| "service_event (EvServiceUpdate _ _) \<longleftrightarrow> True"
| "service_event (EvServiceDelete _) \<longleftrightarrow> True"
| "service_event _ \<longleftrightarrow> False"

inductive service_feed :: "(NamespacedName \<Rightarrow> v1_Service option) \<Rightarrow> delivery list \<Rightarrow> (NamespacedName \<Rightarrow> v1_Service option) \<Rightarrow> bool" where
  Done: "service_feed st [] st"
| Added: "service_ok s \<Longrightarrow> st (svcNN s) = None \<Longrightarrow> service_feed (st(svcNN s := Some s)) ds st' \<Longrightarrow>
    service_feed st (ServiceCallback (OnAdd (Obj s)) # ds) st'"
| Updated: "service_ok s \<Longrightarrow> svcNN s = svcNN old \<Longrightarrow> st (svcNN old) = Some old \<Longrightarrow> service_feed (st(svcNN old := Some s)) ds st' \<Longrightarrow>
    service_feed st (ServiceCallback (OnUpdate (Obj old) (Obj s)) # ds) st'"
| Deleted: "st (svcNN old) = Some old \<Longrightarrow> obj = Obj old \<or> obj = DeletedFinalStateUnknown (Some old) \<Longrightarrow>
    service_feed (st(svcNN old := None)) ds st' \<Longrightarrow> service_feed st (ServiceCallback (OnDelete obj) # ds) st'"
| Ignored: "cb \<in> {OnAdd OtherObj, OnDelete OtherObj, OnDelete (DeletedFinalStateUnknown None)} \<Longrightarrow> service_feed st ds st' \<Longrightarrow>
    service_feed st (ServiceCallback cb # ds) st'"
| Other: "\<not> service_event ev \<Longrightarrow> service_feed st ds st' \<Longrightarrow> service_feed st (OtherEvent ev # ds) st'"

abbreviation nft_run where
  "nft_run env parseTime ds w px \<equiv> run_events (nft_handle env parseTime) nft_possible nft_after (concat (map delivered ds)) w px"

text \<open>A run that ended agrees with the store \<open>st\<close>, or ended in a fault of the load balancer.\<close>

abbreviation followed where
  "followed env px0 evs st r \<equiv> (\<exists>w px. r = Inr (w, px) \<and> nft_agrees env px0 w px \<and> pw_services w = st) \<or>
     (\<exists>ev\<in>set evs. \<exists>e. r = Inl e \<and> nft_fails env ev e)"

lemma dispatched_step:
  assumes "nft_agrees env px0 w px" "nft_possible w ev" "delivered d = [ev]"
    and "\<And>effs. pw_services (nft_after ev effs w) = st"
    and "\<And>w px. nft_agrees env px0 w px \<Longrightarrow> pw_services w = st \<Longrightarrow>
      followed env px0 (concat (map delivered ds)) st' (nft_run env parseTime ds w px)"
  shows "followed env px0 (concat (map delivered (d # ds))) st' (nft_run env parseTime (d # ds) w px)"
  using nft.handles [OF assms(1,2), of parseTime]
proof (elim disjE exE conjE)
  fix effs px1
  assume "nft_handle env parseTime ev px = Inr (effs, px1)" "nft_agrees env px0 (nft_after ev effs w) px1"
  then show ?thesis using assms(2-4) assms(5) [of "nft_after ev effs w" px1] by auto
qed (use assms in auto)

lemma other_services: "\<not> service_event ev \<Longrightarrow> pw_services (nft_after ev effs w) = pw_services w"
  by (cases ev) (simp_all add: on_slices_def on_kernel_def)

lemma dispatched_services:
  assumes "service_feed st ds st'" "nft_agrees env px0 w px" "pw_services w = st"
  shows "followed env px0 (concat (map delivered ds)) st' (nft_run env parseTime ds w px)"
  using assms
proof (induction arbitrary: w px rule: service_feed.induct)
  case (Done st)
  then show ?case by simp
next
  case (Added s st ds st')
  show ?case
    by (rule dispatched_step [OF Added.prems(1) _ _ _ Added.IH, where ev = "EvServiceAdd s"])
      (use Added in \<open>simp_all add: fun_upd_def on_services_def serviceCalls_def handleAddService_def callAll_def\<close>)
next
  case (Updated s old st ds st')
  show ?case
    by (rule dispatched_step [OF Updated.prems(1) _ _ _ Updated.IH, where ev = "EvServiceUpdate old s"])
      (use Updated in \<open>simp_all add: fun_upd_def on_services_def serviceCalls_def handleUpdateService_def callAll_def\<close>)
next
  case (Deleted st old obj ds st')
  show ?case
    by (rule dispatched_step [OF Deleted.prems(1) _ _ _ Deleted.IH, where ev = "EvServiceDelete old"])
      (use Deleted in \<open>auto simp: fun_upd_def on_services_def serviceCalls_def handleDeleteService_def deletedObj_def callAll_def\<close>)
next
  case (Ignored cb st ds st')
  then have "delivered (ServiceCallback cb) = []"
    by (auto simp: serviceCalls_def handleAddService_def handleDeleteService_def deletedObj_def)
  with Ignored show ?case by simp
next
  case (Other ev st ds st')
  show ?case
  proof (cases "nft_possible w ev")
    case True
    show ?thesis
      by (rule dispatched_step [OF Other.prems(1) True _ _ Other.IH]) (use Other other_services in auto)
  next
    case False
    with Other.IH [OF Other.prems] show ?thesis by auto
  qed
qed

text \<open>The two caches have synced once the handlers were told so, and stay so.\<close>

definition synced_by :: "'s Proxier \<Rightarrow> (sync_input, sync_input) proxy_event list \<Rightarrow> bool" where
  "synced_by px evs \<longleftrightarrow> (px_servicesSynced px \<or> (\<exists>i. input_ok i \<and> EvServiceSynced i \<in> set evs)) \<and>
     (px_endpointSlicesSynced px \<or> (\<exists>i. input_ok i \<and> EvSlicesSynced i \<in> set evs))"

lemma syncProxyRules_synced:
  assumes "syncProxyRules env input px = Inr (effs, px')"
  shows "px_servicesSynced px' = px_servicesSynced px" "px_endpointSlicesSynced px' = px_endpointSlicesSynced px"
proof -
  have "px' = px" if "\<not> px_initialized px" using assms that by (simp add: syncProxyRules_def)
  then show "px_servicesSynced px' = px_servicesSynced px" "px_endpointSlicesSynced px' = px_endpointSlicesSynced px"
    using syncProxyRules_tables(3,4) [OF assms] by blast+
qed

lemma nft_handle_flags:
  assumes "nft_handle env parseTime ev px = Inr (effs, px')"
  shows "px_servicesSynced px' \<longleftrightarrow> px_servicesSynced px \<or> (\<exists>i. ev = EvServiceSynced i)"
    "px_endpointSlicesSynced px' \<longleftrightarrow> px_endpointSlicesSynced px \<or> (\<exists>i. ev = EvSlicesSynced i)"
proof -
  note sync = OnServiceSynced_def OnEndpointSlicesSynced_def
  have "(px_servicesSynced px' \<longleftrightarrow> px_servicesSynced px \<or> (\<exists>i. ev = EvServiceSynced i)) \<and>
    (px_endpointSlicesSynced px' \<longleftrightarrow> px_endpointSlicesSynced px \<or> (\<exists>i. ev = EvSlicesSynced i))"
  proof (cases "\<exists>i. ev = EvServiceSynced i \<or> ev = EvSlicesSynced i \<or> ev = EvRun i")
    case True
    then show ?thesis using assms by (elim exE disjE) (simp_all add: sync syncProxyRules_synced)
  next
    case False
    then show ?thesis using assms
      by (cases ev) (auto simp: OnServiceAdd_def OnServiceDelete_def OnServiceUpdate_def OnEndpointSliceAdd_def OnEndpointSliceUpdate_def
          OnEndpointSliceDelete_def endpointSliceEvent_def OnNodeAdd_def OnNodeUpdate_def OnNodeDelete_def OnServiceCIDRsChanged_def Let_def
          res_bind_Inr_iff split: if_splits)
  qed
  then show "px_servicesSynced px' \<longleftrightarrow> px_servicesSynced px \<or> (\<exists>i. ev = EvServiceSynced i)"
    "px_endpointSlicesSynced px' \<longleftrightarrow> px_endpointSlicesSynced px \<or> (\<exists>i. ev = EvSlicesSynced i)" by blast+
qed

lemma nft_handle_synced:
  assumes "nft_handle env parseTime ev px = Inr (effs, px')" "synced_by px (ev # evs)"
  shows "synced_by px' evs"
  using assms(2) nft_handle_flags [OF assms(1)] unfolding synced_by_def by auto

lemma run_synced:
  "run_events (nft_handle env parseTime) nft_possible nft_after evs w px = Inr (w', px') \<Longrightarrow> synced_by px evs \<Longrightarrow> synced_by px' []"
proof (induction evs arbitrary: w px)
  case (Cons ev evs)
  show ?case
  proof (cases "nft_possible w ev")
    case True
    with Cons.prems(1) obtain effs px1 where "nft_handle env parseTime ev px = Inr (effs, px1)"
      "run_events (nft_handle env parseTime) nft_possible nft_after evs (nft_after ev effs w) px1 = Inr (w', px')"
      by (auto simp: res_bind_Inr_iff)
    with Cons.IH nft_handle_synced Cons.prems(2) show ?thesis by blast
  next
    case False
    then have "synced_by px evs" using Cons.prems(2) by (auto simp: synced_by_def)
    with Cons False show ?thesis by simp
  qed
qed simp

text \<open>The table of a synchronisation is the translation of the services reported last.\<close>

lemma sync_table:
  assumes "nft_agrees env px0 w px" "px_initialized px" "syncProxyRules env input px = Inr (effs, px')"
  shows "\<exists>m. serviceToServiceMap (pe_svc env) (px_serviceChanges px0) (pw_services w (spn_NamespacedName k)) = Inr m \<and>
    map_of (px_svcPortMap px') k = map_of (elems m) k"
proof -
  have "svc_inv (pe_svc env) (px_serviceChanges px0) (pw_services w) (px_serviceChanges px) (px_svcPortMap px)"
    using assms(1) px_reach_inv unfolding nft_agrees_def run_inv_def by (metis svc_reach_inv)
  from svc_inv_Sync(2) [OF this] syncProxyRules_tables(1) [OF assms(3,2)] show ?thesis by metis
qed

text \<open>
  C6. The proxier follows the informer: a new proxier is given the callbacks of the informer of the services, who adds, updates
  and deletes services, with deletions it only noticed in a list among them, mixed in any order with other events (slices,
  nodes, CIDRs, runs of the loop); both caches are reported as synced at some point, before or after. Then the next run
  of the loop leaves in the table of service ports, under every name, exactly what the service of that name in the informer's store
  translates to and nothing where it has none, and, if the kernel accepts the transaction, in each map and set
  of the kernel what the tables want. The only alternative is that the process ended in a synchronisation by a fault of
  the load balancer: a panic of one of its clients, nil metrics, or concurrent writes to its scores. Assumed are parsed ranges of node port
  addresses, texts of addresses without a blank, services as the API server lets them through, and that each
  iteration visits every entry once.
\<close>

theorem dispatch_follows_store:
  assumes "is_new px" "env_ok env px" "service_feed Map.empty ds st" "input_ok input"
    and "OtherEvent (EvServiceSynced i1) \<in> set ds" "input_ok i1" "OtherEvent (EvSlicesSynced i2) \<in> set ds" "input_ok i2"
  shows "(\<exists>w px' effs px''. run_events (nft_handle env parseTime) nft_possible nft_after (concat (map delivered ds)) (new_world K) px = Inr (w, px') \<and>
      syncProxyRules env input px' = Inr (effs, px'') \<and>
      (\<forall>k. \<exists>m. serviceToServiceMap (pe_svc env) (px_serviceChanges px) (st (spn_NamespacedName k)) = Inr m \<and>
        map_of (px_svcPortMap px'') k = map_of (elems m) k) \<and>
      (si_run input \<longrightarrow> kernel_after input effs (pw_kernel w) (cname c) = wantedBy env input px'' c)) \<or>
    (\<exists>w px' e. run_events (nft_handle env parseTime) nft_possible nft_after (concat (map delivered ds)) (new_world K) px = Inr (w, px') \<and>
      syncProxyRules env input px' = Inl e \<and> score_fault (pe_lb env) (si_clash input) e) \<or>
    (\<exists>ev\<in>set (concat (map delivered ds)). \<exists>e. nft_fails env ev e \<and>
      run_events (nft_handle env parseTime) nft_possible nft_after (concat (map delivered ds)) (new_world K) px = Inl e)"
proof -
  have "pw_services (new_world K) = Map.empty" by (simp add: new_world_def)
  from dispatched_services [OF assms(3) nft_agrees_new [OF assms(1,2)] this, of parseTime]
  consider (crash) ev e where "ev \<in> set (concat (map delivered ds))" "nft_fails env ev e" "nft_run env parseTime ds (new_world K) px = Inl e"
    | (agrees) w px' where "nft_run env parseTime ds (new_world K) px = Inr (w, px')" "nft_agrees env px w px'" "pw_services w = st"
    by blast
  then show ?thesis
  proof cases
    case agrees
    have "synced_by px (concat (map delivered ds))" unfolding synced_by_def using assms(5-8) by force
    from run_synced [OF agrees(1) this] have i: "px_initialized px'"
      using agrees(2) px_reach_inv by (fastforce simp: synced_by_def nft_agrees_def run_inv_def)
    from nft_agrees_run [OF agrees(2) assms(4), of c] i sync_table [OF agrees(2) i] agrees show ?thesis by blast
  qed blast
qed

section \<open>The informer of the service CIDRs\<close>

lemma set_Insert_set [simp]: "set (set_Insert items s) = set items \<union> set s"
  unfolding set_Insert_def by (induction items arbitrary: s) auto

lemma set_Delete_set [simp]: "set (set_Delete items s) = set s - set items"
  by (auto simp: set_Delete_def)

text \<open>The objects of the store have no CIDR in common.\<close>

definition disjoint_cidrs :: "(string \<Rightarrow> ServiceCIDRObj option) \<Rightarrow> bool" where
  "disjoint_cidrs st \<longleftrightarrow>
     (\<forall>m n a b. st m = Some a \<longrightarrow> st n = Some b \<longrightarrow> m \<noteq> n \<longrightarrow> set (sc_CIDRs a) \<inter> set (sc_CIDRs b) = {})"

inductive cidr_feed ::
  "(string list \<Rightarrow> string list) \<Rightarrow> (string \<Rightarrow> ServiceCIDRObj option) \<Rightarrow> string list \<Rightarrow> bool" for order where
  Start: "cidr_feed order Map.empty []"
| Added: "cidr_feed order st cidrs \<Longrightarrow> st (sc_Name new) = None \<Longrightarrow> disjoint_cidrs (st(sc_Name new := Some new)) \<Longrightarrow>
    cidr_feed order (st(sc_Name new := Some new))
      (snd (handleServiceCIDREvent order ([] :: unit list) None (Some (Obj new)) cidrs :: (unit \<times> (unit, unit) proxy_event) list \<times> string list))"
| Updated: "cidr_feed order st cidrs \<Longrightarrow> st (sc_Name old) = Some old \<Longrightarrow> sc_Name new = sc_Name old \<Longrightarrow>
    disjoint_cidrs (st(sc_Name old := Some new)) \<Longrightarrow>
    cidr_feed order (st(sc_Name old := Some new))
      (snd (handleServiceCIDREvent order ([] :: unit list) (Some (Obj old)) (Some (Obj new)) cidrs :: (unit \<times> (unit, unit) proxy_event) list \<times> string list))"
| Deleted: "cidr_feed order st cidrs \<Longrightarrow> st (sc_Name old) = Some old \<Longrightarrow>
    cidr_feed order (st(sc_Name old := None))
      (snd (handleServiceCIDREvent order ([] :: unit list) (Some (Obj old)) None cidrs :: (unit \<times> (unit, unit) proxy_event) list \<times> string list))"

definition all_cidrs :: "(string \<Rightarrow> ServiceCIDRObj option) \<Rightarrow> string set" where
  "all_cidrs st = {x. \<exists>n a. st n = Some a \<and> x \<in> set (sc_CIDRs a)}"

lemma all_cidrs_update:
  "all_cidrs (st(n := Some a)) = set (sc_CIDRs a) \<union> all_cidrs (st(n := None))"
  by (auto simp: all_cidrs_def)

lemma all_cidrs_remove:
  "disjoint_cidrs st \<Longrightarrow> st n = Some a \<Longrightarrow> all_cidrs (st(n := None)) = all_cidrs st - set (sc_CIDRs a)"
proof (intro set_eqI iffI)
  fix x
  assume d: "disjoint_cidrs st" "st n = Some a"
  { assume "x \<in> all_cidrs (st(n := None))"
    then obtain m b where m: "m \<noteq> n" "st m = Some b" "x \<in> set (sc_CIDRs b)" by (auto simp: all_cidrs_def split: if_splits)
    then have "set (sc_CIDRs b) \<inter> set (sc_CIDRs a) = {}" using d unfolding disjoint_cidrs_def by blast
    then show "x \<in> all_cidrs st - set (sc_CIDRs a)" using m by (auto simp: all_cidrs_def) }
  { assume "x \<in> all_cidrs st - set (sc_CIDRs a)"
    then obtain m b where m: "st m = Some b" "x \<in> set (sc_CIDRs b)" "x \<notin> set (sc_CIDRs a)" by (auto simp: all_cidrs_def)
    then have "m \<noteq> n" using d(2) by auto
    then show "x \<in> all_cidrs (st(n := None))" using m by (auto simp: all_cidrs_def) }
qed

lemma disjoint_cidrs_remove: "disjoint_cidrs st \<Longrightarrow> disjoint_cidrs (st(n := None))"
  by (auto simp: disjoint_cidrs_def)

text \<open>
  While no two objects of the API share a CIDR, the set of service CIDRs the handlers are given is the union of the CIDRs of
  the objects in the informer's store, whatever is added, updated and deleted.
\<close>

theorem service_cidrs_exact:
  assumes "cidr_feed order st cidrs"
  shows "set cidrs = all_cidrs st \<and> disjoint_cidrs st"
  using assms
proof induction
  case Start
  show ?case by (simp add: all_cidrs_def disjoint_cidrs_def)
next
  case (Added st cidrs new)
  then have "st(sc_Name new := None) = st" by auto
  then show ?case using Added all_cidrs_update [of st "sc_Name new" new] by (simp add: handleServiceCIDREvent_def Let_def fun_upd_def)
next
  case (Updated st cidrs old new)
  then show ?case using all_cidrs_update [of st "sc_Name old" new] all_cidrs_remove [of st "sc_Name old" old]
    by (simp add: handleServiceCIDREvent_def Let_def fun_upd_def)
next
  case (Deleted st cidrs old)
  then show ?case using all_cidrs_remove [of st "sc_Name old" old] disjoint_cidrs_remove [of st]
    by (simp add: handleServiceCIDREvent_def Let_def fun_upd_def)
qed

text \<open>
  Deleting an object takes its CIDRs from the set even where another object still has them, and a deletion
  that arrives as a tombstone is ignored, so that its CIDRs stay: the two cases in which the set differs from the store.
\<close>

theorem service_cidrs_lost:
  assumes "x \<in> set (sc_CIDRs a)" "x \<in> set (sc_CIDRs b)"
  shows "(let (_, cidrs) = handleServiceCIDREvent order hs None (Some (Obj a)) [];
              (_, cidrs) = handleServiceCIDREvent order hs None (Some (Obj b)) cidrs;
              (_, cidrs) = handleServiceCIDREvent order hs (Some (Obj a)) None cidrs in x \<notin> set cidrs) \<and>
    handleServiceCIDREvent order hs (Some (DeletedFinalStateUnknown (Some a))) None cidrs = ([], cidrs)"
  using assms by (simp add: handleServiceCIDREvent_def Let_def)

section \<open>Witnesses\<close>

text \<open>
  A service is added, changed and deleted by a tombstone, and another one stays; the caches are reported as synced in
  between, so that some of the changes are seen by a synchronisation and others by the next.
\<close>

definition example_deliveries :: "delivery list" where
  "example_deliveries = [ServiceCallback (OnAdd (Obj example_service)), OtherEvent (EvServiceSynced example_input),
     OtherEvent (EvSlicesSynced example_input),
     ServiceCallback (OnUpdate (Obj example_service) (Obj (example_service\<lparr>vs_Type := ''NodePort''\<rparr>))),
     ServiceCallback (OnAdd (Obj (example_service\<lparr>vs_Name := ''web''\<rparr>))),
     ServiceCallback (OnDelete (DeletedFinalStateUnknown (Some (example_service\<lparr>vs_Type := ''NodePort''\<rparr>))))]"

lemma feed_of_three:
  assumes "service_ok a" "service_ok b" "service_ok c" "svcNN b = svcNN a" "svcNN c \<noteq> svcNN a" "\<not> service_event e" "\<not> service_event f"
  shows "service_feed Map.empty [ServiceCallback (OnAdd (Obj a)), OtherEvent e, OtherEvent f, ServiceCallback (OnUpdate (Obj a) (Obj b)),
    ServiceCallback (OnAdd (Obj c)), ServiceCallback (OnDelete (DeletedFinalStateUnknown (Some b)))] (Map.empty(svcNN c := Some c))"
proof -
  have fin: "service_feed st [] st'" if "st = st'" for st st' using that by (simp add: service_feed.Done)
  show ?thesis
    by (intro service_feed.Added service_feed.Updated service_feed.Deleted service_feed.Other fin) (use assms in auto)
qed

lemma example_feed:
  "service_feed Map.empty example_deliveries (Map.empty(svcNN (example_service\<lparr>vs_Name := ''web''\<rparr>) := Some (example_service\<lparr>vs_Name := ''web''\<rparr>)))"
proof -
  have "service_ok example_service" "service_ok (example_service\<lparr>vs_Type := ''NodePort''\<rparr>)" "service_ok (example_service\<lparr>vs_Name := ''web''\<rparr>)"
    by (simp_all add: service_ok_def example_service_def ServiceAffinityClientIP_def ProtocolUDP_def)
  moreover have "svcNN (example_service\<lparr>vs_Type := ''NodePort''\<rparr>) = svcNN example_service"
    "svcNN (example_service\<lparr>vs_Name := ''web''\<rparr>) \<noteq> svcNN example_service" by (simp_all add: svcNN_def example_service_def)
  ultimately show ?thesis
    unfolding example_deliveries_def by (rule feed_of_three) simp_all
qed

text \<open>No port of the deleted service is left in the table.\<close>

theorem dispatch_follows_store_witness:
  "\<exists>w px' effs px''. run_events (nft_handle example_dual_env Map.empty) nft_possible nft_after (concat (map delivered example_deliveries))
       (new_world (\<lambda>_. Map.empty)) example_px0 = Inr (w, px') \<and> syncProxyRules example_dual_env example_input px' = Inr (effs, px'') \<and>
     (\<forall>k. spn_NamespacedName k = svcNN example_service \<longrightarrow> map_of (px_svcPortMap px'') k = None) \<and>
     kernel_after example_input effs (pw_kernel w) (cname ServiceIPs) = wantedBy example_dual_env example_input px'' ServiceIPs"
proof -
  let ?web = "example_service\<lparr>vs_Name := ''web''\<rparr>"
  let ?run = "run_events (nft_handle example_dual_env Map.empty) nft_possible nft_after (concat (map delivered example_deliveries))
    (new_world (\<lambda>_. Map.empty)) example_px0"
  have mem: "OtherEvent (EvServiceSynced example_input) \<in> set example_deliveries" "OtherEvent (EvSlicesSynced example_input) \<in> set example_deliveries"
    by (simp_all add: example_deliveries_def)
  have none: "\<not> nft_fails example_dual_env ev e" if "ev \<in> set (concat (map delivered example_deliveries))" for ev e
    using that example_no_fault(1)
    by (auto simp: example_deliveries_def serviceCalls_def handleAddService_def handleUpdateService_def handleDeleteService_def callAll_def split: option.splits)
  have run: "si_run example_input" by (simp add: example_at_def)
  from dispatch_follows_store [OF example_dual_ok(1,3) example_feed example_dual_ok(5) mem(1) example_dual_ok(5) mem(2) example_dual_ok(5),
      of Map.empty "\<lambda>_. Map.empty" ServiceIPs] none example_no_fault(1) run
  obtain w px' effs px'' where r: "?run = Inr (w, px')" "syncProxyRules example_dual_env example_input px' = Inr (effs, px'')"
    "\<forall>k. \<exists>m. serviceToServiceMap (pe_svc example_dual_env) (px_serviceChanges example_px0)
      ((Map.empty(svcNN ?web := Some ?web)) (spn_NamespacedName k)) = Inr m \<and> map_of (px_svcPortMap px'') k = map_of (elems m) k"
    "kernel_after example_input effs (pw_kernel w) (cname ServiceIPs) = wantedBy example_dual_env example_input px'' ServiceIPs" by blast
  have "svcNN example_service \<noteq> svcNN ?web" by (simp add: svcNN_def example_service_def)
  then have "map_of (px_svcPortMap px'') k = None" if "spn_NamespacedName k = svcNN example_service" for k
    using r(3) [rule_format, of k] that by (auto simp: serviceToServiceMap_def)
  with r(1,2,4) show ?thesis by blast
qed

theorem service_cidrs_exact_witness:
  "set (snd (handleServiceCIDREvent id ([] :: unit list) None (Some (Obj \<lparr>sc_Name = ''a'', sc_CIDRs = [''10.0.0.0/8'']\<rparr>)) []
     :: (unit \<times> (unit, unit) proxy_event) list \<times> string list)) = {''10.0.0.0/8''}"
proof -
  let ?a = "\<lparr>sc_Name = ''a'', sc_CIDRs = [''10.0.0.0/8'']\<rparr>"
  have "disjoint_cidrs (Map.empty(sc_Name ?a := Some ?a))" by (simp add: disjoint_cidrs_def)
  from service_cidrs_exact [OF cidr_feed.Added [OF cidr_feed.Start [of id] _ this]] show ?thesis by (simp add: all_cidrs_def)
qed

theorem service_cidrs_lost_witness:
  "(let (_, cidrs) = handleServiceCIDREvent id [()] None (Some (Obj \<lparr>sc_Name = ''a'', sc_CIDRs = [''10.0.0.0/8'']\<rparr>)) [];
        (_, cidrs) = handleServiceCIDREvent id [()] None (Some (Obj \<lparr>sc_Name = ''b'', sc_CIDRs = [''10.0.0.0/8'']\<rparr>)) cidrs;
        (_, cidrs) = handleServiceCIDREvent id [()] (Some (Obj \<lparr>sc_Name = ''a'', sc_CIDRs = [''10.0.0.0/8'']\<rparr>)) None cidrs
    in ''10.0.0.0/8'' \<notin> set cidrs)"
  by (rule conjunct1 [OF service_cidrs_lost]) simp_all

end
