(* ===== verification/Proxy_Config.thy ===== *)
theory Proxy_Config
  imports Nft_Sync Float64
begin

text \<open>
  The configuration of the proxy, \<open>wao-loadbalancer/pkg/proxy/apis/config\<close>: the internal types of \<open>types.go\<close>,
  the defaults and conversions of \<open>v1alpha1\<close> and the validation of \<open>validation/validation.go\<close>. Durations are in
  nanoseconds, a pointer is an option, and slices are nil when they are empty. What other packages
  check (feature gates, logging, hidden metrics, the sign of a field, whether two CIDRs are of both families) and how they
  convert the client connection is a parameter; the logging options are opaque text.
\<close>

section \<open>Types\<close>

record KubeProxyConntrackConfiguration =
  cc_MaxPerCore :: "int option"
  cc_Min :: "int option"
  cc_TCPEstablishedTimeout :: "int option"
  cc_TCPCloseWaitTimeout :: "int option"
  cc_TCPBeLiberal :: bool
  cc_UDPTimeout :: int
  cc_UDPStreamTimeout :: int

record KubeProxyLinuxConfiguration =
  lc_Conntrack :: KubeProxyConntrackConfiguration
  lc_MasqueradeAll :: bool
  lc_OOMScoreAdj :: "int option"

record KubeProxyIPTablesConfiguration =
  ic_MasqueradeBit :: "int option"
  ic_LocalhostNodePorts :: "bool option"

record KubeProxyIPVSConfiguration =
  vc_Scheduler :: string
  vc_ExcludeCIDRs :: "string list"
  vc_StrictARP :: bool
  vc_TCPTimeout :: int
  vc_TCPFinTimeout :: int
  vc_UDPTimeout :: int

record KubeProxyWinkernelConfiguration =
  wk_NetworkName :: string
  wk_SourceVip :: string
  wk_EnableDSR :: bool
  wk_RootHnsEndpointName :: string
  wk_ForwardHealthCheckVip :: bool

record DetectLocalConfiguration =
  dc_BridgeInterface :: string
  dc_ClusterCIDRs :: "string list"
  dc_InterfaceNamePrefix :: string

record ClientConnectionConfiguration =
  cl_Kubeconfig :: string
  cl_AcceptContentTypes :: string
  cl_ContentType :: string
  cl_QPS :: f64
  cl_Burst :: int

record KubeProxyConfiguration =
  kc_Linux :: KubeProxyLinuxConfiguration
  kc_RunAsService :: bool
  kc_FeatureGates :: "(string, bool) gomap"
  kc_ClientConnection :: ClientConnectionConfiguration
  kc_Logging :: string
  kc_HostnameOverride :: string
  kc_BindAddress :: string
  kc_HealthzBindAddress :: string
  kc_MetricsBindAddress :: string
  kc_BindAddressHardFail :: bool
  kc_EnableProfiling :: bool
  kc_ShowHiddenMetricsForVersion :: string
  kc_Mode :: string
  kc_IPTables :: KubeProxyIPTablesConfiguration
  kc_IPVS :: KubeProxyIPVSConfiguration
  kc_Winkernel :: KubeProxyWinkernelConfiguration
  kc_NFTables :: "int option"
  kc_DetectLocalMode :: string
  kc_DetectLocal :: DetectLocalConfiguration
  kc_NodePortAddresses :: "string list"
  kc_SyncPeriod :: int
  kc_MinSyncPeriod :: int
  kc_ConfigSyncPeriod :: int

definition ProxyModeIPTables :: string where "ProxyModeIPTables = ''iptables''"
definition ProxyModeIPVS :: string where "ProxyModeIPVS = ''ipvs''"
definition ProxyModeNFTables :: string where "ProxyModeNFTables = ''nftables''"
definition ProxyModeKernelspace :: string where "ProxyModeKernelspace = ''kernelspace''"
definition LocalModeClusterCIDR :: string where "LocalModeClusterCIDR = ''ClusterCIDR''"
definition LocalModeNodeCIDR :: string where "LocalModeNodeCIDR = ''NodeCIDR''"
definition LocalModeBridgeInterface :: string where "LocalModeBridgeInterface = ''BridgeInterface''"
definition LocalModeInterfaceNamePrefix :: string where "LocalModeInterfaceNamePrefix = ''InterfaceNamePrefix''"
definition NodePortAddressesPrimary :: string where "NodePortAddressesPrimary = ''primary''"

text \<open>What is specific to one mode in the versioned type.\<close>

record v1alpha1_mode =
  vm_MasqueradeBit :: "int option"
  vm_MasqueradeAll :: bool
  vm_SyncPeriod :: int
  vm_MinSyncPeriod :: int

record v1alpha1_KubeProxyConfiguration =
  va_FeatureGates :: "(string, bool) gomap"
  va_ClientConnection :: ClientConnectionConfiguration
  va_Logging :: string
  va_HostnameOverride :: string
  va_BindAddress :: string
  va_HealthzBindAddress :: string
  va_MetricsBindAddress :: string
  va_BindAddressHardFail :: bool
  va_EnableProfiling :: bool
  va_ShowHiddenMetricsForVersion :: string
  va_Mode :: string
  va_IPTables :: v1alpha1_mode
  va_LocalhostNodePorts :: "bool option"
  va_IPVS :: KubeProxyIPVSConfiguration
  va_IPVSSyncPeriod :: int
  va_IPVSMinSyncPeriod :: int
  va_Winkernel :: KubeProxyWinkernelConfiguration
  va_NFTables :: v1alpha1_mode
  va_DetectLocalMode :: string
  va_BridgeInterface :: string
  va_InterfaceNamePrefix :: string
  va_ClusterCIDR :: string
  va_NodePortAddresses :: "string list"
  va_OOMScoreAdj :: "int option"
  va_Conntrack :: KubeProxyConntrackConfiguration
  va_ConfigSyncPeriod :: int
  va_WindowsRunAsService :: bool

datatype ErrorType = ErrorTypeInvalid | ErrorTypeNotSupported

text \<open>
  An error of \<open>field\<close>: its kind, the path and the detail. The rejected value is left out, and of \<open>NotSupported\<close> also the
  list of the supported ones.
\<close>

record field_error =
  fe_Type :: ErrorType
  fe_Field :: string
  fe_Detail :: string

record config_env =
  ce_util :: util_env
  ce_SetFromMap :: "(string, bool) gomap \<Rightarrow> string option"
  ce_ValidateLogging :: "string \<Rightarrow> field_error list"
  ce_ValidateShowHidden :: "string \<Rightarrow> string list"
  ce_ValidateNonnegative :: "int \<Rightarrow> string \<Rightarrow> field_error list"
  ce_IsDualStackCIDRStrings :: "string list \<Rightarrow> bool result"
  ce_NFTablesProxyMode :: bool
  ce_GOOS :: string
  ce_ClientIn :: "ClientConnectionConfiguration \<Rightarrow> ClientConnectionConfiguration"
  ce_ClientOut :: "ClientConnectionConfiguration \<Rightarrow> ClientConnectionConfiguration"
  ce_RecommendedLogging :: "string \<Rightarrow> string"

section \<open>Defaults\<close>

text \<open>The ports and the score of \<open>k8s.io/kubernetes/pkg\<close> that the defaults name.\<close>

definition second :: int where "second = 10 ^ 9"
definition ProxyHealthzPort :: int where "ProxyHealthzPort = 10256"
definition ProxyStatusPort :: int where "ProxyStatusPort = 10249"
definition KubeProxyOOMScoreAdj :: int where "KubeProxyOOMScoreAdj = -999"

definition getDefaultAddresses :: "config_env \<Rightarrow> string \<Rightarrow> string \<times> string" where
  "getDefaultAddresses env bindAddress =
     (case ne_ParseIPSloppy (ce_util env) bindAddress of
        Some ip \<Rightarrow> if ue_To4 (ce_util env) ip then (''0.0.0.0'', ''127.0.0.1'') else (''[::]'', ''[::1]'')
      | None \<Rightarrow> (''[::]'', ''[::1]''))"

definition default_option :: "'a \<Rightarrow> 'a option \<Rightarrow> 'a option" where
  "default_option d x = (case x of None \<Rightarrow> Some d | Some v \<Rightarrow> Some v)"

definition default_int :: "int \<Rightarrow> int \<Rightarrow> int" where
  "default_int d x = (if x = 0 then d else x)"

definition defaultAddr :: "config_env \<Rightarrow> string \<Rightarrow> int \<Rightarrow> string \<Rightarrow> string" where
  "defaultAddr env host port addr =
     (if addr = [] then host @ '':'' @ Itoa port else AppendPortIfNeeded (ce_util env) addr port)"

definition defaultConntrack :: "KubeProxyConntrackConfiguration \<Rightarrow> KubeProxyConntrackConfiguration" where
  "defaultConntrack c = c\<lparr>
     cc_MaxPerCore := default_option (32 * 1024) (cc_MaxPerCore c),
     cc_Min := default_option (128 * 1024) (cc_Min c),
     cc_TCPEstablishedTimeout := default_option (24 * 3600 * second) (cc_TCPEstablishedTimeout c),
     cc_TCPCloseWaitTimeout := default_option (3600 * second) (cc_TCPCloseWaitTimeout c)\<rparr>"

definition defaultClient :: "ClientConnectionConfiguration \<Rightarrow> ClientConnectionConfiguration" where
  "defaultClient c = c\<lparr>
     cl_ContentType := (if length (cl_ContentType c) = 0 then ''application/vnd.kubernetes.protobuf'' else cl_ContentType c),
     cl_QPS := (if f64_eq (cl_QPS c) (Fin 0) then Fin 5 else cl_QPS c),
     cl_Burst := default_int 10 (cl_Burst c)\<rparr>"

definition defaultMode :: "v1alpha1_mode \<Rightarrow> v1alpha1_mode" where
  "defaultMode m = m\<lparr>
     vm_MasqueradeBit := default_option 14 (vm_MasqueradeBit m),
     vm_SyncPeriod := default_int (30 * second) (vm_SyncPeriod m),
     vm_MinSyncPeriod := default_int second (vm_MinSyncPeriod m)\<rparr>"

definition SetDefaults_KubeProxyConfiguration ::
  "config_env \<Rightarrow> v1alpha1_KubeProxyConfiguration \<Rightarrow> v1alpha1_KubeProxyConfiguration" where
  "SetDefaults_KubeProxyConfiguration env obj =
     (let bind = (if length (va_BindAddress obj) = 0 then ''0.0.0.0'' else va_BindAddress obj);
          (healthz, metrics) = getDefaultAddresses env bind
      in obj\<lparr>
           va_BindAddress := bind,
           va_HealthzBindAddress := defaultAddr env healthz ProxyHealthzPort (va_HealthzBindAddress obj),
           va_MetricsBindAddress := defaultAddr env metrics ProxyStatusPort (va_MetricsBindAddress obj),
           va_OOMScoreAdj := default_option KubeProxyOOMScoreAdj (va_OOMScoreAdj obj),
           va_IPTables := defaultMode (va_IPTables obj),
           va_LocalhostNodePorts := default_option True (va_LocalhostNodePorts obj),
           va_IPVSSyncPeriod := default_int (30 * second) (va_IPVSSyncPeriod obj),
           va_NFTables := defaultMode (va_NFTables obj),
           va_Conntrack := defaultConntrack (va_Conntrack obj),
           va_ConfigSyncPeriod := default_int (15 * 60 * second) (va_ConfigSyncPeriod obj),
           va_ClientConnection := defaultClient (va_ClientConnection obj),
           va_Logging := ce_RecommendedLogging env (va_Logging obj)\<rparr>)"

section \<open>Conversions\<close>

text \<open>
  \<open>Convert_v1alpha1_KubeProxyConfiguration_To_config_KubeProxyConfiguration\<close> into a new object: the generated part and
  then the fields that have no counterpart.
\<close>

definition Convert_v1alpha1_To_config :: "config_env \<Rightarrow> v1alpha1_KubeProxyConfiguration \<Rightarrow> KubeProxyConfiguration" where
  "Convert_v1alpha1_To_config env inp =
     \<lparr>kc_Linux = \<lparr>lc_Conntrack = va_Conntrack inp,
        lc_MasqueradeAll = (if va_Mode inp = ProxyModeNFTables then vm_MasqueradeAll (va_NFTables inp) else vm_MasqueradeAll (va_IPTables inp)),
        lc_OOMScoreAdj = va_OOMScoreAdj inp\<rparr>,
      kc_RunAsService = va_WindowsRunAsService inp,
      kc_FeatureGates = va_FeatureGates inp,
      kc_ClientConnection = ce_ClientIn env (va_ClientConnection inp),
      kc_Logging = va_Logging inp,
      kc_HostnameOverride = va_HostnameOverride inp,
      kc_BindAddress = va_BindAddress inp,
      kc_HealthzBindAddress = va_HealthzBindAddress inp,
      kc_MetricsBindAddress = va_MetricsBindAddress inp,
      kc_BindAddressHardFail = va_BindAddressHardFail inp,
      kc_EnableProfiling = va_EnableProfiling inp,
      kc_ShowHiddenMetricsForVersion = va_ShowHiddenMetricsForVersion inp,
      kc_Mode = va_Mode inp,
      kc_IPTables = \<lparr>ic_MasqueradeBit = vm_MasqueradeBit (va_IPTables inp), ic_LocalhostNodePorts = va_LocalhostNodePorts inp\<rparr>,
      kc_IPVS = va_IPVS inp,
      kc_Winkernel = va_Winkernel inp,
      kc_NFTables = vm_MasqueradeBit (va_NFTables inp),
      kc_DetectLocalMode = va_DetectLocalMode inp,
      kc_DetectLocal = \<lparr>dc_BridgeInterface = va_BridgeInterface inp,
        dc_ClusterCIDRs = (if length (va_ClusterCIDR inp) > 0 then split_on CHR '','' (va_ClusterCIDR inp) else []),
        dc_InterfaceNamePrefix = va_InterfaceNamePrefix inp\<rparr>,
      kc_NodePortAddresses = va_NodePortAddresses inp,
      kc_SyncPeriod = (if va_Mode inp = ProxyModeIPVS then va_IPVSSyncPeriod inp
        else if va_Mode inp = ProxyModeNFTables then vm_SyncPeriod (va_NFTables inp) else vm_SyncPeriod (va_IPTables inp)),
      kc_MinSyncPeriod = (if va_Mode inp = ProxyModeIPVS then va_IPVSMinSyncPeriod inp
        else if va_Mode inp = ProxyModeNFTables then vm_MinSyncPeriod (va_NFTables inp) else vm_MinSyncPeriod (va_IPTables inp)),
      kc_ConfigSyncPeriod = va_ConfigSyncPeriod inp\<rparr>"

definition Convert_config_To_v1alpha1 :: "config_env \<Rightarrow> KubeProxyConfiguration \<Rightarrow> v1alpha1_KubeProxyConfiguration" where
  "Convert_config_To_v1alpha1 env inp =
     (let nft = (kc_Mode inp = ProxyModeNFTables); ipvs = (kc_Mode inp = ProxyModeIPVS); ipt = (\<not> nft \<and> \<not> ipvs)
      in \<lparr>va_FeatureGates = kc_FeatureGates inp,
          va_ClientConnection = ce_ClientOut env (kc_ClientConnection inp),
          va_Logging = kc_Logging inp,
          va_HostnameOverride = kc_HostnameOverride inp,
          va_BindAddress = kc_BindAddress inp,
          va_HealthzBindAddress = kc_HealthzBindAddress inp,
          va_MetricsBindAddress = kc_MetricsBindAddress inp,
          va_BindAddressHardFail = kc_BindAddressHardFail inp,
          va_EnableProfiling = kc_EnableProfiling inp,
          va_ShowHiddenMetricsForVersion = kc_ShowHiddenMetricsForVersion inp,
          va_Mode = kc_Mode inp,
          va_IPTables = \<lparr>vm_MasqueradeBit = ic_MasqueradeBit (kc_IPTables inp),
            vm_MasqueradeAll = (if nft then False else lc_MasqueradeAll (kc_Linux inp)),
            vm_SyncPeriod = (if ipt then kc_SyncPeriod inp else 0), vm_MinSyncPeriod = (if ipt then kc_MinSyncPeriod inp else 0)\<rparr>,
          va_LocalhostNodePorts = ic_LocalhostNodePorts (kc_IPTables inp),
          va_IPVS = kc_IPVS inp,
          va_IPVSSyncPeriod = (if ipvs then kc_SyncPeriod inp else 0),
          va_IPVSMinSyncPeriod = (if ipvs then kc_MinSyncPeriod inp else 0),
          va_Winkernel = kc_Winkernel inp,
          va_NFTables = \<lparr>vm_MasqueradeBit = kc_NFTables inp,
            vm_MasqueradeAll = (if nft then lc_MasqueradeAll (kc_Linux inp) else False),
            vm_SyncPeriod = (if nft then kc_SyncPeriod inp else 0), vm_MinSyncPeriod = (if nft then kc_MinSyncPeriod inp else 0)\<rparr>,
          va_DetectLocalMode = kc_DetectLocalMode inp,
          va_BridgeInterface = dc_BridgeInterface (kc_DetectLocal inp),
          va_InterfaceNamePrefix = dc_InterfaceNamePrefix (kc_DetectLocal inp),
          va_ClusterCIDR = (if length (dc_ClusterCIDRs (kc_DetectLocal inp)) > 0 then joinComma (dc_ClusterCIDRs (kc_DetectLocal inp)) else []),
          va_NodePortAddresses = kc_NodePortAddresses inp,
          va_OOMScoreAdj = lc_OOMScoreAdj (kc_Linux inp),
          va_Conntrack = lc_Conntrack (kc_Linux inp),
          va_ConfigSyncPeriod = kc_ConfigSyncPeriod inp,
          va_WindowsRunAsService = kc_RunAsService inp\<rparr>)"

section \<open>Validation\<close>

definition Invalid :: "string \<Rightarrow> string \<Rightarrow> field_error" where
  "Invalid path detail = \<lparr>fe_Type = ErrorTypeInvalid, fe_Field = path, fe_Detail = detail\<rparr>"

definition NotSupported :: "string \<Rightarrow> field_error" where
  "NotSupported path = \<lparr>fe_Type = ErrorTypeNotSupported, fe_Field = path, fe_Detail = []\<rparr>"

fun joinCommaSpace :: "string list \<Rightarrow> string" where
  "joinCommaSpace [] = []"
| "joinCommaSpace [s] = s"
| "joinCommaSpace (s # s' # ss) = s @ '', '' @ joinCommaSpace (s' # ss)"

definition Child :: "string \<Rightarrow> string \<Rightarrow> string" where
  "Child path name = path @ ''.'' @ name"

definition Index :: "string \<Rightarrow> nat \<Rightarrow> string" where
  "Index path i = path @ ''['' @ Itoa (int i) @ '']''"

definition err_if :: "bool \<Rightarrow> string \<Rightarrow> string \<Rightarrow> field_error list" where
  "err_if b path detail = (if b then [Invalid path detail] else [])"

text \<open>\<open>strconv.Atoi\<close>: decimal digits with an optional sign, in the range of 64 bits.\<close>

definition digit :: "char \<Rightarrow> bool" where
  "digit c \<longleftrightarrow> 48 \<le> (of_char c :: nat) \<and> of_char c \<le> (57 :: nat)"

definition digits_value :: "string \<Rightarrow> int" where
  "digits_value s = fold (\<lambda>c v. 10 * v + int (of_char c - 48)) s 0"

definition Atoi :: "string \<Rightarrow> int result" where
  "Atoi s =
     (let ds = (case s of [] \<Rightarrow> [] | c # cs \<Rightarrow> if c = CHR ''+'' \<or> c = CHR ''-'' then cs else s);
          v = (if s \<noteq> [] \<and> hd s = CHR ''-'' then - digits_value ds else digits_value ds)
      in if ds = [] \<or> \<not> list_all digit ds then Inl (Errorf ''invalid syntax'')
         else if \<not> is_i64 v then Inl (Errorf ''value out of range'')
         else Inr v)"

definition validateMasqueradeBit :: "int option \<Rightarrow> string \<Rightarrow> field_error list" where
  "validateMasqueradeBit mbit fldPath =
     (case mbit of None \<Rightarrow> [] | Some b \<Rightarrow> err_if (b < 0 \<or> b > 31) (Child fldPath ''MasqueradeBit'') ''must be within the range [0, 31]'')"

definition validateKubeProxyIPTablesConfiguration :: "KubeProxyIPTablesConfiguration \<Rightarrow> string \<Rightarrow> field_error list" where
  "validateKubeProxyIPTablesConfiguration config fldPath = validateMasqueradeBit (ic_MasqueradeBit config) fldPath"

definition validateKubeProxyNFTablesConfiguration :: "int option \<Rightarrow> string \<Rightarrow> field_error list" where
  "validateKubeProxyNFTablesConfiguration config fldPath = validateMasqueradeBit config fldPath"

definition validateIPVSTimeout :: "KubeProxyIPVSConfiguration \<Rightarrow> string \<Rightarrow> field_error list" where
  "validateIPVSTimeout config fldPath =
     err_if (vc_TCPTimeout config < 0) (Child fldPath ''TCPTimeout'') ''must be greater than or equal to 0'' @
     err_if (vc_TCPFinTimeout config < 0) (Child fldPath ''TCPFinTimeout'') ''must be greater than or equal to 0'' @
     err_if (vc_UDPTimeout config < 0) (Child fldPath ''UDPTimeout'') ''must be greater than or equal to 0''"

definition cidr_errors :: "config_env \<Rightarrow> string \<Rightarrow> string \<Rightarrow> nat \<times> string \<Rightarrow> field_error list" where
  "cidr_errors env fldPath detail x = err_if (isErr (ne_ParseCIDR (ce_util env) (snd x))) (Index fldPath (fst x)) detail"

definition validateIPVSExcludeCIDRs :: "config_env \<Rightarrow> string list \<Rightarrow> string \<Rightarrow> field_error list" where
  "validateIPVSExcludeCIDRs env excludeCIDRs fldPath =
     concat (map (cidr_errors env fldPath ''must be a valid CIDR'') (List.enumerate 0 excludeCIDRs))"

definition validateKubeProxyIPVSConfiguration :: "config_env \<Rightarrow> KubeProxyIPVSConfiguration \<Rightarrow> string \<Rightarrow> field_error list" where
  "validateKubeProxyIPVSConfiguration env config fldPath =
     validateIPVSTimeout config fldPath @ validateIPVSExcludeCIDRs env (vc_ExcludeCIDRs config) (Child fldPath ''ExcludeCidrs'')"

text \<open>The two TCP timeouts are read through pointers that the defaults set.\<close>

definition validateKubeProxyConntrackConfiguration :: "KubeProxyConntrackConfiguration \<Rightarrow> string \<Rightarrow> field_error list result" where
  "validateKubeProxyConntrackConfiguration config fldPath =
     (let neg = ''must be greater than or equal to 0'';
          errs = (case cc_MaxPerCore config of None \<Rightarrow> [] | Some m \<Rightarrow> err_if (m < 0) (Child fldPath ''MaxPerCore'') neg) @
                 (case cc_Min config of None \<Rightarrow> [] | Some m \<Rightarrow> err_if (m < 0) (Child fldPath ''Min'') neg)
      in case (cc_TCPEstablishedTimeout config, cc_TCPCloseWaitTimeout config) of
           (Some established, Some closeWait) \<Rightarrow>
             Inr (errs @ err_if (established < 0) (Child fldPath ''TCPEstablishedTimeout'') neg @
                  err_if (closeWait < 0) (Child fldPath ''TCPCloseWaitTimeout'') neg @
                  err_if (cc_UDPTimeout config < 0) (Child fldPath ''UDPTimeout'') neg @
                  err_if (cc_UDPStreamTimeout config < 0) (Child fldPath ''UDPStreamTimeout'') neg)
         | _ \<Rightarrow> Inl (Panic ''nil timeout''))"

definition validateKubeProxyLinuxConfiguration :: "KubeProxyLinuxConfiguration \<Rightarrow> string \<Rightarrow> field_error list result" where
  "validateKubeProxyLinuxConfiguration config fldPath =
     res_bind (validateKubeProxyConntrackConfiguration (lc_Conntrack config) (Child fldPath ''KubeProxyConntrackConfiguration'')) (\<lambda>errs.
       Inr (errs @ (case lc_OOMScoreAdj config of None \<Rightarrow> []
         | Some adj \<Rightarrow> err_if (adj < -1000 \<or> adj > 1000) (Child fldPath ''OOMScoreAdj'') ''must be within the range [-1000, 1000]'')))"

definition validateProxyModeLinux :: "config_env \<Rightarrow> string \<Rightarrow> string \<Rightarrow> field_error list" where
  "validateProxyModeLinux env mode fldPath =
     (let validModes = [ProxyModeIPTables, ProxyModeIPVS] @ (if ce_NFTablesProxyMode env then [ProxyModeNFTables] else [])
      in if mode = [] \<or> mode \<in> set validModes then []
         else [Invalid (Child fldPath ''ProxyMode'')
                 (''must be '' @ joinCommaSpace validModes @ '' or blank (blank means the best-available proxy [currently iptables])'')])"

definition validateProxyModeWindows :: "string \<Rightarrow> string \<Rightarrow> field_error list" where
  "validateProxyModeWindows mode fldPath =
     (let validModes = [ProxyModeKernelspace]
      in if mode = [] \<or> mode \<in> set validModes then []
         else [Invalid (Child fldPath ''ProxyMode'')
                 (''must be '' @ joinCommaSpace validModes @ '' or blank (blank means the most-available proxy [currently 'kernelspace'])'')])"

definition validateProxyMode :: "config_env \<Rightarrow> string \<Rightarrow> string \<Rightarrow> field_error list" where
  "validateProxyMode env mode fldPath =
     (if ce_GOOS env = ''windows'' then validateProxyModeWindows mode fldPath else validateProxyModeLinux env mode fldPath)"

definition validateDetectLocalMode :: "string \<Rightarrow> string \<Rightarrow> field_error list" where
  "validateDetectLocalMode mode fldPath =
     (if mode \<in> set [LocalModeClusterCIDR, LocalModeNodeCIDR, LocalModeBridgeInterface, LocalModeInterfaceNamePrefix, []] then []
      else [NotSupported fldPath])"

definition validateHostPort :: "config_env \<Rightarrow> string \<Rightarrow> string \<Rightarrow> field_error list" where
  "validateHostPort env input fldPath =
     (case SplitHostPort input of
        Inl _ \<Rightarrow> [Invalid fldPath ''must be IP:port'']
      | Inr (hostIP, port) \<Rightarrow>
          err_if (ne_ParseIPSloppy (ce_util env) hostIP = None) fldPath ''must be a valid IP'' @
          (case Atoi port of
             Inl _ \<Rightarrow> [Invalid fldPath ''must be a valid port'']
           | Inr p \<Rightarrow> err_if (p < 1 \<or> p > 65535) fldPath ''must be a valid port''))"

text \<open>The loop over the node port addresses ends at the first \<open>primary\<close>.\<close>

fun nodePortAddressErrs :: "config_env \<Rightarrow> string \<Rightarrow> nat \<Rightarrow> nat \<Rightarrow> string list \<Rightarrow> field_error list" where
  "nodePortAddressErrs env fldPath n i [] = []"
| "nodePortAddressErrs env fldPath n i (addr # addrs) =
     (if addr = NodePortAddressesPrimary
      then err_if (i \<noteq> 0 \<or> n \<noteq> 1) (Index fldPath i) ''can't use both 'primary' and CIDRs''
      else cidr_errors env fldPath ''must be a valid CIDR'' (i, addr) @ nodePortAddressErrs env fldPath n (i + 1) addrs)"

definition validateKubeProxyNodePortAddress :: "config_env \<Rightarrow> string list \<Rightarrow> string \<Rightarrow> field_error list" where
  "validateKubeProxyNodePortAddress env nodePortAddresses fldPath =
     nodePortAddressErrs env fldPath (length nodePortAddresses) 0 nodePortAddresses"

definition validateInterface :: "string \<Rightarrow> string \<Rightarrow> field_error list" where
  "validateInterface iface fldPath = err_if (length iface = 0) fldPath ''must not be empty''"

definition validateDualStackCIDRStrings :: "config_env \<Rightarrow> string list \<Rightarrow> string \<Rightarrow> field_error list" where
  "validateDualStackCIDRStrings env cidrStrings fldPath =
     (let pair = ''must be a either a single CIDR or dual-stack pair of CIDRs (e.g. [10.100.0.0/16, fde4:8dba:82e1::/48]''
      in if length cidrStrings = 0 then [Invalid fldPath ''must contain at least one CIDR'']
         else if length cidrStrings > 2 then [Invalid fldPath pair]
         else concat (map (cidr_errors env fldPath ''must be a valid CIDR block (e.g. 10.100.0.0/16 or fde4:8dba:82e1::/48)'')
                       (List.enumerate 0 cidrStrings)) @
              (if length cidrStrings = 2
               then (case ce_IsDualStackCIDRStrings env cidrStrings of Inr ifDualStack \<Rightarrow> err_if (\<not> ifDualStack) fldPath pair | Inl _ \<Rightarrow> [])
               else []))"

definition validateDetectLocalConfiguration :: "config_env \<Rightarrow> string \<Rightarrow> DetectLocalConfiguration \<Rightarrow> string \<Rightarrow> field_error list" where
  "validateDetectLocalConfiguration env mode config fldPath =
     (if mode = LocalModeBridgeInterface then validateInterface (dc_BridgeInterface config) (Child fldPath ''InterfaceName'')
      else if mode = LocalModeInterfaceNamePrefix then validateInterface (dc_InterfaceNamePrefix config) (Child fldPath ''InterfacePrefix'')
      else if mode = LocalModeClusterCIDR
      then (if length (dc_ClusterCIDRs config) > 0
            then validateDualStackCIDRStrings env (dc_ClusterCIDRs config) (Child fldPath ''ClusterCIDRs'') else [])
      else [])"

definition validateModeConfiguration :: "config_env \<Rightarrow> KubeProxyConfiguration \<Rightarrow> string \<Rightarrow> field_error list" where
  "validateModeConfiguration env config newPath =
     (if kc_Mode config = ProxyModeIPVS
      then validateKubeProxyIPVSConfiguration env (kc_IPVS config) (Child newPath ''KubeProxyIPVSConfiguration'')
      else if kc_Mode config = ProxyModeNFTables
      then validateKubeProxyNFTablesConfiguration (kc_NFTables config) (Child newPath ''KubeProxyNFTablesConfiguration'')
      else [])"

definition validatePeriods :: "KubeProxyConfiguration \<Rightarrow> string \<Rightarrow> field_error list" where
  "validatePeriods config newPath =
     err_if (kc_ConfigSyncPeriod config \<le> 0) (Child newPath ''ConfigSyncPeriod'') ''must be greater than 0'' @
     err_if (kc_SyncPeriod config \<le> 0) (Child newPath ''SyncPeriod'') ''must be greater than 0'' @
     err_if (kc_MinSyncPeriod config < 0) (Child newPath ''MinSyncPeriod'') ''must be greater than or equal to 0'' @
     err_if (kc_MinSyncPeriod config > kc_SyncPeriod config) (Child newPath ''SyncPeriod'')
       (''must be greater than or equal to '' @ Child newPath ''MinSyncPeriod'')"

definition config_Validate :: "config_env \<Rightarrow> KubeProxyConfiguration \<Rightarrow> field_error list result" where
  "config_Validate env config =
     (let newPath = ''KubeProxyConfiguration''
      in res_bind (validateKubeProxyLinuxConfiguration (kc_Linux config) (Child newPath ''KubeProxyLinuxConfiguration'')) (\<lambda>linux.
         Inr ((case ce_SetFromMap env (kc_FeatureGates config) of None \<Rightarrow> [] | Some e \<Rightarrow> [Invalid (Child newPath ''featureGates'') e]) @
              validateKubeProxyIPTablesConfiguration (kc_IPTables config) (Child newPath ''KubeProxyIPTablesConfiguration'') @
              validateModeConfiguration env config newPath @
              linux @
              validateProxyMode env (kc_Mode config) (Child newPath ''Mode'') @
              ce_ValidateNonnegative env (cl_Burst (kc_ClientConnection config)) (Child (Child newPath ''ClientConnection'') ''Burst'') @
              validatePeriods config newPath @
              err_if (ne_ParseIPSloppy (ce_util env) (kc_BindAddress config) = None) (Child newPath ''BindAddress'')
                ''not a valid textual representation of an IP address'' @
              (if kc_HealthzBindAddress config \<noteq> [] then validateHostPort env (kc_HealthzBindAddress config) (Child newPath ''HealthzBindAddress'') else []) @
              validateHostPort env (kc_MetricsBindAddress config) (Child newPath ''MetricsBindAddress'') @
              validateKubeProxyNodePortAddress env (kc_NodePortAddresses config) (Child newPath ''NodePortAddresses'') @
              map (Invalid (Child newPath ''ShowHiddenMetricsForVersion'')) (ce_ValidateShowHidden env (kc_ShowHiddenMetricsForVersion config)) @
              validateDetectLocalMode (kc_DetectLocalMode config) (Child newPath ''DetectLocalMode'') @
              validateDetectLocalConfiguration env (kc_DetectLocalMode config) (kc_DetectLocal config) (Child newPath ''DetectLocalConfiguration'') @
              ce_ValidateLogging env (kc_Logging config))))"

section \<open>Conversions\<close>

lemma split_joinComma: "ss \<noteq> [] \<Longrightarrow> \<forall>s\<in>set ss. CHR '','' \<notin> set s \<Longrightarrow> split_on CHR '','' (joinComma ss) = ss"
  by (induction ss rule: joinComma.induct) (simp_all add: split_on_none split_on_append)

lemma joinComma_empty: "joinComma ss = [] \<longleftrightarrow> ss = [] \<or> ss = [[]]"
  by (induction ss rule: joinComma.induct) auto

text \<open>
  C23. Writing an internal configuration in its versioned form and reading it back gives the configuration: nothing is lost
  whatever the mode, although each mode keeps its periods and its masquerade flag in another place. The cluster CIDRs, which are written as one
  text, are assumed not to hold a comma and not to be the single empty text, and the conversions of the client connection, which belong to another
  package, to undo each other.
\<close>

theorem Convert_round_trip:
  assumes "\<And>x. ce_ClientIn env (ce_ClientOut env x) = x"
    and "\<forall>s\<in>set (dc_ClusterCIDRs (kc_DetectLocal c)). CHR '','' \<notin> set s"
    and "dc_ClusterCIDRs (kc_DetectLocal c) \<noteq> [[]]"
  shows "Convert_v1alpha1_To_config env (Convert_config_To_v1alpha1 env c) = c"
proof -
  have modes: "ProxyModeIPVS \<noteq> ProxyModeNFTables" by (simp add: ProxyModeIPVS_def ProxyModeNFTables_def)
  let ?cidrs = "dc_ClusterCIDRs (kc_DetectLocal c)"
  have cidrs: "(if length (if length ?cidrs > 0 then joinComma ?cidrs else []) > 0
      then split_on CHR '','' (if length ?cidrs > 0 then joinComma ?cidrs else []) else []) = ?cidrs"
    using assms(2,3) split_joinComma [of ?cidrs] joinComma_empty [of ?cidrs] by (cases "?cidrs = []") simp_all
  show ?thesis
    unfolding Convert_v1alpha1_To_config_def Convert_config_To_v1alpha1_def Let_def
    by (cases "kc_Mode c = ProxyModeIPVS"; cases "kc_Mode c = ProxyModeNFTables")
      (simp_all only: KubeProxyConfiguration.simps v1alpha1_KubeProxyConfiguration.simps v1alpha1_mode.simps
        DetectLocalConfiguration.simps KubeProxyLinuxConfiguration.simps cidrs assms(1) modes if_True if_False simp_thms, simp_all)
qed

section \<open>Numbers\<close>

lemma digits_value_append: "digits_value (s @ [c]) = 10 * digits_value s + int (of_char c - 48)"
  by (simp add: digits_value_def)

lemma digits_value_digits: "digits_value (nat_digits n) = int n"
proof (induction n rule: nat_digits.induct)
  case (1 n)
  show ?case
  proof (cases "n < 10")
    case True
    then show ?thesis by (subst nat_digits.simps) (simp add: digits_value_def)
  next
    case False
    have "48 + n mod 10 < 256" by (simp add: less_imp_le)
    then have c: "of_char (char_of (48 + n mod 10)) = 48 + n mod 10" by simp
    have "digits_value (nat_digits n) = 10 * int (n div 10) + int (n mod 10)"
      by (subst nat_digits.simps) (simp add: False digits_value_append 1 c)
    also have "\<dots> = int n" using mult_div_mod_eq [of 10 n] by presburger
    finally show ?thesis .
  qed
qed

lemma nat_digits_digit: "list_all digit (nat_digits n)" "nat_digits n \<noteq> []"
proof -
  have "list_all digit (nat_digits n) \<and> nat_digits n \<noteq> []"
  proof (induction n rule: nat_digits.induct)
    case (1 n)
    have d: "digit (char_of (48 + k))" if "k < 10" for k :: nat
      using that by (simp add: digit_def)
    show ?case
    proof (cases "n < 10")
      case True
      then show ?thesis by (subst (1 2) nat_digits.simps) (simp add: d)
    next
      case False
      then show ?thesis by (subst (1 2) nat_digits.simps) (simp add: d 1)
    qed
  qed
  then show "list_all digit (nat_digits n)" "nat_digits n \<noteq> []" by simp_all
qed

lemma Atoi_Itoa: "is_i64 i \<Longrightarrow> Atoi (Itoa i) = Inr i"
proof -
  assume i: "is_i64 i"
  show ?thesis
  proof (cases "i < 0")
    case True
    then show ?thesis using i
      by (simp add: Itoa_def Atoi_def digits_value_digits nat_digits_digit)
  next
    case False
    obtain c cs where n: "nat_digits (nat i) = c # cs" using nat_digits_digit(2) by (cases "nat_digits (nat i)") auto
    then have "digit c" using nat_digits_digit(1) [of "nat i"] by simp
    then have "c \<noteq> CHR ''+''" "c \<noteq> CHR ''-''" by (auto simp: digit_def)
    then show ?thesis using i False n digits_value_digits [of "nat i"] nat_digits_digit(1) [of "nat i"]
      by (simp add: Itoa_def Atoi_def)
  qed
qed

section \<open>Accepted configurations\<close>

text \<open>What a configuration that the proxy accepts has, as a predicate on its fields.\<close>

definition masquerade_ok :: "int option \<Rightarrow> bool" where
  "masquerade_ok m \<longleftrightarrow> (case m of None \<Rightarrow> True | Some b \<Rightarrow> 0 \<le> b \<and> b \<le> 31)"

definition option_nonneg :: "int option \<Rightarrow> bool" where
  "option_nonneg m \<longleftrightarrow> (case m of None \<Rightarrow> True | Some b \<Rightarrow> 0 \<le> b)"

definition hostport_ok :: "config_env \<Rightarrow> string \<Rightarrow> bool" where
  "hostport_ok env s \<longleftrightarrow>
     (case SplitHostPort s of Inl _ \<Rightarrow> False
      | Inr (host, port) \<Rightarrow> ne_ParseIPSloppy (ce_util env) host \<noteq> None \<and>
          (case Atoi port of Inl _ \<Rightarrow> False | Inr p \<Rightarrow> 1 \<le> p \<and> p \<le> 65535))"

definition is_cidr :: "config_env \<Rightarrow> string \<Rightarrow> bool" where
  "is_cidr env s \<longleftrightarrow> \<not> isErr (ne_ParseCIDR (ce_util env) s)"

definition nodeports_ok :: "config_env \<Rightarrow> string list \<Rightarrow> bool" where
  "nodeports_ok env addrs \<longleftrightarrow>
     addrs = [NodePortAddressesPrimary] \<or> NodePortAddressesPrimary \<notin> set addrs \<and> list_all (is_cidr env) addrs"

definition conntrack_ok :: "KubeProxyConntrackConfiguration \<Rightarrow> bool" where
  "conntrack_ok c \<longleftrightarrow> option_nonneg (cc_MaxPerCore c) \<and> option_nonneg (cc_Min c) \<and>
     cc_TCPEstablishedTimeout c \<noteq> None \<and> option_nonneg (cc_TCPEstablishedTimeout c) \<and>
     cc_TCPCloseWaitTimeout c \<noteq> None \<and> option_nonneg (cc_TCPCloseWaitTimeout c) \<and>
     0 \<le> cc_UDPTimeout c \<and> 0 \<le> cc_UDPStreamTimeout c"

definition linux_ok :: "KubeProxyLinuxConfiguration \<Rightarrow> bool" where
  "linux_ok c \<longleftrightarrow> conntrack_ok (lc_Conntrack c) \<and>
     (case lc_OOMScoreAdj c of None \<Rightarrow> True | Some adj \<Rightarrow> -1000 \<le> adj \<and> adj \<le> 1000)"

definition mode_ok :: "config_env \<Rightarrow> string \<Rightarrow> bool" where
  "mode_ok env m \<longleftrightarrow> m = [] \<or>
     (if ce_GOOS env = ''windows'' then m = ProxyModeKernelspace
      else m = ProxyModeIPTables \<or> m = ProxyModeIPVS \<or> ce_NFTablesProxyMode env \<and> m = ProxyModeNFTables)"

definition mode_settings_ok :: "config_env \<Rightarrow> KubeProxyConfiguration \<Rightarrow> bool" where
  "mode_settings_ok env c \<longleftrightarrow>
     (if kc_Mode c = ProxyModeIPVS
      then 0 \<le> vc_TCPTimeout (kc_IPVS c) \<and> 0 \<le> vc_TCPFinTimeout (kc_IPVS c) \<and> 0 \<le> vc_UDPTimeout (kc_IPVS c) \<and>
           list_all (is_cidr env) (vc_ExcludeCIDRs (kc_IPVS c))
      else if kc_Mode c = ProxyModeNFTables then masquerade_ok (kc_NFTables c) else True)"

definition cluster_cidrs_ok :: "config_env \<Rightarrow> string list \<Rightarrow> bool" where
  "cluster_cidrs_ok env cidrs \<longleftrightarrow> length cidrs \<le> 2 \<and> list_all (is_cidr env) cidrs \<and>
     \<not> (length cidrs = 2 \<and> ce_IsDualStackCIDRStrings env cidrs = Inr False)"

definition detect_ok :: "config_env \<Rightarrow> string \<Rightarrow> DetectLocalConfiguration \<Rightarrow> bool" where
  "detect_ok env mode d \<longleftrightarrow>
     mode = [] \<or> mode = LocalModeNodeCIDR \<or>
     mode = LocalModeBridgeInterface \<and> dc_BridgeInterface d \<noteq> [] \<or>
     mode = LocalModeInterfaceNamePrefix \<and> dc_InterfaceNamePrefix d \<noteq> [] \<or>
     mode = LocalModeClusterCIDR \<and> cluster_cidrs_ok env (dc_ClusterCIDRs d)"

definition periods_ok :: "KubeProxyConfiguration \<Rightarrow> bool" where
  "periods_ok c \<longleftrightarrow> 0 < kc_ConfigSyncPeriod c \<and> 0 < kc_SyncPeriod c \<and> 0 \<le> kc_MinSyncPeriod c \<and> kc_MinSyncPeriod c \<le> kc_SyncPeriod c"

text \<open>Each group of checks is empty exactly on its part of the predicate.\<close>

named_theorems accepts

lemma err_if_Nil [simp]: "err_if b p d = [] \<longleftrightarrow> \<not> b"
  by (simp add: err_if_def)

lemma enumerate_cidrs: "concat (map (cidr_errors env p d) (List.enumerate i ss)) = [] \<longleftrightarrow> list_all (is_cidr env) ss"
  by (induction ss arbitrary: i) (simp_all add: cidr_errors_def is_cidr_def)

lemma masquerade_accepts [accepts]: "validateMasqueradeBit m p = [] \<longleftrightarrow> masquerade_ok m"
  by (auto simp: validateMasqueradeBit_def masquerade_ok_def split: option.split)

lemma hostport_accepts [accepts]: "validateHostPort env s p = [] \<longleftrightarrow> hostport_ok env s"
  by (auto simp: validateHostPort_def hostport_ok_def split: sum.split)

lemma nodePortAddressErrs_Nil:
  "i \<noteq> 0 \<or> n \<noteq> 1 \<Longrightarrow> nodePortAddressErrs env p n i addrs = [] \<longleftrightarrow>
     NodePortAddressesPrimary \<notin> set addrs \<and> list_all (is_cidr env) addrs"
  by (induction addrs arbitrary: i) (auto simp: cidr_errors_def is_cidr_def)

lemma nodeports_accepts [accepts]: "validateKubeProxyNodePortAddress env addrs p = [] \<longleftrightarrow> nodeports_ok env addrs"
proof (cases "length addrs = 1")
  case True
  then obtain a where "addrs = [a]" by (auto simp: length_Suc_conv)
  then show ?thesis by (auto simp: validateKubeProxyNodePortAddress_def nodeports_ok_def cidr_errors_def is_cidr_def)
next
  case False
  then have "addrs \<noteq> [NodePortAddressesPrimary]" by auto
  then show ?thesis using nodePortAddressErrs_Nil [of 0 "length addrs"] False
    by (simp add: validateKubeProxyNodePortAddress_def nodeports_ok_def)
qed

lemma linux_accepts [accepts]: "validateKubeProxyLinuxConfiguration c p = Inr [] \<longleftrightarrow> linux_ok c"
  by (auto simp: validateKubeProxyLinuxConfiguration_def validateKubeProxyConntrackConfiguration_def linux_ok_def conntrack_ok_def
      option_nonneg_def Let_def res_bind_Inr_iff split: option.splits)

lemma mode_accepts [accepts]: "validateProxyMode env m p = [] \<longleftrightarrow> mode_ok env m"
  by (auto simp: validateProxyMode_def validateProxyModeLinux_def validateProxyModeWindows_def mode_ok_def Let_def)

lemma mode_settings_accepts [accepts]: "validateModeConfiguration env c p = [] \<longleftrightarrow> mode_settings_ok env c"
  by (auto simp: validateModeConfiguration_def mode_settings_ok_def validateKubeProxyIPVSConfiguration_def validateIPVSTimeout_def
      validateIPVSExcludeCIDRs_def enumerate_cidrs validateKubeProxyNFTablesConfiguration_def masquerade_accepts simp del: concat_eq_Nil_conv)

lemma dual_accepts:
  "cs \<noteq> [] \<Longrightarrow> validateDualStackCIDRStrings env cs p = [] \<longleftrightarrow> cluster_cidrs_ok env cs"
  by (auto simp: validateDualStackCIDRStrings_def cluster_cidrs_ok_def enumerate_cidrs Let_def simp del: concat_eq_Nil_conv split: sum.split)

lemma detect_accepts:
  "validateDetectLocalMode m p @ validateDetectLocalConfiguration env m d q = [] \<longleftrightarrow> detect_ok env m d"
  using dual_accepts [of "dc_ClusterCIDRs d" env]
  by (auto simp: validateDetectLocalMode_def validateDetectLocalConfiguration_def validateInterface_def detect_ok_def cluster_cidrs_ok_def
      LocalModeClusterCIDR_def LocalModeNodeCIDR_def LocalModeBridgeInterface_def LocalModeInterfaceNamePrefix_def)

lemma periods_accepts [accepts]: "validatePeriods c p = [] \<longleftrightarrow> periods_ok c"
  by (auto simp: validatePeriods_def periods_ok_def)

definition valid_config :: "config_env \<Rightarrow> KubeProxyConfiguration \<Rightarrow> bool" where
  "valid_config env c \<longleftrightarrow>
     ce_SetFromMap env (kc_FeatureGates c) = None \<and> masquerade_ok (ic_MasqueradeBit (kc_IPTables c)) \<and>
     mode_settings_ok env c \<and> linux_ok (kc_Linux c) \<and> mode_ok env (kc_Mode c) \<and>
     ce_ValidateNonnegative env (cl_Burst (kc_ClientConnection c)) ''KubeProxyConfiguration.ClientConnection.Burst'' = [] \<and>
     periods_ok c \<and> ne_ParseIPSloppy (ce_util env) (kc_BindAddress c) \<noteq> None \<and>
     (kc_HealthzBindAddress c = [] \<or> hostport_ok env (kc_HealthzBindAddress c)) \<and> hostport_ok env (kc_MetricsBindAddress c) \<and>
     nodeports_ok env (kc_NodePortAddresses c) \<and> ce_ValidateShowHidden env (kc_ShowHiddenMetricsForVersion c) = [] \<and>
     detect_ok env (kc_DetectLocalMode c) (kc_DetectLocal c) \<and> ce_ValidateLogging env (kc_Logging c) = []"

lemma config_Validate_iff: "config_Validate env c = Inr [] \<longleftrightarrow> valid_config env c"
proof -
  have detect: "detect_ok env (kc_DetectLocalMode c) (kc_DetectLocal c) \<longleftrightarrow>
    validateDetectLocalMode (kc_DetectLocalMode c) ''KubeProxyConfiguration.DetectLocalMode'' = [] \<and>
    validateDetectLocalConfiguration env (kc_DetectLocalMode c) (kc_DetectLocal c) ''KubeProxyConfiguration.DetectLocalConfiguration'' = []"
    using detect_accepts by (metis append_is_Nil_conv)
  show ?thesis
    unfolding config_Validate_def valid_config_def Let_def res_bind_Inr_iff validateKubeProxyIPTablesConfiguration_def detect
    by (auto simp: Child_def accepts split: option.splits)
qed

lemma conntrack_panics:
  "(\<exists>errs. validateKubeProxyConntrackConfiguration c p = Inr errs) \<longleftrightarrow>
     cc_TCPEstablishedTimeout c \<noteq> None \<and> cc_TCPCloseWaitTimeout c \<noteq> None"
  by (auto simp: validateKubeProxyConntrackConfiguration_def Let_def split: option.splits)

lemma config_Validate_panics:
  "(\<exists>errs. config_Validate env c = Inr errs) \<longleftrightarrow>
     cc_TCPEstablishedTimeout (lc_Conntrack (kc_Linux c)) \<noteq> None \<and> cc_TCPCloseWaitTimeout (lc_Conntrack (kc_Linux c)) \<noteq> None"
  unfolding config_Validate_def Let_def validateKubeProxyLinuxConfiguration_def res_bind_Inr_iff
  by (subst conntrack_panics [symmetric]) auto

text \<open>
  C7. The validation accepts a configuration exactly when every field is in its range: the masquerade bits in 0 to 31, the
  timeouts set and not negative, the score in \<open>-1000\<close> to 1000, a mode of the platform with its settings, the periods
  positive and ordered, the addresses an IP with a port in 1 to 65535, the node port addresses all CIDRs or \<open>primary\<close> alone
  and the way to find local traffic one of the known ones with what it needs. It panics exactly when one of the two TCP
  timeouts that the defaults set is nil.
\<close>

theorem config_Validate_exact:
  "(config_Validate env c = Inr [] \<longleftrightarrow> valid_config env c) \<and>
   ((\<exists>errs. config_Validate env c = Inr errs) \<longleftrightarrow>
      cc_TCPEstablishedTimeout (lc_Conntrack (kc_Linux c)) \<noteq> None \<and> cc_TCPCloseWaitTimeout (lc_Conntrack (kc_Linux c)) \<noteq> None)"
  by (rule conjI [OF config_Validate_iff config_Validate_panics])

section \<open>Defaults\<close>

text \<open>What the other packages do with the values the defaults give.\<close>

definition packages_ok :: "config_env \<Rightarrow> bool" where
  "packages_ok env \<longleftrightarrow>
     list_all (\<lambda>s. ne_ParseIPSloppy (ce_util env) s = Some s) [''0.0.0.0'', ''127.0.0.1'', ''::'', ''::1''] \<and>
     ce_SetFromMap env [] = None \<and> ce_ValidateLogging env (ce_RecommendedLogging env []) = [] \<and>
     ce_ValidateShowHidden env [] = [] \<and> ce_ValidateNonnegative env 10 ''KubeProxyConfiguration.ClientConnection.Burst'' = []"

text \<open>The zero value of the versioned type, with a mode and a bind address.\<close>

definition zero_mode :: v1alpha1_mode where
  "zero_mode = \<lparr>vm_MasqueradeBit = None, vm_MasqueradeAll = False, vm_SyncPeriod = 0, vm_MinSyncPeriod = 0\<rparr>"

definition zero_v1alpha1 :: "string \<Rightarrow> string \<Rightarrow> v1alpha1_KubeProxyConfiguration" where
  "zero_v1alpha1 mode bindAddress = \<lparr>va_FeatureGates = [],
     va_ClientConnection = \<lparr>cl_Kubeconfig = [], cl_AcceptContentTypes = [], cl_ContentType = [], cl_QPS = Fin 0, cl_Burst = 0\<rparr>,
     va_Logging = [], va_HostnameOverride = [], va_BindAddress = bindAddress, va_HealthzBindAddress = [], va_MetricsBindAddress = [],
     va_BindAddressHardFail = False, va_EnableProfiling = False, va_ShowHiddenMetricsForVersion = [], va_Mode = mode,
     va_IPTables = zero_mode, va_LocalhostNodePorts = None,
     va_IPVS = \<lparr>vc_Scheduler = [], vc_ExcludeCIDRs = [], vc_StrictARP = False, vc_TCPTimeout = 0, vc_TCPFinTimeout = 0, vc_UDPTimeout = 0\<rparr>,
     va_IPVSSyncPeriod = 0, va_IPVSMinSyncPeriod = 0,
     va_Winkernel = \<lparr>wk_NetworkName = [], wk_SourceVip = [], wk_EnableDSR = False, wk_RootHnsEndpointName = [], wk_ForwardHealthCheckVip = False\<rparr>,
     va_NFTables = zero_mode, va_DetectLocalMode = [], va_BridgeInterface = [], va_InterfaceNamePrefix = [], va_ClusterCIDR = [],
     va_NodePortAddresses = [], va_OOMScoreAdj = None,
     va_Conntrack = \<lparr>cc_MaxPerCore = None, cc_Min = None, cc_TCPEstablishedTimeout = None, cc_TCPCloseWaitTimeout = None,
       cc_TCPBeLiberal = False, cc_UDPTimeout = 0, cc_UDPStreamTimeout = 0\<rparr>,
     va_ConfigSyncPeriod = 0, va_WindowsRunAsService = False\<rparr>"

lemma hostport_ok_join:
  assumes "host_ok host" "ne_ParseIPSloppy (ce_util env) host \<noteq> None" "1 \<le> port" "port \<le> 65535"
  shows "hostport_ok env (JoinHostPort host (Itoa port))"
proof -
  have "is_i64 port" using assms(3,4) by (simp add: is_i64_def MaxInt64_def MinInt64_def)
  moreover have "SplitHostPort (JoinHostPort host (Itoa port)) = Inr (host, Itoa port)"
    by (rule SplitHostPort_JoinHostPort [OF assms(1)]) (simp_all add: host_ok_def)
  ultimately show ?thesis using assms by (simp add: hostport_ok_def Atoi_Itoa)
qed

lemma default_addresses:
  "getDefaultAddresses env b = (''0.0.0.0'', ''127.0.0.1'') \<or> getDefaultAddresses env b = (''[::]'', ''[::1]'')"
  by (simp add: getDefaultAddresses_def split: option.split)

lemma default_hostports_ok:
  assumes "packages_ok env" "getDefaultAddresses env b = (healthz, metrics)" "1 \<le> port" "port \<le> 65535"
  shows "hostport_ok env (healthz @ '':'' @ Itoa port)" "hostport_ok env (metrics @ '':'' @ Itoa port)"
proof -
  note join = hostport_ok_join [where env = env, OF _ _ assms(3,4)]
  have "ne_ParseIPSloppy (ce_util env) ''0.0.0.0'' \<noteq> None" "ne_ParseIPSloppy (ce_util env) ''127.0.0.1'' \<noteq> None"
    "ne_ParseIPSloppy (ce_util env) ''::'' \<noteq> None" "ne_ParseIPSloppy (ce_util env) ''::1'' \<noteq> None"
    using assms(1) by (simp_all add: packages_ok_def)
  note parse = this
  have "host_ok ''0.0.0.0''" "host_ok ''127.0.0.1''" "host_ok ''::''" "host_ok ''::1''" by (simp_all add: host_ok_def)
  note v4 = join [OF this(1) parse(1)] join [OF this(2) parse(2)] and v6 = join [OF this(3) parse(3)] join [OF this(4) parse(4)]
  have "hostport_ok env (healthz @ '':'' @ Itoa port) \<and> hostport_ok env (metrics @ '':'' @ Itoa port)"
    using default_addresses [of env b]
  proof
    assume "getDefaultAddresses env b = (''0.0.0.0'', ''127.0.0.1'')"
    then have "healthz = ''0.0.0.0''" "metrics = ''127.0.0.1''" using assms(2) by simp_all
    then show ?thesis using v4 by (simp add: JoinHostPort_def)
  next
    assume "getDefaultAddresses env b = (''[::]'', ''[::1]'')"
    then have "healthz = ''[::]''" "metrics = ''[::1]''" using assms(2) by simp_all
    then show ?thesis using v6 by (simp add: JoinHostPort_def)
  qed
  then show "hostport_ok env (healthz @ '':'' @ Itoa port)" "hostport_ok env (metrics @ '':'' @ Itoa port)" by simp_all
qed

lemma SetDefaults_eq:
  assumes "b = (if length (va_BindAddress obj) = 0 then ''0.0.0.0'' else va_BindAddress obj)" "getDefaultAddresses env b = (healthz, metrics)"
  shows "SetDefaults_KubeProxyConfiguration env obj = obj\<lparr>
    va_BindAddress := b,
    va_HealthzBindAddress := defaultAddr env healthz ProxyHealthzPort (va_HealthzBindAddress obj),
    va_MetricsBindAddress := defaultAddr env metrics ProxyStatusPort (va_MetricsBindAddress obj),
    va_OOMScoreAdj := default_option KubeProxyOOMScoreAdj (va_OOMScoreAdj obj),
    va_IPTables := defaultMode (va_IPTables obj),
    va_LocalhostNodePorts := default_option True (va_LocalhostNodePorts obj),
    va_IPVSSyncPeriod := default_int (30 * second) (va_IPVSSyncPeriod obj),
    va_NFTables := defaultMode (va_NFTables obj),
    va_Conntrack := defaultConntrack (va_Conntrack obj),
    va_ConfigSyncPeriod := default_int (15 * 60 * second) (va_ConfigSyncPeriod obj),
    va_ClientConnection := defaultClient (va_ClientConnection obj),
    va_Logging := ce_RecommendedLogging env (va_Logging obj)\<rparr>"
  unfolding SetDefaults_KubeProxyConfiguration_def Let_def assms(1) [symmetric] assms(2) by simp

lemma zero_default_fields:
  assumes "b = (if length bindAddress = 0 then ''0.0.0.0'' else bindAddress)" "getDefaultAddresses env b = (healthz, metrics)"
    and "d = SetDefaults_KubeProxyConfiguration env (zero_v1alpha1 mode bindAddress)"
  shows "va_HealthzBindAddress d = healthz @ '':'' @ Itoa ProxyHealthzPort" "va_MetricsBindAddress d = metrics @ '':'' @ Itoa ProxyStatusPort"
    "va_BindAddress d = b" "va_FeatureGates d = []" "va_Logging d = ce_RecommendedLogging env []" "va_ShowHiddenMetricsForVersion d = []"
    "va_Mode d = mode" "va_DetectLocalMode d = []" "va_ClusterCIDR d = []" "va_NodePortAddresses d = []"
    "va_IPTables d = defaultMode zero_mode" "va_NFTables d = defaultMode zero_mode"
    "cl_Burst (va_ClientConnection d) = 10" "va_OOMScoreAdj d = Some KubeProxyOOMScoreAdj" "va_IPVSSyncPeriod d = 30 * second"
    "va_IPVSMinSyncPeriod d = 0" "va_ConfigSyncPeriod d = 15 * 60 * second" "conntrack_ok (va_Conntrack d)"
    "0 \<le> vc_TCPTimeout (va_IPVS d)" "0 \<le> vc_TCPFinTimeout (va_IPVS d)" "0 \<le> vc_UDPTimeout (va_IPVS d)" "vc_ExcludeCIDRs (va_IPVS d) = []"
proof -
  have "b = (if length (va_BindAddress (zero_v1alpha1 mode bindAddress)) = 0 then ''0.0.0.0''
    else va_BindAddress (zero_v1alpha1 mode bindAddress))" using assms(1) by (simp add: zero_v1alpha1_def)
  note d = SetDefaults_eq [OF this assms(2), folded assms(3)] zero_v1alpha1_def
  show "va_HealthzBindAddress d = healthz @ '':'' @ Itoa ProxyHealthzPort" "va_MetricsBindAddress d = metrics @ '':'' @ Itoa ProxyStatusPort"
    "va_BindAddress d = b" "va_FeatureGates d = []" "va_Logging d = ce_RecommendedLogging env []" "va_ShowHiddenMetricsForVersion d = []"
    "va_Mode d = mode" "va_DetectLocalMode d = []" "va_ClusterCIDR d = []" "va_NodePortAddresses d = []"
    "va_IPTables d = defaultMode zero_mode" "va_NFTables d = defaultMode zero_mode"
    "cl_Burst (va_ClientConnection d) = 10" "va_OOMScoreAdj d = Some KubeProxyOOMScoreAdj" "va_IPVSSyncPeriod d = 30 * second"
    "va_IPVSMinSyncPeriod d = 0" "va_ConfigSyncPeriod d = 15 * 60 * second" "conntrack_ok (va_Conntrack d)"
    "0 \<le> vc_TCPTimeout (va_IPVS d)" "0 \<le> vc_TCPFinTimeout (va_IPVS d)" "0 \<le> vc_UDPTimeout (va_IPVS d)" "vc_ExcludeCIDRs (va_IPVS d) = []"
    by (simp_all add: d defaultAddr_def defaultClient_def default_int_def default_option_def defaultConntrack_def conntrack_ok_def
        option_nonneg_def second_def)
qed

lemma default_config_valid:
  assumes "packages_ok env" "mode_ok env mode" "bindAddress = [] \<or> ne_ParseIPSloppy (ce_util env) bindAddress \<noteq> None"
    and "\<And>x. cl_Burst (ce_ClientIn env x) = cl_Burst x"
  shows "valid_config env (Convert_v1alpha1_To_config env (SetDefaults_KubeProxyConfiguration env (zero_v1alpha1 mode bindAddress)))"
proof -
  define b where "b = (if length bindAddress = 0 then ''0.0.0.0'' else bindAddress)"
  obtain healthz metrics where a: "getDefaultAddresses env b = (healthz, metrics)" by (cases "getDefaultAddresses env b")
  have h: "hostport_ok env (healthz @ '':'' @ Itoa ProxyHealthzPort)" "hostport_ok env (metrics @ '':'' @ Itoa ProxyStatusPort)"
    using default_hostports_ok [OF assms(1) a, of ProxyHealthzPort] default_hostports_ok [OF assms(1) a, of ProxyStatusPort]
    unfolding ProxyHealthzPort_def ProxyStatusPort_def by simp_all
  have "ne_ParseIPSloppy (ce_util env) b \<noteq> None" using assms(1,3) by (auto simp: packages_ok_def b_def)
  note parsed = this
  define d where "d = SetDefaults_KubeProxyConfiguration env (zero_v1alpha1 mode bindAddress)"
  note fields = zero_default_fields [OF b_def a d_def]
  have m: "vm_MasqueradeBit (defaultMode zero_mode) = Some 14" "vm_SyncPeriod (defaultMode zero_mode) = 30 * second"
    "vm_MinSyncPeriod (defaultMode zero_mode) = second" by (simp_all add: defaultMode_def zero_mode_def default_option_def default_int_def)
  let ?c = "Convert_v1alpha1_To_config env d"
  note c = Convert_v1alpha1_To_config_def
  have "linux_ok (kc_Linux ?c)" "mode_settings_ok env ?c" "periods_ok ?c" "detect_ok env (kc_DetectLocalMode ?c) (kc_DetectLocal ?c)"
    "nodeports_ok env (kc_NodePortAddresses ?c)" "masquerade_ok (ic_MasqueradeBit (kc_IPTables ?c))"
    by (simp_all add: c fields m linux_ok_def KubeProxyOOMScoreAdj_def mode_settings_ok_def masquerade_ok_def periods_ok_def second_def
        detect_ok_def nodeports_ok_def)
  moreover have "mode_ok env (kc_Mode ?c)" "hostport_ok env (kc_HealthzBindAddress ?c)" "hostport_ok env (kc_MetricsBindAddress ?c)"
    "ne_ParseIPSloppy (ce_util env) (kc_BindAddress ?c) \<noteq> None" "cl_Burst (kc_ClientConnection ?c) = 10"
    using h parsed assms(2) by (simp_all add: c fields assms(4))
  moreover have "ce_SetFromMap env (kc_FeatureGates ?c) = None" "ce_ValidateLogging env (kc_Logging ?c) = []"
    "ce_ValidateShowHidden env (kc_ShowHiddenMetricsForVersion ?c) = []"
    using assms(1) by (simp_all add: c fields packages_ok_def)
  ultimately have "valid_config env ?c" using assms(1) by (simp add: valid_config_def packages_ok_def)
  then show ?thesis by (simp add: d_def)
qed

text \<open>
  The defaults alone are a configuration the proxy accepts: in every mode of the platform, with no bind address or any
  IP as the bind address, the zero value filled with the defaults and converted has no error. The ports come after the
  addresses of the family of the bind address.
\<close>

theorem default_config_accepted:
  assumes "packages_ok env" "mode_ok env mode" "bindAddress = [] \<or> ne_ParseIPSloppy (ce_util env) bindAddress \<noteq> None"
    and "\<And>x. cl_Burst (ce_ClientIn env x) = cl_Burst x"
  shows "config_Validate env (Convert_v1alpha1_To_config env (SetDefaults_KubeProxyConfiguration env (zero_v1alpha1 mode bindAddress))) = Inr []"
  using default_config_valid [OF assms] by (simp add: config_Validate_iff)

section \<open>Witnesses\<close>

definition example_config_env :: config_env where
  "example_config_env = \<lparr>ce_util = example_util_env\<lparr>ne_ParseIPSloppy := \<lambda>s. if CHR ''/'' \<in> set s then None else Some s\<rparr>,
     ce_SetFromMap = (\<lambda>m. if m = [] then None else Some ''unknown feature gate''), ce_ValidateLogging = (\<lambda>_. []), ce_ValidateShowHidden = (\<lambda>_. []),
     ce_ValidateNonnegative = (\<lambda>i p. err_if (i < 0) p ''must be greater than or equal to 0''), ce_IsDualStackCIDRStrings = (\<lambda>_. Inr True),
     ce_NFTablesProxyMode = True, ce_GOOS = ''linux'', ce_ClientIn = id, ce_ClientOut = id, ce_RecommendedLogging = id\<rparr>"

definition example_config :: KubeProxyConfiguration where
  "example_config = (Convert_v1alpha1_To_config example_config_env (zero_v1alpha1 ProxyModeNFTables ''0.0.0.0''))
     \<lparr>kc_SyncPeriod := 30, kc_DetectLocal := \<lparr>dc_BridgeInterface = [], dc_ClusterCIDRs = [''10.0.0.0/8'', ''fd00::/8''], dc_InterfaceNamePrefix = []\<rparr>\<rparr>"

theorem Convert_round_trip_witness:
  "dc_ClusterCIDRs (kc_DetectLocal example_config) = [''10.0.0.0/8'', ''fd00::/8''] \<and>
   Convert_v1alpha1_To_config example_config_env (Convert_config_To_v1alpha1 example_config_env example_config) = example_config"
proof -
  have "dc_ClusterCIDRs (kc_DetectLocal example_config) = [''10.0.0.0/8'', ''fd00::/8'']" by (simp add: example_config_def)
  moreover have "Convert_v1alpha1_To_config example_config_env (Convert_config_To_v1alpha1 example_config_env example_config) = example_config"
    by (rule Convert_round_trip) (simp_all add: calculation example_config_env_def)
  ultimately show ?thesis by simp
qed

theorem default_config_accepted_witness:
  "config_Validate example_config_env (Convert_v1alpha1_To_config example_config_env
     (SetDefaults_KubeProxyConfiguration example_config_env (zero_v1alpha1 ProxyModeNFTables []))) = Inr []"
  by (rule default_config_accepted)
    (simp_all add: packages_ok_def mode_ok_def example_config_env_def example_util_env_def err_if_def)

end
