(* ===== verification/Conntrack_Setup.thy ===== *)
theory Conntrack_Setup
  imports Proxy_Config
begin

text \<open>
  The limits of the connection tracking that the server writes when it starts: \<open>conntrack.go\<close> and, of
  \<open>server_linux.go\<close>, \<open>setupConntrack\<close>, \<open>getConntrackMax\<close> and \<open>detectNumCPU\<close>
  (\<open>wao-loadbalancer/cmd/kube-proxy/app\<close>). The state is what the kernel holds: the values of the sysctls (\<open>-1\<close> is
  read where there is none), the text of the file with the size of the hash table, and the events recorded on the node. Whether
  a write or a read of the host fails, the mounts and the number of CPUs are parameters.
\<close>

section \<open>The kernel\<close>

record sysfs_state =
  sy_sysctl :: "(string, int) gomap"
  sy_hashsize :: string
  sy_events :: "string list"

record sysfs_env =
  sx_SetSysctl :: "string \<Rightarrow> int \<Rightarrow> string option"
  sx_ReadHashsize :: "string option"
  sx_WriteHashsize :: "int \<Rightarrow> string option"
  sx_Mounts :: "(string \<times> string list) list result"
  sx_GetTopology :: "int result"
  sx_NumCPU :: int

definition errReadOnlySysFS :: goerr where
  "errReadOnlySysFS = Errorf ''readOnlySysFS''"

definition GetSysctl :: "sysfs_state \<Rightarrow> string \<Rightarrow> int" where
  "GetSysctl s sysctl = get_or (- 1) (sy_sysctl s) sysctl"

definition setIntSysCtl :: "sysfs_env \<Rightarrow> string \<Rightarrow> int \<Rightarrow> (sysfs_state, unit) call" where
  "setIntSysCtl env name value s =
     (let sysctl = ''net/netfilter/'' @ name
      in if GetSysctl s sysctl \<noteq> value
         then (case sx_SetSysctl env sysctl value of
                 Some e \<Rightarrow> (Inl (External e), s)
               | None \<Rightarrow> (Inr (), s\<lparr>sy_sysctl := AList.update sysctl value (sy_sysctl s)\<rparr>))
         else (Inr (), s))"

fun sysfsWritable :: "(string \<times> string list) list \<Rightarrow> bool result" where
  "sysfsWritable [] = Inl (Errorf ''no sysfs mounted'')"
| "sysfsWritable ((ty, opts) # mountPoints) =
     (if ty \<noteq> ''sysfs'' then sysfsWritable mountPoints
      else if length opts > 0 \<and> opts ! 0 = ''rw'' then Inr True
      else Inl errReadOnlySysFS)"

definition isSysFSWritable :: "sysfs_env \<Rightarrow> bool result" where
  "isSysFSWritable env = res_bind (sx_Mounts env) sysfsWritable"

definition readIntStringFile :: "sysfs_env \<Rightarrow> sysfs_state \<Rightarrow> int result" where
  "readIntStringFile env s = (case sx_ReadHashsize env of Some e \<Rightarrow> Inl (External e) | None \<Rightarrow> Atoi (TrimSpace (sy_hashsize s)))"

definition writeIntStringFile :: "sysfs_env \<Rightarrow> int \<Rightarrow> (sysfs_state, unit) call" where
  "writeIntStringFile env value s =
     (case sx_WriteHashsize env value of Some e \<Rightarrow> (Inl (External e), s) | None \<Rightarrow> (Inr (), s\<lparr>sy_hashsize := Itoa value\<rparr>))"

definition SetMax :: "sysfs_env \<Rightarrow> int \<Rightarrow> (sysfs_state, unit) call" where
  "SetMax env mx =
     then_do (setIntSysCtl env ''nf_conntrack_max'' mx) (\<lambda>_ s.
       case readIntStringFile env s of
         Inl e \<Rightarrow> (Inl e, s)
       | Inr hashsize \<Rightarrow>
           if hashsize \<ge> i64_quo mx 4 then (Inr (), s)
           else (case isSysFSWritable env of
                   Inl e \<Rightarrow> (Inl e, s)
                 | Inr writable \<Rightarrow> if \<not> writable then (Inl errReadOnlySysFS, s) else writeIntStringFile env (i64_quo mx 4) s))"

definition SetTCPEstablishedTimeout :: "sysfs_env \<Rightarrow> int \<Rightarrow> (sysfs_state, unit) call" where
  "SetTCPEstablishedTimeout env seconds = setIntSysCtl env ''nf_conntrack_tcp_timeout_established'' seconds"

definition SetTCPCloseWaitTimeout :: "sysfs_env \<Rightarrow> int \<Rightarrow> (sysfs_state, unit) call" where
  "SetTCPCloseWaitTimeout env seconds = setIntSysCtl env ''nf_conntrack_tcp_timeout_close_wait'' seconds"

definition SetTCPBeLiberal :: "sysfs_env \<Rightarrow> int \<Rightarrow> (sysfs_state, unit) call" where
  "SetTCPBeLiberal env value = setIntSysCtl env ''nf_conntrack_tcp_be_liberal'' value"

definition SetUDPTimeout :: "sysfs_env \<Rightarrow> int \<Rightarrow> (sysfs_state, unit) call" where
  "SetUDPTimeout env seconds = setIntSysCtl env ''nf_conntrack_udp_timeout'' seconds"

definition SetUDPStreamTimeout :: "sysfs_env \<Rightarrow> int \<Rightarrow> (sysfs_state, unit) call" where
  "SetUDPStreamTimeout env seconds = setIntSysCtl env ''nf_conntrack_udp_timeout_stream'' seconds"

section \<open>The server\<close>

definition detectNumCPU :: "sysfs_env \<Rightarrow> int" where
  "detectNumCPU env =
     (case sx_GetTopology env of Inl _ \<Rightarrow> sx_NumCPU env | Inr numCPU \<Rightarrow> if numCPU < 1 then sx_NumCPU env else numCPU)"

definition getConntrackMax :: "sysfs_env \<Rightarrow> KubeProxyConntrackConfiguration \<Rightarrow> int" where
  "getConntrackMax env config =
     (case cc_MaxPerCore config of
        Some maxPerCore \<Rightarrow>
          if maxPerCore > 0
          then (let floor = (case cc_Min config of Some m \<Rightarrow> m | None \<Rightarrow> 0);
                    scaled = i64_mul maxPerCore (detectNumCPU env)
                in if scaled > floor then scaled else floor)
          else 0
      | None \<Rightarrow> 0)"

text \<open>A step that is skipped when the duration is not positive.\<close>

definition whenPositive :: "int \<Rightarrow> (int \<Rightarrow> (sysfs_state, unit) call) \<Rightarrow> (sysfs_state, unit) call" where
  "whenPositive d act = (if d > 0 then act (i64_quo d second) else ret ())"

definition setupMax :: "sysfs_env \<Rightarrow> int \<Rightarrow> (sysfs_state, unit) call" where
  "setupMax env mx s =
     (if mx > 0
      then (case SetMax env mx s of
              (Inl err, s) \<Rightarrow> if err \<noteq> errReadOnlySysFS then (Inl err, s) else (Inr (), s\<lparr>sy_events := sy_events s @ [''readOnlySysFS'']\<rparr>)
            | (Inr u, s) \<Rightarrow> (Inr u, s))
      else (Inr (), s))"

definition setupConntrack :: "sysfs_env \<Rightarrow> KubeProxyConntrackConfiguration \<Rightarrow> (sysfs_state, unit) call" where
  "setupConntrack env config =
     then_do (setupMax env (getConntrackMax env config)) (\<lambda>_.
     then_do (case cc_TCPEstablishedTimeout config of None \<Rightarrow> ret () | Some d \<Rightarrow> whenPositive d (SetTCPEstablishedTimeout env)) (\<lambda>_.
     then_do (case cc_TCPCloseWaitTimeout config of None \<Rightarrow> ret () | Some d \<Rightarrow> whenPositive d (SetTCPCloseWaitTimeout env)) (\<lambda>_.
     then_do (if cc_TCPBeLiberal config then SetTCPBeLiberal env 1 else ret ()) (\<lambda>_.
     then_do (whenPositive (cc_UDPTimeout config) (SetUDPTimeout env)) (\<lambda>_.
       whenPositive (cc_UDPStreamTimeout config) (SetUDPStreamTimeout env))))))"

section \<open>What the kernel holds afterwards\<close>

text \<open>The sysctls that a configuration asks for, in the order they are written.\<close>

definition asks :: "bool \<Rightarrow> string \<Rightarrow> int \<Rightarrow> (string \<times> int) list" where
  "asks b name v = (if b then [(''net/netfilter/'' @ name, v)] else [])"

definition asksTimeout :: "string \<Rightarrow> int \<Rightarrow> (string \<times> int) list" where
  "asksTimeout name d = asks (d > 0) name (i64_quo d second)"

definition wantedSysctls :: "sysfs_env \<Rightarrow> KubeProxyConntrackConfiguration \<Rightarrow> (string \<times> int) list" where
  "wantedSysctls env c =
     asks (getConntrackMax env c > 0) ''nf_conntrack_max'' (getConntrackMax env c) @
     (case cc_TCPEstablishedTimeout c of None \<Rightarrow> [] | Some d \<Rightarrow> asksTimeout ''nf_conntrack_tcp_timeout_established'' d) @
     (case cc_TCPCloseWaitTimeout c of None \<Rightarrow> [] | Some d \<Rightarrow> asksTimeout ''nf_conntrack_tcp_timeout_close_wait'' d) @
     asks (cc_TCPBeLiberal c) ''nf_conntrack_tcp_be_liberal'' 1 @
     asksTimeout ''nf_conntrack_udp_timeout'' (cc_UDPTimeout c) @
     asksTimeout ''nf_conntrack_udp_timeout_stream'' (cc_UDPStreamTimeout c)"

definition writes :: "(string \<times> int) list \<Rightarrow> (string \<Rightarrow> int) \<Rightarrow> string \<Rightarrow> int" where
  "writes ws f = fold (\<lambda>(k, v) f. f(k := v)) ws f"

text \<open>\<open>settles ws m\<close>: when \<open>m\<close> succeeds the sysctls are as they were with the values of \<open>ws\<close> written over them.\<close>

definition settles :: "(string \<times> int) list \<Rightarrow> (sysfs_state, unit) call \<Rightarrow> bool" where
  "settles ws m \<longleftrightarrow> (\<forall>s s'. m s = (Inr (), s') \<longrightarrow> GetSysctl s' = writes ws (GetSysctl s))"

named_theorems settle

lemma settles_ret [settle]: "settles [] (ret ())"
  by (simp add: settles_def writes_def)

lemma settles_then: "settles ws m \<Longrightarrow> settles vs k \<Longrightarrow> settles (ws @ vs) (then_do m (\<lambda>_. k))"
  by (auto simp: settles_def then_do_def writes_def split: prod.splits sum.splits)

lemma setIntSysCtl_settles [settle]: "settles (asks True name v) (setIntSysCtl env name v)"
  by (auto simp: settles_def setIntSysCtl_def asks_def writes_def GetSysctl_def Let_def split: if_splits option.splits)

lemma settles_step [settle]:
  "settles (asksTimeout name d) (whenPositive d (setIntSysCtl env name))"
  "settles (asks b name v) (if b then setIntSysCtl env name v else ret ())"
  using setIntSysCtl_settles [of name "i64_quo d second" env] setIntSysCtl_settles [of name v env] settles_ret
  by (simp_all add: asksTimeout_def whenPositive_def asks_def)

lemma SetMax_sysctl:
  assumes "SetMax env mx s = (r, s')" "r = Inr () \<or> r = Inl errReadOnlySysFS"
  shows "GetSysctl s' = writes (asks True ''nf_conntrack_max'' mx) (GetSysctl s)"
proof -
  obtain r1 s1 where r1: "setIntSysCtl env ''nf_conntrack_max'' mx s = (r1, s1)" by (cases "setIntSysCtl env ''nf_conntrack_max'' mx s")
  then have ok: "r1 = Inr ()" using assms
    by (auto simp: SetMax_def then_do_def setIntSysCtl_def Let_def errReadOnlySysFS_def split: if_splits option.splits)
  then have "GetSysctl s1 = writes (asks True ''nf_conntrack_max'' mx) (GetSysctl s)"
    using r1 setIntSysCtl_settles [of "''nf_conntrack_max''" mx env] by (simp add: settles_def)
  moreover have "sy_sysctl s' = sy_sysctl s1"
    using assms(1) r1 ok by (auto simp: SetMax_def then_do_def writeIntStringFile_def split: sum.splits if_splits option.splits)
  ultimately show ?thesis by (simp add: GetSysctl_def fun_eq_iff)
qed

lemma setupMax_settles: "settles (asks (mx > 0) ''nf_conntrack_max'' mx) (setupMax env mx)"
  unfolding settles_def
proof (intro allI impI)
  fix s s'
  assume a: "setupMax env mx s = (Inr (), s')"
  show "GetSysctl s' = writes (asks (mx > 0) ''nf_conntrack_max'' mx) (GetSysctl s)"
  proof (cases "mx > 0")
    case True
    obtain r s1 where r: "SetMax env mx s = (r, s1)" by (cases "SetMax env mx s")
    then have "r = Inr () \<or> r = Inl errReadOnlySysFS" "sy_sysctl s' = sy_sysctl s1"
      using a True by (auto simp: setupMax_def split: sum.splits if_splits)
    then show ?thesis using SetMax_sysctl [OF r] True by (simp add: GetSysctl_def fun_eq_iff)
  next
    case False
    then show ?thesis using a by (simp add: setupMax_def asks_def writes_def)
  qed
qed

definition at_most :: "string list \<Rightarrow> string \<Rightarrow> bool" where
  "at_most w n \<longleftrightarrow> w = [] \<or> w = [''net/netfilter/'' @ n]"

lemma at_most_asks: "at_most [] n" "at_most (map fst (asks b n v)) n" "at_most (map fst (asksTimeout n d)) n"
  by (simp_all add: at_most_def asksTimeout_def asks_def)

lemma distinct_at_most:
  "list_all2 at_most ws ns \<Longrightarrow> distinct ns \<Longrightarrow> distinct (concat ws) \<and> set (concat ws) \<subseteq> (\<lambda>n. ''net/netfilter/'' @ n) ` set ns"
  by (induction rule: list_all2_induct) (auto simp: at_most_def)

lemma wantedSysctls_distinct: "distinct (map fst (wantedSysctls env c))"
proof -
  let ?ns = "[''nf_conntrack_max'', ''nf_conntrack_tcp_timeout_established'', ''nf_conntrack_tcp_timeout_close_wait'',
    ''nf_conntrack_tcp_be_liberal'', ''nf_conntrack_udp_timeout'', ''nf_conntrack_udp_timeout_stream'']"
  have d: "distinct ?ns" by simp
  have "list_all2 at_most [map fst (asks (getConntrackMax env c > 0) ''nf_conntrack_max'' (getConntrackMax env c)),
      map fst (case cc_TCPEstablishedTimeout c of None \<Rightarrow> [] | Some d \<Rightarrow> asksTimeout ''nf_conntrack_tcp_timeout_established'' d),
      map fst (case cc_TCPCloseWaitTimeout c of None \<Rightarrow> [] | Some d \<Rightarrow> asksTimeout ''nf_conntrack_tcp_timeout_close_wait'' d),
      map fst (asks (cc_TCPBeLiberal c) ''nf_conntrack_tcp_be_liberal'' 1),
      map fst (asksTimeout ''nf_conntrack_udp_timeout'' (cc_UDPTimeout c)),
      map fst (asksTimeout ''nf_conntrack_udp_timeout_stream'' (cc_UDPStreamTimeout c))] ?ns"
    unfolding list_all2_Cons by (intro conjI at_most_asks list.rel_intros) (simp_all add: at_most_asks split: option.split)
  from distinct_at_most [OF this d] show ?thesis by (simp add: wantedSysctls_def)
qed

lemma writes_map_of: "distinct (map fst ws) \<Longrightarrow> writes ws f name = (case map_of ws name of Some v \<Rightarrow> v | None \<Rightarrow> f name)"
proof (induction ws arbitrary: f)
  case Nil
  show ?case by (simp add: writes_def)
next
  case (Cons w ws)
  have "writes (w # ws) f name = writes ws (f(fst w := snd w)) name" by (simp add: writes_def case_prod_beta)
  also have "\<dots> = (case map_of ws name of Some v \<Rightarrow> v | None \<Rightarrow> (f(fst w := snd w)) name)" using Cons by simp
  also have "\<dots> = (case map_of (w # ws) name of Some v \<Rightarrow> v | None \<Rightarrow> f name)"
    using Cons.prems by (cases w; cases "fst w = name") (auto split: option.split dest: map_of_SomeD simp: rev_image_eqI)
  finally show ?case .
qed

text \<open>A timeout of less than a second is written as 0, where 0 in the configuration leaves the kernel's.\<close>

lemma subsecond_timeout_zero:
  assumes "0 < d" "d < second"
  shows "asksTimeout name d = [(''net/netfilter/'' @ name, 0)]"
  using assms by (simp add: asksTimeout_def asks_def i64_quo_nonneg second_def MaxInt64_def)

text \<open>When no sysctl is refused, a step that writes sysctls succeeds and touches nothing else.\<close>

definition writes_only :: "(sysfs_state, unit) call \<Rightarrow> bool" where
  "writes_only act \<longleftrightarrow> (\<forall>s. \<exists>m. act s = (Inr (), s\<lparr>sy_sysctl := m\<rparr>))"

lemma writes_onlyE: "writes_only act \<Longrightarrow> (\<And>m. act s = (Inr (), s\<lparr>sy_sysctl := m\<rparr>) \<Longrightarrow> thesis) \<Longrightarrow> thesis"
  unfolding writes_only_def by blast

lemma writes_only_ret: "writes_only (ret ())"
proof -
  have "ret () s = (Inr (), s\<lparr>sy_sysctl := sy_sysctl s\<rparr>)" for s :: sysfs_state by simp
  then show ?thesis unfolding writes_only_def by blast
qed

lemma writes_only_setIntSysCtl:
  assumes "\<forall>name v. sx_SetSysctl env name v = None"
  shows "writes_only (setIntSysCtl env name v)"
  unfolding writes_only_def
proof
  fix s
  show "\<exists>m. setIntSysCtl env name v s = (Inr (), s\<lparr>sy_sysctl := m\<rparr>)"
    by (rule exI [of _ "if GetSysctl s (''net/netfilter/'' @ name) \<noteq> v then AList.update (''net/netfilter/'' @ name) v (sy_sysctl s) else sy_sysctl s"])
      (simp add: setIntSysCtl_def Let_def assms)
qed

lemma writes_only_then:
  assumes "writes_only a" "writes_only b"
  shows "writes_only (then_do a (\<lambda>_. b))"
  unfolding writes_only_def
proof
  fix s
  obtain m where m: "a s = (Inr (), s\<lparr>sy_sysctl := m\<rparr>)" using assms(1) by (rule writes_onlyE)
  obtain n where "b (s\<lparr>sy_sysctl := m\<rparr>) = (Inr (), s\<lparr>sy_sysctl := m\<rparr>\<lparr>sy_sysctl := n\<rparr>)" using assms(2) by (rule writes_onlyE)
  then show "\<exists>m. then_do a (\<lambda>_. b) s = (Inr (), s\<lparr>sy_sysctl := m\<rparr>)" using m by (auto simp: then_do_def)
qed

lemma writes_only_whenPositive: "(\<And>v. writes_only (act v)) \<Longrightarrow> writes_only (whenPositive d act)"
  by (simp add: whenPositive_def writes_only_ret)

lemma setupMax_readonly:
  assumes "\<forall>name v. sx_SetSysctl env name v = None" "isSysFSWritable env = Inl errReadOnlySysFS" "readIntStringFile env s = Inr hashsize"
  shows "\<exists>m. setupMax env mx s =
    (Inr (), s\<lparr>sy_sysctl := m, sy_events := sy_events s @ (if 0 < mx \<and> hashsize < i64_quo mx 4 then [''readOnlySysFS''] else [])\<rparr>)"
proof (cases "0 < mx")
  case True
  obtain m where m: "setIntSysCtl env ''nf_conntrack_max'' mx s = (Inr (), s\<lparr>sy_sysctl := m\<rparr>)"
    using writes_only_setIntSysCtl [OF assms(1)] by (rule writes_onlyE)
  have "readIntStringFile env (s\<lparr>sy_sysctl := m\<rparr>) = Inr hashsize" using assms(3) by (simp add: readIntStringFile_def split: option.splits)
  then show ?thesis using True m assms(2) by (intro exI [of _ m]) (simp add: setupMax_def SetMax_def then_do_def)
next
  case False
  then show ?thesis by (intro exI [of _ "sy_sysctl s"]) (simp add: setupMax_def)
qed

text \<open>
  C10. When the setup of the connection tracking succeeds, the kernel holds exactly what the configuration asks for: each
  limit or timeout that is set has its value, in whole seconds, and every other sysctl is as it was. And a file system mounted
  read-only is no failure: when the sysctls can be written and the size of the hash table can be read, the setup succeeds,
  leaves that size as it was, and records one event on the node if and only if the size is too small for the limit.
\<close>

theorem setupConntrack_exact:
  shows "(\<forall>s'. setupConntrack env config s = (Inr (), s') \<longrightarrow>
      GetSysctl s' name = (case map_of (wantedSysctls env config) name of Some v \<Rightarrow> v | None \<Rightarrow> GetSysctl s name)) \<and>
    ((\<forall>name v. sx_SetSysctl env name v = None) \<and> isSysFSWritable env = Inl errReadOnlySysFS \<and> readIntStringFile env s = Inr hashsize \<longrightarrow>
      (\<exists>s'. setupConntrack env config s = (Inr (), s') \<and> sy_hashsize s' = sy_hashsize s \<and>
        sy_events s' = sy_events s @
          (if 0 < getConntrackMax env config \<and> hashsize < i64_quo (getConntrackMax env config) 4 then [''readOnlySysFS''] else [])))"
proof (intro conjI allI impI; (elim conjE)?)
  fix s'
  assume r: "setupConntrack env config s = (Inr (), s')"
  have "settles (wantedSysctls env config) (setupConntrack env config)"
    unfolding setupConntrack_def wantedSysctls_def SetTCPEstablishedTimeout_def SetTCPCloseWaitTimeout_def SetTCPBeLiberal_def
      SetUDPTimeout_def SetUDPStreamTimeout_def
    by (intro settles_then setupMax_settles settle) (auto intro: settle split: option.split)
  then have w: "GetSysctl s' = writes (wantedSysctls env config) (GetSysctl s)" using r by (simp add: settles_def)
  show "GetSysctl s' name = (case map_of (wantedSysctls env config) name of Some v \<Rightarrow> v | None \<Rightarrow> GetSysctl s name)"
    by (simp add: w writes_map_of wantedSysctls_distinct)
next
  assume w: "\<forall>name v. sx_SetSysctl env name v = None" and ro: "isSysFSWritable env = Inl errReadOnlySysFS" and h: "readIntStringFile env s = Inr hashsize"
  let ?evs = "if 0 < getConntrackMax env config \<and> hashsize < i64_quo (getConntrackMax env config) 4 then [''readOnlySysFS''] else []"
  obtain m where m: "setupMax env (getConntrackMax env config) s = (Inr (), s\<lparr>sy_sysctl := m, sy_events := sy_events s @ ?evs\<rparr>)"
    using setupMax_readonly [OF w ro h] by blast
  have "\<exists>rest. writes_only rest \<and> setupConntrack env config = then_do (setupMax env (getConntrackMax env config)) (\<lambda>_. rest)"
    unfolding setupConntrack_def SetTCPEstablishedTimeout_def SetTCPCloseWaitTimeout_def SetTCPBeLiberal_def SetUDPTimeout_def SetUDPStreamTimeout_def
    by (rule exI, rule conjI [OF _ refl])
      (auto intro!: writes_only_then writes_only_whenPositive writes_only_setIntSysCtl [OF w] writes_only_ret split: option.split)
  then obtain rest where r: "writes_only rest" "setupConntrack env config = then_do (setupMax env (getConntrackMax env config)) (\<lambda>_. rest)" by blast
  obtain n where "rest (s\<lparr>sy_sysctl := m, sy_events := sy_events s @ ?evs\<rparr>) =
      (Inr (), s\<lparr>sy_sysctl := m, sy_events := sy_events s @ ?evs\<rparr>\<lparr>sy_sysctl := n\<rparr>)"
    using r(1) by (rule writes_onlyE)
  then show "\<exists>s'. setupConntrack env config s = (Inr (), s') \<and> sy_hashsize s' = sy_hashsize s \<and> sy_events s' = sy_events s @ ?evs"
    unfolding r(2) using m by (simp add: then_do_def)
qed

text \<open>
  The limit of tracked connections is zero, which leaves the kernel's, unless a limit per core is set; then it is the
  larger of the minimum and the limit per core times the number of cores, without overflow for the 32-bit
  fields of the configuration and up to \<open>2 ^ 31\<close> cores.
\<close>

theorem getConntrackMax_scaled:
  assumes "cc_MaxPerCore c = Some m" "m \<le> 2 ^ 31 - 1" "1 \<le> detectNumCPU env" "detectNumCPU env \<le> 2 ^ 31"
  shows "getConntrackMax env c =
    (if 0 < m then max (case cc_Min c of Some k \<Rightarrow> k | None \<Rightarrow> 0) (m * detectNumCPU env) else 0)"
proof -
  have "is_i64 (m * detectNumCPU env)" if "0 < m"
  proof -
    have "m * detectNumCPU env \<le> (2 ^ 31 - 1) * 2 ^ 31" using that assms by (intro mult_mono) simp_all
    moreover have "0 \<le> m * detectNumCPU env" using that assms by simp
    ultimately show ?thesis by (simp add: is_i64_def MaxInt64_def MinInt64_def)
  qed
  then show ?thesis using assms by (auto simp: getConntrackMax_def i64_mul_id Let_def max_def)
qed

section \<open>Witnesses\<close>

definition example_sysfs_env :: sysfs_env where
  "example_sysfs_env = \<lparr>sx_SetSysctl = (\<lambda>_ _. None), sx_ReadHashsize = None, sx_WriteHashsize = (\<lambda>_. None),
     sx_Mounts = Inr [(''proc'', [''rw'']), (''sysfs'', [''ro''])], sx_GetTopology = Inr 2, sx_NumCPU = 1\<rparr>"

definition example_conntrack :: KubeProxyConntrackConfiguration where
  "example_conntrack = \<lparr>cc_MaxPerCore = Some 20, cc_Min = Some 30, cc_TCPEstablishedTimeout = Some (5 * second),
     cc_TCPCloseWaitTimeout = Some 0, cc_TCPBeLiberal = True, cc_UDPTimeout = 0, cc_UDPStreamTimeout = 0\<rparr>"

definition example_sysfs :: sysfs_state where
  "example_sysfs = \<lparr>sy_sysctl = [(''net/netfilter/nf_conntrack_udp_timeout'', 7)], sy_hashsize = ''1'', sy_events = []\<rparr>"

theorem getConntrackMax_scaled_witness: "getConntrackMax example_sysfs_env example_conntrack = 40"
proof -
  have "detectNumCPU example_sysfs_env = 2" by (simp add: detectNumCPU_def example_sysfs_env_def)
  then show ?thesis using getConntrackMax_scaled [of example_conntrack 20 example_sysfs_env] by (simp add: example_conntrack_def)
qed

theorem setupConntrack_exact_witness:
  "fst (setupConntrack example_sysfs_env example_conntrack example_sysfs) = Inr () \<and>
   GetSysctl (snd (setupConntrack example_sysfs_env example_conntrack example_sysfs)) ''net/netfilter/nf_conntrack_max'' = 40 \<and>
   GetSysctl (snd (setupConntrack example_sysfs_env example_conntrack example_sysfs)) ''net/netfilter/nf_conntrack_udp_timeout'' = 7 \<and>
   sy_events (snd (setupConntrack example_sysfs_env example_conntrack example_sysfs)) = [''readOnlySysFS'']"
proof -
  let ?r = "setupConntrack example_sysfs_env example_conntrack example_sysfs"
  have env: "\<forall>name v. sx_SetSysctl example_sysfs_env name v = None" by (simp add: example_sysfs_env_def)
  have ro: "isSysFSWritable example_sysfs_env = Inl errReadOnlySysFS" "readIntStringFile example_sysfs_env example_sysfs = Inr 1"
    "0 < getConntrackMax example_sysfs_env example_conntrack \<and> 1 < i64_quo (getConntrackMax example_sysfs_env example_conntrack) 4"
    by code_simp+
  note exact = setupConntrack_exact [of example_sysfs_env example_conntrack example_sysfs _ 1]
  have "\<exists>s'. ?r = (Inr (), s') \<and> sy_events s' = sy_events example_sysfs @ [''readOnlySysFS'']"
    using conjunct2 [OF exact] env ro by simp blast
  moreover have "sy_events example_sysfs = []" by (simp add: example_sysfs_def)
  ultimately obtain s' where s': "?r = (Inr (), s')" "sy_events s' = [''readOnlySysFS'']" by auto
  have "GetSysctl s' name =
    (case map_of (wantedSysctls example_sysfs_env example_conntrack) name of Some v \<Rightarrow> v | None \<Rightarrow> GetSysctl example_sysfs name)" for name
    using exact s'(1) by blast
  moreover have "map_of (wantedSysctls example_sysfs_env example_conntrack) ''net/netfilter/nf_conntrack_max'' = Some 40"
    "map_of (wantedSysctls example_sysfs_env example_conntrack) ''net/netfilter/nf_conntrack_udp_timeout'' = None"
    "GetSysctl example_sysfs ''net/netfilter/nf_conntrack_udp_timeout'' = 7" by code_simp+
  ultimately show ?thesis using s' by simp
qed

end
