(* ===== verification/Proxy_Server.thy ===== *)
theory Proxy_Server
  imports Conntrack_Setup Meta_Proxier
begin

text \<open>
  The start of kube-proxy, \<open>wao-loadbalancer/cmd/kube-proxy/app\<close>: the options of \<open>options.go\<close>, \<open>newProxyServer\<close> and
  what it calls in \<open>server.go\<close> and \<open>server_linux.go\<close>, the label selector of \<open>ProxyServer.Run\<close> with the proxy name of
  \<open>wao.go\<close>, and \<open>NewDualStackProxier\<close> of the nftables proxier. The clients, the decoding of files, the node
  events, the presence of iptables and the constructors of the iptables and ipvs proxiers are parameters; the nftables proxier is
  the one of \<open>Nft_Setup\<close>.
\<close>

section \<open>State and environment\<close>

record rest_Config =
  rc_Host :: string
  rc_AcceptContentTypes :: string
  rc_ContentType :: string
  rc_QPS :: f64
  rc_Burst :: int

record node_object =
  no_PodCIDR :: string
  no_PodCIDRs :: "string list"
  no_Deleting :: bool

datatype watch_type = WatchAdded | WatchModified | WatchDeleted | WatchBookmark | WatchError

text \<open>A watch event; \<open>None\<close> is an object that is not a node.\<close>

type_synonym watch_event = "watch_type \<times> node_object option"

text \<open>What a server holds as \<open>s.Proxier\<close>; the proxiers of the other modes are opaque.\<close>

datatype 's provider = NilProvider | DualStackNFTables "'s Proxier" "'s Proxier" | SingleStackNFTables "'s Proxier" | OtherBackend string

record 's server_env =
  sv_config :: config_env
  sv_WAOProxyName :: string
  sv_sysfs :: sysfs_env
  sv_configz :: "unit result"
  sv_GetHostname :: "string \<Rightarrow> string result"
  sv_InClusterConfig :: "rest_Config result"
  sv_ClientConfig :: "string \<Rightarrow> string \<Rightarrow> rest_Config result"
  sv_NewForConfig :: "rest_Config \<Rightarrow> unit result"
  sv_GetNodeHostIPs :: "string \<Rightarrow> nat \<Rightarrow> IP list result"
  sv_nodeEvents :: "string \<Rightarrow> watch_event list"
  sv_IsUnspecified :: "string \<Rightarrow> bool"
  sv_IPFamilyOfString :: "string \<Rightarrow> string"
  sv_IPFamilyOfCIDRString :: "string \<Rightarrow> string"
  sv_Present :: "string \<Rightarrow> bool"
  sv_getNFTablesInterface :: "string \<Rightarrow> unit result"
  sv_NewWAOLB :: "string \<Rightarrow> (Scores \<times> 's) result"
  sv_nnString :: "NamespacedName \<Rightarrow> string"
  sv_hash8 :: "string \<Rightarrow> string"
  sv_now :: int
  sv_newOther :: "string \<Rightarrow> bool \<Rightarrow> KubeProxyConfiguration \<Rightarrow> unit result"
  sv_Decode :: "bool \<Rightarrow> string \<Rightarrow> v1alpha1_KubeProxyConfiguration option result"
  sv_IsStrictDecodingError :: "goerr \<Rightarrow> bool"
  sv_ReadFile :: "string \<Rightarrow> string result"
  sv_copyLogs :: "string \<Rightarrow> string"
  sv_initWatcher :: "string \<Rightarrow> unit result"
  sv_Changed :: "string \<Rightarrow> bool"
  sv_SetFeatureGates :: "(string, bool) gomap \<Rightarrow> unit result"
  sv_writeConfig :: "string \<Rightarrow> KubeProxyConfiguration \<Rightarrow> unit result"

record 's ProxyServer =
  ps_Config :: KubeProxyConfiguration
  ps_Hostname :: string
  ps_PrimaryIPFamily :: string
  ps_NodeIPs :: "(string, IP) gomap"
  ps_HealthzServer :: bool
  ps_podCIDRs :: "string list"
  ps_Proxier :: "'s provider"

record Options =
  op_ConfigFile :: string
  op_WriteConfigTo :: string
  op_CleanupAndExit :: bool
  op_InitAndExit :: bool
  op_config :: KubeProxyConfiguration
  op_watcher :: bool
  op_master :: string
  op_healthzPort :: int
  op_metricsPort :: int
  op_hostnameOverride :: string
  op_iptablesSyncPeriod :: int
  op_iptablesMinSyncPeriod :: int
  op_ipvsSyncPeriod :: int
  op_ipvsMinSyncPeriod :: int
  op_clusterCIDRs :: string

abbreviation sv_net :: "'s server_env \<Rightarrow> util_env" where
  "sv_net env \<equiv> ce_util (sv_config env)"

section \<open>Options\<close>

text \<open>The conversion cannot fail on the types of the model, so the panic of the source has no branch.\<close>

definition newKubeProxyConfiguration :: "'s server_env \<Rightarrow> KubeProxyConfiguration" where
  "newKubeProxyConfiguration env =
     Convert_v1alpha1_To_config (sv_config env) (SetDefaults_KubeProxyConfiguration (sv_config env) (zero_v1alpha1 [] []))"

definition NewOptions :: "'s server_env \<Rightarrow> Options" where
  "NewOptions env = \<lparr>op_ConfigFile = [], op_WriteConfigTo = [], op_CleanupAndExit = False, op_InitAndExit = False,
     op_config = newKubeProxyConfiguration env, op_watcher = False, op_master = [],
     op_healthzPort = ProxyHealthzPort, op_metricsPort = ProxyStatusPort, op_hostnameOverride = [],
     op_iptablesSyncPeriod = 0, op_iptablesMinSyncPeriod = 0, op_ipvsSyncPeriod = 0, op_ipvsMinSyncPeriod = 0, op_clusterCIDRs = []\<rparr>"

definition addressFromDeprecatedFlags :: "'s server_env \<Rightarrow> string \<Rightarrow> int \<Rightarrow> string" where
  "addressFromDeprecatedFlags env addr port = (if port = 0 then [] else AppendPortIfNeeded (sv_net env) addr port)"

definition processHostnameOverrideFlag :: "Options \<Rightarrow> Options result" where
  "processHostnameOverrideFlag o' =
     (if length (op_hostnameOverride o') > 0
      then (let hostName = TrimSpace (op_hostnameOverride o')
            in if length hostName = 0 then Inl (Errorf ''empty hostname-override is invalid'')
               else Inr (o'\<lparr>op_config := (op_config o')\<lparr>kc_HostnameOverride := ToLower hostName\<rparr>\<rparr>))
      else Inr o')"

definition processV1Alpha1Flags :: "'s server_env \<Rightarrow> Options \<Rightarrow> KubeProxyConfiguration \<Rightarrow> KubeProxyConfiguration" where
  "processV1Alpha1Flags env o' c =
     (let c = (if sv_Changed env ''iptables-sync-period'' \<and> kc_Mode c \<noteq> ProxyModeIPVS then c\<lparr>kc_SyncPeriod := op_iptablesSyncPeriod o'\<rparr> else c);
          c = (if sv_Changed env ''iptables-min-sync-period'' \<and> kc_Mode c \<noteq> ProxyModeIPVS then c\<lparr>kc_MinSyncPeriod := op_iptablesMinSyncPeriod o'\<rparr> else c);
          c = (if sv_Changed env ''ipvs-sync-period'' \<and> kc_Mode c = ProxyModeIPVS then c\<lparr>kc_SyncPeriod := op_ipvsSyncPeriod o'\<rparr> else c);
          c = (if sv_Changed env ''ipvs-min-sync-period'' \<and> kc_Mode c = ProxyModeIPVS then c\<lparr>kc_MinSyncPeriod := op_ipvsMinSyncPeriod o'\<rparr> else c)
      in if sv_Changed env ''cluster-cidr''
         then c\<lparr>kc_DetectLocal := (kc_DetectLocal c)\<lparr>dc_ClusterCIDRs := split_on CHR '','' (op_clusterCIDRs o')\<rparr>\<rparr> else c)"

definition DefaultHealthzBindAddress :: string where "DefaultHealthzBindAddress = ''0.0.0.0:10356''"
definition DefaultMetricsBindAddress :: string where "DefaultMetricsBindAddress = ''0.0.0.0:10349''"

definition platformApplyDefaults :: "'s server_env \<Rightarrow> KubeProxyConfiguration \<Rightarrow> KubeProxyConfiguration" where
  "platformApplyDefaults env c =
     (let c = (if kc_Mode c = [] then c\<lparr>kc_Mode := ProxyModeIPTables\<rparr> else c);
          c = (if kc_Mode c = ProxyModeNFTables \<and> length (kc_NodePortAddresses c) = 0
               then c\<lparr>kc_NodePortAddresses := [NodePortAddressesPrimary]\<rparr> else c);
          c = (if kc_DetectLocalMode c = [] then c\<lparr>kc_DetectLocalMode := LocalModeClusterCIDR\<rparr> else c)
      in if sv_WAOProxyName env = [] then c
         else c\<lparr>kc_HealthzBindAddress := DefaultHealthzBindAddress, kc_MetricsBindAddress := DefaultMetricsBindAddress\<rparr>)"

text \<open>
  The decoder fills the defaults and converts to the internal type. The first attempt is strict; when it fails for that
  alone the second has only the versioned type and is lenient. \<open>None\<close> is an object of another type.
\<close>

definition loadConfig :: "'s server_env \<Rightarrow> string \<Rightarrow> KubeProxyConfiguration result" where
  "loadConfig env data =
     (let use = (\<lambda>configObj. case configObj of
            None \<Rightarrow> Inl (Errorf ''got unexpected config type'')
          | Some obj \<Rightarrow> Inr (Convert_v1alpha1_To_config (sv_config env) (SetDefaults_KubeProxyConfiguration (sv_config env) obj)))
      in case sv_Decode env True data of
           Inr configObj \<Rightarrow> use configObj
         | Inl err \<Rightarrow>
             if \<not> sv_IsStrictDecodingError env err then Inl (Wrap ''failed to decode'' err)
             else (case sv_Decode env False data of
                     Inl _ \<Rightarrow> Inl (Wrap ''failed lenient decoding'' err)
                   | Inr configObj \<Rightarrow> use configObj))"

definition loadConfigFromFile :: "'s server_env \<Rightarrow> string \<Rightarrow> KubeProxyConfiguration result" where
  "loadConfigFromFile env file = res_bind (sv_ReadFile env file) (loadConfig env)"

definition Complete :: "'s server_env \<Rightarrow> Options \<Rightarrow> Options result" where
  "Complete env o' =
     (let c = op_config o';
          c = (if length (op_ConfigFile o') = 0 \<and> length (op_WriteConfigTo o') = 0
               then c\<lparr>kc_HealthzBindAddress := addressFromDeprecatedFlags env (kc_HealthzBindAddress c) (op_healthzPort o'),
                      kc_MetricsBindAddress := addressFromDeprecatedFlags env (kc_MetricsBindAddress c) (op_metricsPort o')\<rparr>
               else c)
      in res_bind
           (if length (op_ConfigFile o') > 0
            then res_bind (loadConfigFromFile env (op_ConfigFile o')) (\<lambda>c.
                 let c = c\<lparr>kc_Logging := sv_copyLogs env (kc_Logging c)\<rparr>
                 in res_bind (sv_initWatcher env (op_ConfigFile o')) (\<lambda>_. Inr (o'\<lparr>op_config := c, op_watcher := True\<rparr>)))
            else Inr (o'\<lparr>op_config := processV1Alpha1Flags env o' c\<rparr>)) (\<lambda>o'.
         res_bind (processHostnameOverrideFlag (o'\<lparr>op_config := platformApplyDefaults env (op_config o')\<rparr>)) (\<lambda>o'.
         res_bind (sv_SetFeatureGates env (kc_FeatureGates (op_config o'))) (\<lambda>_. Inr o'))))"

definition Options_Validate :: "'s server_env \<Rightarrow> Options \<Rightarrow> unit result" where
  "Options_Validate env o' =
     res_bind (config_Validate (sv_config env) (op_config o')) (\<lambda>errs.
       if length errs \<noteq> 0 then Inl (Errorf (joinCommaSpace (map fe_Detail errs))) else Inr ())"

section \<open>The server\<close>

definition createClient :: "'s server_env \<Rightarrow> ClientConnectionConfiguration \<Rightarrow> string \<Rightarrow> unit result" where
  "createClient env config masterOverride =
     res_bind (if length (cl_Kubeconfig config) = 0 \<and> length masterOverride = 0 then sv_InClusterConfig env
               else sv_ClientConfig env (cl_Kubeconfig config) masterOverride) (\<lambda>kubeConfig.
       sv_NewForConfig env (kubeConfig\<lparr>rc_AcceptContentTypes := cl_AcceptContentTypes config, rc_ContentType := cl_ContentType config,
         rc_QPS := cl_QPS config, rc_Burst := cl_Burst config\<rparr>))"

text \<open>
  \<open>getNodeIPs\<close>: up to six attempts to read the node and its addresses; the addresses are nil when all fail.
\<close>

fun nodeIPAttempts :: "(nat \<Rightarrow> IP list result) \<Rightarrow> nat \<Rightarrow> nat \<Rightarrow> IP list" where
  "nodeIPAttempts attempt i 0 = []"
| "nodeIPAttempts attempt i (Suc n) = (case attempt i of Inr nodeIPs \<Rightarrow> nodeIPs | Inl _ \<Rightarrow> nodeIPAttempts attempt (i + 1) n)"

definition getNodeIPs :: "'s server_env \<Rightarrow> string \<Rightarrow> IP list" where
  "getNodeIPs env name = nodeIPAttempts (sv_GetNodeHostIPs env name) 0 6"

definition IsIPv4 :: "util_env \<Rightarrow> IP \<Rightarrow> bool" where
  "IsIPv4 env ip = (case ip of None \<Rightarrow> False | Some s \<Rightarrow> ue_To4 env s)"

definition familyOf :: "util_env \<Rightarrow> IP \<Rightarrow> string" where
  "familyOf env ip = (if \<not> IsIPv4 env ip then IPv6Protocol else IPv4Protocol)"

definition loopbackIPs :: "(string, IP) gomap" where
  "loopbackIPs = [(IPv4Protocol, Some ''127.0.0.1''), (IPv6Protocol, Some ''::1'')]"

definition detectNodeIPs :: "'s server_env \<Rightarrow> IP list \<Rightarrow> string \<Rightarrow> string \<times> (string, IP) gomap" where
  "detectNodeIPs env rawNodeIPs bindAddress =
     (let nodeIPs = loopbackIPs;
          (primaryFamily, nodeIPs) =
            (if length rawNodeIPs > 0
             then (let primaryFamily = familyOf (sv_net env) (rawNodeIPs ! 0);
                       nodeIPs = AList.update primaryFamily (rawNodeIPs ! 0) nodeIPs
                   in if length rawNodeIPs > 1
                      then (primaryFamily, AList.update (familyOf (sv_net env) (rawNodeIPs ! 1)) (rawNodeIPs ! 1) nodeIPs)
                      else (primaryFamily, nodeIPs))
             else (IPv4Protocol, nodeIPs));
          bindIP = ne_ParseIPSloppy (sv_net env) bindAddress
      in case bindIP of
           Some ip \<Rightarrow>
             if \<not> sv_IsUnspecified env ip
             then (let primaryFamily = (if IsIPv4 (sv_net env) bindIP then IPv4Protocol else IPv6Protocol)
                   in (primaryFamily, AList.update primaryFamily bindIP nodeIPs))
             else (primaryFamily, nodeIPs)
         | None \<Rightarrow> (primaryFamily, nodeIPs))"

text \<open>\<open>primary\<close> stands for the addresses of the node that are not loopback.\<close>

definition primaryAddress :: "'s server_env \<Rightarrow> (string, IP) gomap \<Rightarrow> string \<Rightarrow> string \<Rightarrow> string list" where
  "primaryAddress env nodeIPs family suffix =
     (let nodeIP = get_or None nodeIPs family
      in if nodeIP \<noteq> None \<and> \<not> ue_IsLoopback (sv_net env) nodeIP then [IP_String nodeIP @ suffix] else [])"

definition resolveNodePortAddresses :: "'s server_env \<Rightarrow> (string, IP) gomap \<Rightarrow> string list \<Rightarrow> string list" where
  "resolveNodePortAddresses env nodeIPs addrs =
     (if length addrs = 1 \<and> addrs ! 0 = NodePortAddressesPrimary
      then primaryAddress env nodeIPs IPv4Protocol ''/32'' @ primaryAddress env nodeIPs IPv6Protocol ''/128''
      else addrs)"

definition badCIDRs :: "'s server_env \<Rightarrow> string list \<Rightarrow> string \<Rightarrow> bool" where
  "badCIDRs env cidrs wrongFamily \<longleftrightarrow> length cidrs \<noteq> 0 \<and> list_all (\<lambda>cidr. sv_IPFamilyOfCIDRString env cidr = wrongFamily) cidrs"

definition badBindAddress :: "'s server_env \<Rightarrow> string \<Rightarrow> string \<Rightarrow> bool" where
  "badBindAddress env bindAddress wrongFamily =
     (case SplitHostPort bindAddress of
        Inl _ \<Rightarrow> False
      | Inr (host, _) \<Rightarrow>
          host \<noteq> [] \<and>
          (case ne_ParseIPSloppy (sv_net env) host of
             None \<Rightarrow> False
           | Some ip \<Rightarrow> ne_IPFamilyOf (sv_net env) (Some ip) = wrongFamily \<and> \<not> sv_IsUnspecified env ip))"

definition anyDualStack :: "'s server_env \<Rightarrow> 's ProxyServer \<Rightarrow> bool" where
  "anyDualStack env s \<longleftrightarrow>
     list_ex (\<lambda>config. case ce_IsDualStackCIDRStrings (sv_config env) config of Inr dual \<Rightarrow> dual | Inl _ \<Rightarrow> False)
       [dc_ClusterCIDRs (kc_DetectLocal (ps_Config s)), kc_NodePortAddresses (ps_Config s), vc_ExcludeCIDRs (kc_IPVS (ps_Config s)), ps_podCIDRs s]"

definition checkBadConfig :: "'s server_env \<Rightarrow> 's ProxyServer \<Rightarrow> string list" where
  "checkBadConfig env s =
     (let addrs = kc_NodePortAddresses (ps_Config s);
          primary = ps_PrimaryIPFamily s;
          cidrsByFamily = MapCIDRsByIPFamily (net_env.truncate (sv_net env)) addrs
      in if length addrs = 0
         then [''nodePortAddresses is unset; NodePort connections will be accepted on all local IPs. Consider using `--nodeport-addresses primary`'']
         else if anyDualStack env s \<and> length (get_or [] cidrsByFamily primary) = length addrs
         then [''cluster appears to be dual-stack but nodePortAddresses contains only '' @ primary @
               '' addresses; NodePort connections will be accepted on all local '' @ OtherIPFamily primary @ '' IPs'']
         else if length (get_or [] cidrsByFamily primary) = 0
         then [''cluster appears to be '' @ primary @ ''-primary but nodePortAddresses contains only '' @ OtherIPFamily primary @
               '' addresses; NodePort connections will be accepted on all local '' @ primary @ '' IPs'']
         else [])"

definition checkBadIPConfig :: "'s server_env \<Rightarrow> 's ProxyServer \<Rightarrow> bool \<Rightarrow> string list \<times> bool" where
  "checkBadIPConfig env s dualStackSupported =
     (let c = ps_Config s;
          badFamily = (if ps_PrimaryIPFamily s = IPv4Protocol then IPv6Protocol else IPv4Protocol);
          prefix = ''cluster is '' @ ps_PrimaryIPFamily s @ (if dualStackSupported then ''-primary'' else ''-only'') @ '' but '';
          only = (\<lambda>b field. if b then [prefix @ field @ '' contains only '' @ badFamily @ '' addresses''] else []);
          is_bad = (\<lambda>b field. if b then [prefix @ field @ '' is '' @ badFamily] else []);
          badCluster = badCIDRs env (dc_ClusterCIDRs (kc_DetectLocal c)) badFamily;
          badPods = badCIDRs env (ps_podCIDRs s) badFamily
      in (only badCluster ''clusterCIDRs'' @ only badPods ''node.spec.podCIDRs'' @
          is_bad (sv_IPFamilyOfString env (wk_SourceVip (kc_Winkernel c)) = badFamily) ''winkernel.sourceVip'' @
          (if \<not> dualStackSupported
           then only (badCIDRs env (vc_ExcludeCIDRs (kc_IPVS c)) badFamily) ''ipvs.excludeCIDRs'' @
                is_bad (badBindAddress env (kc_HealthzBindAddress c) badFamily) ''healthzBindAddress'' @
                is_bad (badBindAddress env (kc_MetricsBindAddress c) badFamily) ''metricsBindAddress''
           else []),
          badCluster \<and> kc_DetectLocalMode c = LocalModeClusterCIDR \<and> \<not> dualStackSupported \<or>
          badPods \<and> kc_DetectLocalMode c = LocalModeNodeCIDR))"

section \<open>The platform\<close>

text \<open>Waiting for the allocation of the pod CIDRs: the condition on one event, and the first event that meets it.\<close>

definition hasPodCIDR :: "watch_event \<Rightarrow> bool result" where
  "hasPodCIDR event =
     (if fst event \<noteq> WatchModified \<and> fst event \<noteq> WatchAdded then Inr False
      else (case snd event of
              None \<Rightarrow> Inl (Errorf ''event object not of type Node'')
            | Some n \<Rightarrow> if no_Deleting n then Inr False else Inr (no_PodCIDR n \<noteq> [] \<and> length (no_PodCIDRs n) > 0)))"

fun untilWithSync :: "watch_event list \<Rightarrow> watch_event result" where
  "untilWithSync [] = Inl (Errorf ''timed out waiting for the condition'')"
| "untilWithSync (event # events) = res_bind (hasPodCIDR event) (\<lambda>ok. if ok then Inr event else untilWithSync events)"

definition waitForPodCIDR :: "'s server_env \<Rightarrow> string \<Rightarrow> node_object result" where
  "waitForPodCIDR env nodeName =
     (case untilWithSync (sv_nodeEvents env nodeName) of
        Inl err \<Rightarrow> Inl (Wrap ''timeout waiting for PodCIDR allocation to configure detect-local-mode NodeCIDR'' err)
      | Inr evt \<Rightarrow> (case snd evt of Some n \<Rightarrow> Inr n | None \<Rightarrow> Inl (Errorf ''event object not of type node'')))"

definition platformSetup :: "'s server_env \<Rightarrow> 's ProxyServer \<Rightarrow> (sysfs_state, 's ProxyServer) call" where
  "platformSetup env s sys =
     (case (if kc_DetectLocalMode (ps_Config s) = LocalModeNodeCIDR
            then res_bind (waitForPodCIDR env (ps_Hostname s)) (\<lambda>node. Inr (s\<lparr>ps_podCIDRs := no_PodCIDRs node\<rparr>))
            else Inr s) of
        Inl err \<Rightarrow> (Inl err, sys)
      | Inr s \<Rightarrow> then_do (setupConntrack (sv_sysfs env) (lc_Conntrack (kc_Linux (ps_Config s)))) (\<lambda>_. ret s) sys)"

definition isIPTablesBased :: "string \<Rightarrow> bool" where
  "isIPTablesBased mode \<longleftrightarrow> mode = ProxyModeIPTables \<or> mode = ProxyModeIPVS"

definition platformCheckSupported :: "'s server_env \<Rightarrow> KubeProxyConfiguration \<Rightarrow> (bool \<times> bool \<times> bool) result" where
  "platformCheckSupported env config =
     (let (ipv4Supported, ipv6Supported) =
        (if isIPTablesBased (kc_Mode config) then (sv_Present env IPv4Protocol, sv_Present env IPv6Protocol) else (True, True))
      in if isIPTablesBased (kc_Mode config) \<and> \<not> ipv4Supported \<and> \<not> ipv6Supported
         then Inl (Errorf ''iptables is not available on this host'')
         else Inr (ipv4Supported, ipv6Supported, ipv4Supported \<and> ipv6Supported))"

text \<open>The detectors by family, from the first CIDR of each.\<close>

definition byFirstCIDR :: "util_env \<Rightarrow> string list \<Rightarrow> (string, detectLocal) gomap \<Rightarrow> (string, detectLocal) gomap" where
  "byFirstCIDR env cidrStrings localDetectors =
     fold (\<lambda>(family, cidrs). AList.update family (NewDetectLocalByCIDR env (cidrs ! 0)))
       (MapCIDRsByIPFamily (net_env.truncate env) cidrStrings) localDetectors"

definition getLocalDetectors :: "util_env \<Rightarrow> KubeProxyConfiguration \<Rightarrow> string list \<Rightarrow> (string, detectLocal) gomap" where
  "getLocalDetectors env config nodePodCIDRs =
     (let localDetectors = [(IPv4Protocol, NewNoOpLocalDetector), (IPv6Protocol, NewNoOpLocalDetector)];
          mode = kc_DetectLocalMode config;
          both = (\<lambda>d. AList.update IPv6Protocol d (AList.update IPv4Protocol d localDetectors))
      in if mode = LocalModeClusterCIDR then byFirstCIDR env (dc_ClusterCIDRs (kc_DetectLocal config)) localDetectors
         else if mode = LocalModeNodeCIDR then byFirstCIDR env nodePodCIDRs localDetectors
         else if mode = LocalModeBridgeInterface then both (NewDetectLocalByBridgeInterface (dc_BridgeInterface (kc_DetectLocal config)))
         else if mode = LocalModeInterfaceNamePrefix
         then both (NewDetectLocalByInterfaceNamePrefix (dc_InterfaceNamePrefix (kc_DetectLocal config)))
         else localDetectors)"

text \<open>\<open>nftables.NewProxier\<close> as it is called here, for one family.\<close>

definition newNFTables ::
  "'s server_env \<Rightarrow> KubeProxyConfiguration \<Rightarrow> 's ProxyServer \<Rightarrow> bool \<Rightarrow> (string, detectLocal) gomap \<Rightarrow> int \<Rightarrow> string \<Rightarrow> 's Proxier option result" where
  "newNFTables env config s initOnly localDetectors masqueradeBit family =
     NewProxier (sv_net env) (sv_nnString env) (sv_hash8 env) (sv_now env) (sv_getNFTablesInterface env family) initOnly
       (sv_NewWAOLB env family) family (kc_SyncPeriod config) (lc_MasqueradeAll (kc_Linux config)) (nat (masqueradeBit mod 2 ^ 64))
       (get_or NewNoOpLocalDetector localDetectors family) (ps_Hostname s) (get_or None (ps_NodeIPs s) family) (ps_HealthzServer s)
       (kc_NodePortAddresses config)"

definition NewDualStackProxier ::
  "'s server_env \<Rightarrow> KubeProxyConfiguration \<Rightarrow> 's ProxyServer \<Rightarrow> bool \<Rightarrow> (string, detectLocal) gomap \<Rightarrow> int \<Rightarrow> 's provider result" where
  "NewDualStackProxier env config s initOnly localDetectors masqueradeBit =
     (case newNFTables env config s initOnly localDetectors masqueradeBit IPv4Protocol of
        Inl err \<Rightarrow> Inl (Wrap ''unable to create ipv4 proxier'' err)
      | Inr ipv4Proxier \<Rightarrow>
          (case newNFTables env config s initOnly localDetectors masqueradeBit IPv6Protocol of
             Inl err \<Rightarrow> Inl (Wrap ''unable to create ipv6 proxier'' err)
           | Inr ipv6Proxier \<Rightarrow>
               if initOnly then Inr NilProvider
               else (case (ipv4Proxier, ipv6Proxier) of
                       (Some px4, Some px6) \<Rightarrow> Inr (DualStackNFTables px4 px6)
                     | _ \<Rightarrow> Inl (Panic ''nil proxier''))))"

text \<open>The pointers of the settings of a mode are read without a check.\<close>

definition createProxier :: "'s server_env \<Rightarrow> 's ProxyServer \<Rightarrow> bool \<Rightarrow> bool \<Rightarrow> 's provider result" where
  "createProxier env s dualStack initOnly =
     (let config = ps_Config s;
          localDetectors = getLocalDetectors (sv_net env) config (ps_podCIDRs s);
          unable = (\<lambda>r. case r of Inl err \<Rightarrow> if is_panic err then Inl err else Inl (Wrap ''unable to create proxier'' err) | Inr p \<Rightarrow> Inr p)
      in if kc_Mode config = ProxyModeIPTables
         then (if ic_LocalhostNodePorts (kc_IPTables config) = None \<or> ic_MasqueradeBit (kc_IPTables config) = None then Inl (Panic ''nil pointer'')
               else unable (res_bind (sv_newOther env ProxyModeIPTables dualStack config) (\<lambda>_. Inr (OtherBackend ProxyModeIPTables))))
         else if kc_Mode config = ProxyModeIPVS
         then (if ic_MasqueradeBit (kc_IPTables config) = None then Inl (Panic ''nil pointer'')
               else unable (res_bind (sv_newOther env ProxyModeIPVS dualStack config) (\<lambda>_. Inr (OtherBackend ProxyModeIPVS))))
         else if kc_Mode config = ProxyModeNFTables
         then (case kc_NFTables config of
                 None \<Rightarrow> Inl (Panic ''nil pointer'')
               | Some bit' \<Rightarrow>
                   unable (if dualStack then NewDualStackProxier env config s initOnly localDetectors bit'
                           else res_bind (newNFTables env config s initOnly localDetectors bit' (ps_PrimaryIPFamily s)) (\<lambda>p.
                                Inr (case p of None \<Rightarrow> NilProvider | Some px \<Rightarrow> SingleStackNFTables px))))
         else Inr NilProvider)"

text \<open>The families that are supported, and the checks that are fatal.\<close>

definition checkFamilies :: "'s server_env \<Rightarrow> 's ProxyServer \<Rightarrow> bool result" where
  "checkFamilies env s =
     res_bind (platformCheckSupported env (ps_Config s)) (\<lambda>(ipv4Supported, ipv6Supported, dualStackSupported).
       if ps_PrimaryIPFamily s = IPv4Protocol \<and> \<not> ipv4Supported \<or> ps_PrimaryIPFamily s = IPv6Protocol \<and> \<not> ipv6Supported
       then Inl (Errorf (''no support for primary IP family '' @ ps_PrimaryIPFamily s))
       else (let (errs, fatal) = checkBadIPConfig env s dualStackSupported
             in if errs \<noteq> [] \<and> fatal then Inl (Wrap ''kube-proxy configuration is incorrect'' (Errorf (joinCommaSpace errs)))
                else Inr dualStackSupported))"

definition newProxyServer :: "'s server_env \<Rightarrow> KubeProxyConfiguration \<Rightarrow> string \<Rightarrow> bool \<Rightarrow> (sysfs_state, 's ProxyServer) call" where
  "newProxyServer env config master initOnly sys =
     (case res_bind (sv_configz env) (\<lambda>_. res_bind (sv_GetHostname env (kc_HostnameOverride config)) (\<lambda>hostname.
             res_bind (createClient env (kc_ClientConnection config) master) (\<lambda>_. Inr hostname))) of
        Inl err \<Rightarrow> (Inl err, sys)
      | Inr hostname \<Rightarrow>
          (let (primaryIPFamily, nodeIPs) = detectNodeIPs env (getNodeIPs env hostname) (kc_BindAddress config);
               config = config\<lparr>kc_NodePortAddresses := resolveNodePortAddresses env nodeIPs (kc_NodePortAddresses config)\<rparr>;
               s = \<lparr>ps_Config = config, ps_Hostname = hostname, ps_PrimaryIPFamily = primaryIPFamily, ps_NodeIPs = nodeIPs,
                    ps_HealthzServer = (length (kc_HealthzBindAddress config) > 0), ps_podCIDRs = [], ps_Proxier = NilProvider\<rparr>
           in then_do (platformSetup env s) (\<lambda>s sys.
                (res_bind (checkFamilies env s) (\<lambda>dualStackSupported.
                   res_bind (createProxier env s dualStackSupported initOnly) (\<lambda>p. Inr (s\<lparr>ps_Proxier := p\<rparr>))), sys)) sys))"

section \<open>Cleaning up and running\<close>

datatype cleanup = CleanIPTables string | CleanIPVS string | CleanNFTables

text \<open>
  The cleanups \<open>platformCleanup\<close> makes, in order; \<open>failed\<close> says of each whether it met an error.
\<close>

definition cleanups :: "'s server_env \<Rightarrow> string \<Rightarrow> bool \<Rightarrow> cleanup list" where
  "cleanups env mode cleanupAndExit =
     (if \<not> isIPTablesBased mode \<or> cleanupAndExit
      then concat (map (\<lambda>family. [CleanIPTables family, CleanIPVS family]) [IPv4Protocol, IPv6Protocol]) else []) @
     (if ce_NFTablesProxyMode (sv_config env) \<and> (isIPTablesBased mode \<or> cleanupAndExit) then [CleanNFTables] else [])"

definition platformCleanup :: "'s server_env \<Rightarrow> (cleanup \<Rightarrow> bool) \<Rightarrow> string \<Rightarrow> bool \<Rightarrow> goerr option" where
  "platformCleanup env failed mode cleanupAndExit =
     (if list_ex failed (cleanups env mode cleanupAndExit) then Some (Errorf ''encountered an error while tearing down rules'') else None)"

text \<open>The requirement on the labels of the services and slices that this proxy handles.\<close>

definition LabelServiceProxyName :: string where "LabelServiceProxyName = ''service.kubernetes.io/service-proxy-name''"
definition IsHeadlessService :: string where "IsHeadlessService = ''service.kubernetes.io/headless''"

datatype requirement = DoesNotExist string | Equals string string

definition requirement_matches :: "(string, string) gomap \<Rightarrow> requirement \<Rightarrow> bool" where
  "requirement_matches labels r =
     (case r of DoesNotExist key \<Rightarrow> map_of labels key = None | Equals key value \<Rightarrow> map_of labels key = Some value)"

text \<open>\<open>labels.NewRequirement\<close> checks the value; the keys are valid.\<close>

definition labelSelector :: "(string \<Rightarrow> bool) \<Rightarrow> string \<Rightarrow> requirement list result" where
  "labelSelector validLabelValue WAOProxyName =
     res_bind (if WAOProxyName = [] then Inr (DoesNotExist LabelServiceProxyName)
               else if validLabelValue WAOProxyName then Inr (Equals LabelServiceProxyName WAOProxyName)
               else Inl (External ''invalid label value'')) (\<lambda>proxyNameReq.
       Inr [proxyNameReq, DoesNotExist IsHeadlessService])"

definition selects :: "requirement list \<Rightarrow> (string, string) gomap \<Rightarrow> bool" where
  "selects sel labels = list_all (requirement_matches labels) sel"

text \<open>The loop ends at the first message that is an error; a change of the file is one.\<close>

definition eventHandler :: "bool \<Rightarrow> goerr option" where
  "eventHandler writeOrRename =
     (if writeOrRename then Some (Errorf ''content of the proxy server's configuration file was updated'') else None)"

fun runLoop :: "goerr option list \<Rightarrow> goerr option" where
  "runLoop [] = None"
| "runLoop (err # errCh) = (case err of Some e \<Rightarrow> Some e | None \<Rightarrow> runLoop errCh)"

text \<open>\<open>Options.Run\<close>: \<open>None\<close> is the return of nil, and the server is the one that would run.\<close>

definition Options_Run :: "'s server_env \<Rightarrow> (cleanup \<Rightarrow> bool) \<Rightarrow> Options \<Rightarrow> (sysfs_state, 's ProxyServer option) call" where
  "Options_Run env failed o' sys =
     (if length (op_WriteConfigTo o') > 0 then (res_bind (sv_writeConfig env (op_WriteConfigTo o') (op_config o')) (\<lambda>_. Inr None), sys)
      else if op_CleanupAndExit o'
      then (case platformCleanup env failed (kc_Mode (op_config o')) True of Some e \<Rightarrow> (Inl e, sys) | None \<Rightarrow> (Inr None, sys))
      else then_do (newProxyServer env (op_config o') (op_master o') (op_InitAndExit o')) (\<lambda>s.
             ret (if op_InitAndExit o' then None else Some s)) sys)"

section \<open>Node addresses\<close>

lemma families [simp]: "IPv4Protocol \<noteq> IPv6Protocol" "IPv6Protocol \<noteq> IPv4Protocol"
  by (simp_all add: IPv4Protocol_def IPv6Protocol_def)

lemma familyOf_cases: "familyOf env ip = IPv4Protocol \<or> familyOf env ip = IPv6Protocol"
  by (simp add: familyOf_def)

text \<open>What the addresses are before the bind address overrides them.\<close>

definition rawPrimary :: "IP list \<Rightarrow> IP" where
  "rawPrimary raw = (case raw of [] \<Rightarrow> Some ''127.0.0.1'' | ip # _ \<Rightarrow> ip)"

definition typed :: "util_env \<Rightarrow> (string, IP) gomap \<Rightarrow> bool" where
  "typed env ips \<longleftrightarrow> (\<forall>f\<in>{IPv4Protocol, IPv6Protocol}. \<exists>ip. map_of ips f = Some ip \<and> familyOf env ip = f)"

lemma typed_update: "typed env ips \<Longrightarrow> familyOf env ip = f \<Longrightarrow> typed env (AList.update f ip ips)"
  by (auto simp: typed_def update_conv')

lemma typed_initial:
  assumes "ue_To4 env ''127.0.0.1''" "\<not> ue_To4 env ''::1''"
  shows "typed env loopbackIPs"
  using assms by (auto simp: loopbackIPs_def typed_def familyOf_def IsIPv4_def)

definition bindsTo :: "'s server_env \<Rightarrow> string \<Rightarrow> IP" where
  "bindsTo env bindAddress =
     (case ne_ParseIPSloppy (sv_net env) bindAddress of Some ip \<Rightarrow> if sv_IsUnspecified env ip then None else Some ip | None \<Rightarrow> None)"

lemma detectNodeIPs_bind:
  "detectNodeIPs env raw bindAddress =
     (let (fam, ips) = detectNodeIPs env raw [] in
      case bindsTo env bindAddress of
        Some ip \<Rightarrow> (familyOf (sv_net env) (Some ip), AList.update (familyOf (sv_net env) (Some ip)) (Some ip) ips)
      | None \<Rightarrow> (fam, ips))" if "ne_ParseIPSloppy (sv_net env) [] = None"
  using that by (auto simp: detectNodeIPs_def bindsTo_def familyOf_def Let_def split: option.splits prod.splits)

lemma detectNodeIPs_raw:
  assumes "ue_To4 (sv_net env) ''127.0.0.1''" "\<not> ue_To4 (sv_net env) ''::1''" "ne_ParseIPSloppy (sv_net env) [] = None"
    and "length raw > 1 \<Longrightarrow> familyOf (sv_net env) (raw ! 0) \<noteq> familyOf (sv_net env) (raw ! 1)" "detectNodeIPs env raw [] = (fam, ips)"
  shows "typed (sv_net env) ips" "fam = familyOf (sv_net env) (rawPrimary raw)" "map_of ips fam = Some (rawPrimary raw)"
    "length raw > 1 \<Longrightarrow> map_of ips (OtherIPFamily fam) = Some (raw ! 1)"
proof -
  let ?f = "familyOf (sv_net env)"
  note t = typed_initial [OF assms(1,2)]
  have "(raw = [] \<and> fam = IPv4Protocol \<and> ips = loopbackIPs) \<or>
    (\<exists>a. raw = [a] \<and> fam = ?f a \<and> ips = AList.update (?f a) a loopbackIPs) \<or>
    (\<exists>a b r. raw = a # b # r \<and> fam = ?f a \<and> ips = AList.update (?f b) b (AList.update (?f a) a loopbackIPs))"
    using assms(5) by (cases raw; cases "tl raw") (auto simp: detectNodeIPs_def assms(3) Let_def)
  then have "typed (sv_net env) ips \<and> fam = ?f (rawPrimary raw) \<and> map_of ips fam = Some (rawPrimary raw) \<and>
    (length raw > 1 \<longrightarrow> map_of ips (OtherIPFamily fam) = Some (raw ! 1))"
  proof (elim disjE exE conjE)
    assume "raw = []" "fam = IPv4Protocol" "ips = loopbackIPs"
    then show ?thesis using t assms(1) by (simp add: rawPrimary_def familyOf_def IsIPv4_def loopbackIPs_def)
  next
    fix a
    assume "raw = [a]" "fam = ?f a" "ips = AList.update (?f a) a loopbackIPs"
    then show ?thesis using typed_update [OF t, of a] by (simp add: rawPrimary_def update_conv')
  next
    fix a b r
    assume r: "raw = a # b # r" "fam = ?f a" "ips = AList.update (?f b) b (AList.update (?f a) a loopbackIPs)"
    have "?f a \<noteq> ?f b" using assms(4) by (simp add: r(1))
    moreover have "OtherIPFamily (?f a) = ?f b" using calculation familyOf_cases [of "sv_net env" a] familyOf_cases [of "sv_net env" b]
      by (auto simp: OtherIPFamily_def)
    moreover have "typed (sv_net env) ips" unfolding r(3) by (intro typed_update t refl)
    ultimately show ?thesis using r by (simp add: rawPrimary_def update_conv')
  qed
  then show "typed (sv_net env) ips" "fam = ?f (rawPrimary raw)" "map_of ips fam = Some (rawPrimary raw)"
    "length raw > 1 \<Longrightarrow> map_of ips (OtherIPFamily fam) = Some (raw ! 1)" by blast+
qed

text \<open>
  C11. The node has an address of each family, and each is of its family. The primary one is the bind address when that is
  a specific address, else the first address of the node, else the loopback; the family of the server is the primary address's.
  When the node has two addresses and the bind address does not replace it, the second is the other family's.
\<close>

theorem detectNodeIPs_precedence:
  assumes "ue_To4 (sv_net env) ''127.0.0.1''" "\<not> ue_To4 (sv_net env) ''::1''" "ne_ParseIPSloppy (sv_net env) [] = None"
    and "length raw > 1 \<Longrightarrow> familyOf (sv_net env) (raw ! 0) \<noteq> familyOf (sv_net env) (raw ! 1)"
    and "detectNodeIPs env raw bindAddress = (fam, ips)"
  defines "primary \<equiv> (if bindsTo env bindAddress \<noteq> None then bindsTo env bindAddress else rawPrimary raw)"
  shows "(\<forall>f\<in>{IPv4Protocol, IPv6Protocol}. \<exists>ip. map_of ips f = Some ip \<and> familyOf (sv_net env) ip = f) \<and>
    fam = familyOf (sv_net env) primary \<and> map_of ips fam = Some primary \<and>
    (length raw > 1 \<and> bindsTo env bindAddress = None \<longrightarrow> map_of ips (OtherIPFamily fam) = Some (raw ! 1))"
proof -
  obtain fam0 ips0 where r: "detectNodeIPs env raw [] = (fam0, ips0)" by (cases "detectNodeIPs env raw []")
  note raw = detectNodeIPs_raw [OF assms(1-4) r]
  note d = assms(5) [unfolded detectNodeIPs_bind [OF assms(3), of raw bindAddress] r]
  show ?thesis
  proof (cases "bindsTo env bindAddress")
    case None
    then have "fam = fam0" "ips = ips0" using d by simp_all
    then show ?thesis using raw None by (simp add: primary_def typed_def)
  next
    case (Some ip)
    then have "fam = familyOf (sv_net env) (Some ip)" "ips = AList.update fam (Some ip) ips0"
      using d by auto
    then show ?thesis using raw(1) Some typed_update [of "sv_net env" ips0 "Some ip" fam] by (simp add: primary_def typed_def update_conv')
  qed
qed

section \<open>Which proxy handles a service\<close>

lemma selects_iff:
  "(\<exists>sel. labelSelector valid name = Inr sel \<and> selects sel labels) \<longleftrightarrow>
     (name = [] \<or> valid name) \<and> map_of labels IsHeadlessService = None \<and>
     map_of labels LabelServiceProxyName = (if name = [] then None else Some name)"
  by (auto simp: labelSelector_def selects_def requirement_matches_def)

text \<open>
  The informer of the service CIDRs is of the same factory, so a proxy with a name of its own is given none of them: they
  have no such label.
\<close>

lemma named_proxy_sees_no_unlabelled:
  "labelSelector valid name = Inr sel \<Longrightarrow> name \<noteq> [] \<Longrightarrow> map_of labels LabelServiceProxyName = None \<Longrightarrow> \<not> selects sel labels"
  using selects_iff [of valid name labels] by auto

text \<open>
  A service or slice that is not headless is handled by exactly one proxy name: the one its label has, or the default
  proxy when it has no label. So proxies of different names run on the same node without handling a service twice. A label
  must have a value, which the API server accepts.
\<close>

theorem one_proxy_per_service:
  assumes "map_of labels IsHeadlessService = None" "map_of labels LabelServiceProxyName \<noteq> Some []"
    and "\<forall>v. map_of labels LabelServiceProxyName = Some v \<longrightarrow> valid v"
  shows "\<exists>!name. \<exists>sel. labelSelector valid name = Inr sel \<and> selects sel labels"
  unfolding selects_iff using assms by (cases "map_of labels LabelServiceProxyName") auto

section \<open>Cleaning up\<close>

text \<open>
  Unless it is told to clean up and exit, the server never tears down the rules of the mode it runs in: in the modes
  on iptables it cleans at most nftables, and in the nftables mode only the other two. With the option it cleans all.
\<close>

theorem cleanup_spares_own:
  "(isIPTablesBased mode \<longrightarrow> set (cleanups env mode False) \<subseteq> {CleanNFTables}) \<and>
   CleanNFTables \<notin> set (cleanups env ProxyModeNFTables False) \<and>
   (ce_NFTablesProxyMode (sv_config env) \<longrightarrow> (\<exists>c. failed c \<and> c \<in> set (cleanups env mode True)) \<longleftrightarrow> platformCleanup env failed mode True \<noteq> None)"
  by (auto simp: cleanups_def isIPTablesBased_def platformCleanup_def list_ex_iff ProxyModeIPTables_def ProxyModeIPVS_def ProxyModeNFTables_def)

section \<open>Rejected options\<close>

lemma SplitHostPort_Nil: "isErr (SplitHostPort [])"
  by code_simp

lemma Complete_flags:
  assumes "Complete env o' = Inr o''" "op_ConfigFile o' = []"
  obtains c host where "op_config o'' = (platformApplyDefaults env (processV1Alpha1Flags env o' c))\<lparr>kc_HostnameOverride := host\<rparr>"
    "c = (if op_WriteConfigTo o' = []
      then (op_config o')\<lparr>kc_HealthzBindAddress := addressFromDeprecatedFlags env (kc_HealthzBindAddress (op_config o')) (op_healthzPort o'),
        kc_MetricsBindAddress := addressFromDeprecatedFlags env (kc_MetricsBindAddress (op_config o')) (op_metricsPort o')\<rparr>
      else op_config o')"
proof -
  have host: "\<exists>h. op_config q = (op_config p)\<lparr>kc_HostnameOverride := h\<rparr>" if "processHostnameOverrideFlag p = Inr q" for p q
  proof -
    have "op_config q = op_config p \<or> (\<exists>h. op_config q = (op_config p)\<lparr>kc_HostnameOverride := h\<rparr>)"
      using that by (auto simp: processHostnameOverrideFlag_def Let_def split: if_splits)
    moreover have "op_config p = (op_config p)\<lparr>kc_HostnameOverride := kc_HostnameOverride (op_config p)\<rparr>" by simp
    ultimately show ?thesis by metis
  qed
  obtain c where c: "c = (if op_WriteConfigTo o' = []
      then (op_config o')\<lparr>kc_HealthzBindAddress := addressFromDeprecatedFlags env (kc_HealthzBindAddress (op_config o')) (op_healthzPort o'),
        kc_MetricsBindAddress := addressFromDeprecatedFlags env (kc_MetricsBindAddress (op_config o')) (op_metricsPort o')\<rparr>
      else op_config o')" by blast
  have "\<exists>q. processHostnameOverrideFlag (o'\<lparr>op_config := platformApplyDefaults env (processV1Alpha1Flags env o' c)\<rparr>) = Inr q \<and> q = o''"
    using assms unfolding Complete_def Let_def c by (auto simp: res_bind_Inr_iff)
  then obtain h where "op_config o'' = (platformApplyDefaults env (processV1Alpha1Flags env o' c))\<lparr>kc_HostnameOverride := h\<rparr>"
    using host by fastforce
  then show thesis by (rule that [OF _ c])
qed

lemma flags_keep [simp]:
  "kc_MetricsBindAddress (processV1Alpha1Flags env o' c) = kc_MetricsBindAddress c"
  "kc_NFTables (processV1Alpha1Flags env o' c) = kc_NFTables c"
  "kc_NFTables (platformApplyDefaults env c) = kc_NFTables c"
  by (simp_all add: processV1Alpha1Flags_def platformApplyDefaults_def Let_def)

text \<open>
  The option \<open>--metrics-port 0\<close>, documented to disable the metrics server, makes the proxy refuse to start: the
  address becomes empty, which the validation rejects. Only a proxy with a name of its own, whose address is fixed, starts.
\<close>

theorem metrics_port_zero_rejected:
  assumes "Complete env o' = Inr o''" "op_ConfigFile o' = []" "op_WriteConfigTo o' = []" "op_metricsPort o' = 0" "sv_WAOProxyName env = []"
  shows "Options_Validate env o'' \<noteq> Inr ()"
proof -
  obtain c host where c: "op_config o'' = (platformApplyDefaults env (processV1Alpha1Flags env o' c))\<lparr>kc_HostnameOverride := host\<rparr>"
    "kc_MetricsBindAddress c = []"
    by (rule Complete_flags [OF assms(1,2)]) (use assms(3,4) in \<open>auto simp: addressFromDeprecatedFlags_def\<close>)
  have "kc_MetricsBindAddress (platformApplyDefaults env d) = kc_MetricsBindAddress d" for d
    using assms(5) by (simp add: platformApplyDefaults_def Let_def)
  then have "kc_MetricsBindAddress (op_config o'') = []" using c by simp
  then have "\<not> valid_config (sv_config env) (op_config o'')"
    using SplitHostPort_Nil by (auto simp: valid_config_def hostport_ok_def isErr_def split: sum.splits)
  then have "config_Validate (sv_config env) (op_config o'') \<noteq> Inr []" by (simp add: config_Validate_iff)
  then show ?thesis by (auto simp: Options_Validate_def res_bind_Inr_iff split: if_splits)
qed

section \<open>From accepted options to the running proxier\<close>

text \<open>
  What the packages on addresses do: the text of an address with the length of its family is a CIDR, as are the prefixes
  that cover everything; parsing gives such a text, and so does reading the addresses of a node.
\<close>

definition ip_text :: "'s server_env \<Rightarrow> string \<Rightarrow> bool" where
  "ip_text env t \<longleftrightarrow> is_cidr (sv_config env) (t @ (if ue_To4 (sv_net env) t then ''/32'' else ''/128''))"

definition net_ok :: "'s server_env \<Rightarrow> bool" where
  "net_ok env \<longleftrightarrow>
     ue_To4 (sv_net env) ''127.0.0.1'' \<and> \<not> ue_To4 (sv_net env) ''::1'' \<and> ip_text env ''127.0.0.1'' \<and> ip_text env ''::1'' \<and>
     is_cidr (sv_config env) IPv4ZeroCIDR \<and> is_cidr (sv_config env) IPv6ZeroCIDR \<and>
     (\<forall>s t. ne_ParseIPSloppy (sv_net env) s = Some t \<longrightarrow> ip_text env t) \<and>
     (\<forall>h i ips. sv_GetNodeHostIPs env h i = Inr ips \<longrightarrow> (\<forall>ip\<in>set ips. \<exists>t. ip = Some t \<and> ip_text env t))"

definition node_ips_ok :: "'s server_env \<Rightarrow> (string, IP) gomap \<Rightarrow> bool" where
  "node_ips_ok env ips \<longleftrightarrow>
     (\<forall>f\<in>{IPv4Protocol, IPv6Protocol}. \<exists>t. map_of ips f = Some (Some t) \<and> familyOf (sv_net env) (Some t) = f \<and> ip_text env t)"

lemma node_ips_ok_update:
  "node_ips_ok env ips \<Longrightarrow> ip_text env t \<Longrightarrow> familyOf (sv_net env) (Some t) = f \<Longrightarrow> node_ips_ok env (AList.update f (Some t) ips)"
  by (auto simp: node_ips_ok_def update_conv')

lemma node_ips_ok_detect:
  assumes "net_ok env" "\<forall>ip\<in>set raw. \<exists>t. ip = Some t \<and> ip_text env t"
  shows "node_ips_ok env (snd (detectNodeIPs env raw bindAddress))"
proof -
  let ?f = "familyOf (sv_net env)"
  have init: "node_ips_ok env loopbackIPs"
    using assms(1) by (auto simp: node_ips_ok_def loopbackIPs_def net_ok_def familyOf_def IsIPv4_def)
  define before where "before = (case raw of [] \<Rightarrow> loopbackIPs | [a] \<Rightarrow> AList.update (?f a) a loopbackIPs
    | a # b # _ \<Rightarrow> AList.update (?f b) b (AList.update (?f a) a loopbackIPs))"
  have b: "node_ips_ok env before"
    unfolding before_def using assms(2) init by (auto intro!: node_ips_ok_update split: list.split)
  have "snd (detectNodeIPs env raw bindAddress) =
    (case ne_ParseIPSloppy (sv_net env) bindAddress of Some ip \<Rightarrow> if sv_IsUnspecified env ip then before else AList.update (?f (Some ip)) (Some ip) before
     | None \<Rightarrow> before)"
    by (auto simp: detectNodeIPs_def Let_def before_def familyOf_def split: option.split list.split)
  moreover have "ip_text env ip" if "ne_ParseIPSloppy (sv_net env) bindAddress = Some ip" for ip
    using assms(1) that unfolding net_ok_def by blast
  ultimately show ?thesis using b node_ips_ok_update [OF b] by (auto split: option.split)
qed

lemma nodeIPAttempts_from: "nodeIPAttempts attempt i n = [] \<or> (\<exists>j. attempt j = Inr (nodeIPAttempts attempt i n))"
  by (induction attempt i n rule: nodeIPAttempts.induct) (auto split: sum.split)

lemma getNodeIPs_text: "net_ok env \<Longrightarrow> \<forall>ip\<in>set (getNodeIPs env h). \<exists>t. ip = Some t \<and> ip_text env t"
  using nodeIPAttempts_from [of "sv_GetNodeHostIPs env h" 0 6] unfolding getNodeIPs_def net_ok_def by fastforce

lemma resolve_cidrs:
  assumes "nodeports_ok (sv_config env) addrs" "node_ips_ok env ips"
  shows "list_all (is_cidr (sv_config env)) (resolveNodePortAddresses env ips addrs)"
proof -
  have "list_all (is_cidr (sv_config env)) (primaryAddress env ips f suffix)"
    if f: "f \<in> {IPv4Protocol, IPv6Protocol}" and suffix: "suffix = (if f = IPv4Protocol then ''/32'' else ''/128'')" for f suffix
  proof -
    obtain t where t: "map_of ips f = Some (Some t)" "familyOf (sv_net env) (Some t) = f" "ip_text env t"
      using assms(2) f unfolding node_ips_ok_def by blast
    then show ?thesis using suffix
      by (auto simp: primaryAddress_def get_or_def IP_String_def ip_text_def familyOf_def IsIPv4_def Let_def split: if_splits)
  qed
  from this [of IPv4Protocol "''/32''"] this [of IPv6Protocol "''/128''"] show ?thesis
    using assms(1) by (auto simp: resolveNodePortAddresses_def nodeports_ok_def)
qed

lemma parseCIDRs_parsed:
  "\<forall>s\<in>set strs. \<not> isErr (ne_ParseCIDR env s) \<Longrightarrow> None \<notin> set (npa_cidrs npa) \<Longrightarrow> None \<notin> set (npa_cidrs (parseCIDRs env strs npa))"
proof (induction env strs npa rule: parseCIDRs.induct)
  case (2 env str strs npa)
  then obtain c family where "ne_ParseCIDR env str = Inr (c, family)"
    by (metis isErr_simps(1) list.set_intros(1) obj_sumE surj_pair)
  then show ?case using 2 by (auto simp: Let_def)
qed simp

text \<open>A family without an address of its own is open on all addresses, also when the list stands for \<open>primary\<close>.\<close>

lemma primary_other_family_open:
  "list_all (ue_IsIPv4CIDRString env) addrs \<Longrightarrow> npa_matchAll (NewNodePortAddresses env IPv6Protocol addrs)"
  by (auto simp: NewNodePortAddresses_def Let_def list_all_iff IsZeroCIDR_def filter_empty_conv)

lemma NewNodePortAddresses_parsed:
  assumes "net_ok env" "list_all (is_cidr (sv_config env)) addrs"
  shows "None \<notin> set (npa_cidrs (NewNodePortAddresses (sv_net env) family addrs))"
  unfolding NewNodePortAddresses_def Let_def
  by (rule parseCIDRs_parsed) (use assms in \<open>auto simp: net_ok_def is_cidr_def list_all_iff\<close>)

lemma newNFTables_new:
  assumes "newNFTables env config s False localDetectors b family = Inr (Some px)"
  shows "is_new px" "px_nodePortAddresses px = NewNodePortAddresses (sv_net env) family (kc_NodePortAddresses config)"
proof -
  have "sv_getNFTablesInterface env family = Inr ()"
    using assms by (auto simp: newNFTables_def NewProxier_def res_bind_Inr_iff)
  then show "is_new px" using assms unfolding newNFTables_def is_new_def by metis
  show "px_nodePortAddresses px = NewNodePortAddresses (sv_net env) family (kc_NodePortAddresses config)"
    using assms by (auto simp: newNFTables_def NewProxier_def res_bind_Inr_iff)
qed

lemma NewDualStackProxier_new:
  assumes "NewDualStackProxier env config s False localDetectors b = Inr p"
  obtains px4 px6 where "p = DualStackNFTables px4 px6" "newNFTables env config s False localDetectors b IPv4Protocol = Inr (Some px4)"
    "newNFTables env config s False localDetectors b IPv6Protocol = Inr (Some px6)"
  using assms by (auto simp: NewDualStackProxier_def split: sum.splits option.splits)

lemma checkFamilies_nft: "kc_Mode (ps_Config s) = ProxyModeNFTables \<Longrightarrow> checkFamilies env s = Inr d \<Longrightarrow> d"
  by (auto simp: checkFamilies_def platformCheckSupported_def isIPTablesBased_def ProxyModeNFTables_def ProxyModeIPTables_def ProxyModeIPVS_def
      Let_def split: if_splits prod.splits)

lemma createProxier_nft:
  assumes "kc_Mode (ps_Config s) = ProxyModeNFTables" "createProxier env s True False = Inr p"
  obtains b where "NewDualStackProxier env (ps_Config s) s False (getLocalDetectors (sv_net env) (ps_Config s) (ps_podCIDRs s)) b = Inr p"
  using assms by (auto simp: createProxier_def Let_def ProxyModeNFTables_def ProxyModeIPTables_def ProxyModeIPVS_def
      split: option.splits sum.splits if_splits)

lemma platformSetup_keeps:
  "platformSetup env s sys = (Inr s', sys') \<Longrightarrow> \<exists>cidrs. s' = s\<lparr>ps_podCIDRs := cidrs\<rparr>"
proof -
  assume a: "platformSetup env s sys = (Inr s', sys')"
  have s: "s = s\<lparr>ps_podCIDRs := ps_podCIDRs s\<rparr>" by simp
  have "(\<exists>cidrs. s' = s\<lparr>ps_podCIDRs := cidrs\<rparr>) \<or> s' = s"
    using a by (auto simp: platformSetup_def then_do_def res_bind_def split: sum.splits prod.splits if_splits)
  then show ?thesis using s by metis
qed

lemma newProxyServer_nft:
  assumes "newProxyServer env config master False sys = (Inr srv, sys')" "kc_Mode config = ProxyModeNFTables"
  obtains s hostname b px4 px6 where "ps_Proxier srv = DualStackNFTables px4 px6"
    "kc_NodePortAddresses (ps_Config s) = resolveNodePortAddresses env
       (snd (detectNodeIPs env (getNodeIPs env hostname) (kc_BindAddress config))) (kc_NodePortAddresses config)"
    "newNFTables env (ps_Config s) s False (getLocalDetectors (sv_net env) (ps_Config s) (ps_podCIDRs s)) b IPv4Protocol = Inr (Some px4)"
    "newNFTables env (ps_Config s) s False (getLocalDetectors (sv_net env) (ps_Config s) (ps_podCIDRs s)) b IPv6Protocol = Inr (Some px6)"
proof -
  obtain hostname where h: "res_bind (sv_configz env) (\<lambda>_. res_bind (sv_GetHostname env (kc_HostnameOverride config)) (\<lambda>hostname.
      res_bind (createClient env (kc_ClientConnection config) master) (\<lambda>_. Inr hostname))) = Inr hostname"
    using assms(1) by (auto simp: newProxyServer_def split: sum.splits)
  obtain fam ips where d: "detectNodeIPs env (getNodeIPs env hostname) (kc_BindAddress config) = (fam, ips)"
    by (cases "detectNodeIPs env (getNodeIPs env hostname) (kc_BindAddress config)")
  define s0 where "s0 = \<lparr>ps_Config = config\<lparr>kc_NodePortAddresses := resolveNodePortAddresses env ips (kc_NodePortAddresses config)\<rparr>,
    ps_Hostname = hostname, ps_PrimaryIPFamily = fam, ps_NodeIPs = ips, ps_HealthzServer = (length (kc_HealthzBindAddress config) > 0),
    ps_podCIDRs = [], ps_Proxier = NilProvider :: 'a provider\<rparr>"
  obtain s sys1 d' p where s: "platformSetup env s0 sys = (Inr s, sys1)" "checkFamilies env s = Inr d'"
    "createProxier env s d' False = Inr p" "srv = s\<lparr>ps_Proxier := p\<rparr>"
    using assms(1) unfolding newProxyServer_def h sum.case d
    by (auto simp: Let_def then_do_def s0_def res_bind_Inr_iff split: prod.splits sum.splits)
  obtain cidrs where c: "s = s0\<lparr>ps_podCIDRs := cidrs\<rparr>" using platformSetup_keeps [OF s(1)] by blast
  then have m: "kc_Mode (ps_Config s) = ProxyModeNFTables" using assms(2) by (simp add: s0_def)
  then have "d'" using checkFamilies_nft s(2) by blast
  then obtain b where b: "NewDualStackProxier env (ps_Config s) s False (getLocalDetectors (sv_net env) (ps_Config s) (ps_podCIDRs s)) b = Inr p"
    using createProxier_nft [OF m] s(3) by (metis (full_types))
  from NewDualStackProxier_new [OF this] obtain px4 px6 where
    p: "p = DualStackNFTables px4 px6"
      "newNFTables env (ps_Config s) s False (getLocalDetectors (sv_net env) (ps_Config s) (ps_podCIDRs s)) b IPv4Protocol = Inr (Some px4)"
      "newNFTables env (ps_Config s) s False (getLocalDetectors (sv_net env) (ps_Config s) (ps_podCIDRs s)) b IPv6Protocol = Inr (Some px6)" .
  show thesis
  proof (rule that)
    show "ps_Proxier srv = DualStackNFTables px4 px6" by (simp add: s(4) p(1))
    show "kc_NodePortAddresses (ps_Config s) = resolveNodePortAddresses env
       (snd (detectNodeIPs env (getNodeIPs env hostname) (kc_BindAddress config))) (kc_NodePortAddresses config)"
      by (simp add: c s0_def d)
  qed (rule p)+
qed

text \<open>
  C5. From options to traffic: when the options are accepted in the nftables mode and the server starts, it runs two new
  nftables proxiers, and every sequence of events that the API server can produce is handled by both, unless the process
  ends in a synchronisation of the sequence by a fault of that family's load balancer: a panic of one of its clients, nil metrics of a
  node, or concurrent writes to its scores. In particular no address of node ports is left unparsed, \<open>primary\<close>
  included, which is where a synchronisation would panic. Assumed of the packages on addresses is what \<open>net_ok\<close> says (the text of a
  parsed address or of an address of the node, with the prefix length of its family appended, is a CIDR, as are the loopback
  addresses with theirs and the two prefixes of everything), and that the text of a parsed address has no blank.
\<close>

theorem accepted_options_run:
  assumes "Options_Validate env o' = Inr ()" "kc_Mode (op_config o') = ProxyModeNFTables" "net_ok env"
    and "newProxyServer env (op_config o') master False sys = (Inr srv, sys')"
    and "\<forall>s. CHR '' '' \<notin> set (IP_String (ne_ParseIPSloppy (pe_svc env4) s))"
    and "\<forall>s. CHR '' '' \<notin> set (IP_String (ne_ParseIPSloppy (pe_svc env6) s))"
  shows "\<exists>px4 px6. ps_Proxier srv = DualStackNFTables px4 px6 \<and>
    ((\<exists>w px. run_events (meta_handle (nft_handle env4 parse4) (nft_handle env6 parse6)) (meta_possible nft_possible nft_possible)
        (meta_after nft_after nft_after) evs (new_world K4, new_world K6) (px4, px6) = Inr (w, px)) \<or>
     (\<exists>ev\<in>set evs. \<exists>e. run_events (meta_handle (nft_handle env4 parse4) (nft_handle env6 parse6)) (meta_possible nft_possible nft_possible)
        (meta_after nft_after nft_after) evs (new_world K4, new_world K6) (px4, px6) = Inl e \<and>
        meta_fails (nft_fails env4) (nft_fails env6) ev e))"
proof -
  have "config_Validate (sv_config env) (op_config o') = Inr []"
    using assms(1) by (auto simp: Options_Validate_def res_bind_Inr_iff split: if_splits)
  then have v: "nodeports_ok (sv_config env) (kc_NodePortAddresses (op_config o'))"
    by (simp add: config_Validate_iff valid_config_def)
  obtain s hostname b px4 px6 where
    p: "ps_Proxier srv = DualStackNFTables px4 px6"
    and a: "kc_NodePortAddresses (ps_Config s) = resolveNodePortAddresses env
       (snd (detectNodeIPs env (getNodeIPs env hostname) (kc_BindAddress (op_config o')))) (kc_NodePortAddresses (op_config o'))"
    and n: "newNFTables env (ps_Config s) s False (getLocalDetectors (sv_net env) (ps_Config s) (ps_podCIDRs s)) b IPv4Protocol = Inr (Some px4)"
      "newNFTables env (ps_Config s) s False (getLocalDetectors (sv_net env) (ps_Config s) (ps_podCIDRs s)) b IPv6Protocol = Inr (Some px6)"
    by (rule newProxyServer_nft [OF assms(4,2)])
  from getNodeIPs_text [OF assms(3)]
  have "node_ips_ok env (snd (detectNodeIPs env (getNodeIPs env hostname) (kc_BindAddress (op_config o'))))"
    by (rule node_ips_ok_detect [OF assms(3)])
  then have "list_all (is_cidr (sv_config env)) (kc_NodePortAddresses (ps_Config s))" unfolding a by (rule resolve_cidrs [OF v])
  note npa = NewNodePortAddresses_parsed [OF assms(3) this]
  have "is_new px4" "cidrs_ok px4" "is_new px6" "cidrs_ok px6"
    using newNFTables_new [OF n(1)] newNFTables_new [OF n(2)] npa by (simp_all add: cidrs_ok_def)
  then have "nft_agrees env4 px4 (new_world K4) px4" "nft_agrees env6 px6 (new_world K6) px6"
    using assms(5,6) by (auto intro!: nft_agrees_new simp: env_ok_def)
  then have "meta_agrees (nft_agrees env4 px4) (nft_agrees env6 px6) (new_world K4, new_world K6) (px4, px6)"
    by (simp add: meta_agrees_def)
  from dual.run_agrees [OF this] show ?thesis using p by blast
qed

section \<open>Witnesses\<close>

definition example_server_env :: "unit server_env" where
  "example_server_env = \<lparr>
     sv_config = example_config_env\<lparr>ce_util := example_util_env\<lparr>ne_ParseIPSloppy := (\<lambda>s. if s = [] \<or> CHR ''/'' \<in> set s then None else Some s),
       ue_To4 := (\<lambda>s. CHR '':'' \<notin> set s)\<rparr>\<rparr>,
     sv_WAOProxyName = [], sv_sysfs = example_sysfs_env, sv_configz = Inr (), sv_GetHostname = (\<lambda>_. Inr ''n1''),
     sv_InClusterConfig = Inr \<lparr>rc_Host = [], rc_AcceptContentTypes = [], rc_ContentType = [], rc_QPS = Fin 0, rc_Burst = 0\<rparr>,
     sv_ClientConfig = (\<lambda>_ _. Inl (External ''no such file'')), sv_NewForConfig = (\<lambda>_. Inr ()),
     sv_GetNodeHostIPs = (\<lambda>_ i. if i = 0 then Inl (External ''not found'') else Inr [Some ''10.0.0.1'', Some ''fd00::1'']),
     sv_nodeEvents = (\<lambda>_. []), sv_IsUnspecified = (\<lambda>s. s = ''0.0.0.0'' \<or> s = ''::''), sv_IPFamilyOfString = (\<lambda>_. []),
     sv_IPFamilyOfCIDRString = (\<lambda>_. []), sv_Present = (\<lambda>_. True), sv_getNFTablesInterface = (\<lambda>_. Inr ()),
     sv_NewWAOLB = (\<lambda>_. Inr ([], ())), sv_nnString = pe_nnString example_proxy_env, sv_hash8 = (\<lambda>_. ''ULMVA6XW''), sv_now = 0,
     sv_newOther = (\<lambda>_ _ _. Inr ()), sv_Decode = (\<lambda>_ _. Inr None), sv_IsStrictDecodingError = (\<lambda>_. False), sv_ReadFile = Inr,
     sv_copyLogs = id, sv_initWatcher = (\<lambda>_. Inr ()), sv_Changed = (\<lambda>_. False), sv_SetFeatureGates = (\<lambda>_. Inr ()),
     sv_writeConfig = (\<lambda>_ _. Inr ())\<rparr>"

text \<open>A small configuration in the nftables mode, with the node ports on the addresses of the node.\<close>

definition example_server_config :: KubeProxyConfiguration where
  "example_server_config = (Convert_v1alpha1_To_config example_config_env (zero_v1alpha1 ProxyModeNFTables ''0.0.0.0''))
     \<lparr>kc_Linux := \<lparr>lc_Conntrack = example_conntrack, lc_MasqueradeAll = False, lc_OOMScoreAdj = None\<rparr>,
      kc_SyncPeriod := 30, kc_MinSyncPeriod := 1, kc_ConfigSyncPeriod := 15, kc_MetricsBindAddress := ''0.0.0.0:80'', kc_NFTables := Some 14,
      kc_NodePortAddresses := [NodePortAddressesPrimary]\<rparr>"

definition example_options :: Options where
  "example_options = \<lparr>op_ConfigFile = [], op_WriteConfigTo = [], op_CleanupAndExit = False, op_InitAndExit = False,
     op_config = example_server_config, op_watcher = False, op_master = [], op_healthzPort = 0, op_metricsPort = 0, op_hostnameOverride = [],
     op_iptablesSyncPeriod = 0, op_iptablesMinSyncPeriod = 0, op_ipvsSyncPeriod = 0, op_ipvsMinSyncPeriod = 0, op_clusterCIDRs = []\<rparr>"

definition example_server :: "unit ProxyServer result \<times> sysfs_state" where
  "example_server = newProxyServer example_server_env example_server_config [] False example_sysfs"

lemma example_options_valid: "Options_Validate example_server_env example_options = Inr ()"
  by code_simp

lemma example_check:
  "kc_Mode (ps_Config s) = ProxyModeNFTables \<Longrightarrow> kc_DetectLocalMode (ps_Config s) = [] \<Longrightarrow> checkFamilies env s = Inr True"
  by (auto simp: checkFamilies_def checkBadIPConfig_def platformCheckSupported_def isIPTablesBased_def ProxyModeNFTables_def ProxyModeIPTables_def
      ProxyModeIPVS_def LocalModeClusterCIDR_def LocalModeNodeCIDR_def Let_def)

lemma example_create:
  assumes "kc_Mode (ps_Config s) = ProxyModeNFTables" "kc_NFTables (ps_Config s) = Some b"
  shows "\<not> isErr (createProxier example_server_env s True False)"
  using assms by (simp add: createProxier_def NewDualStackProxier_def newNFTables_def NewProxier_def example_server_env_def Let_def
      ProxyModeNFTables_def ProxyModeIPTables_def ProxyModeIPVS_def)

lemma example_server_runs: "\<not> isErr (fst example_server)"
proof -
  have h: "res_bind (sv_configz example_server_env) (\<lambda>_. res_bind (sv_GetHostname example_server_env (kc_HostnameOverride example_server_config))
    (\<lambda>hostname. res_bind (createClient example_server_env (kc_ClientConnection example_server_config) []) (\<lambda>_. Inr hostname))) = Inr ''n1''"
    by code_simp
  have c: "kc_Mode example_server_config = ProxyModeNFTables" "kc_DetectLocalMode example_server_config = []"
    "kc_NFTables example_server_config = Some 14"
    by (simp_all add: example_server_config_def Convert_v1alpha1_To_config_def zero_v1alpha1_def)
  have conn: "\<not> isErr (fst (setupConntrack example_sysfs_env example_conntrack example_sysfs))" by code_simp
  have ct: "lc_Conntrack (kc_Linux example_server_config) = example_conntrack" "sv_sysfs example_server_env = example_sysfs_env"
    by (simp_all add: example_server_config_def example_server_env_def)
  have p: "\<exists>sys. platformSetup example_server_env s example_sysfs = (Inr s, sys)"
    if "kc_DetectLocalMode (ps_Config s) = []" "lc_Conntrack (kc_Linux (ps_Config s)) = example_conntrack" for s
    using conn that by (auto simp: platformSetup_def then_do_def ct LocalModeNodeCIDR_def split: sum.splits prod.splits)
  let ?d = "detectNodeIPs example_server_env (getNodeIPs example_server_env ''n1'') (kc_BindAddress example_server_config)"
  define s where "s = \<lparr>ps_Config = example_server_config\<lparr>kc_NodePortAddresses :=
      resolveNodePortAddresses example_server_env (snd ?d) (kc_NodePortAddresses example_server_config)\<rparr>,
    ps_Hostname = ''n1'', ps_PrimaryIPFamily = fst ?d, ps_NodeIPs = snd ?d,
    ps_HealthzServer = (length (kc_HealthzBindAddress example_server_config) > 0), ps_podCIDRs = [], ps_Proxier = NilProvider :: unit provider\<rparr>"
  have "kc_Mode (ps_Config s) = ProxyModeNFTables" "kc_DetectLocalMode (ps_Config s) = []" "kc_NFTables (ps_Config s) = Some 14"
    "lc_Conntrack (kc_Linux (ps_Config s)) = example_conntrack" by (simp_all add: s_def c ct)
  then obtain sys q where q: "platformSetup example_server_env s example_sysfs = (Inr s, sys)" "checkFamilies example_server_env s = Inr True"
    "createProxier example_server_env s True False = Inr q"
    using p [of s] example_check [of s example_server_env] example_create [of s 14]
    by (cases "createProxier example_server_env s True False") auto
  have "example_server = then_do (platformSetup example_server_env s) (\<lambda>s sys.
    (res_bind (checkFamilies example_server_env s) (\<lambda>dualStackSupported.
       res_bind (createProxier example_server_env s dualStackSupported False) (\<lambda>p. Inr (s\<lparr>ps_Proxier := p\<rparr>))), sys)) example_sysfs"
    unfolding example_server_def newProxyServer_def h sum.case s_def by (simp add: Let_def case_prod_beta)
  then have e: "example_server = (Inr (s\<lparr>ps_Proxier := q\<rparr>), sys)" by (simp add: then_do_def q)
  show ?thesis unfolding e by simp
qed

lemma example_net_ok: "net_ok example_server_env"
  by (auto simp: net_ok_def ip_text_def is_cidr_def example_server_env_def example_config_env_def example_util_env_def split: if_splits)

theorem accepted_options_run_witness:
  "\<exists>px4 px6. ps_Proxier (projr (fst example_server)) = DualStackNFTables px4 px6 \<and>
    (\<exists>w px. run_events (meta_handle (nft_handle example_dual_env Map.empty) (nft_handle example_dual_env Map.empty))
      (meta_possible nft_possible nft_possible) (meta_after nft_after nft_after) example_events
      (new_world (\<lambda>_. Map.empty), new_world (\<lambda>_. Map.empty)) (px4, px6) = Inr (w, px))"
proof -
  have m: "kc_Mode (op_config example_options) = ProxyModeNFTables"
    by (simp add: example_options_def example_server_config_def Convert_v1alpha1_To_config_def zero_v1alpha1_def)
  have n: "newProxyServer example_server_env (op_config example_options) [] False example_sysfs = (Inr (projr (fst example_server)), snd example_server)"
    using example_server_runs by (cases "fst example_server") (auto simp: example_options_def example_server_def prod_eq_iff)
  have "\<forall>s. CHR '' '' \<notin> set (IP_String (ne_ParseIPSloppy (pe_svc example_dual_env) s))"
    using example_dual_ok(3) unfolding env_ok_def by blast
  from accepted_options_run [OF example_options_valid m example_net_ok n this this, of Map.empty Map.empty example_events "\<lambda>_. Map.empty" "\<lambda>_. Map.empty"]
  show ?thesis using example_no_fault(2) by blast
qed

theorem detectNodeIPs_precedence_witness:
  "map_of (snd (detectNodeIPs example_server_env [Some ''10.0.0.1'', Some ''fd00::1''] ''0.0.0.0'')) IPv4Protocol = Some (Some ''10.0.0.1'') \<and>
   map_of (snd (detectNodeIPs example_server_env [Some ''10.0.0.1'', Some ''fd00::1''] ''0.0.0.0'')) IPv6Protocol = Some (Some ''fd00::1'')"
proof -
  let ?raw = "[Some ''10.0.0.1'', Some ''fd00::1''] :: IP list"
  have e: "ue_To4 (sv_net example_server_env) ''127.0.0.1''" "\<not> ue_To4 (sv_net example_server_env) ''::1''"
    "ne_ParseIPSloppy (sv_net example_server_env) [] = None" "bindsTo example_server_env ''0.0.0.0'' = None" by code_simp+
  have f: "familyOf (sv_net example_server_env) (Some ''10.0.0.1'') = IPv4Protocol" "familyOf (sv_net example_server_env) (Some ''fd00::1'') = IPv6Protocol"
    by code_simp+
  obtain fam ips where d: "detectNodeIPs example_server_env ?raw ''0.0.0.0'' = (fam, ips)" by (cases "detectNodeIPs example_server_env ?raw ''0.0.0.0''")
  have "length ?raw > 1 \<Longrightarrow> familyOf (sv_net example_server_env) (?raw ! 0) \<noteq> familyOf (sv_net example_server_env) (?raw ! 1)" by (simp add: f)
  from detectNodeIPs_precedence [OF e(1-3) this d] show ?thesis by (auto simp: d e(4) f rawPrimary_def OtherIPFamily_def)
qed

theorem one_proxy_per_service_witness:
  "\<exists>!name. \<exists>sel. labelSelector (\<lambda>_. True) name = Inr sel \<and> selects sel [(LabelServiceProxyName, ''wao'')]"
  by (rule one_proxy_per_service) (simp_all add: IsHeadlessService_def LabelServiceProxyName_def)

theorem cleanup_spares_own_witness:
  "set (cleanups example_server_env ProxyModeIPVS False) \<subseteq> {CleanNFTables} \<and> platformCleanup example_server_env (\<lambda>_. False) ProxyModeIPVS True = None"
  using cleanup_spares_own [of ProxyModeIPVS example_server_env "\<lambda>_. False"]
  by (simp add: isIPTablesBased_def example_server_env_def example_config_env_def)

theorem metrics_port_zero_rejected_witness:
  "\<not> isErr (Complete example_server_env example_options) \<and>
   Options_Validate example_server_env (projr (Complete example_server_env example_options)) \<noteq> Inr ()"
proof -
  have "\<not> isErr (Complete example_server_env example_options)" by code_simp
  then obtain o'' where o: "Complete example_server_env example_options = Inr o''" by (cases "Complete example_server_env example_options") auto
  have "Options_Validate example_server_env o'' \<noteq> Inr ()"
    by (rule metrics_port_zero_rejected [OF o]) (simp_all add: example_options_def example_server_env_def)
  then show ?thesis by (simp add: o)
qed

end
