(* ===== verification/Ip_Sets.thy ===== *)
theory Ip_Sets
  imports Proxy_Config
begin

text \<open>
  The ip sets of the ipvs mode: \<open>wao-loadbalancer/pkg/proxy/ipvs/ipset/ipset.go\<close> and \<open>types.go\<close>, \<open>ipvs/ipset.go\<close> and the table
  of sets of \<open>ipvs/proxier.go\<close>. The tool \<open>ipset\<close> is a parameter: a function from its arguments and a state to its output, its
  error and the new state. The order in which a set of texts is visited is a parameter too.
\<close>

section \<open>Sets and their defaults\<close>

type_synonym 's ipset_exec = "string list \<Rightarrow> 's \<Rightarrow> (string \<times> string option) \<times> 's"

definition HashIPPort :: string where "HashIPPort = ''hash:ip,port''"
definition HashIPPortIP :: string where "HashIPPortIP = ''hash:ip,port,ip''"
definition HashIPPortNet :: string where "HashIPPortNet = ''hash:ip,port,net''"
definition BitmapPort :: string where "BitmapPort = ''bitmap:port''"
definition HashIP :: string where "HashIP = ''hash:ip''"

lemmas ipset_types = HashIPPort_def HashIPPortIP_def HashIPPortNet_def BitmapPort_def HashIP_def

definition DefaultPortRange :: string where "DefaultPortRange = ''0-65535''"

definition ProtocolFamilyIPV4 :: string where "ProtocolFamilyIPV4 = ''inet''"
definition ProtocolFamilyIPV6 :: string where "ProtocolFamilyIPV6 = ''inet6''"

definition ValidIPSetTypes :: "string list" where
  "ValidIPSetTypes = [HashIPPort, HashIPPortIP, BitmapPort, HashIPPortNet, HashIP]"

record util_IPSet =
  ip_Name :: string
  ip_SetType :: string
  ip_HashFamily :: string
  ip_HashSize :: int
  ip_MaxElem :: int
  ip_PortRange :: string
  ip_Comment :: string

definition validatePortRange :: "string \<Rightarrow> goerr option" where
  "validatePortRange portRange =
     (let strs = split_on CHR ''-'' portRange
      in if length strs \<noteq> 2 then Some (Errorf (''invalid PortRange: '' @ portRange))
         else if list_ex (\<lambda>s. case Atoi s of Inl _ \<Rightarrow> True | Inr num \<Rightarrow> num < 0) strs then Some (Errorf (''invalid PortRange: '' @ portRange))
         else None)"

definition validateIPSetType :: "string \<Rightarrow> goerr option" where
  "validateIPSetType t = (if t \<in> set ValidIPSetTypes then None else Some (Errorf (''unsupported SetType: '' @ t)))"

definition validateHashFamily :: "string \<Rightarrow> goerr option" where
  "validateHashFamily family =
     (if family = ProtocolFamilyIPV4 \<or> family = ProtocolFamilyIPV6 then None else Some (Errorf (''unsupported HashFamily '' @ family)))"

fun first_error :: "goerr option list \<Rightarrow> goerr option" where
  "first_error [] = None"
| "first_error (None # es) = first_error es"
| "first_error (Some e # es) = Some e"

definition IPSet_Validate :: "util_IPSet \<Rightarrow> goerr option" where
  "IPSet_Validate s = first_error
     [if ip_SetType s = HashIPPort \<or> ip_SetType s = HashIPPortIP \<or> ip_SetType s = HashIPPortNet then validateHashFamily (ip_HashFamily s) else None,
      validateIPSetType (ip_SetType s),
      if ip_SetType s = BitmapPort then validatePortRange (ip_PortRange s) else None,
      if ip_HashSize s \<le> 0 then Some (Errorf (''invalid HashSize: '' @ Itoa (ip_HashSize s))) else None,
      if ip_MaxElem s \<le> 0 then Some (Errorf (''invalid MaxElem '' @ Itoa (ip_MaxElem s))) else None]"

definition setIPSetDefaults :: "util_IPSet \<Rightarrow> util_IPSet" where
  "setIPSetDefaults s =
     s\<lparr>ip_HashSize := if ip_HashSize s = 0 then 1024 else ip_HashSize s,
       ip_MaxElem := if ip_MaxElem s = 0 then 65536 else ip_MaxElem s,
       ip_HashFamily := if ip_HashFamily s = [] then ProtocolFamilyIPV4 else ip_HashFamily s,
       ip_SetType := if ip_SetType s = [] then HashIPPort else ip_SetType s,
       ip_PortRange := if ip_PortRange s = [] then DefaultPortRange else ip_PortRange s\<rparr>"

text \<open>The loop visits exactly two texts: the first becomes the beginning, the second the end, and the two are swapped when they are out of order.\<close>

definition parsePort :: "string \<Rightarrow> int result" where
  "parsePort s =
     res_bind (Atoi s) (\<lambda>num. if num < 0 then Inl (Errorf (''port number '' @ Itoa num @ '' should be >=0'')) else Inr num)"

definition parsePortRange :: "string \<Rightarrow> (int \<times> int) result" where
  "parsePortRange portRange =
     (let portRange = (if portRange = [] then DefaultPortRange else portRange)
      in case split_on CHR ''-'' portRange of
           [a, b] \<Rightarrow> res_bind (parsePort a) (\<lambda>beginPort. res_bind (parsePort b) (\<lambda>num.
             Inr (if beginPort > num then (num, beginPort) else (beginPort, num))))
         | _ \<Rightarrow> Inl (Errorf ''port range should be in the format of `a-b`''))"

section \<open>Entries\<close>

record ipset_Entry =
  en_IP :: string
  en_Port :: int
  en_Protocol :: string
  en_Net :: string
  en_IP2 :: string
  en_SetType :: string

definition validateProtocol :: "string \<Rightarrow> bool" where
  "validateProtocol protocol \<longleftrightarrow> protocol = ''tcp'' \<or> protocol = ''udp'' \<or> protocol = ''sctp''"

definition checkIP :: "'z net_env_scheme \<Rightarrow> ipset_Entry \<Rightarrow> bool" where
  "checkIP env e \<longleftrightarrow> ne_ParseIPSloppy env (en_IP e) \<noteq> None"

text \<open>The check fills in the protocol of the entry, so it returns the entry too.\<close>

definition checkIPandProtocol :: "'z net_env_scheme \<Rightarrow> ipset_Entry \<Rightarrow> bool \<times> ipset_Entry" where
  "checkIPandProtocol env e =
     (if en_Protocol e = [] then (let e = e\<lparr>en_Protocol := ''tcp''\<rparr> in (checkIP env e, e))
      else if \<not> validateProtocol (en_Protocol e) then (False, e)
      else (checkIP env e, e))"

definition Entry_Validate :: "'z net_env_scheme \<Rightarrow> util_IPSet option \<Rightarrow> ipset_Entry \<Rightarrow> bool \<times> ipset_Entry" where
  "Entry_Validate env st e =
     (if en_Port e < 0 then (False, e)
      else if en_SetType e = HashIP then (checkIP env e, e)
      else if en_SetType e = HashIPPort then checkIPandProtocol env e
      else if en_SetType e = HashIPPortIP
        then (let (valid, e) = checkIPandProtocol env e in (valid \<and> ne_ParseIPSloppy env (en_IP2 e) \<noteq> None, e))
      else if en_SetType e = HashIPPortNet
        then (let (valid, e) = checkIPandProtocol env e in (valid \<and> \<not> isErr (ne_ParseCIDR env (en_Net e)), e))
      else if en_SetType e = BitmapPort
        then (case st of
                None \<Rightarrow> (False, e)
              | Some st \<Rightarrow> (case parsePortRange (ip_PortRange st) of
                    Inl _ \<Rightarrow> (False, e)
                  | Inr (begin, end') \<Rightarrow> (\<not> (en_Port e < begin \<or> en_Port e > end'), e)))
      else (True, e))"

definition Entry_String :: "ipset_Entry \<Rightarrow> string" where
  "Entry_String e =
     (if en_SetType e = HashIP then en_IP e
      else if en_SetType e = HashIPPort then en_IP e @ '','' @ en_Protocol e @ '':'' @ Itoa (en_Port e)
      else if en_SetType e = HashIPPortIP then en_IP e @ '','' @ en_Protocol e @ '':'' @ Itoa (en_Port e) @ '','' @ en_IP2 e
      else if en_SetType e = HashIPPortNet then en_IP e @ '','' @ en_Protocol e @ '':'' @ Itoa (en_Port e) @ '','' @ en_Net e
      else if en_SetType e = BitmapPort then Itoa (en_Port e)
      else [])"

section \<open>The runner\<close>

text \<open>The error of a call names the operation; some operations add the output of the tool.\<close>

definition run_ipset :: "'s ipset_exec \<Rightarrow> bool \<Rightarrow> string \<Rightarrow> string list \<Rightarrow> ('s, string) call" where
  "run_ipset exec verbose msg args s =
     (case exec args s of
        ((out, Some err), s) \<Rightarrow> (Inl (Wrap msg (External (if verbose then err @ '' ('' @ out @ '')'' else err))), s)
      | ((out, None), s) \<Rightarrow> (Inr out, s))"

definition createSet :: "'s ipset_exec \<Rightarrow> util_IPSet \<Rightarrow> bool \<Rightarrow> ('s, unit) call" where
  "createSet exec st ignoreExistErr =
     (let args = [''create'', ip_Name st, ip_SetType st];
          args = (if ip_SetType st = HashIPPortIP \<or> ip_SetType st = HashIPPort \<or> ip_SetType st = HashIPPortNet \<or> ip_SetType st = HashIP
                  then args @ [''family'', ip_HashFamily st, ''hashsize'', Itoa (ip_HashSize st), ''maxelem'', Itoa (ip_MaxElem st)] else args);
          args = (if ip_SetType st = BitmapPort then args @ [''range'', ip_PortRange st] else args);
          args = (if ignoreExistErr then args @ [''-exist''] else args)
      in then_do (run_ipset exec False (''error creating ipset '' @ ip_Name st) args) (\<lambda>_. ret ()))"

definition CreateSet :: "'s ipset_exec \<Rightarrow> util_IPSet \<Rightarrow> bool \<Rightarrow> 's \<Rightarrow> (unit result \<times> 's) \<times> util_IPSet" where
  "CreateSet exec st ignoreExistErr s =
     (let st = setIPSetDefaults st
      in (case IPSet_Validate st of Some err \<Rightarrow> (Inl err, s) | None \<Rightarrow> createSet exec st ignoreExistErr s, st))"



text \<open>\<open>match pattern text\<close> stands for the package of regular expressions; it fails on a pattern that does not compile.\<close>

definition TestEntry :: "(string \<Rightarrow> string \<Rightarrow> bool result) \<Rightarrow> 's ipset_exec \<Rightarrow> string \<Rightarrow> string \<Rightarrow> ('s, bool) call" where
  "TestEntry match exec ent st =
     then_do (run_ipset exec True (''error testing entry '' @ ent) [''test'', st, ent])
       (\<lambda>out. case match (''is NOT in set '' @ st) out of
                Inl e \<Rightarrow> fail (Wrap (''error testing entry: '' @ ent) e)
              | Inr m \<Rightarrow> ret (\<not> m))"

definition FlushSet :: "'s ipset_exec \<Rightarrow> string \<Rightarrow> ('s, unit) call" where
  "FlushSet exec st = then_do (run_ipset exec False (''error flushing set: '' @ st) [''flush'', st]) (\<lambda>_. ret ())"

definition DestroySet :: "'s ipset_exec \<Rightarrow> string \<Rightarrow> ('s, unit) call" where
  "DestroySet exec st = then_do (run_ipset exec True (''error destroying set '' @ st) [''destroy'', st]) (\<lambda>_. ret ())"

definition DestroyAllSets :: "'s ipset_exec \<Rightarrow> ('s, unit) call" where
  "DestroyAllSets exec = then_do (run_ipset exec False ''error destroying all sets'' [''destroy'']) (\<lambda>_. ret ())"

definition ListSets :: "'s ipset_exec \<Rightarrow> ('s, string list) call" where
  "ListSets exec = then_do (run_ipset exec False ''error listing all sets'' [''list'', ''-n'']) (\<lambda>out. ret (split_on CHR 0x0A out))"



text \<open>The leftmost match of \<open>v[0-9]+\.[0-9]+\<close>.\<close>

definition versionAt :: "string \<Rightarrow> string option" where
  "versionAt s =
     (case s of
        [] \<Rightarrow> None
      | c # cs \<Rightarrow>
          (let a = takeWhile digit cs; rest = dropWhile digit cs; b = takeWhile digit (tl rest)
           in if c = CHR ''v'' \<and> a \<noteq> [] \<and> rest \<noteq> [] \<and> hd rest = CHR ''.'' \<and> b \<noteq> [] then Some (''v'' @ a @ ''.'' @ b) else None))"

fun findVersion :: "string \<Rightarrow> string option" where
  "findVersion [] = None"
| "findVersion (c # cs) = (case versionAt (c # cs) of Some v \<Rightarrow> Some v | None \<Rightarrow> findVersion cs)"

definition getIPSetVersionString :: "'s ipset_exec \<Rightarrow> ('s, string) call" where
  "getIPSetVersionString exec s =
     (case exec [''--version''] s of
        ((bytes, Some err), s) \<Rightarrow> (Inl (External err), s)
      | ((bytes, None), s) \<Rightarrow>
          (case findVersion bytes of None \<Rightarrow> (Inl (Errorf (''no ipset version found in string: '' @ bytes)), s) | Some v \<Rightarrow> (Inr v, s)))"

definition IsNotFoundError :: "goerr \<Rightarrow> bool" where
  "IsNotFoundError err \<longleftrightarrow> Contains (Error_text err) ''does not exist'' \<or> Contains (Error_text err) ''element is missing''"

section \<open>The sets of the proxier\<close>

record IPSet =
  is_IPSet :: util_IPSet
  is_activeEntries :: "string list"

definition HasPrefix_KUBE :: "string \<Rightarrow> bool" where
  "HasPrefix_KUBE name \<longleftrightarrow> take 5 name = ''KUBE-''"

definition NewIPSet :: "string \<Rightarrow> string \<Rightarrow> bool \<Rightarrow> string \<Rightarrow> IPSet" where
  "NewIPSet name setType isIPv6 comment =
     (let hashFamily = (if isIPv6 then ProtocolFamilyIPV6 else ProtocolFamilyIPV4);
          name = (if isIPv6 \<and> HasPrefix_KUBE name
                  then (let name = ''KUBE-6-'' @ drop 5 name in if length name > 31 then take 31 name else name)
                  else name)
      in \<lparr>is_IPSet = \<lparr>ip_Name = name, ip_SetType = setType, ip_HashFamily = hashFamily, ip_HashSize = 0, ip_MaxElem = 0,
             ip_PortRange = [], ip_Comment = comment\<rparr>,
          is_activeEntries = []\<rparr>)"

definition validateEntry :: "'z net_env_scheme \<Rightarrow> IPSet \<Rightarrow> ipset_Entry \<Rightarrow> bool \<times> ipset_Entry" where
  "validateEntry env st e = Entry_Validate env (Some (is_IPSet st)) e"

definition ipset_isEmpty :: "IPSet \<Rightarrow> bool" where
  "ipset_isEmpty st \<longleftrightarrow> is_activeEntries st = []"

definition getComment :: "IPSet \<Rightarrow> string" where
  "getComment st = [CHR 0x22] @ ip_Comment (is_IPSet st) @ [CHR 0x22]"

definition resetEntries :: "IPSet \<Rightarrow> IPSet" where
  "resetEntries st = st\<lparr>is_activeEntries := []\<rparr>"




definition ensureIPSet :: "'s ipset_exec \<Rightarrow> IPSet \<Rightarrow> 's \<Rightarrow> (unit result \<times> 's) \<times> IPSet" where
  "ensureIPSet exec st s = (let (r, u) = CreateSet exec (is_IPSet st) True s in (r, st\<lparr>is_IPSet := u\<rparr>))"

text \<open>\<open>ParseGeneric\<close> and \<open>LessThan\<close> of the version package are parameters.\<close>

definition MinIPSetCheckVersion :: string where "MinIPSetCheckVersion = ''6.0''"

definition checkMinVersion :: "(string \<Rightarrow> 'v result) \<Rightarrow> ('v \<Rightarrow> 'v \<Rightarrow> bool) \<Rightarrow> string \<Rightarrow> bool" where
  "checkMinVersion ParseGeneric LessThan vstring =
     (case ParseGeneric vstring of
        Inl _ \<Rightarrow> False
      | Inr version \<Rightarrow> (case ParseGeneric MinIPSetCheckVersion of Inl _ \<Rightarrow> False | Inr minVersion \<Rightarrow> \<not> LessThan version minVersion))"

definition ipsetInfo :: "(string \<times> string \<times> string) list" where
  "ipsetInfo =
     [(''KUBE-LOOP-BACK'', HashIPPortIP, ''Kubernetes endpoints dst ip:port, source ip for solving hairpin purpose''),
      (''KUBE-CLUSTER-IP'', HashIPPort, ''Kubernetes service cluster ip + port for masquerade purpose''),
      (''KUBE-EXTERNAL-IP'', HashIPPort, ''Kubernetes service external ip + port for masquerade and filter purpose''),
      (''KUBE-EXTERNAL-IP-LOCAL'', HashIPPort, ''Kubernetes service external ip + port with externalTrafficPolicy=local''),
      (''KUBE-LOAD-BALANCER'', HashIPPort, ''Kubernetes service lb portal''),
      (''KUBE-LOAD-BALANCER-FW'', HashIPPort, ''Kubernetes service load balancer ip + port for load balancer with sourceRange''),
      (''KUBE-LOAD-BALANCER-LOCAL'', HashIPPort, ''Kubernetes service load balancer ip + port with externalTrafficPolicy=local''),
      (''KUBE-LOAD-BALANCER-SOURCE-IP'', HashIPPortIP, ''Kubernetes service load balancer ip + port + source IP for packet filter purpose''),
      (''KUBE-LOAD-BALANCER-SOURCE-CIDR'', HashIPPortNet, ''Kubernetes service load balancer ip + port + source cidr for packet filter purpose''),
      (''KUBE-NODE-PORT-TCP'', BitmapPort, ''Kubernetes nodeport TCP port for masquerade purpose''),
      (''KUBE-NODE-PORT-LOCAL-TCP'', BitmapPort, ''Kubernetes nodeport TCP port with externalTrafficPolicy=local''),
      (''KUBE-NODE-PORT-UDP'', BitmapPort, ''Kubernetes nodeport UDP port for masquerade purpose''),
      (''KUBE-NODE-PORT-LOCAL-UDP'', BitmapPort, ''Kubernetes nodeport UDP port with externalTrafficPolicy=local''),
      (''KUBE-NODE-PORT-SCTP-HASH'', HashIPPort, ''Kubernetes nodeport SCTP port for masquerade purpose with type 'hash ip:port'' @ [CHR 0x27]),
      (''KUBE-NODE-PORT-LOCAL-SCTP-HASH'', HashIPPort, ''Kubernetes nodeport SCTP port with externalTrafficPolicy=local with type 'hash ip:port'' @ [CHR 0x27]),
      (''KUBE-HEALTH-CHECK-NODE-PORT'', BitmapPort, ''Kubernetes health check node port''),
      (''KUBE-IPVS-IPS'', HashIP, ''Addresses on the ipvs interface'')]"

definition ipsetList :: "bool \<Rightarrow> IPSet list" where
  "ipsetList isIPv6 = map (\<lambda>(name, setType, comment). NewIPSet name setType isIPv6 comment) ipsetInfo"

section \<open>The sets can be created\<close>

text \<open>
  The sets of both families can live beside each other: their names differ although two of the IPv6 names are cut, no name is longer
  than the kernel allows, and every set passes the validation of its creation.
\<close>

theorem ipsets_created:
  "distinct (map (\<lambda>st. ip_Name (is_IPSet st)) (ipsetList False @ ipsetList True)) \<and>
   list_all (\<lambda>st. length (ip_Name (is_IPSet st)) \<le> 31 \<and> IPSet_Validate (setIPSetDefaults (is_IPSet st)) = None) (ipsetList False @ ipsetList True)"
  by (intro conjI) code_simp+

section \<open>The kernel's set becomes the proxier's set\<close>















section \<open>Port ranges and entries\<close>

text \<open>A range that the validation of a set accepts is also read when an entry is checked against it, and its bounds are in order.\<close>

theorem parsePortRange_valid:
  assumes "validatePortRange r = None"
  shows "\<exists>b e. parsePortRange r = Inr (b, e) \<and> 0 \<le> b \<and> b \<le> e"
proof -
  obtain x y where s: "split_on CHR ''-'' r = [x, y]"
    using assms by (auto simp: validatePortRange_def Let_def length_Suc_conv numeral_2_eq_2 split: if_splits)
  then have "r \<noteq> []" by auto
  obtain a b where "Atoi x = Inr a" "Atoi y = Inr b" "0 \<le> a" "0 \<le> b"
    using assms s by (auto simp: validatePortRange_def Let_def split: if_splits sum.splits)
  then show ?thesis using s \<open>r \<noteq> []\<close> by (auto simp: parsePortRange_def parsePort_def res_bind_def Let_def)
qed

definition entry_key :: "ipset_Entry \<Rightarrow> string \<times> string \<times> int \<times> string" where
  "entry_key e =
     (if en_SetType e = HashIP then (en_IP e, [], 0, [])
      else if en_SetType e = HashIPPort then (en_IP e, en_Protocol e, en_Port e, [])
      else if en_SetType e = HashIPPortIP then (en_IP e, en_Protocol e, en_Port e, en_IP2 e)
      else if en_SetType e = HashIPPortNet then (en_IP e, en_Protocol e, en_Port e, en_Net e)
      else ([], [], en_Port e, []))"

lemma Itoa_inj: "is_i64 i \<Longrightarrow> is_i64 j \<Longrightarrow> Itoa i = Itoa j \<Longrightarrow> i = j"
  by (metis Atoi_Itoa sum.inject(2))

lemma sep_inj: "c \<notin> set a \<Longrightarrow> c \<notin> set b \<Longrightarrow> a @ c # x = b @ c # y \<Longrightarrow> a = b \<and> x = y"
  by (induction a arbitrary: b) (auto simp: Cons_eq_append_conv append_eq_Cons_conv)

lemma Itoa_comma: "CHR '','' \<notin> set (Itoa i)"
  by (rule Itoa_no, rule not_digit) simp_all

lemma valid_protocol: "validateProtocol p \<Longrightarrow> CHR '','' \<notin> set p \<and> CHR '':'' \<notin> set p"
  by (auto simp: validateProtocol_def)

lemma checkIPandProtocol_valid:
  "checkIPandProtocol env e = (True, e') \<Longrightarrow> validateProtocol (en_Protocol e') \<and> ne_ParseIPSloppy env (en_IP e') \<noteq> None"
  by (auto simp: checkIPandProtocol_def checkIP_def validateProtocol_def Let_def split: if_splits)

lemma checkIPandProtocol_SetType: "checkIPandProtocol env e = (b, e') \<Longrightarrow> en_SetType e' = en_SetType e"
  by (auto simp: checkIPandProtocol_def Let_def split: if_splits)

lemma Entry_Validate_fields:
  assumes "Entry_Validate env st e = (True, e')" "en_SetType e' = HashIPPort \<or> en_SetType e' = HashIPPortIP \<or> en_SetType e' = HashIPPortNet"
  shows "validateProtocol (en_Protocol e') \<and> ne_ParseIPSloppy env (en_IP e') \<noteq> None"
proof -
  have "checkIPandProtocol env e = (True, e')"
    using assms checkIPandProtocol_SetType [of env e]
    by (auto simp: Entry_Validate_def ipset_types split: if_splits prod.splits option.splits sum.splits)
  then show ?thesis by (rule checkIPandProtocol_valid)
qed

lemma port_text_inj:
  assumes "validateProtocol p" "validateProtocol q" "is_i64 i" "is_i64 j" "p @ CHR '':'' # Itoa i = q @ CHR '':'' # Itoa j"
  shows "p = q \<and> i = j"
  using sep_inj [OF _ _ assms(5)] valid_protocol assms Itoa_inj by blast

text \<open>
  Two entries of one type that are valid for their set are written differently unless they agree on every field the type looks at: no entry of
  a set hides another one. Addresses are taken not to hold a comma, which no address does.
\<close>

theorem Entry_String_inj:
  assumes v: "Entry_Validate env st e1 = (True, e1')" "Entry_Validate env st e2 = (True, e2')"
    and comma: "\<forall>s. ne_ParseIPSloppy env s \<noteq> None \<longrightarrow> CHR '','' \<notin> set s"
    and t: "en_SetType e1' = en_SetType e2'" "en_SetType e1' \<in> set ValidIPSetTypes"
    and p: "is_i64 (en_Port e1')" "is_i64 (en_Port e2')"
    and s: "Entry_String e1' = Entry_String e2'"
  shows "entry_key e1' = entry_key e2'"
proof -
  have port: ?thesis if "en_SetType e1' = HashIPPort \<or> en_SetType e1' = HashIPPortIP \<or> en_SetType e1' = HashIPPortNet"
  proof -
    have f: "validateProtocol (en_Protocol e1')" "CHR '','' \<notin> set (en_IP e1')" "validateProtocol (en_Protocol e2')" "CHR '','' \<notin> set (en_IP e2')"
      using Entry_Validate_fields [OF v(1)] Entry_Validate_fields [OF v(2)] that t(1) comma by auto
    let ?t = "\<lambda>e. en_Protocol e @ CHR '':'' # Itoa (en_Port e)"
    have nc: "CHR '','' \<notin> set (?t e1')" "CHR '','' \<notin> set (?t e2')" using f valid_protocol Itoa_comma by auto
    note i = port_text_inj [OF f(1,3) p]
    from that consider (a) "en_SetType e1' = HashIPPort" | (b) "en_SetType e1' = HashIPPortIP" | (c) "en_SetType e1' = HashIPPortNet" by blast
    then show ?thesis
    proof cases
      case a
      have "en_IP e1' @ CHR '','' # ?t e1' = en_IP e2' @ CHR '','' # ?t e2'" using s a t(1) by (simp add: Entry_String_def ipset_types)
      from sep_inj [OF f(2,4) this] i show ?thesis using a t(1) by (simp add: entry_key_def)
    next
      case b
      have "en_IP e1' @ CHR '','' # (?t e1' @ CHR '','' # en_IP2 e1') = en_IP e2' @ CHR '','' # (?t e2' @ CHR '','' # en_IP2 e2')"
        using s b t(1) by (simp add: Entry_String_def ipset_types)
      from sep_inj [OF f(2,4) this] sep_inj [OF nc, of "en_IP2 e1'" "en_IP2 e2'"] i show ?thesis using b t(1) by (simp add: entry_key_def)
    next
      case c
      have "en_IP e1' @ CHR '','' # (?t e1' @ CHR '','' # en_Net e1') = en_IP e2' @ CHR '','' # (?t e2' @ CHR '','' # en_Net e2')"
        using s c t(1) by (simp add: Entry_String_def ipset_types)
      from sep_inj [OF f(2,4) this] sep_inj [OF nc, of "en_Net e1'" "en_Net e2'"] i show ?thesis using c t(1) by (simp add: entry_key_def ipset_types)
    qed
  qed
  have "?thesis" if "en_SetType e1' = HashIP" using that s t(1) by (simp add: Entry_String_def entry_key_def)
  moreover have "?thesis" if "en_SetType e1' = BitmapPort"
    using that s t(1) Itoa_inj [OF p] by (simp add: Entry_String_def entry_key_def ipset_types)
  ultimately show ?thesis using port t(2) by (auto simp: ValidIPSetTypes_def)
qed

section \<open>Witnesses\<close>






theorem parsePortRange_valid_witness: "\<exists>b e. parsePortRange ''100-1'' = Inr (b, e) \<and> 0 \<le> b \<and> b \<le> e"
  by (rule parsePortRange_valid) code_simp

definition example_entry :: "int \<Rightarrow> ipset_Entry" where
  "example_entry port = \<lparr>en_IP = ''10.96.0.1'', en_Port = port, en_Protocol = ''udp'', en_Net = [], en_IP2 = [], en_SetType = HashIPPort\<rparr>"

definition example_ip_env :: net_env where
  "example_ip_env = example_net_env\<lparr>ne_ParseIPSloppy := (\<lambda>s. if CHR '','' \<in> set s then None else Some s)\<rparr>"

theorem Entry_String_inj_witness: "Entry_String (example_entry 53) \<noteq> Entry_String (example_entry 54)"
proof
  assume s: "Entry_String (example_entry 53) = Entry_String (example_entry 54)"
  have "Entry_Validate example_ip_env None (example_entry 53) = (True, example_entry 53)"
    "Entry_Validate example_ip_env None (example_entry 54) = (True, example_entry 54)" by code_simp+
  then have "entry_key (example_entry 53) = entry_key (example_entry 54)"
    by (rule Entry_String_inj)
      (use s in \<open>simp_all add: example_ip_env_def example_entry_def ValidIPSetTypes_def is_i64_def MinInt64_def MaxInt64_def\<close>)
  then show False by (simp add: entry_key_def example_entry_def ipset_types)
qed

end
