(* ===== verification/Graceful_Termination.thy ===== *)
theory Graceful_Termination
  imports Nft_Rules
begin

text \<open>
  The graceful termination of real servers in the ipvs mode: \<open>wao-loadbalancer/pkg/proxy/ipvs/graceful_termination.go\<close> with
  the servers of \<open>ipvs/util/ipvs.go\<close>. The tables of the kernel are explicit: the real servers of a virtual server, which is
  known by its address, port and protocol. Which calls of the kernel fail is a parameter, as is the order in which the map of
  servers to delete is visited; locks and logs are left out.
\<close>

section \<open>Servers\<close>

record VirtualServer =
  vsv_Address :: IP
  vsv_Protocol :: string
  vsv_Port :: int
  vsv_Scheduler :: string
  vsv_Flags :: int
  vsv_Timeout :: int

definition VirtualServer_String :: "VirtualServer \<Rightarrow> string" where
  "VirtualServer_String svc = JoinHostPort (IP_String (vsv_Address svc)) (Itoa (vsv_Port svc)) @ ''/'' @ vsv_Protocol svc"

definition VirtualServer_Equal :: "VirtualServer \<Rightarrow> VirtualServer \<Rightarrow> bool" where
  "VirtualServer_Equal svc other \<longleftrightarrow>
     vsv_Address svc = vsv_Address other \<and> vsv_Protocol svc = vsv_Protocol other \<and> vsv_Port svc = vsv_Port other \<and>
     vsv_Scheduler svc = vsv_Scheduler other \<and> vsv_Flags svc = vsv_Flags other \<and> vsv_Timeout svc = vsv_Timeout other"

record RealServer =
  rsv_Address :: IP
  rsv_Port :: int
  rsv_Weight :: int
  rsv_ActiveConn :: int
  rsv_InactiveConn :: int

definition RealServer_String :: "RealServer \<Rightarrow> string" where
  "RealServer_String rs = JoinHostPort (IP_String (rsv_Address rs)) (Itoa (rsv_Port rs))"

definition RealServer_Equal :: "RealServer \<Rightarrow> RealServer \<Rightarrow> bool" where
  "RealServer_Equal rs other \<longleftrightarrow> rsv_Address rs = rsv_Address other \<and> rsv_Port rs = rsv_Port other"

definition EqualFold :: "string \<Rightarrow> string \<Rightarrow> bool" where
  "EqualFold s t \<longleftrightarrow> ToLower s = ToLower t"

definition IsRsGracefulTerminationNeeded :: "string \<Rightarrow> bool" where
  "IsRsGracefulTerminationNeeded proto \<longleftrightarrow> \<not> EqualFold proto ''UDP'' \<and> \<not> EqualFold proto ''SCTP''"

section \<open>The kernel\<close>

type_synonym vs_key = "IP \<times> int \<times> string"
type_synonym ipvs_kernel = "vs_key \<Rightarrow> RealServer list"

definition vsKey :: "VirtualServer \<Rightarrow> vs_key" where
  "vsKey vs = (vsv_Address vs, vsv_Port vs, vsv_Protocol vs)"

record ipvs_env =
  iv_GetFails :: "VirtualServer \<Rightarrow> goerr option"
  iv_DeleteFails :: "VirtualServer \<Rightarrow> RealServer \<Rightarrow> goerr option"
  iv_UpdateFails :: "VirtualServer \<Rightarrow> RealServer \<Rightarrow> goerr option"

definition GetRealServers :: "ipvs_env \<Rightarrow> VirtualServer \<Rightarrow> ipvs_kernel \<Rightarrow> RealServer list result" where
  "GetRealServers env vs k = (case iv_GetFails env vs of Some e \<Rightarrow> Inl e | None \<Rightarrow> Inr (k (vsKey vs)))"

definition without :: "RealServer \<Rightarrow> VirtualServer \<Rightarrow> ipvs_kernel \<Rightarrow> ipvs_kernel" where
  "without rs vs k = k(vsKey vs := filter (\<lambda>r. \<not> RealServer_Equal rs r) (k (vsKey vs)))"

definition DeleteRealServer :: "ipvs_env \<Rightarrow> VirtualServer \<Rightarrow> RealServer \<Rightarrow> (ipvs_kernel, unit) call" where
  "DeleteRealServer env vs rs k = (case iv_DeleteFails env vs rs of Some e \<Rightarrow> (Inl e, k) | None \<Rightarrow> (Inr (), without rs vs k))"

definition UpdateRealServer :: "ipvs_env \<Rightarrow> VirtualServer \<Rightarrow> RealServer \<Rightarrow> (ipvs_kernel, unit) call" where
  "UpdateRealServer env vs rs k =
     (case iv_UpdateFails env vs rs of
        Some e \<Rightarrow> (Inl e, k)
      | None \<Rightarrow> (Inr (), k(vsKey vs := map (\<lambda>r. if RealServer_Equal rs r then r\<lparr>rsv_Weight := rsv_Weight rs\<rparr> else r) (k (vsKey vs)))))"

section \<open>The list of servers to delete\<close>

record listItem =
  li_VirtualServer :: VirtualServer
  li_RealServer :: RealServer

definition GetUniqueRSName :: "VirtualServer \<Rightarrow> RealServer \<Rightarrow> string" where
  "GetUniqueRSName vs rs = VirtualServer_String vs @ ''/'' @ RealServer_String rs"

definition listItem_String :: "listItem \<Rightarrow> string" where
  "listItem_String g = GetUniqueRSName (li_VirtualServer g) (li_RealServer g)"

type_synonym rsList = "(string, listItem) gomap"

definition rsList_add :: "listItem \<Rightarrow> rsList \<Rightarrow> bool \<times> rsList" where
  "rsList_add rs q =
     (let uniqueRS = listItem_String rs
      in if map_of q uniqueRS \<noteq> None then (False, q) else (True, AList.update uniqueRS rs q))"

definition rsList_remove :: "listItem \<Rightarrow> rsList \<Rightarrow> bool \<times> rsList" where
  "rsList_remove rs q =
     (let uniqueRS = listItem_String rs
      in if map_of q uniqueRS \<noteq> None then (True, AList.delete uniqueRS q) else (False, q))"

definition rsList_len :: "rsList \<Rightarrow> nat" where
  "rsList_len q = length q"

definition rsList_exist :: "string \<Rightarrow> rsList \<Rightarrow> listItem option" where
  "rsList_exist uniqueRS q = map_of q uniqueRS"

section \<open>The manager\<close>

definition busy :: "RealServer \<Rightarrow> bool" where
  "busy rs \<longleftrightarrow> i64_add (rsv_ActiveConn rs) (rsv_InactiveConn rs) \<noteq> 0"

text \<open>The result of the handler is a flag and an error, both of which the callers look at.\<close>

fun deleteLoop :: "ipvs_env \<Rightarrow> listItem \<Rightarrow> RealServer list \<Rightarrow> ipvs_kernel \<Rightarrow> (bool \<times> goerr option) \<times> ipvs_kernel" where
  "deleteLoop env rsToDelete [] k = ((True, Some (Errorf ''failed to delete rs, can't find the real server'')), k)"
| "deleteLoop env rsToDelete (rs # rss) k =
     (if RealServer_Equal (li_RealServer rsToDelete) rs
      then (if IsRsGracefulTerminationNeeded (vsv_Protocol (li_VirtualServer rsToDelete)) \<and> busy rs then ((False, None), k)
            else (case DeleteRealServer env (li_VirtualServer rsToDelete) rs k of
                    (Inl err, k) \<Rightarrow> ((False, Some (Wrap ''delete destination'' err)), k)
                  | (Inr _, k) \<Rightarrow> ((True, None), k)))
      else deleteLoop env rsToDelete rss k)"

definition deleteRsFunc :: "ipvs_env \<Rightarrow> listItem \<Rightarrow> ipvs_kernel \<Rightarrow> (bool \<times> goerr option) \<times> ipvs_kernel" where
  "deleteRsFunc env rsToDelete k =
     (case GetRealServers env (li_VirtualServer rsToDelete) k of
        Inl err \<Rightarrow> ((False, Some err), k)
      | Inr rss \<Rightarrow> deleteLoop env rsToDelete rss k)"

text \<open>The visit of the map: \<open>names\<close> are its keys in the order they are visited.\<close>

fun flushList :: "ipvs_env \<Rightarrow> string list \<Rightarrow> rsList \<Rightarrow> ipvs_kernel \<Rightarrow> bool \<Rightarrow> bool \<times> rsList \<times> ipvs_kernel" where
  "flushList env [] q k success = (success, q, k)"
| "flushList env (name # names) q k success =
     (case map_of q name of
        None \<Rightarrow> flushList env names q k success
      | Some rs \<Rightarrow>
          (let ((deleted, err), k) = deleteRsFunc env rs k
           in flushList env names (if deleted then AList.delete (listItem_String rs) q else q) k (success \<and> err = None)))"

record GracefulTerminationManager =
  gt_rsList :: rsList
  gt_kernel :: ipvs_kernel

definition NewGracefulTerminationManager :: "ipvs_kernel \<Rightarrow> GracefulTerminationManager" where
  "NewGracefulTerminationManager k = \<lparr>gt_rsList = [], gt_kernel = k\<rparr>"

definition InTerminationList :: "string \<Rightarrow> GracefulTerminationManager \<Rightarrow> bool" where
  "InTerminationList uniqueRS m \<longleftrightarrow> rsList_exist uniqueRS (gt_rsList m) \<noteq> None"

definition GracefulDeleteRS ::
  "ipvs_env \<Rightarrow> VirtualServer \<Rightarrow> RealServer \<Rightarrow> GracefulTerminationManager \<Rightarrow> goerr option \<times> GracefulTerminationManager" where
  "GracefulDeleteRS env vs rs m =
     (let ((deleted, _), k) = deleteRsFunc env \<lparr>li_VirtualServer = vs, li_RealServer = rs\<rparr> (gt_kernel m)
      in if deleted then (None, m\<lparr>gt_kernel := k\<rparr>)
         else (let rs = rs\<lparr>rsv_Weight := 0\<rparr>
               in case UpdateRealServer env vs rs k of
                    (Inl err, k) \<Rightarrow> (Some err, m\<lparr>gt_kernel := k\<rparr>)
                  | (Inr _, k) \<Rightarrow>
                      (None, m\<lparr>gt_kernel := k, gt_rsList := snd (rsList_add \<lparr>li_VirtualServer = vs, li_RealServer = rs\<rparr> (gt_rsList m))\<rparr>)))"

definition tryDeleteRs :: "ipvs_env \<Rightarrow> string list \<Rightarrow> GracefulTerminationManager \<Rightarrow> GracefulTerminationManager" where
  "tryDeleteRs env order m =
     (let (_, q, k) = flushList env order (gt_rsList m) (gt_kernel m) True in m\<lparr>gt_rsList := q, gt_kernel := k\<rparr>)"

definition MoveRSOutofGracefulDeleteList ::
  "ipvs_env \<Rightarrow> string \<Rightarrow> GracefulTerminationManager \<Rightarrow> goerr option \<times> GracefulTerminationManager" where
  "MoveRSOutofGracefulDeleteList env uniqueRS m =
     (case rsList_exist uniqueRS (gt_rsList m) of
        None \<Rightarrow> (Some (Errorf ''failed to find rs''), m)
      | Some rsToDelete \<Rightarrow>
          (case DeleteRealServer env (li_VirtualServer rsToDelete) (li_RealServer rsToDelete) (gt_kernel m) of
             (Inl err, k) \<Rightarrow> (Some err, m\<lparr>gt_kernel := k\<rparr>)
           | (Inr _, k) \<Rightarrow> (None, m\<lparr>gt_kernel := k, gt_rsList := snd (rsList_remove rsToDelete (gt_rsList m))\<rparr>)))"

section \<open>Connections survive\<close>

text \<open>\<open>serves key rs k\<close>: the kernel still has the server, with the connections it had.\<close>

definition serves :: "vs_key \<Rightarrow> RealServer \<Rightarrow> ipvs_kernel \<Rightarrow> bool" where
  "serves key rs k \<longleftrightarrow> (\<exists>r\<in>set (k key). RealServer_Equal rs r \<and> busy r)"

text \<open>A virtual server has one real server per address and port.\<close>

definition kernel_ok :: "ipvs_kernel \<Rightarrow> bool" where
  "kernel_ok k \<longleftrightarrow> (\<forall>key. distinct (map (\<lambda>r. (rsv_Address r, rsv_Port r)) (k key)))"

lemma kernel_okD: "kernel_ok k \<Longrightarrow> distinct (map (\<lambda>r. (rsv_Address r, rsv_Port r)) (k key))"
  unfolding kernel_ok_def by blast

lemma kernel_okI: "(\<And>key. distinct (map (\<lambda>r. (rsv_Address r, rsv_Port r)) (k key))) \<Longrightarrow> kernel_ok k"
  unfolding kernel_ok_def by blast

lemma kernel_ok_without: "kernel_ok k \<Longrightarrow> kernel_ok (without rs vs k)"
  by (rule kernel_okI) (simp add: without_def kernel_okD distinct_map_filter)

lemma deleteLoop_serves:
  assumes "deleteLoop env it rss k = (res, k')" "set rss \<subseteq> set (k (vsKey (li_VirtualServer it)))"
    and "serves key rs k" "IsRsGracefulTerminationNeeded (snd (snd key))" "kernel_ok k"
  shows "serves key rs k'"
  using assms(1,2)
proof (induction rss)
  case (Cons r rss)
  show ?case
  proof (cases "RealServer_Equal (li_RealServer it) r \<and> \<not> (IsRsGracefulTerminationNeeded (vsv_Protocol (li_VirtualServer it)) \<and> busy r)")
    case True
    then have k': "k' = k \<or> k' = without r (li_VirtualServer it) k"
      using Cons.prems(1) by (auto simp: DeleteRealServer_def split: option.splits)
    obtain x where x: "x \<in> set (k key)" "RealServer_Equal rs x" "busy x" using assms(3) by (auto simp: serves_def)
    have "\<not> RealServer_Equal r x" if "key = vsKey (li_VirtualServer it)"
    proof
      assume "RealServer_Equal r x"
      then have "r = x" using kernel_okD [OF assms(5), of key] x(1) Cons.prems(2) that
        by (auto simp: RealServer_Equal_def distinct_map inj_on_def)
      then show False using True x(3) assms(4) that by (simp add: vsKey_def)
    qed
    then show ?thesis using k' x assms(3) by (cases "key = vsKey (li_VirtualServer it)") (auto simp: without_def serves_def)
  next
    case False
    then show ?thesis using Cons assms(3) by (auto split: if_splits)
  qed
qed (use assms(3) in simp)

lemma deleteLoop_kernel: "deleteLoop env it rss k = (res, k') \<Longrightarrow> kernel_ok k \<Longrightarrow> kernel_ok k'"
  by (induction rss) (auto simp: DeleteRealServer_def kernel_ok_without split: if_splits option.splits)

lemma deleteRsFunc_serves:
  assumes "deleteRsFunc env it k = (res, k')" "kernel_ok k"
  shows "kernel_ok k'" "IsRsGracefulTerminationNeeded (snd (snd key)) \<Longrightarrow> serves key rs k \<Longrightarrow> serves key rs k'"
  using assms deleteLoop_kernel deleteLoop_serves [of env it _ k res k' key rs]
  by (auto simp: deleteRsFunc_def GetRealServers_def split: option.splits)

lemma update_serves:
  assumes "UpdateRealServer env vs rs0 k = (res, k')" "kernel_ok k"
  shows "kernel_ok k'" "serves key rs k \<Longrightarrow> serves key rs k'"
proof -
  let ?u = "\<lambda>r. if RealServer_Equal rs0 r then r\<lparr>rsv_Weight := rsv_Weight rs0\<rparr> else r"
  have k': "k' = k \<or> k' = k(vsKey vs := map ?u (k (vsKey vs)))"
    using assms(1) by (auto simp: UpdateRealServer_def split: option.splits)
  have same: "(\<lambda>r. (rsv_Address r, rsv_Port r)) \<circ> ?u = (\<lambda>r. (rsv_Address r, rsv_Port r))" by auto
  have "kernel_ok (k(vsKey vs := map ?u (k (vsKey vs))))" by (rule kernel_okI) (simp add: same kernel_okD [OF assms(2)])
  then show "kernel_ok k'" using k' assms(2) by blast
  have u: "RealServer_Equal rs (?u r) = RealServer_Equal rs r" "busy (?u r) = busy r" for r
    by (simp_all add: RealServer_Equal_def busy_def)
  show "serves key rs k'" if s: "serves key rs k"
  proof -
    obtain x where x: "x \<in> set (k key)" "RealServer_Equal rs x" "busy x" using s by (auto simp: serves_def)
    then have "?u x \<in> set (map ?u (k key))" unfolding set_map by (intro imageI)
    then have "serves key rs (k(vsKey vs := map ?u (k (vsKey vs))))" if "key = vsKey vs"
      unfolding serves_def using that x u [of x] by (intro bexI [of _ "?u x"]) simp_all
    then show ?thesis using k' s by (cases "key = vsKey vs") (auto simp: serves_def)
  qed
qed

lemma flushList_serves:
  assumes "flushList env names q k success = (ok, q', k')" "kernel_ok k"
  shows "kernel_ok k' \<and> (IsRsGracefulTerminationNeeded (snd (snd key)) \<longrightarrow> serves key rs k \<longrightarrow> serves key rs k')"
  using assms
proof (induction env names q k success rule: flushList.induct)
  case (2 env name names q k success)
  show ?case
  proof (cases "map_of q name")
    case None
    then show ?thesis using 2 by simp
  next
    case (Some it)
    obtain d e k1 where d: "deleteRsFunc env it k = ((d, e), k1)" by (metis surj_pair)
    then show ?thesis using 2(2) [OF Some d [symmetric] refl] 2(3) deleteRsFunc_serves [OF d 2(4)] Some by (simp add: Let_def)
  qed
qed simp

text \<open>The calls of the proxier that are to be graceful, and the periodic check.\<close>

datatype gt_op = GracefulDelete VirtualServer RealServer | TryDelete "string list"

fun gt_step :: "ipvs_env \<Rightarrow> gt_op \<Rightarrow> GracefulTerminationManager \<Rightarrow> GracefulTerminationManager" where
  "gt_step env (GracefulDelete vs rs) m = snd (GracefulDeleteRS env vs rs m)"
| "gt_step env (TryDelete order) m = tryDeleteRs env order m"

lemma gt_step_serves:
  assumes "kernel_ok (gt_kernel m)"
  shows "kernel_ok (gt_kernel (gt_step env op m)) \<and>
    (IsRsGracefulTerminationNeeded (snd (snd key)) \<longrightarrow> serves key rs (gt_kernel m) \<longrightarrow> serves key rs (gt_kernel (gt_step env op m)))"
proof (cases op)
  case (GracefulDelete vs rs0)
  obtain d e k1 where d: "deleteRsFunc env \<lparr>li_VirtualServer = vs, li_RealServer = rs0\<rparr> (gt_kernel m) = ((d, e), k1)" by (metis surj_pair)
  obtain r k2 where u: "UpdateRealServer env vs (rs0\<lparr>rsv_Weight := 0\<rparr>) k1 = (r, k2)" by (metis surj_pair)
  note 1 = deleteRsFunc_serves [OF d assms]
  note 2 = update_serves [OF u 1(1)]
  have "gt_kernel (gt_step env op m) = (if d then k1 else k2)"
    by (simp add: GracefulDelete GracefulDeleteRS_def d u Let_def split: sum.split)
  then show ?thesis using 1 2 by simp
next
  case (TryDelete order)
  obtain ok q k1 where f: "flushList env order (gt_rsList m) (gt_kernel m) True = (ok, q, k1)" by (metis surj_pair)
  then show ?thesis using flushList_serves [OF f assms] by (simp add: TryDelete tryDeleteRs_def)
qed

text \<open>
  C8. No connection is cut: a real server of a protocol other than UDP and SCTP that has connections stays in the kernel through any
  sequence of graceful deletions, of it or of others, and of periodic checks, whatever calls of the kernel fail.
\<close>

theorem connections_survive:
  assumes "kernel_ok (gt_kernel m)" "IsRsGracefulTerminationNeeded (snd (snd key))" "serves key rs (gt_kernel m)"
  shows "serves key rs (gt_kernel (fold (gt_step env) ops m))"
  using assms
proof (induction ops arbitrary: m)
  case (Cons op ops)
  then show ?case using gt_step_serves [OF Cons.prems(1), of env op key rs] by simp
qed simp

section \<open>Drained servers go\<close>

definition held :: "listItem \<Rightarrow> ipvs_kernel \<Rightarrow> bool" where
  "held it k \<longleftrightarrow> IsRsGracefulTerminationNeeded (vsv_Protocol (li_VirtualServer it)) \<and> serves (vsKey (li_VirtualServer it)) (li_RealServer it) k"

definition gone :: "listItem \<Rightarrow> ipvs_kernel \<Rightarrow> bool" where
  "gone it k \<longleftrightarrow> list_all (\<lambda>r. \<not> RealServer_Equal (li_RealServer it) r) (k (vsKey (li_VirtualServer it)))"

definition no_failures :: "ipvs_env \<Rightarrow> bool" where
  "no_failures env \<longleftrightarrow> iv_GetFails env = (\<lambda>_. None) \<and> iv_DeleteFails env = (\<lambda>_ _. None) \<and> iv_UpdateFails env = (\<lambda>_ _. None)"

definition list_ok :: "rsList \<Rightarrow> bool" where
  "list_ok q \<longleftrightarrow> wf_map q \<and> (\<forall>x\<in>set q. fst x = listItem_String (snd x))"

lemma without_cong: "RealServer_Equal rs r \<Longrightarrow> without r vs k = without rs vs k"
  by (simp add: without_def RealServer_Equal_def)

lemma without_absent: "\<forall>r\<in>set (k (vsKey vs)). \<not> RealServer_Equal rs r \<Longrightarrow> without rs vs k = k"
  by (auto simp: without_def fun_eq_iff)

lemma deleteLoop_exact:
  assumes "no_failures env"
  shows "\<exists>err. deleteLoop env it rss k =
    (case find (RealServer_Equal (li_RealServer it)) rss of
       None \<Rightarrow> ((True, err), k)
     | Some r \<Rightarrow> if IsRsGracefulTerminationNeeded (vsv_Protocol (li_VirtualServer it)) \<and> busy r then ((False, err), k)
         else ((True, err), without (li_RealServer it) (li_VirtualServer it) k))"
  using assms by (induction rss) (auto simp: DeleteRealServer_def no_failures_def without_cong)

lemma deleteRsFunc_exact:
  assumes "no_failures env" "kernel_ok k"
  shows "\<exists>err. deleteRsFunc env it k = ((\<not> held it k, err), if held it k then k else without (li_RealServer it) (li_VirtualServer it) k)"
proof (cases "find (RealServer_Equal (li_RealServer it)) (k (vsKey (li_VirtualServer it)))")
  case None
  then have absent: "\<forall>r\<in>set (k (vsKey (li_VirtualServer it))). \<not> RealServer_Equal (li_RealServer it) r" by (auto simp: find_None_iff)
  then have "\<not> held it k" by (auto simp: held_def serves_def)
  moreover have "without (li_RealServer it) (li_VirtualServer it) k = k" by (rule without_absent) (rule absent)
  ultimately show ?thesis using deleteLoop_exact [OF assms(1), of it "k (vsKey (li_VirtualServer it))" k] None assms(1)
    by (simp add: deleteRsFunc_def GetRealServers_def no_failures_def)
next
  case (Some r)
  then have r: "r \<in> set (k (vsKey (li_VirtualServer it)))" "RealServer_Equal (li_RealServer it) r"
    by (auto simp: find_Some_iff)
  have inj: "inj_on (\<lambda>r. (rsv_Address r, rsv_Port r)) (set (k (vsKey (li_VirtualServer it))))"
    using kernel_okD [OF assms(2)] by (simp add: distinct_map)
  have "x = r" if "x \<in> set (k (vsKey (li_VirtualServer it)))" "RealServer_Equal (li_RealServer it) x" for x
    by (rule inj_onD [OF inj]) (use r that in \<open>simp_all add: RealServer_Equal_def\<close>)
  then have "serves (vsKey (li_VirtualServer it)) (li_RealServer it) k \<longleftrightarrow> busy r" using r unfolding serves_def by metis
  then have "held it k \<longleftrightarrow> IsRsGracefulTerminationNeeded (vsv_Protocol (li_VirtualServer it)) \<and> busy r" by (simp add: held_def)
  then show ?thesis using deleteLoop_exact [OF assms(1), of it "k (vsKey (li_VirtualServer it))" k] Some assms(1)
    by (auto simp: deleteRsFunc_def GetRealServers_def no_failures_def)
qed

text \<open>Items of different names are different servers, so that the deletion of one does not change what becomes of the other.\<close>

lemma held_without:
  assumes "listItem_String it \<noteq> listItem_String it'"
  shows "held it' (without (li_RealServer it) (li_VirtualServer it) k) = held it' k"
proof -
  have "\<not> RealServer_Equal (li_RealServer it) r"
    if "vsKey (li_VirtualServer it) = vsKey (li_VirtualServer it')" "RealServer_Equal (li_RealServer it') r" for r
    using assms that by (auto simp: vsKey_def RealServer_Equal_def listItem_String_def GetUniqueRSName_def VirtualServer_String_def RealServer_String_def)
  then show ?thesis by (auto simp: held_def serves_def without_def)
qed

lemma gone_without: "gone it k \<Longrightarrow> gone it (without rs vs k)" "gone it (without (li_RealServer it) (li_VirtualServer it) k)"
  by (auto simp: gone_def without_def list_all_iff)

lemma filter_first:
  assumes "name \<notin> set names" "\<And>m it'. (m, it') \<in> set q \<Longrightarrow> m \<noteq> name \<Longrightarrow> h1 it' = h it'" "\<And>it'. (name, it') \<in> set q \<Longrightarrow> it' = it"
  shows "filter (\<lambda>(n, it). n \<in> set names \<longrightarrow> h1 it) (if \<not> h it then AList.delete name q else q) =
    filter (\<lambda>(n, it). n \<in> set (name # names) \<longrightarrow> h it) q"
proof -
  have "filter (\<lambda>(n, it). n \<in> set names \<longrightarrow> h1 it) (if \<not> h it then AList.delete name q else q) =
    filter (\<lambda>x. (h it \<or> fst x \<noteq> name) \<and> (fst x \<in> set names \<longrightarrow> h1 (snd x))) q"
    by (auto simp: AList.delete_eq case_prod_beta intro!: filter_cong)
  also have "\<dots> = filter (\<lambda>(n, it). n \<in> set (name # names) \<longrightarrow> h it) q"
  proof (rule filter_cong [OF refl])
    fix x
    assume x: "x \<in> set q"
    show "((h it \<or> fst x \<noteq> name) \<and> (fst x \<in> set names \<longrightarrow> h1 (snd x))) = (case x of (n, it) \<Rightarrow> n \<in> set (name # names) \<longrightarrow> h it)"
    proof (cases "fst x = name")
      case True
      then have "snd x = it" using x assms(3) [of "snd x"] by (metis prod.collapse)
      then show ?thesis using True assms(1) by (simp add: case_prod_beta)
    next
      case False
      then show ?thesis using x assms(2) [of "fst x" "snd x"] by (simp add: case_prod_beta)
    qed
  qed
  finally show ?thesis .
qed

lemma flushList_exact:
  assumes "no_failures env" "kernel_ok k" "list_ok q" "distinct names" "flushList env names q k success = (ok, q', k')"
  shows "q' = filter (\<lambda>(n, it). n \<in> set names \<longrightarrow> held it k) q \<and> (\<forall>it. gone it k \<longrightarrow> gone it k') \<and>
    (\<forall>n it. (n, it) \<in> set q \<longrightarrow> n \<in> set names \<longrightarrow> \<not> held it k \<longrightarrow> gone it k')"
  using assms(2-5)
proof (induction names arbitrary: q k success)
  case Nil
  then show ?case by auto
next
  case (Cons name names)
  show ?case
  proof (cases "map_of q name")
    case None
    then have other: "m \<noteq> name" if "(m, it) \<in> set q" for m it using that by (force simp: map_of_eq_None_iff)
    have "distinct names" "flushList env names q k success = (ok, q', k')" using Cons.prems(3,4) None by simp_all
    note ih = Cons.IH [OF Cons.prems(1,2) this]
    have "filter (\<lambda>(n, it). n \<in> set names \<longrightarrow> held it k) q = filter (\<lambda>(n, it). n \<in> set (name # names) \<longrightarrow> held it k) q"
      by (rule filter_cong [OF refl]) (use other in auto)
    then show ?thesis using ih other by auto
  next
    case (Some it)
    have n: "name = listItem_String it" using Cons.prems(2) map_of_SomeD [OF Some] by (auto simp: list_ok_def)
    define k1 where "k1 = (if held it k then k else without (li_RealServer it) (li_VirtualServer it) k)"
    define q1 where "q1 = (if \<not> held it k then AList.delete (listItem_String it) q else q)"
    obtain err where d: "deleteRsFunc env it k = ((\<not> held it k, err), k1)"
      using deleteRsFunc_exact [OF assms(1) Cons.prems(1)] unfolding k1_def by blast
    have k: "kernel_ok k1" using Cons.prems(1) by (simp add: k1_def kernel_ok_without)
    have q: "list_ok q1" using Cons.prems(2) by (auto simp: q1_def list_ok_def AList.delete_eq distinct_map_filter)
    have dn: "name \<notin> set names" "distinct names" using Cons.prems(3) by simp_all
    have "flushList env names q1 k1 (success \<and> err = None) = (ok, q', k')" using Cons.prems(4) Some d by (simp add: q1_def)
    note ih = Cons.IH [OF k q dn(2) this]
    have held: "held it' k1 = held it' k" if "(m, it') \<in> set q" "m \<noteq> name" for m it'
      using that Cons.prems(2) held_without [of it it' k] n by (auto simp: k1_def list_ok_def)
    have same: "it' = it" if "(name, it') \<in> set q" for it'
      using that Cons.prems(2) Some by (metis list_ok_def map_of_is_SomeI option.inject)
    have "q' = filter (\<lambda>(n, it). n \<in> set (name # names) \<longrightarrow> held it k) q"
    proof -
      have "q' = filter (\<lambda>(n, it). n \<in> set names \<longrightarrow> held it k1) q1" using ih by blast
      also have "\<dots> = filter (\<lambda>(n, it). n \<in> set (name # names) \<longrightarrow> held it k) q"
        unfolding q1_def n [symmetric] by (rule filter_first) (use dn(1) held same in blast)+
      finally show ?thesis .
    qed
    moreover have "gone it' k \<longrightarrow> gone it' k'" for it' using ih gone_without(1) [of it' k] by (auto simp: k1_def)
    moreover have "gone it' k'" if "(m, it') \<in> set q" "m \<in> set (name # names)" "\<not> held it' k" for m it'
    proof (cases "m = name")
      case True
      then have "it' = it" "gone it k1" using same that gone_without(2) [of it k] by (auto simp: k1_def)
      then show ?thesis using ih by blast
    next
      case False
      then have "(m, it') \<in> set q1" "m \<in> set names" "\<not> held it' k1" using that held n by (auto simp: q1_def AList.delete_eq)
      then show ?thesis using ih by blast
    qed
    ultimately show ?thesis by blast
  qed
qed

text \<open>
  C22. A periodic check keeps on the list exactly the servers that still have connections of a protocol that waits for them; every other one is
  taken off the list and is no longer in the kernel. So a server goes at the first check after its last connection. Assumed is that no
  call of the kernel fails, that the kernel has one real server per address and port of a virtual server, that the list has each server under its own name,
  and that the check visits every entry of the list once, in any order.
\<close>

theorem drained_servers_go:
  assumes "no_failures env" "kernel_ok (gt_kernel m)" "list_ok (gt_rsList m)" "distinct order" "set order = fst ` set (gt_rsList m)"
  shows "gt_rsList (tryDeleteRs env order m) = filter (\<lambda>x. held (snd x) (gt_kernel m)) (gt_rsList m) \<and>
    (\<forall>x\<in>set (gt_rsList m). \<not> held (snd x) (gt_kernel m) \<longrightarrow> gone (snd x) (gt_kernel (tryDeleteRs env order m)))"
proof -
  obtain ok q k where f: "flushList env order (gt_rsList m) (gt_kernel m) True = (ok, q, k)" by (metis surj_pair)
  note e = flushList_exact [OF assms(1-4) f]
  have "q = filter (\<lambda>x. held (snd x) (gt_kernel m)) (gt_rsList m)"
  proof -
    have "fst x \<in> set order" if "x \<in> set (gt_rsList m)" for x using that assms(5) by blast
    then have "filter (\<lambda>(n, it). n \<in> set order \<longrightarrow> held it (gt_kernel m)) (gt_rsList m) = filter (\<lambda>x. held (snd x) (gt_kernel m)) (gt_rsList m)"
      by (intro filter_cong [OF refl]) (simp add: case_prod_beta)
    then show ?thesis using e by simp
  qed
  moreover have "gone (snd x) k" if "x \<in> set (gt_rsList m)" "\<not> held (snd x) (gt_kernel m)" for x
  proof -
    have "fst x \<in> set order" using that(1) assms(5) by blast
    then show ?thesis using e that by (metis prod.collapse)
  qed
  ultimately show ?thesis by (simp add: tryDeleteRs_def f)
qed

text \<open>The list is well-formed in every state the manager reaches, so that the check finds each server under its name.\<close>

lemma list_ok_delete: "list_ok q \<Longrightarrow> list_ok (AList.delete n q)"
  by (auto simp: list_ok_def AList.delete_eq distinct_map_filter)

lemma update_member: "x \<in> set (AList.update n it q) \<Longrightarrow> x = (n, it) \<or> x \<in> set q"
  by (induction q) (auto split: if_splits)

lemma list_ok_add: "list_ok q \<Longrightarrow> list_ok (snd (rsList_add it q))"
  by (auto simp: list_ok_def rsList_add_def Let_def distinct_update map_of_eq_None_iff dest!: update_member)

lemma list_ok_flush: "list_ok q \<Longrightarrow> flushList env names q k success = (ok, q', k') \<Longrightarrow> list_ok q'"
proof (induction names arbitrary: q k success)
  case (Cons name names)
  show ?case
  proof (cases "map_of q name")
    case None
    then show ?thesis using Cons by simp
  next
    case (Some it)
    obtain del err k1 where d: "deleteRsFunc env it k = ((del, err), k1)" by (metis surj_pair)
    have "flushList env names (if del then AList.delete (listItem_String it) q else q) k1 (success \<and> err = None) = (ok, q', k')"
      using Cons.prems(2) Some d by simp
    then show ?thesis by (rule Cons.IH [rotated]) (simp add: Cons.prems(1) list_ok_delete)
  qed
qed simp

lemma list_ok_step: "list_ok (gt_rsList m) \<Longrightarrow> list_ok (gt_rsList (gt_step env op m))"
  by (cases op) (auto simp: GracefulDeleteRS_def tryDeleteRs_def Let_def list_ok_add list_ok_flush split: prod.splits sum.splits)

section \<open>Witnesses\<close>

definition example_vs :: VirtualServer where
  "example_vs = \<lparr>vsv_Address = Some ''10.96.0.1'', vsv_Protocol = ''TCP'', vsv_Port = 80, vsv_Scheduler = ''rr'', vsv_Flags = 0, vsv_Timeout = 0\<rparr>"

definition example_rs :: "int \<Rightarrow> RealServer" where
  "example_rs conns = \<lparr>rsv_Address = Some ''10.0.0.1'', rsv_Port = 80, rsv_Weight = 1, rsv_ActiveConn = conns, rsv_InactiveConn = 0\<rparr>"

definition example_ipvs_env :: ipvs_env where
  "example_ipvs_env = \<lparr>iv_GetFails = (\<lambda>_. None), iv_DeleteFails = (\<lambda>_ _. None), iv_UpdateFails = (\<lambda>_ _. None)\<rparr>"

definition example_gtm :: "int \<Rightarrow> GracefulTerminationManager" where
  "example_gtm conns = NewGracefulTerminationManager (\<lambda>key. if key = vsKey example_vs then [example_rs conns] else [])"

lemma example_kernel_ok: "kernel_ok (gt_kernel (example_gtm conns))"
  by (rule kernel_okI) (simp add: example_gtm_def NewGracefulTerminationManager_def)

text \<open>A server with two connections is deleted gracefully and checked: it is still there.\<close>

theorem connections_survive_witness:
  "serves (vsKey example_vs) (example_rs 2)
     (gt_kernel (fold (gt_step example_ipvs_env)
       [GracefulDelete example_vs (example_rs 2), TryDelete [GetUniqueRSName example_vs (example_rs 2)]] (example_gtm 2)))"
proof (rule connections_survive [OF example_kernel_ok])
  show "IsRsGracefulTerminationNeeded (snd (snd (vsKey example_vs)))" by code_simp
  show "serves (vsKey example_vs) (example_rs 2) (gt_kernel (example_gtm 2))"
    by (simp add: serves_def example_gtm_def NewGracefulTerminationManager_def RealServer_Equal_def busy_def example_rs_def i64_add_id is_i64_def
        MinInt64_def MaxInt64_def)
qed

theorem drained_servers_go_witness:
  "gt_rsList (tryDeleteRs example_ipvs_env [GetUniqueRSName example_vs (example_rs 0)]
     ((example_gtm 0)\<lparr>gt_rsList := [(GetUniqueRSName example_vs (example_rs 0), \<lparr>li_VirtualServer = example_vs, li_RealServer = example_rs 0\<rparr>)]\<rparr>)) = []"
proof -
  let ?it = "\<lparr>li_VirtualServer = example_vs, li_RealServer = example_rs 0\<rparr>"
  let ?m = "(example_gtm 0)\<lparr>gt_rsList := [(GetUniqueRSName example_vs (example_rs 0), ?it)]\<rparr>"
  have "\<not> held ?it (gt_kernel ?m)"
    by (simp add: held_def serves_def example_gtm_def NewGracefulTerminationManager_def busy_def example_rs_def i64_add_id is_i64_def MinInt64_def
        MaxInt64_def)
  moreover have "no_failures example_ipvs_env" by (simp add: no_failures_def example_ipvs_env_def)
  moreover have "kernel_ok (gt_kernel ?m)" using example_kernel_ok by simp
  moreover have "list_ok (gt_rsList ?m)" by (simp add: list_ok_def listItem_String_def)
  ultimately show ?thesis using drained_servers_go [of example_ipvs_env ?m "[GetUniqueRSName example_vs (example_rs 0)]"] by simp
qed

end
