(* ===== verification/Ipvs_Handle.thy ===== *)
theory Ipvs_Handle
  imports Graceful_Termination Conntrack
begin

text \<open>
  How the ipvs mode talks to the kernel: the runner of \<open>wao-loadbalancer/pkg/proxy/ipvs/util/ipvs_linux.go\<close>, the netlink handle of
  \<open>ipvs/netlink_linux.go\<close> and \<open>AddressSet\<close> of \<open>util/utils.go\<close>. The libraries \<open>moby/ipvs\<close> and \<open>vishvananda/netlink\<close> and the
  interfaces of the node are parameters: records of functions on a state. Locks and logs are left out.
\<close>

unbundle bit_operations_syntax

section \<open>Services and destinations of the library\<close>

record libipvs_Service =
  ls_Address :: IP
  ls_Protocol :: int
  ls_Port :: int
  ls_SchedName :: string
  ls_Flags :: int
  ls_Timeout :: int
  ls_Netmask :: int
  ls_AddressFamily :: int

record libipvs_Destination =
  ld_Address :: IP
  ld_Port :: int
  ld_Weight :: int
  ld_ActiveConnections :: int
  ld_InactiveConnections :: int

definition AF_INET :: int where "AF_INET = 2"
definition AF_INET6 :: int where "AF_INET6 = 10"

definition FlagHashed :: int where "FlagHashed = 0x2"

definition stringToProtocol :: "string \<Rightarrow> int" where
  "stringToProtocol protocol =
     (let p = ToLower protocol in if p = ''tcp'' then 6 else if p = ''udp'' then 17 else if p = ''sctp'' then 132 else 0)"

definition protocolToString :: "int \<Rightarrow> string" where
  "protocolToString proto = (if proto = 6 then ''TCP'' else if proto = 17 then ''UDP'' else if proto = 132 then ''SCTP'' else [])"

definition toVirtualServer :: "libipvs_Service option \<Rightarrow> VirtualServer result" where
  "toVirtualServer svc =
     (case svc of
        None \<Rightarrow> Inl (Errorf ''ipvs svc should not be empty'')
      | Some svc \<Rightarrow>
          if ls_Flags svc AND FlagHashed = 0 then Inl (Errorf ''Flags of successfully created IPVS service should enable the flag (2)'')
          else Inr \<lparr>vsv_Address = (if ls_Address svc = None then (if ls_AddressFamily svc = AF_INET then Some ''0.0.0.0'' else Some ''::'')
                                  else ls_Address svc),
                    vsv_Protocol = protocolToString (ls_Protocol svc), vsv_Port = ls_Port svc, vsv_Scheduler = ls_SchedName svc,
                    vsv_Flags = ls_Flags svc AND NOT FlagHashed, vsv_Timeout = ls_Timeout svc\<rparr>)"

definition toRealServer :: "libipvs_Destination option \<Rightarrow> RealServer result" where
  "toRealServer dst =
     (case dst of
        None \<Rightarrow> Inl (Errorf ''ipvs destination should not be empty'')
      | Some dst \<Rightarrow> Inr \<lparr>rsv_Address = ld_Address dst, rsv_Port = ld_Port dst, rsv_Weight = ld_Weight dst,
            rsv_ActiveConn = ld_ActiveConnections dst, rsv_InactiveConn = ld_InactiveConnections dst\<rparr>)"

definition toIPVSService :: "'z util_env_scheme \<Rightarrow> VirtualServer option \<Rightarrow> libipvs_Service result" where
  "toIPVSService env vs =
     (case vs of
        None \<Rightarrow> Inl (Errorf ''virtual server should not be empty'')
      | Some vs \<Rightarrow>
          (let v4 = (case vsv_Address vs of None \<Rightarrow> False | Some a \<Rightarrow> ue_To4 env a)
           in Inr \<lparr>ls_Address = vsv_Address vs, ls_Protocol = stringToProtocol (vsv_Protocol vs), ls_Port = vsv_Port vs,
                   ls_SchedName = vsv_Scheduler vs, ls_Flags = vsv_Flags vs, ls_Timeout = vsv_Timeout vs,
                   ls_Netmask = (if v4 then 0xffffffff else 128), ls_AddressFamily = (if v4 then AF_INET else AF_INET6)\<rparr>))"

definition toIPVSDestination :: "RealServer option \<Rightarrow> libipvs_Destination result" where
  "toIPVSDestination rs =
     (case rs of
        None \<Rightarrow> Inl (Errorf ''real server should not be empty'')
      | Some rs \<Rightarrow> Inr \<lparr>ld_Address = rsv_Address rs, ld_Port = rsv_Port rs, ld_Weight = rsv_Weight rs, ld_ActiveConnections = 0,
            ld_InactiveConnections = 0\<rparr>)"

section \<open>The runner\<close>

record 's ipvs_handle =
  ih_NewService :: "libipvs_Service \<Rightarrow> ('s, unit) call"
  ih_UpdateService :: "libipvs_Service \<Rightarrow> ('s, unit) call"
  ih_DelService :: "libipvs_Service \<Rightarrow> ('s, unit) call"
  ih_GetService :: "libipvs_Service \<Rightarrow> ('s, libipvs_Service option) call"
  ih_GetServices :: "('s, libipvs_Service option list) call"
  ih_Flush :: "('s, unit) call"
  ih_NewDestination :: "libipvs_Service \<Rightarrow> libipvs_Destination \<Rightarrow> ('s, unit) call"
  ih_DelDestination :: "libipvs_Service \<Rightarrow> libipvs_Destination \<Rightarrow> ('s, unit) call"
  ih_UpdateDestination :: "libipvs_Service \<Rightarrow> libipvs_Destination \<Rightarrow> ('s, unit) call"
  ih_GetDestinations :: "libipvs_Service \<Rightarrow> ('s, libipvs_Destination option list) call"
  ih_SetConfig :: "int \<Rightarrow> int \<Rightarrow> int \<Rightarrow> ('s, unit) call"

definition lift_res :: "'a result \<Rightarrow> ('s, 'a) call" where
  "lift_res r s = (r, s)"

definition wrap_err :: "string \<Rightarrow> ('s, 'a) call \<Rightarrow> ('s, 'a) call" where
  "wrap_err msg m s = (case m s of (Inl e, s) \<Rightarrow> (Inl (Wrap msg e), s) | (Inr x, s) \<Rightarrow> (Inr x, s))"

definition with_service :: "'z util_env_scheme \<Rightarrow> VirtualServer option \<Rightarrow> (libipvs_Service \<Rightarrow> ('s, 'a) call) \<Rightarrow> ('s, 'a) call" where
  "with_service env vs k =
     then_do (wrap_err ''could not convert local virtual server to IPVS service'' (lift_res (toIPVSService env vs))) k"

definition with_destination :: "RealServer option \<Rightarrow> (libipvs_Destination \<Rightarrow> ('s, 'a) call) \<Rightarrow> ('s, 'a) call" where
  "with_destination rs k =
     then_do (wrap_err ''could not convert local real server to IPVS destination'' (lift_res (toIPVSDestination rs))) k"

definition runner_AddVirtualServer :: "'z util_env_scheme \<Rightarrow> 's ipvs_handle \<Rightarrow> VirtualServer option \<Rightarrow> ('s, unit) call" where
  "runner_AddVirtualServer env h vs = with_service env vs (ih_NewService h)"

definition runner_UpdateVirtualServer :: "'z util_env_scheme \<Rightarrow> 's ipvs_handle \<Rightarrow> VirtualServer option \<Rightarrow> ('s, unit) call" where
  "runner_UpdateVirtualServer env h vs = with_service env vs (ih_UpdateService h)"

definition runner_DeleteVirtualServer :: "'z util_env_scheme \<Rightarrow> 's ipvs_handle \<Rightarrow> VirtualServer option \<Rightarrow> ('s, unit) call" where
  "runner_DeleteVirtualServer env h vs = with_service env vs (ih_DelService h)"

definition runner_GetVirtualServer :: "'z util_env_scheme \<Rightarrow> 's ipvs_handle \<Rightarrow> VirtualServer option \<Rightarrow> ('s, VirtualServer) call" where
  "runner_GetVirtualServer env h vs = with_service env vs (\<lambda>svc.
     then_do (wrap_err ''could not get IPVS service'' (ih_GetService h svc)) (\<lambda>ipvsSvc.
       wrap_err ''could not convert IPVS service to local virtual server'' (lift_res (toVirtualServer ipvsSvc))))"

fun convert_all :: "('x \<Rightarrow> 'a result) \<Rightarrow> string \<Rightarrow> 'x list \<Rightarrow> 'a list result" where
  "convert_all f msg [] = Inr []"
| "convert_all f msg (x # xs) = (case f x of Inl e \<Rightarrow> Inl (Wrap msg e) | Inr y \<Rightarrow> res_bind (convert_all f msg xs) (\<lambda>ys. Inr (y # ys)))"

definition runner_GetVirtualServers :: "'s ipvs_handle \<Rightarrow> ('s, VirtualServer list) call" where
  "runner_GetVirtualServers h =
     then_do (wrap_err ''could not get IPVS services'' (ih_GetServices h)) (\<lambda>ipvsSvcs.
       lift_res (convert_all toVirtualServer ''could not convert IPVS service to local virtual server'' ipvsSvcs))"

definition runner_Flush :: "'s ipvs_handle \<Rightarrow> ('s, unit) call" where
  "runner_Flush h = ih_Flush h"

definition runner_AddRealServer :: "'z util_env_scheme \<Rightarrow> 's ipvs_handle \<Rightarrow> VirtualServer option \<Rightarrow> RealServer option \<Rightarrow> ('s, unit) call" where
  "runner_AddRealServer env h vs rs = with_service env vs (\<lambda>svc. with_destination rs (ih_NewDestination h svc))"

definition runner_DeleteRealServer :: "'z util_env_scheme \<Rightarrow> 's ipvs_handle \<Rightarrow> VirtualServer option \<Rightarrow> RealServer option \<Rightarrow> ('s, unit) call" where
  "runner_DeleteRealServer env h vs rs = with_service env vs (\<lambda>svc. with_destination rs (ih_DelDestination h svc))"

definition runner_UpdateRealServer :: "'z util_env_scheme \<Rightarrow> 's ipvs_handle \<Rightarrow> VirtualServer option \<Rightarrow> RealServer option \<Rightarrow> ('s, unit) call" where
  "runner_UpdateRealServer env h vs rs = with_service env vs (\<lambda>svc. with_destination rs (ih_UpdateDestination h svc))"

definition runner_GetRealServers :: "'z util_env_scheme \<Rightarrow> 's ipvs_handle \<Rightarrow> VirtualServer option \<Rightarrow> ('s, RealServer list) call" where
  "runner_GetRealServers env h vs = with_service env vs (\<lambda>svc.
     then_do (wrap_err ''could not get IPVS destination for service'' (ih_GetDestinations h svc)) (\<lambda>dsts.
       lift_res (convert_all toRealServer ''could not convert IPVS destination to local real server'' dsts)))"

definition runner_ConfigureTimeouts :: "'s ipvs_handle \<Rightarrow> int \<Rightarrow> int \<Rightarrow> int \<Rightarrow> ('s, unit) call" where
  "runner_ConfigureTimeouts h tcpTimeout tcpFinTimeout udpTimeout = ih_SetConfig h tcpTimeout tcpFinTimeout udpTimeout"

section \<open>The handle of netlink\<close>

datatype nlerr = EEXIST | ENXIO | LinkNotFoundError | NlOther string

fun nlerr_err :: "nlerr \<Rightarrow> goerr" where
  "nlerr_err EEXIST = External ''file exists''"
| "nlerr_err ENXIO = External ''no such device or address''"
| "nlerr_err LinkNotFoundError = External ''Link not found''"
| "nlerr_err (NlOther m) = External m"

record ('s, 'l) netlink =
  nl_LinkByName :: "string \<Rightarrow> 's \<Rightarrow> nlerr + 'l"
  nl_isDummy :: "'l \<Rightarrow> bool"
  nl_AddrAdd :: "'l \<Rightarrow> IP \<Rightarrow> 's \<Rightarrow> nlerr option \<times> 's"
  nl_AddrDel :: "'l \<Rightarrow> IP \<Rightarrow> 's \<Rightarrow> nlerr option \<times> 's"
  nl_LinkAdd :: "string \<Rightarrow> 's \<Rightarrow> nlerr option \<times> 's"
  nl_LinkDel :: "'l \<Rightarrow> 's \<Rightarrow> nlerr option \<times> 's"
  nl_AddrList :: "'l \<Rightarrow> 's \<Rightarrow> nlerr + IP list"
  nl_InterfaceAddrs :: "'s \<Rightarrow> net_Addr list result"
  nl_Interfaces :: "'s \<Rightarrow> (string \<times> net_Addr list result) list result"
  nl_IsLinkLocalUnicast :: "IP \<Rightarrow> bool"
  nl_IsIPv6 :: "IP \<Rightarrow> bool"

definition EnsureAddressBind ::
  "'z util_env_scheme \<Rightarrow> ('s, 'l) netlink \<Rightarrow> string \<Rightarrow> string \<Rightarrow> ('s, bool) call" where
  "EnsureAddressBind env h address devName s =
     (case nl_LinkByName h devName s of
        Inl err \<Rightarrow> (Inl (Wrap (''error get interface: '' @ devName) (nlerr_err err)), s)
      | Inr dev \<Rightarrow>
          (case ne_ParseIPSloppy env address of
             None \<Rightarrow> (Inl (Errorf (''error parse ip address: '' @ address)), s)
           | Some a \<Rightarrow>
               (case nl_AddrAdd h dev (Some a) s of
                  (None, s) \<Rightarrow> (Inr False, s)
                | (Some err, s) \<Rightarrow> if err = EEXIST then (Inr True, s)
                    else (Inl (Wrap (''error bind address: '' @ address @ '' to interface: '' @ devName) (nlerr_err err)), s))))"

definition UnbindAddress :: "'z util_env_scheme \<Rightarrow> ('s, 'l) netlink \<Rightarrow> string \<Rightarrow> string \<Rightarrow> ('s, unit) call" where
  "UnbindAddress env h address devName s =
     (case nl_LinkByName h devName s of
        Inl err \<Rightarrow> (Inl (Wrap (''error get interface: '' @ devName) (nlerr_err err)), s)
      | Inr dev \<Rightarrow>
          (case ne_ParseIPSloppy env address of
             None \<Rightarrow> (Inl (Errorf (''error parse ip address: '' @ address)), s)
           | Some a \<Rightarrow>
               (case nl_AddrDel h dev (Some a) s of
                  (None, s) \<Rightarrow> (Inr (), s)
                | (Some err, s) \<Rightarrow> if err = ENXIO then (Inr (), s)
                    else (Inl (Wrap (''error unbind address: '' @ address @ '' from interface: '' @ devName) (nlerr_err err)), s))))"

text \<open>The flag tells that the device was there; it comes with the error of its creation.\<close>

definition EnsureDummyDevice :: "('s, 'l) netlink \<Rightarrow> string \<Rightarrow> 's \<Rightarrow> (bool \<times> nlerr option) \<times> 's" where
  "EnsureDummyDevice h devName s =
     (case nl_LinkByName h devName s of
        Inr _ \<Rightarrow> ((True, None), s)
      | Inl _ \<Rightarrow> (let (err, s) = nl_LinkAdd h devName s in ((False, err), s)))"

definition DeleteDummyDevice :: "('s, 'l) netlink \<Rightarrow> string \<Rightarrow> ('s, unit) call" where
  "DeleteDummyDevice h devName s =
     (case nl_LinkByName h devName s of
        Inl err \<Rightarrow> (if err = LinkNotFoundError then Inr () else Inl (Wrap (''error deleting a non-exist dummy device: '' @ devName) (nlerr_err err)), s)
      | Inr link \<Rightarrow>
          if \<not> nl_isDummy h link then (Inl (Errorf ''expect dummy device, got device type''), s)
          else (case nl_LinkDel h link s of (None, s) \<Rightarrow> (Inr (), s) | (Some err, s) \<Rightarrow> (Inl (nlerr_err err), s)))"

definition ListBindAddress :: "('s, 'l) netlink \<Rightarrow> string \<Rightarrow> 's \<Rightarrow> string list result" where
  "ListBindAddress h devName s =
     (case nl_LinkByName h devName s of
        Inl err \<Rightarrow> Inl (Wrap (''error get interface: '' @ devName) (nlerr_err err))
      | Inr dev \<Rightarrow>
          (case nl_AddrList h dev s of
             Inl err \<Rightarrow> Inl (Wrap (''error list bound address of interface: '' @ devName) (nlerr_err err))
           | Inr addrs \<Rightarrow> Inr (map IP_String addrs)))"

definition AddressSet :: "(IP \<Rightarrow> bool) \<Rightarrow> net_Addr list \<Rightarrow> string list" where
  "AddressSet isValid addrs =
     fold (\<lambda>a ips. case Addr_IP a of None \<Rightarrow> ips | Some ip \<Rightarrow> if isValid ip then List.insert (IP_String ip) ips else ips) addrs []"

definition isValidForSet :: "'z util_env_scheme \<Rightarrow> ('s, 'l) netlink \<Rightarrow> bool \<Rightarrow> IP \<Rightarrow> bool" where
  "isValidForSet env h isIPv6 ip \<longleftrightarrow>
     (if isIPv6 \<noteq> nl_IsIPv6 h ip then False
      else if isIPv6 \<and> nl_IsLinkLocalUnicast h ip then False
      else if ue_IsLoopback env ip then False
      else True)"

definition GetAllLocalAddresses :: "'z util_env_scheme \<Rightarrow> ('s, 'l) netlink \<Rightarrow> bool \<Rightarrow> 's \<Rightarrow> string list result" where
  "GetAllLocalAddresses env h isIPv6 s =
     (case nl_InterfaceAddrs h s of
        Inl err \<Rightarrow> Inl (Wrap ''Could not get addresses'' err)
      | Inr addr \<Rightarrow> Inr (AddressSet (isValidForSet env h isIPv6) addr))"

text \<open>\<open>InterfaceByName\<close> and \<open>Addrs\<close> are parameters of their own.\<close>

definition GetLocalAddresses ::
  "'z util_env_scheme \<Rightarrow> ('s, 'l) netlink \<Rightarrow> (string \<Rightarrow> 's \<Rightarrow> (string \<times> net_Addr list result) result) \<Rightarrow> bool \<Rightarrow> string \<Rightarrow> 's \<Rightarrow> string list result" where
  "GetLocalAddresses env h InterfaceByName isIPv6 dev s =
     (case InterfaceByName dev s of
        Inl err \<Rightarrow> Inl (Wrap (''Could not get interface '' @ dev) err)
      | Inr (name, Inl err) \<Rightarrow> Inl (Wrap (''Can't get addresses from '' @ name) err)
      | Inr (name, Inr addr) \<Rightarrow> Inr (AddressSet (isValidForSet env h isIPv6) addr))"

fun addrsExcept :: "string \<Rightarrow> (string \<times> net_Addr list result) list \<Rightarrow> net_Addr list" where
  "addrsExcept dev [] = []"
| "addrsExcept dev ((name, ifadr) # ifaces) =
     (if name = dev then addrsExcept dev ifaces
      else (case ifadr of Inl err \<Rightarrow> addrsExcept dev ifaces | Inr as \<Rightarrow> as @ addrsExcept dev ifaces))"

definition GetAllLocalAddressesExcept :: "'z util_env_scheme \<Rightarrow> ('s, 'l) netlink \<Rightarrow> bool \<Rightarrow> string \<Rightarrow> 's \<Rightarrow> string list result" where
  "GetAllLocalAddressesExcept env h isIPv6 dev s =
     (case nl_Interfaces h s of
        Inl err \<Rightarrow> Inl err
      | Inr ifaces \<Rightarrow> Inr (AddressSet (isValidForSet env h isIPv6) (addrsExcept dev ifaces)))"

section \<open>Kernel parameters\<close>

text \<open>The error of the read is dropped: the value that comes with it is compared.\<close>

definition EnsureSysctl ::
  "(string \<Rightarrow> 's \<Rightarrow> int \<times> goerr option) \<Rightarrow> (string \<Rightarrow> int \<Rightarrow> ('s, unit) call) \<Rightarrow> string \<Rightarrow> int \<Rightarrow> ('s, unit) call" where
  "EnsureSysctl GetSysctl SetSysctl name newVal s =
     (if fst (GetSysctl name s) \<noteq> newVal
      then wrap_err (''can't set sysctl '' @ name @ '' to '' @ Itoa newVal) (SetSysctl name newVal) s
      else (Inr (), s))"

section \<open>Properties\<close>

lemma flags_clear: "(f :: int) AND FlagHashed = 0 \<Longrightarrow> (f OR FlagHashed) AND NOT FlagHashed = f"
proof (rule bit_eqI)
  fix n
  assume "f AND FlagHashed = 0"
  then have "\<not> (bit f n \<and> bit FlagHashed n)" by (metis bit_0_eq bit_and_iff bot_apply bot_bool_def)
  then show "bit ((f OR FlagHashed) AND NOT FlagHashed) n = bit f n" by (auto simp: bit_simps)
qed

lemma flags_hashed: "((f :: int) OR FlagHashed) AND FlagHashed \<noteq> 0"
proof
  assume "(f OR FlagHashed) AND FlagHashed = 0"
  then have "\<not> bit ((f OR FlagHashed) AND FlagHashed) 1" by simp
  moreover have "bit FlagHashed 1" by (simp add: FlagHashed_def bit_iff_odd)
  ultimately show False by (simp add: bit_and_iff bit_or_iff)
qed

text \<open>
  A virtual server given to the kernel and read back is the one that was given, flags and protocol included, when it has an address, the protocol is
  written in capitals and the flag that the kernel adds is not among its own.
\<close>

theorem VirtualServer_round_trip:
  assumes "toIPVSService env (Some vs) = Inr svc" "vsv_Address vs \<noteq> None" "vsv_Protocol vs \<in> {''TCP'', ''UDP'', ''SCTP''}" "vsv_Flags vs AND FlagHashed = 0"
  shows "toVirtualServer (Some (svc\<lparr>ls_Flags := ls_Flags svc OR FlagHashed\<rparr>)) = Inr vs"
proof -
  have "stringToProtocol ''TCP'' = 6" "stringToProtocol ''UDP'' = 17" "stringToProtocol ''SCTP'' = 132" by code_simp+
  then have "protocolToString (stringToProtocol (vsv_Protocol vs)) = vsv_Protocol vs" using assms(3) by (auto simp: protocolToString_def)
  then show ?thesis using assms flags_clear [OF assms(4)] flags_hashed [of "vsv_Flags vs"]
    by (auto simp: toIPVSService_def toVirtualServer_def Let_def)
qed

lemma AddressSet_fold:
  "set (fold (\<lambda>a ips. case Addr_IP a of None \<Rightarrow> ips | Some ip \<Rightarrow> if isValid ip then List.insert (IP_String ip) ips else ips) addrs acc) =
   set acc \<union> {IP_String ip |ip a. a \<in> set addrs \<and> Addr_IP a = Some ip \<and> isValid ip}"
proof (induction addrs arbitrary: acc)
  case (Cons a addrs)
  show ?case
  proof (cases "Addr_IP a")
    case None
    then show ?thesis using Cons.IH [of acc] by auto
  next
    case (Some ip)
    then show ?thesis using Cons.IH [of acc] Cons.IH [of "List.insert (IP_String ip) acc"] by auto
  qed
qed simp

lemma AddressSet_set: "set (AddressSet isValid addrs) = {IP_String ip |ip a. a \<in> set addrs \<and> Addr_IP a = Some ip \<and> isValid ip}"
  unfolding AddressSet_def AddressSet_fold by simp

lemma addrsExcept_set: "a \<in> set (addrsExcept dev ifaces) \<longleftrightarrow> (\<exists>name as. (name, Inr as) \<in> set ifaces \<and> name \<noteq> dev \<and> a \<in> set as)"
  by (induction dev ifaces rule: addrsExcept.induct) (auto split: sum.splits)

text \<open>
  The local addresses except those of a device are exactly the addresses of the family, neither loopback nor link-local, that another interface has: an
  address that the device shares with another interface stays in, and an interface that cannot be read is skipped.
\<close>

theorem GetAllLocalAddressesExcept_exact:
  assumes "nl_Interfaces h s = Inr ifaces"
  shows "\<exists>ips. GetAllLocalAddressesExcept env h isIPv6 dev s = Inr ips \<and>
    (\<forall>t. t \<in> set ips \<longleftrightarrow> (\<exists>name as a ip. (name, Inr as) \<in> set ifaces \<and> name \<noteq> dev \<and> a \<in> set as \<and> Addr_IP a = Some ip \<and> t = IP_String ip \<and>
       nl_IsIPv6 h ip = isIPv6 \<and> \<not> (isIPv6 \<and> nl_IsLinkLocalUnicast h ip) \<and> \<not> ue_IsLoopback env ip))"
  unfolding GetAllLocalAddressesExcept_def using assms by (simp add: AddressSet_set addrsExcept_set isValidForSet_def) blast

section \<open>Witnesses\<close>

text \<open>An address on the device and on another interface.\<close>

definition example_netlink :: "('s, 'l) netlink" where
  "example_netlink = \<lparr>nl_LinkByName = (\<lambda>_ _. Inl LinkNotFoundError), nl_isDummy = (\<lambda>_. True), nl_AddrAdd = (\<lambda>_ _ s. (None, s)),
     nl_AddrDel = (\<lambda>_ _ s. (None, s)), nl_LinkAdd = (\<lambda>_ s. (None, s)), nl_LinkDel = (\<lambda>_ s. (None, s)), nl_AddrList = (\<lambda>_ _. Inr []),
     nl_InterfaceAddrs = (\<lambda>_. Inr []),
     nl_Interfaces = (\<lambda>_. Inr [(''kube-ipvs0'', Inr [IPNet (Some ''10.96.0.1'')]), (''eth0'', Inr [IPNet (Some ''10.96.0.1'')])]),
     nl_IsLinkLocalUnicast = (\<lambda>_. False), nl_IsIPv6 = (\<lambda>_. False)\<rparr>"

theorem GetAllLocalAddressesExcept_exact_witness:
  "\<exists>ips. GetAllLocalAddressesExcept example_util_env (example_netlink :: (unit, unit) netlink) False ''kube-ipvs0'' () = Inr ips \<and> ''10.96.0.1'' \<in> set ips"
proof -
  have "nl_Interfaces (example_netlink :: (unit, unit) netlink) () =
    Inr [(''kube-ipvs0'', Inr [IPNet (Some ''10.96.0.1'')]), (''eth0'', Inr [IPNet (Some ''10.96.0.1'')])]" by (simp add: example_netlink_def)
  from GetAllLocalAddressesExcept_exact [OF this, of example_util_env False "''kube-ipvs0''"]
  obtain ips where i: "GetAllLocalAddressesExcept example_util_env (example_netlink :: (unit, unit) netlink) False ''kube-ipvs0'' () = Inr ips"
    by blast
  moreover have "projr (GetAllLocalAddressesExcept example_util_env (example_netlink :: (unit, unit) netlink) False ''kube-ipvs0'' ()) = [''10.96.0.1'']"
    by (simp add: GetAllLocalAddressesExcept_def example_netlink_def AddressSet_def isValidForSet_def example_util_env_def IP_String_def Addr_IP_def)
  ultimately show ?thesis by simp
qed

theorem VirtualServer_round_trip_witness:
  "\<exists>svc. toIPVSService example_util_env (Some example_vs) = Inr svc \<and>
     toVirtualServer (Some (svc\<lparr>ls_Flags := ls_Flags svc OR FlagHashed\<rparr>)) = Inr example_vs"
proof -
  let ?svc = "projr (toIPVSService example_util_env (Some example_vs))"
  have "toIPVSService example_util_env (Some example_vs) = Inr ?svc" by (simp add: toIPVSService_def Let_def)
  moreover from VirtualServer_round_trip [OF this] have "toVirtualServer (Some (?svc\<lparr>ls_Flags := ls_Flags ?svc OR FlagHashed\<rparr>)) = Inr example_vs"
    by (simp add: example_vs_def)
  ultimately show ?thesis by blast
qed

end
