(* ===== verification/Line_Buffer.thy ===== *)
theory Line_Buffer
  imports Prelude
begin

text \<open>
  The buffers in which the proxiers collect the input of other programs, \<open>wao-loadbalancer/pkg/proxy/util/linebuffer.go\<close>: the real one and
  the one that only counts. The arguments of \<open>Write\<close> are texts or lists of texts; any other argument panics.
\<close>

datatype buf_arg = ArgString string | ArgStrings "string list" | ArgOther string

record realLineBuffer =
  lb_b :: string
  lb_lines :: int

definition NewLineBuffer :: realLineBuffer where
  "NewLineBuffer = \<lparr>lb_b = [], lb_lines = 0\<rparr>"

fun joinSpace :: "string list \<Rightarrow> string" where
  "joinSpace [] = []"
| "joinSpace [s] = s"
| "joinSpace (s # ss) = s @ '' '' @ joinSpace ss"

fun writeArgs :: "bool \<Rightarrow> buf_arg list \<Rightarrow> string \<Rightarrow> string result" where
  "writeArgs first [] b = Inr b"
| "writeArgs first (arg # args) b =
     (let b = (if first then b else b @ '' '')
      in case arg of
           ArgString x \<Rightarrow> writeArgs False args (b @ x)
         | ArgStrings x \<Rightarrow> writeArgs False args (b @ joinSpace x)
         | ArgOther t \<Rightarrow> Inl (Panic (''unknown argument type: '' @ t)))"

definition lb_Write :: "buf_arg list \<Rightarrow> realLineBuffer \<Rightarrow> realLineBuffer result" where
  "lb_Write args buf =
     res_bind (writeArgs True args (lb_b buf)) (\<lambda>b. Inr (buf\<lparr>lb_b := b @ [CHR 0x0A], lb_lines := lb_lines buf + 1\<rparr>))"

definition lb_WriteBytes :: "string \<Rightarrow> realLineBuffer \<Rightarrow> realLineBuffer" where
  "lb_WriteBytes bytes buf = buf\<lparr>lb_b := lb_b buf @ bytes @ [CHR 0x0A], lb_lines := lb_lines buf + 1\<rparr>"

definition lb_Reset :: "realLineBuffer \<Rightarrow> realLineBuffer" where
  "lb_Reset buf = buf\<lparr>lb_b := [], lb_lines := 0\<rparr>"

definition lb_String :: "realLineBuffer \<Rightarrow> string" where
  "lb_String buf = lb_b buf"

definition lb_Lines :: "realLineBuffer \<Rightarrow> int" where
  "lb_Lines buf = lb_lines buf"

definition lb_MarshalLog :: "realLineBuffer \<Rightarrow> string list" where
  "lb_MarshalLog buf = split_on CHR 0x0A (lb_b buf)"

record discardLineBuffer =
  dlb_lines :: int

definition dlb_Write :: "buf_arg list \<Rightarrow> discardLineBuffer \<Rightarrow> discardLineBuffer" where
  "dlb_Write args buf = buf\<lparr>dlb_lines := dlb_lines buf + 1\<rparr>"

definition dlb_WriteBytes :: "string \<Rightarrow> discardLineBuffer \<Rightarrow> discardLineBuffer" where
  "dlb_WriteBytes bytes buf = buf\<lparr>dlb_lines := dlb_lines buf + 1\<rparr>"

definition dlb_Reset :: "discardLineBuffer \<Rightarrow> discardLineBuffer" where
  "dlb_Reset buf = buf\<lparr>dlb_lines := 0\<rparr>"

section \<open>The lines are found again\<close>

fun arg_words :: "buf_arg \<Rightarrow> string list" where
  "arg_words (ArgString x) = [x]"
| "arg_words (ArgStrings x) = (if x = [] then [[]] else x)"
| "arg_words (ArgOther t) = []"

fun is_text :: "buf_arg \<Rightarrow> bool" where
  "is_text (ArgOther t) \<longleftrightarrow> False"
| "is_text a \<longleftrightarrow> True"

lemma joinSpace_append: "xs \<noteq> [] \<Longrightarrow> ys \<noteq> [] \<Longrightarrow> joinSpace (xs @ ys) = joinSpace xs @ '' '' @ joinSpace ys"
proof (induction xs rule: joinSpace.induct)
  case (2 s)
  then show ?case by (cases ys) auto
qed auto

lemma joinSpace_words: "joinSpace (arg_words (ArgStrings x)) = joinSpace x"
  by simp

lemma arg_words_nonempty: "is_text a \<Longrightarrow> arg_words a \<noteq> []"
  by (cases a) auto

text \<open>The line is its words with one space between any two of them; an empty list of words counts as one empty word.\<close>

lemma writeArgs_words:
  "list_all is_text args \<Longrightarrow> writeArgs first args b =
     Inr (b @ (if args = [] then [] else (if first then [] else '' '') @ joinSpace (concat (map arg_words args))))"
proof (induction args arbitrary: first b)
  case (Cons a args)
  then have t: "is_text a" "list_all is_text args" by simp_all
  have "writeArgs first (a # args) b = writeArgs False args ((if first then b else b @ '' '') @ joinSpace (arg_words a))"
    using t(1) by (cases a) (simp_all add: Let_def)
  moreover have "concat (map arg_words args) \<noteq> []" if "args \<noteq> []"
    using that t(2) arg_words_nonempty by (cases args) auto
  ultimately show ?case using Cons.IH [OF t(2)] joinSpace_append [OF arg_words_nonempty [OF t(1)], of "concat (map arg_words args)"] by simp
qed simp

fun writeAll :: "buf_arg list list \<Rightarrow> realLineBuffer \<Rightarrow> realLineBuffer result" where
  "writeAll [] buf = Inr buf"
| "writeAll (args # rest) buf = res_bind (lb_Write args buf) (writeAll rest)"

definition line_of :: "buf_arg list \<Rightarrow> string" where
  "line_of args = joinSpace (concat (map arg_words args))"

lemma lb_Write_line: "list_all is_text args \<Longrightarrow>
    lb_Write args buf = Inr (buf\<lparr>lb_b := lb_b buf @ line_of args @ [CHR 0x0A], lb_lines := lb_lines buf + 1\<rparr>)"
  by (auto simp: lb_Write_def writeArgs_words line_of_def res_bind_def)

lemma writeAll_lines:
  "list_all (list_all is_text) ls \<Longrightarrow> writeAll ls buf =
     Inr (buf\<lparr>lb_b := lb_b buf @ concat (map (\<lambda>l. line_of l @ [CHR 0x0A]) ls), lb_lines := lb_lines buf + int (length ls)\<rparr>)"
  by (induction ls arbitrary: buf) (simp_all add: lb_Write_line res_bind_def)

lemma split_lines: "\<forall>l\<in>set ls. CHR 0x0A \<notin> set (line_of l) \<Longrightarrow>
    split_on CHR 0x0A (concat (map (\<lambda>l. line_of l @ [CHR 0x0A]) ls)) = map line_of ls @ [[]]"
  by (induction ls) (auto simp: split_on_append)

text \<open>
  Writing texts never panics, and the lines that are logged are the lines that were written, one for every call, when no text holds a line
  break; their number is what \<open>Lines\<close> returns.
\<close>

theorem lines_round_trip:
  assumes "list_all (list_all is_text) ls" "\<forall>l\<in>set ls. CHR 0x0A \<notin> set (line_of l)"
  shows "\<exists>buf. writeAll ls NewLineBuffer = Inr buf \<and> lb_MarshalLog buf = map line_of ls @ [[]] \<and> lb_Lines buf = int (length ls)"
  using assms by (simp add: writeAll_lines NewLineBuffer_def lb_MarshalLog_def lb_Lines_def split_lines)

theorem lines_round_trip_witness:
  "\<exists>buf. writeAll [[ArgString ''-A'', ArgStrings [''KUBE-SERVICES'', ''-j'']]] NewLineBuffer = Inr buf \<and> lb_Lines buf = 1"
proof -
  have "list_all (list_all is_text) [[ArgString ''-A'', ArgStrings [''KUBE-SERVICES'', ''-j'']]]" by simp
  moreover have "\<forall>l\<in>set [[ArgString ''-A'', ArgStrings [''KUBE-SERVICES'', ''-j'']]]. CHR 0x0A \<notin> set (line_of l)"
    by (simp add: line_of_def)
  ultimately show ?thesis using lines_round_trip [of "[[ArgString ''-A'', ArgStrings [''KUBE-SERVICES'', ''-j'']]]"] by auto
qed

end
