(* ===== verification/Spec2Isabelle.thy ===== *)
theory Spec2Isabelle
  imports Minimize_Power Pod_Spread Template_Controller Adapter_Controller Metrics_Provider Cache_Race
    Nft_Chains Health_Check Event_Dispatch Proxy_Server Ip_Sets Ipvs_Handle Line_Buffer
begin

text \<open>
  \<^bold>\<open>A verification development for WAO for Kubernetes.\<close>

  \<^bold>\<open>The program.\<close> WAO places pods and balances load so that a cluster uses less power. It has four parts.

  \<^item> \<open>wao-core\<close>: the custom resources \<open>NodeConfig\<close>, which says where the sensors and the power model of a node are, and
    \<open>NodeConfigTemplate\<close>, and the controller that renders the first from the second for every selected node.
  \<^item> \<open>wao-metrics-adapter\<close>: the controller of \<open>NodeConfig\<close> starts an agent per sensor (redfish, differential pressure), the
    collector runs the agents and writes a store, and the provider serves the store as custom metrics. The predictors ask a model
    server for the watts of a node; the caching clients of both are used by the other parts.
  \<^item> \<open>wao-scheduler\<close>: the plugin \<open>MinimizePower\<close> scores a node by the watts a pod adds there, the plugin \<open>PodSpread\<close> spreads the
    pods of a ReplicaSet over the nodes.
  \<^item> \<open>wao-loadbalancer\<close>: a kube-proxy whose nftables mode weighs the endpoints of a service with scores of the same predictions.
    Options and configuration lead to the server, the server to a dual-stack proxier, the informers' callbacks through the event dispatch
    to its two nftables proxiers, and each of them through the trackers of services and endpoints to the rules of the kernel, the health
    checks and the clean-up of conntrack.

  \<^bold>\<open>Theories and sources\<close> (paths under \<open>src/\<close>).

  \<^item> \<open>Prelude\<close>: 64-bit integers, errors, calls with state, Go maps and text functions that the others share. \<open>Float64\<close>: Go's floating
    point numbers as the rationals they denote, with rounding to nearest even. \<open>Kube_Objects\<close>: the API objects with the fields the code reads.
  \<^item> \<open>Minimize_Power\<close>, \<open>Pod_Spread\<close>: \<open>wao-scheduler/pkg/plugins/{minimizepower,podspread}\<close>; one definition for each method
    (\<open>getArgs\<close>, \<open>Score\<close>, \<open>NormalizeScore\<close>, \<open>updateSchedulingSession\<close>, \<open>getAllocatableNodes\<close>, \<open>PreFilter\<close>).
  \<^item> \<open>Node_Config\<close>, \<open>Template_Controller\<close>: \<open>wao-core/api/node/v1beta1\<close> and \<open>wao-core/internal/controller/node\<close>.
  \<^item> \<open>Metric_Collector\<close>, \<open>Http_Agents\<close>, \<open>Predictors\<close>, \<open>Cached_Clients\<close>, \<open>Cache_Race\<close>, \<open>Metrics_Provider\<close>, \<open>Adapter_Controller\<close>:
    the packages \<open>metrics\<close>, \<open>predictor\<close>, \<open>client\<close>, \<open>provider\<close> and \<open>controller\<close> of \<open>wao-metrics-adapter/pkg\<close>. \<open>Cache_Race\<close> is the lock protocol of
    a cache entry as a step relation with any number of callers.
  \<^item> \<open>WAO_Score\<close>: \<open>wao-loadbalancer/pkg/proxy/nftables/wao.go\<close>, from the metrics of the nodes to the table of scores.
  \<^item> \<open>Proxy_Types\<close>, \<open>Proxy_Util\<close>, \<open>Service_Ports\<close>, \<open>Service_Tracker\<close>, \<open>Endpoint_Slices\<close>, \<open>Endpoints_Tracker\<close>, \<open>Topology\<close>,
    \<open>Conntrack\<close>: the files of these names in \<open>wao-loadbalancer/pkg/proxy\<close>. A tracker is a record with the pending changes; its \<open>Update\<close>
    merges them into the table.
  \<^item> \<open>Nft_Rules\<close>, \<open>Nft_Storage\<close>, \<open>Nft_Setup\<close>, \<open>Nft_Sync\<close>: \<open>nftables/proxier.go\<close>, with \<open>syncProxyRules\<close> as one definition over the state
    of the proxier, the transaction it builds and the answers of the kernel. \<open>Nft_Total\<close>, \<open>Nft_Exact\<close>, \<open>Nft_Reach\<close>, \<open>Nft_Chains\<close> and
    \<open>Nft_Correct\<close> are the proofs about it.
  \<^item> \<open>Meta_Proxier\<close>, \<open>Health_Check\<close>, \<open>Event_Dispatch\<close>: \<open>metaproxier/meta_proxier.go\<close>, \<open>healthcheck/\<close> with \<open>node.go\<close>, and \<open>config/config.go\<close>.
  \<^item> \<open>Proxy_Config\<close>, \<open>Conntrack_Setup\<close>, \<open>Proxy_Server\<close>: \<open>apis/config\<close> (types, defaults, conversion, validation) and
    \<open>wao-loadbalancer/cmd/kube-proxy/app\<close> (options, \<open>newProxyServer\<close> and what it calls, the setup of conntrack).
  \<^item> \<open>Graceful_Termination\<close>, \<open>Ip_Sets\<close>, \<open>Ipvs_Handle\<close>, \<open>Line_Buffer\<close>: \<open>ipvs/graceful_termination.go\<close>, \<open>ipvs/ipset.go\<close> with
    \<open>ipvs/ipset\<close>, \<open>ipvs/util\<close> with \<open>ipvs/netlink_linux.go\<close>, and \<open>util/linebuffer.go\<close>.

  \<^bold>\<open>How code becomes definitions.\<close> A struct is a record, an error is the left side of a sum (\<open>goerr\<close>, in which a panic is an
  error of its own), a method with effects is a function from a state to a result and a new state. \<open>int64\<close> is \<open>int\<close> with the wrap-around of
  \<open>i64_add\<close> and its like written at every operation. A Go map is an association list without repeated keys; where the code ranges over a map,
  the order is a parameter and the theorems hold for every order. The API server, HTTP, the template engine, \<open>knftables\<close>, \<open>ipset\<close>, netlink, the address parser,
  the clock and random numbers are parameters, with what is relied on stated as hypotheses that a witness meets. The clients of the scheduler plugin and of the
  load balancer are parameters of \<open>Score\<close> about which nothing is assumed: where they panic or return a nil pointer without an error, which the caching client does
  when calls overlap (\<open>Cache_Race\<close>), so does the model. The workers that score the services in parallel run one after the other in any order, and a
  parameter says which of their writes to the shared map collide; a collision ends the process, as the Go runtime ends it. Logs and metrics
  are left out, and so are locks outside \<open>Cache_Race\<close> and \<open>Metric_Collector\<close>: the claims on the caching clients in \<open>Cached_Clients\<close> are for calls that do not overlap. All definitions are total without fuel: loops run over lists. The
  one loop with retries, \<open>getNodeIPs\<close> of the server, makes six attempts as the code does.

  \<^bold>\<open>What is proved.\<close>

  \<^item> \<^emph>\<open>The nftables proxier.\<close> Every synchronisation returns, or ends the process by a fault of the scoring (a panic or nil metrics of
    a client, or colliding writes of its workers), and by nothing else; one that the kernel accepts leaves in the sets and maps exactly the elements
    that the services and slices reported last ask for, whatever failed before; every verdict points to a chain that exists, and
    it is shown when exactly a chain that is no longer used is deleted. The weighted rule picks each endpoint with the frequency of its score. The dual-stack proxier
    gives the same guarantee for both families, and a server built from options that were accepted keeps it.
  \<^item> \<^emph>\<open>Its inputs.\<close> The event dispatch follows the informer's store, tombstones included, up to the table of ports and the kernel; the tables of the trackers equal what the
    objects reported last translate to; categorised endpoints are sound; UDP entries of conntrack that are stale are cleaned; the
    element storage and the copies of the kernel's contents agree.
  \<^item> \<^emph>\<open>Health.\<close> The ports that listen are those of the services, each answers with its number of local endpoints (or panics on a node without a health server), and the state of
    the proxiers is a function of the history of updates.
  \<^item> \<^emph>\<open>Start.\<close> The validation accepts exactly the configurations of a written predicate, defaults are valid, conversions round-trip,
    the addresses of the node follow the documented precedence, conntrack is set as configured, also where the file system is read-only.
  \<^item> \<^emph>\<open>Scores.\<close> Normalised scores stay in their range, less power gives a score that is not lower, the optimised normalisation equals
    its reference, and the plugin's scoring turns every error into a score; the load balancer's scores are the nearest integers to the shares they stand for; \<open>PodSpread\<close> keeps its counts exact, offers the least loaded nodes and spreads evenly over nodes in that mode.
  \<^item> \<^emph>\<open>Metrics.\<close> A cached answer is fresh, overlapping callers of a cache never see a missing value unless a call failed, the collector never panics, and
    what the provider serves is what the runner of the node wrote. Reconciling a deleted \<open>NodeConfig\<close> stops its agents.
  \<^item> \<^emph>\<open>The ipvs mode.\<close> Graceful deletion cuts no connection of a protocol that waits for them and drained servers go at the next check; the
    kernel's ip sets become the wanted ones as far as the tool accepts them; entries are printed injectively; servers survive the way through the kernel.

  \<^bold>\<open>Interfaces.\<close> \<open>kv_store\<close> (store of metrics), \<open>ttl_cache\<close> (both caches), \<open>rounding\<close> (both floating point formats), \<open>container_op\<close>
  (what a step of a synchronisation may do to the containers), \<open>provider\<close> (what an implementation of \<open>proxy.Provider\<close> promises, and with which faults it may end instead) and
  \<open>dual_provider\<close>, which is a \<open>provider\<close> again, are locales; each is interpreted on the definitions of the model.

  \<^bold>\<open>Not modelled.\<close> The main loops of the iptables, ipvs and Windows proxiers, which are those of Kubernetes unchanged and have no part in
  WAO; the copies under \<open>_src\<close>, which equal files that are modelled; the flags, HTTP servers, file watcher and informer wiring of the server; entry
  points; Prometheus metrics; generated code other than the conversions of the configuration. The bounded frequency runner only decides
  when a synchronisation starts, so the theorems are over every sequence of events and synchronisations instead.
\<close>

end
